(* ===== verification/Bridge_Prelude.thy ===== *)
theory Bridge_Prelude
  imports Complex_Main "HOL-Library.List_Lexorder" "HOL-Library.Char_ord" "HOL-Library.Sublist"
begin

text \<open>
  Shared vocabulary of the bridge development: the machine-integer conventions of the Go sources,
  the few functions of the Go standard library the modelled code calls, generic facts on lists and
  maps, and the two interfaces (locales) that every stateful component is proved against: a step
  system with an invariant and a step system with a non-decreasing measure.

  Conventions. Go's \<^verbatim>\<open>string\<close> is a byte sequence, here \<^typ>\<open>string\<close>; its comparison
  \<^verbatim>\<open><\<close> is bytewise, here the lexicographic order of \<^verbatim>\<open>List_Lexorder\<close> over
  \<^verbatim>\<open>Char_ord\<close>. A \<^verbatim>\<open>uint64\<close> is a \<^typ>\<open>nat\<close> whose increment is written with its
  wrap-around (\<open>u64_succ\<close>). An \<^verbatim>\<open>int64\<close> time stamp is an \<^typ>\<open>int\<close>, a
  \<^verbatim>\<open>float64\<close> number of seconds a \<^typ>\<open>real\<close>.
\<close>

section \<open>Collections of facts\<close>

named_theorems step_defs \<open>definitions of the operations that a step relation unfolds\<close>
named_theorems inv_intros \<open>one preservation lemma per operation\<close>

section \<open>Machine integers\<close>

type_synonym u64 = nat

text \<open>Go's \<^verbatim>\<open>x++\<close> on a \<^verbatim>\<open>uint64\<close>.\<close>

definition u64_succ :: "u64 \<Rightarrow> u64" where
  "u64_succ n = (n + 1) mod 2 ^ 64"

text \<open>The range of a \<^verbatim>\<open>uint64\<close> whose next increment does not wrap.\<close>

definition u64_room :: "u64 \<Rightarrow> bool" where
  "u64_room n \<longleftrightarrow> n + 1 < 2 ^ 64"

lemma u64_succ_room: "u64_room n \<Longrightarrow> u64_succ n = Suc n"
  by (simp add: u64_succ_def u64_room_def)

lemma u64_succ_bound: "u64_succ n < 2 ^ 64"
  by (simp add: u64_succ_def)

lemma u64_succ_wraps: "u64_succ (2 ^ 64 - 1) = 0"
  by (simp add: u64_succ_def)

section \<open>Strings\<close>

text \<open>
  \<^verbatim>\<open>strings.HasPrefix\<close>, and \<^verbatim>\<open>strings.TrimSpace\<close> on UTF-8: a leading or trailing
  white-space rune is removed as long as there is one. The list holds the encodings of the runes
  with Unicode's White_Space property.
\<close>

definition has_prefix :: "string \<Rightarrow> string \<Rightarrow> bool" where
  "has_prefix s p \<longleftrightarrow> take (length p) s = p"

definition utf8 :: "nat list \<Rightarrow> string" where
  "utf8 bs = map char_of bs"

definition space_runes :: "string list" where
  "space_runes =
     map (\<lambda>b. utf8 [b]) [9, 10, 11, 12, 13, 32] @
     map utf8 [[194, 133], [194, 160], [225, 154, 128]] @
     map (\<lambda>b. utf8 [226, 128, b]) ([128..<139] @ [168, 169, 175]) @
     map utf8 [[226, 129, 159], [227, 128, 128]]"

fun trim_prefixes :: "string list \<Rightarrow> string \<Rightarrow> nat \<Rightarrow> string" where
  "trim_prefixes ps s 0 = s"
| "trim_prefixes ps s (Suc fuel) =
     (case find (\<lambda>p. has_prefix s p) ps of
        None \<Rightarrow> s
      | Some p \<Rightarrow> trim_prefixes ps (drop (length p) s) fuel)"

text \<open>
  The fuel is the length of the string: every rune in the list takes at least one byte, so this many
  rounds always reach the first byte that is not white space (\<open>trim_prefixes_done\<close>).
\<close>

definition trim_space :: "string \<Rightarrow> string" where
  "trim_space s =
     (let l = trim_prefixes space_runes s (length s)
      in rev (trim_prefixes (map rev space_runes) (rev l) (length l)))"

text \<open>
  \<^verbatim>\<open>strings.ToLower\<close> as far as a comparison with ASCII text can tell: besides the ASCII
  letters two runes have an ASCII lower case, U+0130 and the Kelvin sign U+212A.
\<close>

fun to_lower :: "string \<Rightarrow> string" where
  "to_lower [] = []"
| "to_lower (c # s) =
     (if has_prefix (c # s) (utf8 [196, 176]) then CHR ''i'' # to_lower (drop 1 s)
      else if has_prefix (c # s) (utf8 [226, 132, 170]) then CHR ''k'' # to_lower (drop 2 s)
      else (if 65 \<le> (of_char c :: nat) \<and> (of_char c :: nat) \<le> 90 then char_of ((of_char c :: nat) + 32) else c)
           # to_lower s)"

text \<open>\<^verbatim>\<open>strings.Contains\<close>\<close>

fun contains_text :: "string \<Rightarrow> string \<Rightarrow> bool" where
  "contains_text [] part = (part = [])"
| "contains_text (c # s) part = (has_prefix (c # s) part \<or> contains_text s part)"

lemma has_prefix_iff: "has_prefix s p \<longleftrightarrow> prefix p s"
  by (metis append_eq_conv_conj has_prefix_def prefix_def)

lemma contains_text_iff: "contains_text s part \<longleftrightarrow> sublist part s"
  by (induction s) (auto simp: has_prefix_iff sublist_Cons_right)

lemma trim_prefixes_suffix: "suffix (trim_prefixes ps s n) s"
proof (induction n arbitrary: s)
  case 0
  show ?case by simp
next
  case (Suc n)
  show ?case
  proof (cases "find (\<lambda>p. has_prefix s p) ps")
    case (Some p)
    have "suffix (trim_prefixes ps (drop (length p) s) n) (drop (length p) s)" by (rule Suc)
    then show ?thesis using Some suffix_drop suffix_order.trans by fastforce
  qed simp
qed

lemma trim_prefixes_done:
  assumes "[] \<notin> set ps" and "length s \<le> n"
  shows "find (\<lambda>p. has_prefix (trim_prefixes ps s n) p) ps = None"
  using assms(2)
proof (induction n arbitrary: s)
  case 0
  with assms(1) show ?case
    by (auto simp: find_None_iff has_prefix_def)
next
  case (Suc n)
  show ?case
  proof (cases "find (\<lambda>p. has_prefix s p) ps")
    case (Some p)
    then have "p \<in> set ps" by (auto simp: find_Some_iff)
    with assms(1) have "length p > 0" by auto
    with Suc.prems have "length (drop (length p) s) \<le> n" unfolding length_drop by linarith
    then show ?thesis using Some Suc.IH by simp
  qed simp
qed

lemma space_runes_nonempty: "[] \<notin> set space_runes"
  by (simp add: space_runes_def utf8_def)

lemma trim_prefixes_id:
  "find (\<lambda>p. has_prefix s p) ps = None \<Longrightarrow> trim_prefixes ps s n = s"
  by (cases n) simp_all

lemma trim_space_Nil [simp]: "trim_space [] = []"
  by (simp add: trim_space_def)

text \<open>Trimming is idempotent.\<close>

lemma no_space_prefix:
  "find (\<lambda>p. has_prefix s p) ps = None \<Longrightarrow> prefix t s \<Longrightarrow> find (\<lambda>p. has_prefix t p) ps = None"
  by (auto simp: find_None_iff has_prefix_iff intro: prefix_order.trans)

lemma trim_space_idem [simp]: "trim_space (trim_space s) = trim_space s"
proof -
  let ?l = "trim_prefixes space_runes s (length s)"
  let ?r = "trim_prefixes (map rev space_runes) (rev ?l) (length ?l)"
  have l: "find (\<lambda>p. has_prefix ?l p) space_runes = None"
    by (rule trim_prefixes_done) (simp_all add: space_runes_nonempty)
  have "prefix (rev ?r) ?l"
    using trim_prefixes_suffix [of "map rev space_runes" "rev ?l" "length ?l"]
    by (simp add: suffix_to_prefix)
  then have a: "trim_prefixes space_runes (rev ?r) n = rev ?r" for n
    using l no_space_prefix trim_prefixes_id by blast
  have "find (\<lambda>p. has_prefix ?r p) (map rev space_runes) = None"
    by (rule trim_prefixes_done) (auto simp: space_runes_nonempty)
  then have b: "trim_prefixes (map rev space_runes) ?r n = ?r" for n
    by (rule trim_prefixes_id)
  show ?thesis unfolding trim_space_def Let_def by (simp add: a b)
qed

text \<open>To evaluate \<open>trim_space\<close> on a literal.\<close>

lemmas trim_eval = trim_space_def space_runes_def has_prefix_def utf8_def upt_rec char_of_def

section \<open>Lists\<close>

text \<open>Remove the first entry that satisfies a predicate, as a loop with an early exit does.\<close>

fun remove_first :: "('a \<Rightarrow> bool) \<Rightarrow> 'a list \<Rightarrow> 'a list" where
  "remove_first p [] = []"
| "remove_first p (x # xs) = (if p x then xs else x # remove_first p xs)"

text \<open>Remove the last entry that satisfies a predicate: a loop that scans from the end.\<close>

definition remove_last :: "('a \<Rightarrow> bool) \<Rightarrow> 'a list \<Rightarrow> 'a list" where
  "remove_last p xs = rev (remove_first p (rev xs))"

definition find_last :: "('a \<Rightarrow> bool) \<Rightarrow> 'a list \<Rightarrow> 'a option" where
  "find_last p xs = find p (rev xs)"

lemma set_remove_first: "set (remove_first p xs) \<subseteq> set xs"
  by (induction xs) auto

lemma length_remove_first: "length (remove_first p xs) \<le> length xs"
  by (induction xs) auto

lemma length_remove_first_found:
  "\<exists>x\<in>set xs. p x \<Longrightarrow> Suc (length (remove_first p xs)) = length xs"
  by (induction xs) auto

lemma remove_first_id: "\<forall>x\<in>set xs. \<not> p x \<Longrightarrow> remove_first p xs = xs"
  by (induction xs) auto

lemma distinct_remove_first: "distinct xs \<Longrightarrow> distinct (remove_first p xs)"
  by (induction xs) (use set_remove_first in fastforce)+

lemma set_remove_first_eq:
  "distinct xs \<Longrightarrow> set (remove_first (\<lambda>y. y = x) xs) = set xs - {x}"
  by (induction xs) auto

lemma remove_first_keeps: "x \<in> set xs \<Longrightarrow> \<not> p x \<Longrightarrow> x \<in> set (remove_first p xs)"
  by (induction xs) auto

lemma filter_remove_first:
  "(\<And>x. p x \<Longrightarrow> \<not> q x) \<Longrightarrow> filter q (remove_first p xs) = filter q xs"
  by (induction xs) auto

lemma remove_first_at_most_one:
  "length (filter p (remove_first p xs)) = length (filter p xs) - 1"
  by (induction xs) auto

lemma set_remove_last: "set (remove_last p xs) \<subseteq> set xs"
  using set_remove_first [of p "rev xs"] by (simp add: remove_last_def)

lemma length_remove_last: "length (remove_last p xs) \<le> length xs"
  using length_remove_first [of p "rev xs"] by (simp add: remove_last_def)

lemma filter_remove_last:
  "(\<And>x. p x \<Longrightarrow> \<not> q x) \<Longrightarrow> filter q (remove_last p xs) = filter q xs"
  by (simp add: remove_last_def filter_remove_first rev_filter [symmetric])

lemma remove_last_at_most_one:
  "length (filter p (remove_last p xs)) = length (filter p xs) - 1"
  by (simp add: remove_last_def remove_first_at_most_one rev_filter [symmetric])

lemma remove_last_id: "\<forall>x\<in>set xs. \<not> p x \<Longrightarrow> remove_last p xs = xs"
  by (simp add: remove_last_def remove_first_id)

lemma find_last_Some: "find_last p xs = Some x \<Longrightarrow> x \<in> set xs \<and> p x"
  by (auto simp: find_last_def find_Some_iff) (metis length_rev nth_mem set_rev)

lemma find_last_None: "find_last p xs = None \<longleftrightarrow> (\<forall>x\<in>set xs. \<not> p x)"
  by (auto simp: find_last_def find_None_iff)

text \<open>Keep the newest \<open>n\<close> entries of a log.\<close>

definition keep_newest :: "nat \<Rightarrow> 'a list \<Rightarrow> 'a list" where
  "keep_newest n xs = drop (length xs - n) xs"

lemma length_keep_newest: "length (keep_newest n xs) = min n (length xs)"
  by (auto simp: keep_newest_def)

lemma suffix_keep_newest: "suffix (keep_newest n xs) xs"
  by (simp add: keep_newest_def suffix_drop)

lemma keep_newest_all: "length xs \<le> n \<Longrightarrow> keep_newest n xs = xs"
  by (simp add: keep_newest_def)

lemma last_keep_newest: "0 < n \<Longrightarrow> xs \<noteq> [] \<Longrightarrow> last (keep_newest n xs) = last xs"
  by (simp add: keep_newest_def)

lemma set_keep_newest: "set (keep_newest n xs) \<subseteq> set xs"
  by (simp add: keep_newest_def set_drop_subset)

section \<open>Interfaces: step systems\<close>

text \<open>
  Every stateful component is a set of initial states and a step relation, one step per critical
  section of the code. The component provides that its invariant holds initially and survives each
  step; what holds in every reachable state is then proved once, here.
\<close>

locale step_system =
  fixes start :: "'s \<Rightarrow> bool"
    and step :: "'s \<Rightarrow> 's \<Rightarrow> bool"
    and good :: "'s \<Rightarrow> bool"
  assumes start_good: "start s \<Longrightarrow> good s"
    and step_good: "step s t \<Longrightarrow> good s \<Longrightarrow> good t"
begin

lemma steps_good: "step\<^sup>*\<^sup>* s t \<Longrightarrow> good s \<Longrightarrow> good t"
  by (induction rule: rtranclp_induct) (auto intro: step_good)

lemma reachable_good: "start s \<Longrightarrow> step\<^sup>*\<^sup>* s t \<Longrightarrow> good t"
  by (rule steps_good) (auto intro: start_good)

end

text \<open>
  A component whose revision (or cursor, or clock) never goes back: along every execution the
  measure is ordered.
\<close>

locale monotone_system =
  fixes mstep :: "'s \<Rightarrow> 's \<Rightarrow> bool"
    and level :: "'s \<Rightarrow> 'm::order"
  assumes step_level: "mstep s t \<Longrightarrow> level s \<le> level t"
begin

lemma steps_level: "mstep\<^sup>*\<^sup>* s t \<Longrightarrow> level s \<le> level t"
  by (induction rule: rtranclp_induct) (auto dest: step_level intro: order.trans)

lemma level_between: "mstep\<^sup>*\<^sup>* s t \<Longrightarrow> mstep\<^sup>*\<^sup>* t u \<Longrightarrow> level s = level u \<Longrightarrow> level t = level s"
  by (metis order.antisym steps_level)

end

text \<open>
  A component that implements an abstract machine: each operation, seen through the abstraction, is
  the operation of the specification. Then so is every sequence of operations.
\<close>

locale refinement =
  fixes abstraction :: "'c \<Rightarrow> 'a"
    and run :: "'op \<Rightarrow> 'c \<Rightarrow> 'c"
    and spec :: "'op \<Rightarrow> 'a \<Rightarrow> 'a"
  assumes simulates: "abstraction (run a c) = spec a (abstraction c)"
begin

lemma runs_refine: "abstraction (fold run as c) = fold spec as (abstraction c)"
  by (induction as arbitrary: c) (simp_all add: simulates)

end

end
