(* ===== verification/Json_Values.thy ===== *)
theory Json_Values
  imports Bridge_Prelude
begin

text \<open>
  What the bridge uses of \<^verbatim>\<open>encoding/json\<close>: documents as values, the encoder for the field
  types the stores write and the decoder for the field types they read.

  A number keeps its literal form, because \<^verbatim>\<open>Unmarshal\<close> into an \<^verbatim>\<open>int64\<close> refuses a
  literal with a fraction or an exponent: \<open>JInt\<close> is a literal without them, \<open>JFrac\<close> one with
  them. A string holds the decoded bytes. The encoder replaces every byte that is not part of a
  valid UTF-8 encoding by U+FFFD (\<open>utf8_valid\<close>, \<open>utf8_fix\<close>). Decoding an
  absent value (an empty \<^verbatim>\<open>RawMessage\<close>) is a syntax error; decoding \<^verbatim>\<open>null\<close> leaves
  the zero value and is none.
\<close>

section \<open>UTF-8\<close>

text \<open>The number of bytes of the rune at the head of a byte sequence; 0 when there is none.\<close>

definition between :: "nat \<Rightarrow> nat \<Rightarrow> nat \<Rightarrow> bool" where
  "between lo hi b \<longleftrightarrow> lo \<le> b \<and> b \<le> hi"

definition second_range :: "nat \<Rightarrow> nat \<Rightarrow> bool" where
  "second_range a b \<longleftrightarrow>
     between (if a = 224 then 160 else if a = 240 then 144 else 128)
             (if a = 237 then 159 else if a = 244 then 143 else 191) b"

definition rune_bytes :: "nat list \<Rightarrow> nat" where
  "rune_bytes bs =
     (case bs of
        [] \<Rightarrow> 0
      | a # r \<Rightarrow>
          if a < 128 then 1
          else if between 194 223 a \<and> 1 \<le> length r \<and> between 128 191 (r ! 0) then 2
          else if between 224 239 a \<and> 2 \<le> length r \<and> second_range a (r ! 0)
                  \<and> between 128 191 (r ! 1) then 3
          else if between 240 244 a \<and> 3 \<le> length r \<and> second_range a (r ! 0)
                  \<and> between 128 191 (r ! 1) \<and> between 128 191 (r ! 2) then 4
          else 0)"

definition rune_len :: "string \<Rightarrow> nat" where
  "rune_len s = rune_bytes (map of_char s)"

definition rune_error :: string where
  "rune_error = utf8 [239, 191, 189]"

lemma rune_len_bound: "rune_len s \<le> length s"
  by (auto simp: rune_len_def rune_bytes_def split: list.splits)

lemma rune_len_Nil [simp]: "rune_len [] = 0"
  by (simp add: rune_len_def rune_bytes_def)

function utf8_fix :: "string \<Rightarrow> string" where
  "utf8_fix s =
     (if s = [] then []
      else if rune_len s = 0 then rune_error @ utf8_fix (tl s)
      else take (rune_len s) s @ utf8_fix (drop (rune_len s) s))"
  by pat_completeness auto
termination by (relation "measure length") auto

function utf8_valid :: "string \<Rightarrow> bool" where
  "utf8_valid s =
     (if s = [] then True
      else if rune_len s = 0 then False
      else utf8_valid (drop (rune_len s) s))"
  by pat_completeness auto
termination by (relation "measure length") auto

declare utf8_fix.simps [simp del] utf8_valid.simps [simp del]

lemma utf8_fix_valid: "utf8_valid s \<Longrightarrow> utf8_fix s = s"
proof (induction s rule: utf8_fix.induct)
  case (1 s)
  show ?case
  proof (cases "s = []")
    case False
    with 1(3) have "rune_len s \<noteq> 0" "utf8_valid (drop (rune_len s) s)"
      by (simp_all add: utf8_valid.simps [of s] split: if_splits)
    with False 1(2) show ?thesis by (simp add: utf8_fix.simps [of s])
  qed (simp add: utf8_fix.simps)
qed

lemma utf8_fix_Nil [simp]: "utf8_fix [] = []"
  by (simp add: utf8_fix.simps)

lemma utf8_fix_eq_Nil: "utf8_fix s = [] \<longleftrightarrow> s = []"
  by (subst utf8_fix.simps) (simp add: rune_error_def utf8_def)

section \<open>Values\<close>

datatype json =
    JNull
  | JBool bool
  | JInt int
  | JFrac real
  | JStr string
  | JArr "json list"
  | JObj "(string \<times> json) list"

definition int64_range :: "int \<Rightarrow> bool" where
  "int64_range i \<longleftrightarrow> - (2 ^ 63) \<le> i \<and> i < 2 ^ 63"

text \<open>
  Go's conversion \<^verbatim>\<open>int64(f)\<close> truncates towards zero; out of range the result depends on the
  machine; the model takes the one of amd64, the smallest integer.
\<close>

definition truncate :: "real \<Rightarrow> int" where
  "truncate x = (if 0 \<le> x then \<lfloor>x\<rfloor> else \<lceil>x\<rceil>)"

definition int64_of_float :: "real \<Rightarrow> int" where
  "int64_of_float x = (if int64_range (truncate x) then truncate x else - (2 ^ 63))"

definition uint64_of_int64 :: "int \<Rightarrow> u64" where
  "uint64_of_int64 i = nat (i mod 2 ^ 64)"

section \<open>Encoding\<close>

definition json_string :: "string \<Rightarrow> json" where
  "json_string s = JStr (utf8_fix s)"

definition json_int :: "int \<Rightarrow> json" where
  "json_int i = JInt i"

text \<open>A whole \<^verbatim>\<open>float64\<close> below \<^verbatim>\<open>1e21\<close> is written without a fraction or exponent.\<close>

definition json_float :: "real \<Rightarrow> json" where
  "json_float x =
     (if real_of_int \<lfloor>x\<rfloor> = x \<and> \<bar>x\<bar> < 10 ^ 21 then JInt \<lfloor>x\<rfloor> else JFrac x)"

definition json_strings :: "string list \<Rightarrow> json" where
  "json_strings xs = JArr (map json_string xs)"

section \<open>Decoding\<close>

text \<open>\<^verbatim>\<open>Unmarshal\<close> into a variable of each type; \<^term>\<open>None\<close> is an error.\<close>

definition to_string :: "json option \<Rightarrow> string option" where
  "to_string v = (case v of Some (JStr s) \<Rightarrow> Some s | Some JNull \<Rightarrow> Some [] | _ \<Rightarrow> None)"

definition to_int64 :: "json option \<Rightarrow> int option" where
  "to_int64 v =
     (case v of
        Some (JInt i) \<Rightarrow> if int64_range i then Some i else None
      | Some JNull \<Rightarrow> Some 0
      | _ \<Rightarrow> None)"

definition to_float64 :: "json option \<Rightarrow> real option" where
  "to_float64 v =
     (case v of
        Some (JInt i) \<Rightarrow> Some (real_of_int i)
      | Some (JFrac x) \<Rightarrow> Some x
      | Some JNull \<Rightarrow> Some 0
      | _ \<Rightarrow> None)"

definition to_bool :: "json option \<Rightarrow> bool option" where
  "to_bool v = (case v of Some (JBool b) \<Rightarrow> Some b | Some JNull \<Rightarrow> Some False | _ \<Rightarrow> None)"

fun to_string_list :: "json list \<Rightarrow> string list option" where
  "to_string_list [] = Some []"
| "to_string_list (v # vs) =
     (case (to_string (Some v), to_string_list vs) of
        (Some s, Some ss) \<Rightarrow> Some (s # ss)
      | _ \<Rightarrow> None)"

definition to_strings :: "json option \<Rightarrow> string list option" where
  "to_strings v =
     (case v of Some (JArr vs) \<Rightarrow> to_string_list vs | Some JNull \<Rightarrow> Some [] | _ \<Rightarrow> None)"

section \<open>Decoding inverts encoding\<close>

lemma to_string_json [simp]: "to_string (Some (json_string s)) = Some (utf8_fix s)"
  by (simp add: to_string_def json_string_def)

lemma to_int64_json [simp]: "int64_range i \<Longrightarrow> to_int64 (Some (json_int i)) = Some i"
  by (simp add: to_int64_def json_int_def)

lemma to_float64_json [simp]: "to_float64 (Some (json_float x)) = Some x"
  by (simp add: to_float64_def json_float_def)

lemma to_bool_json [simp]: "to_bool (Some (JBool b)) = Some b"
  by (simp add: to_bool_def)

lemma to_string_list_json: "to_string_list (map json_string xs) = Some (map utf8_fix xs)"
  by (induction xs) simp_all

lemma to_strings_json [simp]: "to_strings (Some (json_strings xs)) = Some (map utf8_fix xs)"
  by (simp add: to_strings_def json_strings_def to_string_list_json)

lemma missing_field [simp]:
  "to_string None = None" "to_int64 None = None" "to_float64 None = None" "to_bool None = None"
  "to_strings None = None"
  by (simp_all add: to_string_def to_int64_def to_float64_def to_bool_def to_strings_def)

lemma map_utf8_fix_valid: "list_all utf8_valid xs \<Longrightarrow> map utf8_fix xs = xs"
  by (induction xs) (simp_all add: utf8_fix_valid)

lemma uint64_int64: "n < 2 ^ 63 \<Longrightarrow> uint64_of_int64 (int n) = n"
  by (simp add: uint64_of_int64_def)

lemma int64_range_of_nat: "n < 2 ^ 63 \<Longrightarrow> int64_range (int n)"
  by (simp add: int64_range_def)

end
