(* ===== verification/Session_State.thy ===== *)
theory Session_State
  imports Bridge_Prelude
begin

text \<open>
  The data of one bridge session (\<^verbatim>\<open>internal/session/registry.go\<close>,
  \<^verbatim>\<open>turn.go\<close>, \<^verbatim>\<open>configuration.go\<close>): the configuration that is pinned to
  admitted messages, the frontend metadata, the turn queue, and the parts of the Go runtime the
  queue relies on (heap cells of queued turns, channels, goroutines, pending closures).

  Pointers and channels are numbers handed out by \<open>fresh\<close>; \<open>turns\<close> is the heap of
  \<^verbatim>\<open>*queuedTurn\<close> cells, so that the pointer comparisons of the code are comparisons of
  numbers. \<open>closed_chans\<close> holds the channels that were closed; closing one of them again would
  be a run-time panic, which \<open>close_chan\<close> records in \<open>panicked\<close>. The closures that the
  code returns (each guarded by a \<^verbatim>\<open>sync.Once\<close>) are entries of \<open>pending\<close>: a call runs
  the entry and removes it, a second call finds nothing.
\<close>

section \<open>Configuration\<close>

record configuration =
  cfg_Revision :: u64
  cfg_Backend :: string
  cfg_Model :: string
  cfg_Sandbox :: string
  cfg_Effort :: string
  cfg_ServiceTier :: string
  cfg_CollaborationMode :: string
  cfg_Personality :: string

section \<open>Metadata\<close>

record session_meta =
  name :: string
  metadataRevision :: u64
  nameUpdatedAt :: int
  nameUpdatedBy :: string
  lastNameMutationID :: string
  cwd :: string
  resumeID :: string
  historicalResumeIDs :: "string list"
  pinned :: bool
  hidden :: bool
  previewText :: string
  previewRole :: string
  previewUpdatedAt :: int
  previewRevision :: u64
  contextUsed :: int
  contextMax :: int
  contextUsedKnown :: bool

section \<open>The turn queue\<close>

datatype sess_state = Idle | Streaming | Stopping | Closed

definition State_String :: "sess_state \<Rightarrow> string" where
  "State_String st =
     (case st of Idle \<Rightarrow> ''idle'' | Streaming \<Rightarrow> ''streaming''
      | Stopping \<Rightarrow> ''stopping'' | Closed \<Rightarrow> ''closed'')"

definition mailboxSize :: nat where
  "mailboxSize = 64"

text \<open>
  A queued turn. The callbacks \<^verbatim>\<open>run\<close> and \<^verbatim>\<open>ready\<close> are opaque function
  values, identified by a number; \<open>qt_ready = None\<close> is the nil callback.
\<close>

record queuedTurn =
  qt_id :: string
  qt_run :: nat
  qt_held :: bool
  qt_ready :: "nat option"

text \<open>
  Where the worker goroutine stands between two critical sections of \<^verbatim>\<open>runWorker\<close>: at the
  top of its loop, in one of its \<^verbatim>\<open>select\<close>s, in the admission callback, in the turn itself,
  before it clears the active identity, or returned.
\<close>

datatype worker_pc =
    W_Loop
  | W_WaitQueue "nat option"
  | W_Ready nat
  | W_WaitReady "nat option"
  | W_Run nat nat
  | W_WaitDone nat
  | W_Clear
  | W_Exited

record worker =
  w_pc :: worker_pc
  w_quit :: nat
  w_exited :: nat

datatype closure =
    FinishQueued nat
  | ReleaseTurn "nat option"
  | ReleaseHold
  | ReleaseConfig

record session =
  ID :: string
  CreatedAt :: real
  lastActivity :: real
  meta :: session_meta
  config :: configuration
  configUpdating :: bool
  futureConfig :: "configuration option"
  state :: sess_state
  mailbox :: "nat list"
  queueChanged :: "nat option"
  queueHolds :: int
  activeQueuedID :: string
  quit :: "nat option"
  workerUp :: bool
  workerDone :: "nat option"
  turnDone :: "nat option"
  turns :: "nat \<Rightarrow> queuedTurn option"
  closed_chans :: "nat set"
  fresh :: nat
  panicked :: bool
  workers :: "worker list"
  pending :: "(nat \<times> closure) list"

text \<open>A session as \<^verbatim>\<open>Registry.Create\<close> allocates it: idle, with no worker yet.\<close>

definition new_session ::
  "string \<Rightarrow> real \<Rightarrow> session_meta \<Rightarrow> configuration \<Rightarrow> session" where
  "new_session sid now m c =
     \<lparr>ID = sid, CreatedAt = now, lastActivity = now, meta = m, config = c,
      configUpdating = False, futureConfig = None, state = Idle, mailbox = [],
      queueChanged = None, queueHolds = 0, activeQueuedID = [], quit = None, workerUp = False,
      workerDone = None, turnDone = None, turns = (\<lambda>_. None), closed_chans = {}, fresh = 0,
      panicked = False, workers = [], pending = []\<rparr>"

section \<open>Snapshots\<close>

record snapshot =
  sn_ID :: string
  sn_CreatedAt :: real
  sn_LastActivity :: real
  sn_meta :: session_meta
  sn_config :: configuration
  sn_Streaming :: bool
  sn_State :: sess_state

definition IsStreaming :: "session \<Rightarrow> bool" where
  "IsStreaming s \<longleftrightarrow> state s = Streaming \<or> state s = Stopping"

definition snapshotLocked :: "session \<Rightarrow> snapshot" where
  "snapshotLocked s =
     \<lparr>sn_ID = ID s, sn_CreatedAt = CreatedAt s, sn_LastActivity = lastActivity s,
      sn_meta = meta s, sn_config = config s, sn_Streaming = IsStreaming s, sn_State = state s\<rparr>"

definition ConfigurationFrom :: "snapshot \<Rightarrow> configuration" where
  "ConfigurationFrom sn = sn_config sn"

definition applySnapshot :: "configuration \<Rightarrow> snapshot \<Rightarrow> snapshot" where
  "applySnapshot c sn = sn\<lparr>sn_config := c\<rparr>"

definition applyConfigurationLocked :: "configuration \<Rightarrow> session \<Rightarrow> session" where
  "applyConfigurationLocked c s = s\<lparr>config := c\<rparr>"

text \<open>The default for newly admitted work: the future configuration, when one is set.\<close>

definition SettingsSnapshot :: "session \<Rightarrow> snapshot" where
  "SettingsSnapshot s =
     (case futureConfig s of
        None \<Rightarrow> snapshotLocked s
      | Some c \<Rightarrow> applySnapshot c (snapshotLocked s))"

section \<open>Channels\<close>

definition close_chan :: "nat \<Rightarrow> session \<Rightarrow> session" where
  "close_chan c s =
     s\<lparr>closed_chans := insert c (closed_chans s),
       panicked := (panicked s \<or> c \<in> closed_chans s)\<rparr>"

definition signalQueueLocked :: "session \<Rightarrow> session" where
  "signalQueueLocked s =
     (let s1 = (case queueChanged s of None \<Rightarrow> s | Some c \<Rightarrow> close_chan c s)
      in s1\<lparr>queueChanged := Some (fresh s1), fresh := Suc (fresh s1)\<rparr>)"

end
