(* ===== verification/Session_Store.thy ===== *)
theory Session_Store
  imports Json_Values Session_State "HOL-Library.AList"
begin

text \<open>
  The durable session index (\<^verbatim>\<open>internal/session/store.go\<close>): \<^verbatim>\<open>saved_sessions.json\<close>
  is shared with another writer (the Python bridge), so \<open>Save\<close> merges its rows into the file,
  keeps the fields and the rows it does not know, and deletes only rows it has seen before
  (\<open>knownIDs\<close>).

  The file system is an argument: \<open>lock_ok\<close> says whether the advisory lock was obtained,
  \<open>write_ok\<close> whether writing the temporary file and renaming it succeeded; a failed write leaves
  the file as it was. Object keys are valid UTF-8.
\<close>

section \<open>The saved row\<close>

record savedEntry =
  e_ConfigRevision :: u64
  e_Name :: string
  e_MetadataRevision :: u64
  e_NameUpdatedAt :: int
  e_NameUpdatedBy :: string
  e_LastNameMutationID :: string
  e_ResumeID :: string
  e_ClaudeUUID :: string
  e_LastUsed :: int
  e_PreviewText :: string
  e_PreviewRole :: string
  e_PreviewUpdatedAt :: int
  e_PreviewRevision :: u64
  e_Cwd :: string
  e_Backend :: string
  e_Model :: string
  e_Sandbox :: string
  e_Effort :: string
  e_ServiceTier :: string
  e_CollaborationMode :: string
  e_Personality :: string
  e_HistoricalResumeIDs :: "string list"
  e_CreatedAt :: real
  e_Pinned :: bool
  e_Hidden :: bool

type_synonym raw_row = "string \<rightharpoonup> json"
type_synonym raw_rows = "(string \<times> raw_row) list"

text \<open>
  The rows of the file are iterated over, so they are an association list with distinct keys
  (\<open>rows_ok\<close>), in the order the iteration of the Go map happens to take; a row is only looked
  up in. \<open>NullFile\<close> is a file whose whole content is the JSON value \<^verbatim>\<open>null\<close>.
\<close>

datatype raw_file = NoFile | Unparsable | NullFile | Rows raw_rows

record store =
  st_file :: raw_file
  knownIDs :: "string list"

record disk_env =
  lock_ok :: bool
  write_ok :: bool

datatype store_error = LockFailed | WriteFailed | NilMapPanic

section \<open>Reading\<close>

definition rawString :: "raw_row \<Rightarrow> string \<Rightarrow> string" where
  "rawString obj key = (case to_string (obj key) of Some s \<Rightarrow> s | None \<Rightarrow> [])"

definition rawInt64 :: "raw_row \<Rightarrow> string \<Rightarrow> int" where
  "rawInt64 obj key =
     (case to_int64 (obj key) of
        Some i \<Rightarrow> i
      | None \<Rightarrow> (case to_float64 (obj key) of Some f \<Rightarrow> int64_of_float f | None \<Rightarrow> 0))"

definition rawFloat64 :: "raw_row \<Rightarrow> string \<Rightarrow> real" where
  "rawFloat64 obj key =
     (case to_float64 (obj key) of
        Some f \<Rightarrow> f
      | None \<Rightarrow> (case to_int64 (obj key) of Some i \<Rightarrow> real_of_int i | None \<Rightarrow> 0))"

definition rawBool :: "raw_row \<Rightarrow> string \<Rightarrow> bool" where
  "rawBool obj key = (case to_bool (obj key) of Some b \<Rightarrow> b | None \<Rightarrow> False)"

definition rawStrings :: "raw_row \<Rightarrow> string \<Rightarrow> string list" where
  "rawStrings obj key = (case to_strings (obj key) of Some xs \<Rightarrow> xs | None \<Rightarrow> [])"

definition entryFromRaw :: "raw_row \<Rightarrow> savedEntry" where
  "entryFromRaw obj =
     (let resume = rawString obj ''resume_id'';
          claude = rawString obj ''claude_uuid'';
          lastUsed = rawInt64 obj ''last_used'';
          created = rawFloat64 obj ''created_at''
      in \<lparr>e_ConfigRevision = uint64_of_int64 (rawInt64 obj ''config_revision''),
          e_Name = rawString obj ''name'',
          e_MetadataRevision = uint64_of_int64 (rawInt64 obj ''metadata_revision''),
          e_NameUpdatedAt = rawInt64 obj ''name_updated_at'',
          e_NameUpdatedBy = rawString obj ''name_updated_by'',
          e_LastNameMutationID = rawString obj ''last_name_mutation_id'',
          e_ResumeID = (if resume = [] then claude else resume),
          e_ClaudeUUID = claude,
          e_LastUsed = lastUsed,
          e_PreviewText = rawString obj ''preview_text'',
          e_PreviewRole = rawString obj ''preview_role'',
          e_PreviewUpdatedAt = rawInt64 obj ''preview_updated_at'',
          e_PreviewRevision = uint64_of_int64 (rawInt64 obj ''preview_revision''),
          e_Cwd = rawString obj ''cwd'',
          e_Backend = rawString obj ''backend'',
          e_Model = rawString obj ''model'',
          e_Sandbox = rawString obj ''sandbox'',
          e_Effort = rawString obj ''effort'',
          e_ServiceTier = rawString obj ''service_tier'',
          e_CollaborationMode = rawString obj ''collaboration_mode'',
          e_Personality = rawString obj ''personality'',
          e_HistoricalResumeIDs = rawStrings obj ''historical_resume_ids'',
          e_CreatedAt = (if created = 0 then real_of_int lastUsed else created),
          e_Pinned = rawBool obj ''pinned'',
          e_Hidden = rawBool obj ''hidden''\<rparr>)"

text \<open>The nil map that decoding \<^verbatim>\<open>null\<close> leaves is \<^term>\<open>None\<close>.\<close>

definition loadRawLocked :: "store \<Rightarrow> raw_rows option" where
  "loadRawLocked st =
     (case st_file st of
        NoFile \<Rightarrow> Some []
      | Unparsable \<Rightarrow> Some []
      | NullFile \<Rightarrow> None
      | Rows rows \<Rightarrow> Some rows)"

definition raw_of :: "raw_rows option \<Rightarrow> raw_rows" where
  "raw_of r = (case r of None \<Rightarrow> [] | Some rows \<Rightarrow> rows)"

definition rows_ok :: "store \<Rightarrow> bool" where
  "rows_ok st \<longleftrightarrow> distinct (map fst (raw_of (loadRawLocked st)))"

definition Load :: "disk_env \<Rightarrow> store \<Rightarrow> (string \<times> savedEntry) list \<times> store" where
  "Load env st =
     (if \<not> lock_ok env then ([], st)
      else let raw = raw_of (loadRawLocked st)
           in (map (\<lambda>(id, obj). (id, entryFromRaw obj)) raw,
               st\<lparr>knownIDs := remdups (knownIDs st @ map fst raw)\<rparr>))"

section \<open>Writing\<close>

text \<open>
  \<^verbatim>\<open>putKnownFields\<close> puts or deletes one key after the other; \<open>known_row\<close> lists them in
  the order of the code, \<^term>\<open>None\<close> for a deletion.
\<close>

definition has_preview :: "savedEntry \<Rightarrow> bool" where
  "has_preview e \<longleftrightarrow> e_PreviewText e \<noteq> [] \<and> e_PreviewUpdatedAt e > 0"

definition put_if :: "bool \<Rightarrow> json \<Rightarrow> json option" where
  "put_if b v = (if b then Some v else None)"

definition known_row :: "savedEntry \<Rightarrow> (string \<times> json option) list" where
  "known_row e =
     [(''name'', Some (json_string (e_Name e))),
      (''metadata_revision'', Some (json_int (int (e_MetadataRevision e)))),
      (''config_revision'', Some (json_int (int (e_ConfigRevision e)))),
      (''name_updated_at'', Some (json_int (e_NameUpdatedAt e))),
      (''name_updated_by'', Some (json_string (e_NameUpdatedBy e))),
      (''last_name_mutation_id'', Some (json_string (e_LastNameMutationID e))),
      (''resume_id'', Some (json_string (e_ResumeID e))),
      (''claude_uuid'', Some (json_string (e_ClaudeUUID e))),
      (''last_used'', Some (json_int (e_LastUsed e))),
      (''preview_text'', put_if (has_preview e) (json_string (e_PreviewText e))),
      (''preview_role'', put_if (has_preview e) (json_string (e_PreviewRole e))),
      (''preview_updated_at'', put_if (has_preview e) (json_int (e_PreviewUpdatedAt e))),
      (''preview_revision'', put_if (has_preview e) (json_int (int (e_PreviewRevision e)))),
      (''cwd'', Some (json_string (e_Cwd e))),
      (''backend'', Some (json_string (e_Backend e))),
      (''model'', Some (json_string (e_Model e))),
      (''sandbox'', Some (json_string (e_Sandbox e))),
      (''effort'', Some (json_string (e_Effort e))),
      (''service_tier'', Some (json_string (e_ServiceTier e))),
      (''collaboration_mode'', Some (json_string (e_CollaborationMode e))),
      (''personality'', Some (json_string (e_Personality e))),
      (''historical_resume_ids'',
         put_if (e_HistoricalResumeIDs e \<noteq> []) (json_strings (e_HistoricalResumeIDs e))),
      (''created_at'', Some (json_float (e_CreatedAt e))),
      (''pinned'', put_if (e_Pinned e) (JBool True)),
      (''hidden'', put_if (e_Hidden e) (JBool True))]"

fun put_all :: "(string \<times> json option) list \<Rightarrow> raw_row \<Rightarrow> raw_row" where
  "put_all [] obj = obj"
| "put_all ((k, v) # kvs) obj = put_all kvs (obj(k := v))"

definition putKnownFields :: "raw_row \<Rightarrow> savedEntry \<Rightarrow> raw_row" where
  "putKnownFields obj e = put_all (known_row e) obj"

text \<open>The row \<open>Save\<close> builds from a session; \<open>now\<close> is the clock in whole seconds.\<close>

definition saved_of :: "int \<Rightarrow> snapshot \<Rightarrow> savedEntry" where
  "saved_of now sn =
     (let m = sn_meta sn; c = sn_config sn; used = int64_of_float (sn_LastActivity sn)
      in \<lparr>e_ConfigRevision = cfg_Revision c, e_Name = name m,
          e_MetadataRevision = metadataRevision m, e_NameUpdatedAt = nameUpdatedAt m,
          e_NameUpdatedBy = nameUpdatedBy m, e_LastNameMutationID = lastNameMutationID m,
          e_ResumeID = resumeID m, e_ClaudeUUID = resumeID m,
          e_LastUsed = (if used \<le> 0 then now else used),
          e_PreviewText = previewText m, e_PreviewRole = previewRole m,
          e_PreviewUpdatedAt = previewUpdatedAt m, e_PreviewRevision = previewRevision m,
          e_Cwd = cwd m, e_Backend = cfg_Backend c, e_Model = cfg_Model c,
          e_Sandbox = cfg_Sandbox c, e_Effort = cfg_Effort c,
          e_ServiceTier = cfg_ServiceTier c, e_CollaborationMode = cfg_CollaborationMode c,
          e_Personality = cfg_Personality c, e_HistoricalResumeIDs = historicalResumeIDs m,
          e_CreatedAt = sn_CreatedAt sn, e_Pinned = pinned m, e_Hidden = hidden m\<rparr>)"

definition merge_session :: "int \<Rightarrow> session \<Rightarrow> raw_rows \<Rightarrow> raw_rows" where
  "merge_session now s raw =
     (let sn = SettingsSnapshot s;
          obj = (case map_of raw (sn_ID sn) of None \<Rightarrow> Map.empty | Some obj \<Rightarrow> obj)
      in AList.update (sn_ID sn) (putKnownFields obj (saved_of now sn)) raw)"

definition drop_rows :: "string list \<Rightarrow> raw_rows \<Rightarrow> raw_rows" where
  "drop_rows gone raw = filter (\<lambda>(id, _). id \<notin> set gone) raw"

definition writeRawLocked :: "disk_env \<Rightarrow> raw_rows option \<Rightarrow> store \<Rightarrow> store_error option \<times> store" where
  "writeRawLocked env raw st =
     (if \<not> write_ok env then (Some WriteFailed, st)
      else (None, st\<lparr>st_file := (case raw of None \<Rightarrow> NullFile | Some rows \<Rightarrow> Rows rows)\<rparr>))"

definition Save ::
  "disk_env \<Rightarrow> int \<Rightarrow> session list \<Rightarrow> store \<Rightarrow> store_error option \<times> store" where
  "Save env now ss st =
     (if \<not> lock_ok env then (Some LockFailed, st)
      else let raw = loadRawLocked st;
               current = map ID ss;
               gone = filter (\<lambda>id. id \<notin> set current) (knownIDs st);
               st' = st\<lparr>knownIDs := remdups (filter (\<lambda>id. id \<in> set current) (knownIDs st) @ current)\<rparr>
           in if Option.is_none raw \<and> ss \<noteq> [] then (Some NilMapPanic, st)
              else writeRawLocked env
                     (map_option (\<lambda>rows. drop_rows gone (fold (merge_session now) ss rows)) raw) st')"

section \<open>Rows\<close>

lemma put_all_lookup:
  "distinct (map fst kvs) \<Longrightarrow>
   put_all kvs obj k = (case map_of kvs k of None \<Rightarrow> obj k | Some v \<Rightarrow> v)"
proof (induction kvs arbitrary: obj)
  case (Cons p kvs)
  obtain k' v where [simp]: "p = (k', v)" by (cases p)
  from Cons.prems have "map_of kvs k' = None" by (simp add: map_of_eq_None_iff)
  with Cons show ?case by (auto split: option.splits)
qed simp

definition known_fields :: "string list" where
  "known_fields =
     [''name'', ''metadata_revision'', ''config_revision'', ''name_updated_at'',
      ''name_updated_by'', ''last_name_mutation_id'', ''resume_id'', ''claude_uuid'', ''last_used'',
      ''preview_text'', ''preview_role'', ''preview_updated_at'', ''preview_revision'', ''cwd'',
      ''backend'', ''model'', ''sandbox'', ''effort'', ''service_tier'', ''collaboration_mode'',
      ''personality'', ''historical_resume_ids'', ''created_at'', ''pinned'', ''hidden'']"

lemma known_row_keys: "map fst (known_row e) = known_fields"
  by (simp add: known_fields_def known_row_def)

lemma known_row_distinct: "distinct (map fst (known_row e))"
  by (simp add: known_row_def)

lemma put_unknown: "k \<notin> set known_fields \<Longrightarrow> putKnownFields obj e k = obj k"
  using known_row_keys [of e] map_of_eq_None_iff [of "known_row e" k]
  by (simp add: putKnownFields_def put_all_lookup [OF known_row_distinct] flip: set_map)

lemma put_known:
  "map_of (known_row e) k = Some v \<Longrightarrow> putKnownFields obj e k = v"
  by (simp add: putKnownFields_def put_all_lookup [OF known_row_distinct])

text \<open>What each known key holds afterwards.\<close>

lemma put_fields:
  "putKnownFields obj e ''name'' = Some (json_string (e_Name e))"
  "putKnownFields obj e ''metadata_revision'' = Some (json_int (int (e_MetadataRevision e)))"
  "putKnownFields obj e ''config_revision'' = Some (json_int (int (e_ConfigRevision e)))"
  "putKnownFields obj e ''name_updated_at'' = Some (json_int (e_NameUpdatedAt e))"
  "putKnownFields obj e ''name_updated_by'' = Some (json_string (e_NameUpdatedBy e))"
  "putKnownFields obj e ''last_name_mutation_id'' = Some (json_string (e_LastNameMutationID e))"
  "putKnownFields obj e ''resume_id'' = Some (json_string (e_ResumeID e))"
  "putKnownFields obj e ''claude_uuid'' = Some (json_string (e_ClaudeUUID e))"
  "putKnownFields obj e ''last_used'' = Some (json_int (e_LastUsed e))"
  "putKnownFields obj e ''preview_text'' =
     put_if (has_preview e) (json_string (e_PreviewText e))"
  "putKnownFields obj e ''preview_role'' =
     put_if (has_preview e) (json_string (e_PreviewRole e))"
  "putKnownFields obj e ''preview_updated_at'' =
     put_if (has_preview e) (json_int (e_PreviewUpdatedAt e))"
  "putKnownFields obj e ''preview_revision'' =
     put_if (has_preview e) (json_int (int (e_PreviewRevision e)))"
  "putKnownFields obj e ''cwd'' = Some (json_string (e_Cwd e))"
  "putKnownFields obj e ''backend'' = Some (json_string (e_Backend e))"
  "putKnownFields obj e ''model'' = Some (json_string (e_Model e))"
  "putKnownFields obj e ''sandbox'' = Some (json_string (e_Sandbox e))"
  "putKnownFields obj e ''effort'' = Some (json_string (e_Effort e))"
  "putKnownFields obj e ''service_tier'' = Some (json_string (e_ServiceTier e))"
  "putKnownFields obj e ''collaboration_mode'' = Some (json_string (e_CollaborationMode e))"
  "putKnownFields obj e ''personality'' = Some (json_string (e_Personality e))"
  "putKnownFields obj e ''historical_resume_ids'' =
     put_if (e_HistoricalResumeIDs e \<noteq> []) (json_strings (e_HistoricalResumeIDs e))"
  "putKnownFields obj e ''created_at'' = Some (json_float (e_CreatedAt e))"
  "putKnownFields obj e ''pinned'' = put_if (e_Pinned e) (JBool True)"
  "putKnownFields obj e ''hidden'' = put_if (e_Hidden e) (JBool True)"
  by (rule put_known, simp add: known_row_def)+

section \<open>Reading back what was written\<close>

text \<open>
  A row that survives the encoding: valid UTF-8 strings and integers that fit an
  \<^verbatim>\<open>int64\<close>, which is how the revisions are read back.
\<close>

definition entry_ok :: "savedEntry \<Rightarrow> bool" where
  "entry_ok e \<longleftrightarrow>
     list_all utf8_valid
       [e_Name e, e_NameUpdatedBy e, e_LastNameMutationID e, e_ResumeID e, e_ClaudeUUID e,
        e_PreviewText e, e_PreviewRole e, e_Cwd e, e_Backend e, e_Model e, e_Sandbox e, e_Effort e,
        e_ServiceTier e, e_CollaborationMode e, e_Personality e]
     \<and> list_all utf8_valid (e_HistoricalResumeIDs e)
     \<and> list_all (\<lambda>n. n < 2 ^ 63) [e_ConfigRevision e, e_MetadataRevision e, e_PreviewRevision e]
     \<and> list_all int64_range [e_NameUpdatedAt e, e_LastUsed e, e_PreviewUpdatedAt e]"

text \<open>The row as it comes back: an incomplete preview is dropped, empty fields take their defaults.\<close>

definition stored :: "savedEntry \<Rightarrow> savedEntry" where
  "stored e =
     (let e1 = e\<lparr>e_ResumeID := (if e_ResumeID e = [] then e_ClaudeUUID e else e_ResumeID e),
                 e_CreatedAt := (if e_CreatedAt e = 0 then real_of_int (e_LastUsed e) else e_CreatedAt e)\<rparr>
      in if has_preview e then e1
         else e1\<lparr>e_PreviewText := [], e_PreviewRole := [], e_PreviewUpdatedAt := 0,
                 e_PreviewRevision := 0\<rparr>)"

lemmas raw_defs = rawString_def rawInt64_def rawFloat64_def rawBool_def rawStrings_def

lemma read_back_bounds:
  "n < 2 ^ 63 \<Longrightarrow> to_int64 (Some (json_int (int n))) = Some (int n)"
  by (simp add: int64_range_of_nat)

lemma entry_read_back:
  assumes "entry_ok e"
  shows "entryFromRaw (putKnownFields obj e) = stored e"
  using assms
  by (cases "has_preview e")
     (simp_all add: entry_ok_def entryFromRaw_def stored_def raw_defs put_fields Let_def
        utf8_fix_valid map_utf8_fix_valid int64_range_of_nat uint64_int64 put_if_def
        uint64_of_int64_def)

section \<open>Saving\<close>

lemma sn_ID_Settings [simp]: "sn_ID (SettingsSnapshot s) = ID s"
  by (simp add: SettingsSnapshot_def snapshotLocked_def applySnapshot_def split: option.splits)

abbreviation old_row :: "raw_rows \<Rightarrow> string \<Rightarrow> raw_row" where
  "old_row raw sid \<equiv> (case map_of raw sid of None \<Rightarrow> Map.empty | Some obj \<Rightarrow> obj)"

lemma map_of_merge:
  "map_of (merge_session now s raw) sid =
     (if sid = ID s
      then Some (putKnownFields (old_row raw sid) (saved_of now (SettingsSnapshot s)))
      else map_of raw sid)"
  by (simp add: merge_session_def Let_def update_conv')

lemma map_of_merges_other:
  "sid \<notin> ID ` set ss \<Longrightarrow> map_of (fold (merge_session now) ss raw) sid = map_of raw sid"
  by (induction ss arbitrary: raw) (auto simp: map_of_merge)

lemma map_of_merges:
  "s \<in> set ss \<Longrightarrow> distinct (map ID ss) \<Longrightarrow>
   map_of (fold (merge_session now) ss raw) (ID s) =
     Some (putKnownFields (old_row raw (ID s)) (saved_of now (SettingsSnapshot s)))"
proof (induction ss arbitrary: raw)
  case (Cons t ss)
  show ?case
  proof (cases "s = t")
    case True
    with Cons.prems show ?thesis by (simp add: map_of_merges_other map_of_merge)
  next
    case False
    with Cons.prems have "s \<in> set ss" "ID s \<noteq> ID t" by (auto simp: image_iff)
    with Cons.IH [of "merge_session now t raw"] Cons.prems show ?thesis
      by (simp add: map_of_merge)
  qed
qed simp

lemma distinct_merges:
  "distinct (map fst raw) \<Longrightarrow> distinct (map fst (fold (merge_session now) ss raw))"
  by (induction ss arbitrary: raw) (simp_all add: merge_session_def Let_def distinct_update)

lemma map_of_drop_rows:
  "map_of (drop_rows gone raw) sid = (if sid \<in> set gone then None else map_of raw sid)"
  by (induction raw) (auto simp: drop_rows_def)

lemma distinct_drop_rows: "distinct (map fst raw) \<Longrightarrow> distinct (map fst (drop_rows gone raw))"
  by (induction raw) (auto simp: drop_rows_def)

abbreviation file_rows :: "store \<Rightarrow> raw_rows" where
  "file_rows st \<equiv> raw_of (loadRawLocked st)"

lemma Save_file:
  assumes "Save env now ss st = (None, st')"
  shows "map_of (file_rows st') sid =
     (if sid \<in> set (knownIDs st) - ID ` set ss then None
      else map_of (fold (merge_session now) ss (file_rows st)) sid)"
    and "rows_ok st \<Longrightarrow> rows_ok st'"
  using assms
  by (auto simp: Save_def writeRawLocked_def loadRawLocked_def raw_of_def Let_def rows_ok_def
        map_of_drop_rows distinct_drop_rows distinct_merges split: if_splits raw_file.splits)

lemma Save_failed: "Save env now ss st = (Some err, st') \<Longrightarrow> st_file st' = st_file st"
  by (auto simp: Save_def writeRawLocked_def Let_def split: if_splits)

lemma Save_known:
  "Save env now ss st = (r, st') \<Longrightarrow> lock_ok env \<Longrightarrow> r \<noteq> Some NilMapPanic \<Longrightarrow>
   set (knownIDs st') = ID ` set ss"
  by (auto simp: Save_def writeRawLocked_def Let_def split: if_splits)

lemma Save_succeeds:
  "lock_ok env \<Longrightarrow> write_ok env \<Longrightarrow> st_file st \<noteq> NullFile \<Longrightarrow> \<exists>st'. Save env now ss st = (None, st')"
  by (auto simp: Save_def writeRawLocked_def loadRawLocked_def Let_def split: raw_file.splits)

end
