(* ===== verification/Turn_Queue.thy ===== *)
theory Turn_Queue
  imports Session_State
begin

text \<open>
  The single-flight turn queue of a session: the operations of
  \<^verbatim>\<open>internal/session/turn.go\<close> and the configuration operations of
  \<^verbatim>\<open>internal/session/configuration.go\<close> that share its dequeue boundary. Each definition is
  one critical section under the session's mutex; the worker goroutine is a program counter that
  moves from one critical section to the next. The clock reading \<^verbatim>\<open>nowSeconds()\<close> is the
  argument \<open>now\<close>.
\<close>

section \<open>Errors\<close>

datatype queue_error = ErrQueueNotWaiting | ErrQueueBusy | ErrQueueNoActiveTurn

datatype config_error =
    session_configuration_updating
  | session_busy
  | config_revision_conflict
  | next_message_cannot_change_backend_or_permissions
  | queued_configuration_no_longer_compatible

section \<open>Reading the queue\<close>

definition id_of :: "queuedTurn option \<Rightarrow> string option" where
  "id_of c = map_option qt_id c"

definition held_of :: "queuedTurn option \<Rightarrow> bool" where
  "held_of c = (case c of None \<Rightarrow> False | Some t \<Rightarrow> qt_held t)"

definition ready_of :: "queuedTurn option \<Rightarrow> nat option" where
  "ready_of c = (case c of None \<Rightarrow> None | Some t \<Rightarrow> qt_ready t)"

abbreviation turn_id :: "session \<Rightarrow> nat \<Rightarrow> string option" where
  "turn_id s r \<equiv> id_of (turns s r)"

abbreviation turn_held :: "session \<Rightarrow> nat \<Rightarrow> bool" where
  "turn_held s r \<equiv> held_of (turns s r)"

abbreviation turn_ready :: "session \<Rightarrow> nat \<Rightarrow> nat option" where
  "turn_ready s r \<equiv> ready_of (turns s r)"

definition set_held :: "nat \<Rightarrow> bool \<Rightarrow> session \<Rightarrow> session" where
  "set_held r b s = s\<lparr>turns := (turns s)(r := map_option (qt_held_update (\<lambda>_. b)) (turns s r))\<rparr>"

definition QueueLen :: "session \<Rightarrow> nat" where
  "QueueLen s = length (mailbox s)"

definition CanDispatchAutomatic :: "session \<Rightarrow> bool" where
  "CanDispatchAutomatic s \<longleftrightarrow> state s = Idle \<and> mailbox s = []"

section \<open>Submitting\<close>

text \<open>
  One pass of the loop of \<^verbatim>\<open>submitReady\<close>. \<open>Blocked\<close> carries the channels a waiting
  submitter selects on before it starts over.
\<close>

datatype submit_outcome = Refused | Accepted | Blocked "nat option" "nat option"

definition start_worker :: "session \<Rightarrow> session" where
  "start_worker s =
     (if workerUp s then s
      else s\<lparr>workerUp := True, quit := Some (fresh s), queueChanged := Some (fresh s + 1),
             workerDone := Some (fresh s + 2), fresh := fresh s + 3,
             workers := workers s @ [\<lparr>w_pc = W_Loop, w_quit = fresh s, w_exited = fresh s + 2\<rparr>]\<rparr>)"

definition push_turn :: "bool \<Rightarrow> queuedTurn \<Rightarrow> session \<Rightarrow> session" where
  "push_turn front t s =
     s\<lparr>turns := (turns s)(fresh s := Some t), fresh := Suc (fresh s),
       mailbox := (if front then fresh s # mailbox s else mailbox s @ [fresh s])\<rparr>"

definition submitReady ::
  "string \<Rightarrow> nat \<Rightarrow> nat option \<Rightarrow> session \<Rightarrow> submit_outcome \<times> session" where
  "submitReady tid fn ready s =
     (if state s = Closed then (Refused, s)
      else let s1 = start_worker s in
        if tid \<noteq> [] \<and> activeQueuedID s1 = tid then (Accepted, s1)
        else if tid \<noteq> [] \<and> (\<exists>r\<in>set (mailbox s1). turn_id s1 r = Some tid) then (Accepted, s1)
        else if length (mailbox s1) < mailboxSize then
          (Accepted, signalQueueLocked
             (push_turn False \<lparr>qt_id = tid, qt_run = fn, qt_held = False, qt_ready = ready\<rparr> s1))
        else (Blocked (queueChanged s1) (quit s1), s1))"

text \<open>
  \<^verbatim>\<open>SubmitNamed\<close> and \<^verbatim>\<open>SubmitNamedWhenReady\<close> pass \<^verbatim>\<open>wait = false\<close>:
  a full mailbox refuses.
\<close>

definition submit_nowait :: "submit_outcome \<Rightarrow> bool" where
  "submit_nowait r = (case r of Accepted \<Rightarrow> True | Refused \<Rightarrow> False | Blocked _ _ \<Rightarrow> False)"

definition SubmitNamed :: "string \<Rightarrow> nat \<Rightarrow> session \<Rightarrow> bool \<times> session" where
  "SubmitNamed tid fn s = (case submitReady tid fn None s of (r, s') \<Rightarrow> (submit_nowait r, s'))"

definition SubmitNamedWhenReady ::
  "string \<Rightarrow> nat \<Rightarrow> nat \<Rightarrow> session \<Rightarrow> bool \<times> session" where
  "SubmitNamedWhenReady tid ready fn s =
     (case submitReady tid fn (Some ready) s of (r, s') \<Rightarrow> (submit_nowait r, s'))"

text \<open>\<^verbatim>\<open>Submit\<close> waits: one pass of its loop; after \<open>Blocked\<close> it retries.\<close>

definition Submit_pass :: "nat \<Rightarrow> session \<Rightarrow> submit_outcome \<times> session" where
  "Submit_pass fn s = submitReady [] fn None s"

section \<open>Closures\<close>

definition add_closure :: "closure \<Rightarrow> session \<Rightarrow> nat \<times> session" where
  "add_closure c s = (fresh s, s\<lparr>pending := (fresh s, c) # pending s, fresh := Suc (fresh s)\<rparr>)"

definition finish_queued :: "nat \<Rightarrow> bool \<Rightarrow> session \<Rightarrow> session" where
  "finish_queued r remove s =
     (let s1 = (if turn_held s r
                then (set_held r False s)\<lparr>queueHolds := queueHolds s - 1\<rparr> else s);
          s2 = (if remove then s1\<lparr>mailbox := remove_first (\<lambda>x. x = r) (mailbox s1)\<rparr> else s1)
      in signalQueueLocked s2)"

definition release_hold :: "session \<Rightarrow> session" where
  "release_hold s =
     signalQueueLocked (if state s \<noteq> Closed then s\<lparr>queueHolds := queueHolds s - 1\<rparr> else s)"

fun run_closure :: "closure \<Rightarrow> bool \<Rightarrow> session \<Rightarrow> session" where
  "run_closure (FinishQueued r) remove s = finish_queued r remove s"
| "run_closure (ReleaseTurn None) _ s = s"
| "run_closure (ReleaseTurn (Some c)) _ s = close_chan c s"
| "run_closure ReleaseHold _ s = release_hold s"
| "run_closure ReleaseConfig _ s = release_hold (s\<lparr>configUpdating := False\<rparr>)"

text \<open>\<^verbatim>\<open>once.Do\<close>: only the first call of a returned closure does anything.\<close>

definition call_closure :: "nat \<Rightarrow> bool \<Rightarrow> session \<Rightarrow> session" where
  "call_closure k remove s =
     (case map_of (pending s) k of
        None \<Rightarrow> s
      | Some c \<Rightarrow> run_closure c remove
          (s\<lparr>pending := remove_first (\<lambda>p. fst p = k) (pending s)\<rparr>))"

section \<open>Reserving and cancelling waiting turns\<close>

definition find_named :: "string \<Rightarrow> session \<Rightarrow> nat option" where
  "find_named tid s = find (\<lambda>r. turn_id s r = Some tid) (mailbox s)"

definition reserveQueued ::
  "string \<Rightarrow> bool \<Rightarrow> bool \<Rightarrow> session \<Rightarrow> (queue_error + nat) \<times> session" where
  "reserveQueued tid requireActive exclusive s =
     (if requireActive \<and> state s \<noteq> Streaming then (Inl ErrQueueNoActiveTurn, s)
      else if exclusive \<and> queueHolds s > 0 then (Inl ErrQueueBusy, s)
      else case find_named tid s of
          None \<Rightarrow> (Inl ErrQueueNotWaiting, s)
        | Some r \<Rightarrow>
            if turn_held s r then (Inl ErrQueueBusy, s)
            else (case add_closure (FinishQueued r)
                         ((set_held r True s)\<lparr>queueHolds := queueHolds s + 1\<rparr>)
                  of (k, s') \<Rightarrow> (Inr k, s')))"

definition ReserveQueued :: "string \<Rightarrow> session \<Rightarrow> (queue_error + nat) \<times> session" where
  "ReserveQueued tid s = reserveQueued tid True True s"

definition ReserveWaiting :: "string \<Rightarrow> session \<Rightarrow> (queue_error + nat) \<times> session" where
  "ReserveWaiting tid s = reserveQueued tid False False s"

definition ReserveSteeringCandidate :: "string \<Rightarrow> session \<Rightarrow> (queue_error + nat) \<times> session" where
  "ReserveSteeringCandidate tid s = reserveQueued tid False True s"

definition CancelQueued :: "string \<Rightarrow> session \<Rightarrow> (queue_error + unit) \<times> session" where
  "CancelQueued tid s =
     (case find_named tid s of
        None \<Rightarrow> (Inl ErrQueueNotWaiting, s)
      | Some r \<Rightarrow>
          if turn_held s r then (Inl ErrQueueBusy, s)
          else (Inr (), signalQueueLocked
                  (s\<lparr>mailbox := remove_first (\<lambda>x. turn_id s x = Some tid) (mailbox s)\<rparr>)))"

section \<open>Turn boundaries\<close>

definition apply_future :: "session \<Rightarrow> session" where
  "apply_future s =
     (case futureConfig s of None \<Rightarrow> s | Some c \<Rightarrow> applyConfigurationLocked c s)"

definition beginTurnLocked :: "real \<Rightarrow> session \<Rightarrow> nat \<times> session" where
  "beginTurnLocked now s =
     (if state s = Closed
      then (fresh s, close_chan (fresh s) (s\<lparr>fresh := Suc (fresh s)\<rparr>))
      else (fresh s, (apply_future (s\<lparr>state := Streaming\<rparr>))
                       \<lparr>lastActivity := now, turnDone := Some (fresh s), fresh := Suc (fresh s)\<rparr>))"

definition DeferActiveNamed ::
  "string \<Rightarrow> nat option \<Rightarrow> nat \<Rightarrow> session \<Rightarrow> bool \<times> session" where
  "DeferActiveNamed tid ready fn s =
     (case turnDone s of
        None \<Rightarrow> (False, s)
      | Some c \<Rightarrow>
          if tid = [] \<or> activeQueuedID s \<noteq> tid \<or> state s \<noteq> Streaming then (False, s)
          else (True, signalQueueLocked (close_chan c
                  ((push_turn True \<lparr>qt_id = tid, qt_run = fn, qt_held = False, qt_ready = ready\<rparr> s)
                     \<lparr>state := Idle, turnDone := None\<rparr>))))"

definition PrepareEndTurn :: "real \<Rightarrow> session \<Rightarrow> nat \<times> session" where
  "PrepareEndTurn now s =
     (let s1 = (if state s = Streaming \<or> state s = Stopping
                then apply_future (s\<lparr>state := Idle\<rparr>) else s)
      in add_closure (ReleaseTurn (turnDone s1)) (s1\<lparr>turnDone := None, lastActivity := now\<rparr>))"

definition EndTurn :: "real \<Rightarrow> session \<Rightarrow> session" where
  "EndTurn now s = (case PrepareEndTurn now s of (k, s') \<Rightarrow> call_closure k False s')"

definition MarkStopping :: "session \<Rightarrow> session" where
  "MarkStopping s = (if state s = Streaming then s\<lparr>state := Stopping\<rparr> else s)"

definition RestoreStreamingAfterUnconfirmedStop :: "string \<Rightarrow> session \<Rightarrow> bool \<times> session" where
  "RestoreStreamingAfterUnconfirmedStop rid s =
     (if state s \<noteq> Stopping \<or> activeQueuedID s \<noteq> rid then (False, s)
      else (True, s\<lparr>state := Streaming\<rparr>))"

text \<open>\<^verbatim>\<open>Close\<close>: queued turns are dropped and their reservations released.\<close>

definition opt_close :: "nat option \<Rightarrow> session \<Rightarrow> session" where
  "opt_close c s = (case c of None \<Rightarrow> s | Some x \<Rightarrow> close_chan x s)"

definition unhold_all :: "session \<Rightarrow> session" where
  "unhold_all s = fold (\<lambda>r. set_held r False) (mailbox s) s"

definition Close :: "session \<Rightarrow> session" where
  "Close s =
     (if state s = Closed then s
      else let s1 = (opt_close (turnDone s) (s\<lparr>state := Closed\<rparr>))\<lparr>turnDone := None\<rparr>;
               s2 = (opt_close (quit s1) s1)\<lparr>quit := None\<rparr>;
               s3 = (unhold_all s2)\<lparr>mailbox := [], queueHolds := 0\<rparr>
           in (signalQueueLocked s3)\<lparr>workerUp := False\<rparr>)"

definition HoldQueue :: "session \<Rightarrow> nat option \<times> session" where
  "HoldQueue s =
     (if state s = Closed then (None, s)
      else case add_closure ReleaseHold (s\<lparr>queueHolds := queueHolds s + 1\<rparr>)
           of (k, s') \<Rightarrow> (Some k, s'))"

text \<open>\<^verbatim>\<open>CloseAndWait\<close> returns once this holds of the state \<open>Close\<close> leaves.\<close>

definition joined :: "session \<Rightarrow> bool" where
  "joined s = (case workerDone s of None \<Rightarrow> True | Some c \<Rightarrow> c \<in> closed_chans s)"

section \<open>Configuration at the dequeue boundary\<close>

definition StableConfigurationSnapshot :: "session \<Rightarrow> config_error + snapshot" where
  "StableConfigurationSnapshot s =
     (if configUpdating s \<or> state s = Closed then Inl session_configuration_updating
      else Inr (snapshotLocked s))"

definition SetFutureConfiguration ::
  "configuration \<Rightarrow> u64 option \<Rightarrow> session \<Rightarrow> (config_error option \<times> snapshot) \<times> session" where
  "SetFutureConfiguration c expected s =
     (let before = SettingsSnapshot s in
      if state s = Closed \<or> configUpdating s then ((Some session_busy, before), s)
      else if expected \<noteq> None \<and> expected \<noteq> Some (cfg_Revision (sn_config before))
      then ((Some config_revision_conflict, before), s)
      else if cfg_Backend c \<noteq> cfg_Backend (sn_config before)
              \<or> cfg_Sandbox c \<noteq> cfg_Sandbox (sn_config before)
      then ((Some next_message_cannot_change_backend_or_permissions, before), s)
      else let c' = c\<lparr>cfg_Revision := u64_succ (cfg_Revision (sn_config before))\<rparr>
           in ((None, applySnapshot c' before), s\<lparr>futureConfig := Some c'\<rparr>))"

definition RestoreFutureConfiguration :: "snapshot \<Rightarrow> session \<Rightarrow> session" where
  "RestoreFutureConfiguration before s = s\<lparr>futureConfig := Some (ConfigurationFrom before)\<rparr>"

definition ActivateQueuedConfiguration ::
  "configuration \<Rightarrow> session \<Rightarrow> config_error option \<times> session" where
  "ActivateQueuedConfiguration c s =
     (if state s \<noteq> Streaming \<or> cfg_Backend c \<noteq> cfg_Backend (config s)
         \<or> cfg_Sandbox c \<noteq> cfg_Sandbox (config s)
      then (Some queued_configuration_no_longer_compatible, s)
      else let s1 = (if futureConfig s = None
                     then s\<lparr>futureConfig := Some (ConfigurationFrom (snapshotLocked s))\<rparr> else s)
           in (None, applyConfigurationLocked c s1))"

definition ReserveConfiguration ::
  "u64 option \<Rightarrow> session \<Rightarrow> (config_error + nat) \<times> snapshot \<times> session" where
  "ReserveConfiguration expected s =
     (let before = SettingsSnapshot s in
      if state s \<noteq> Idle \<or> mailbox s \<noteq> [] \<or> queueHolds s \<noteq> 0 \<or> configUpdating s
      then (Inl session_busy, before, s)
      else if expected \<noteq> None \<and> expected \<noteq> Some (cfg_Revision (sn_config before))
      then (Inl config_revision_conflict, before, s)
      else let s1 = (apply_future s)\<lparr>futureConfig := None\<rparr>
           in case add_closure ReleaseConfig
                     (s1\<lparr>configUpdating := True, queueHolds := queueHolds s1 + 1\<rparr>)
              of (k, s') \<Rightarrow> (Inr k, before, s'))"

definition SetConfigRevision :: "u64 \<Rightarrow> session \<Rightarrow> session" where
  "SetConfigRevision n s = s\<lparr>config := (config s)\<lparr>cfg_Revision := n\<rparr>\<rparr>"

section \<open>The worker goroutine\<close>

definition goto :: "nat \<Rightarrow> worker_pc \<Rightarrow> session \<Rightarrow> session" where
  "goto i pc s = s\<lparr>workers := (workers s)[i := (workers s ! i)\<lparr>w_pc := pc\<rparr>]\<rparr>"

text \<open>Returning from \<^verbatim>\<open>runWorker\<close> runs \<^verbatim>\<open>defer close(exited)\<close>.\<close>

definition worker_exit :: "nat \<Rightarrow> session \<Rightarrow> session" where
  "worker_exit i s = goto i W_Exited (close_chan (w_exited (workers s ! i)) s)"

definition admit_head :: "real \<Rightarrow> nat \<Rightarrow> nat \<Rightarrow> session \<Rightarrow> session" where
  "admit_head now i r s =
     (case beginTurnLocked now
             (s\<lparr>mailbox := tl (mailbox s),
                activeQueuedID := (case turn_id s r of None \<Rightarrow> [] | Some x \<Rightarrow> x)\<rparr>)
      of (c, s') \<Rightarrow> goto i (W_Run r c) (signalQueueLocked s'))"

definition worker_loop :: "real \<Rightarrow> nat \<Rightarrow> session \<Rightarrow> session" where
  "worker_loop now i s =
     (if state s = Closed then worker_exit i s
      else case mailbox s of
          [] \<Rightarrow> goto i (W_WaitQueue (queueChanged s)) s
        | r # _ \<Rightarrow>
            if queueHolds s > 0 then goto i (W_WaitQueue (queueChanged s)) s
            else if turn_ready s r \<noteq> None then goto i (W_Ready r) s
            else admit_head now i r s)"

text \<open>The admission callback returned \<open>ok\<close>; the lock is taken again.\<close>

definition worker_ready :: "real \<Rightarrow> nat \<Rightarrow> nat \<Rightarrow> bool \<Rightarrow> session \<Rightarrow> session" where
  "worker_ready now i r ok s =
     (if state s = Closed \<or> mailbox s = [] \<or> hd (mailbox s) \<noteq> r \<or> queueHolds s > 0
      then goto i W_Loop s
      else if \<not> ok then goto i (W_WaitReady (queueChanged s)) s
      else admit_head now i r s)"

definition fired :: "session \<Rightarrow> nat option \<Rightarrow> bool" where
  "fired s c \<longleftrightarrow> (\<exists>x\<in>set_option c. x \<in> closed_chans s)"

inductive worker_step :: "nat \<Rightarrow> session \<Rightarrow> session \<Rightarrow> bool" for i where
  w_loop: "w_pc (workers s ! i) = W_Loop \<Longrightarrow> worker_step i s (worker_loop now i s)"
| w_queue: "w_pc (workers s ! i) = W_WaitQueue c \<Longrightarrow> fired s c \<Longrightarrow> worker_step i s (goto i W_Loop s)"
| w_queue_quit: "w_pc (workers s ! i) = W_WaitQueue c \<Longrightarrow> w_quit (workers s ! i) \<in> closed_chans s \<Longrightarrow>
     worker_step i s (worker_exit i s)"
| w_ready: "w_pc (workers s ! i) = W_Ready r \<Longrightarrow> worker_step i s (worker_ready now i r ok s)"
| w_retry: "w_pc (workers s ! i) = W_WaitReady c \<Longrightarrow> worker_step i s (goto i W_Loop s)"
| w_retry_quit: "w_pc (workers s ! i) = W_WaitReady c \<Longrightarrow> w_quit (workers s ! i) \<in> closed_chans s \<Longrightarrow>
     worker_step i s (worker_exit i s)"
| w_ran: "w_pc (workers s ! i) = W_Run r c \<Longrightarrow> worker_step i s (goto i (W_WaitDone c) s)"
| w_done: "w_pc (workers s ! i) = W_WaitDone c \<Longrightarrow> c \<in> closed_chans s \<Longrightarrow>
     worker_step i s (goto i W_Clear s)"
| w_done_quit: "w_pc (workers s ! i) = W_WaitDone c \<Longrightarrow> w_quit (workers s ! i) \<in> closed_chans s \<Longrightarrow>
     worker_step i s (worker_exit i s)"
| w_clear: "w_pc (workers s ! i) = W_Clear \<Longrightarrow>
     worker_step i s (goto i W_Loop (s\<lparr>activeQueuedID := []\<rparr>))"

text \<open>
  The rule \<open>w_retry\<close> covers both other branches of the \<^verbatim>\<open>select\<close> after a refused
  admission: the queue changed, or the one-second timer fired, which it may always do.
\<close>

section \<open>All steps of a session\<close>

text \<open>
  One step is one critical section: an operation of a caller, a call of a closure some operation
  returned, a setter of the session's metadata, configuration or activity fields
  (\<^verbatim>\<open>registry.go\<close>), or a move of a worker.
\<close>

inductive session_step :: "session \<Rightarrow> session \<Rightarrow> bool" where
  st_submit: "session_step s (snd (submitReady tid fn ready s))"
| st_reserve: "session_step s (snd (reserveQueued tid act excl s))"
| st_cancel: "session_step s (snd (CancelQueued tid s))"
| st_closure: "session_step s (call_closure k remove s)"
| st_defer: "session_step s (snd (DeferActiveNamed tid ready fn s))"
| st_prepare: "session_step s (snd (PrepareEndTurn now s))"
| st_stopping: "session_step s (MarkStopping s)"
| st_restore: "session_step s (snd (RestoreStreamingAfterUnconfirmedStop rid s))"
| st_close: "session_step s (Close s)"
| st_hold: "session_step s (snd (HoldQueue s))"
| st_future: "session_step s (snd (SetFutureConfiguration c e s))"
| st_future_restore: "session_step s (RestoreFutureConfiguration b s)"
| st_activate: "session_step s (snd (ActivateQueuedConfiguration c s))"
| st_configure: "session_step s (snd (snd (ReserveConfiguration e s)))"
| st_revision: "session_step s (SetConfigRevision n s)"
| st_fields: "session_step s (s\<lparr>meta := m, config := c, lastActivity := a\<rparr>)"
| st_worker: "i < length (workers s) \<Longrightarrow> worker_step i s t \<Longrightarrow> session_step s t"

definition fresh_session :: "session \<Rightarrow> bool" where
  "fresh_session s \<longleftrightarrow> (\<exists>sid now m c. s = new_session sid now m c)"

end
