(* ===== verification/Session_Registry.thy ===== *)
theory Session_Registry
  imports Session_Store Turn_Queue
begin

text \<open>
  The session registry (\<^verbatim>\<open>internal/session/registry.go\<close>): the mutators of one session, the
  table of sessions, restoring it from the store with legacy duplicates collapsed, the two
  compare-and-persist commits (preview and name) with their roll-back, pruning, and the upsert by
  which native transcripts are merged into the table.

  The Go map \<^verbatim>\<open>sessions\<close> is an association list with distinct keys, in the order an
  iteration happens to take; every theorem holds for every order. A registry operation that
  persists is one step, since \<^verbatim>\<open>mutationMu\<close> is held throughout. The clock is an argument:
  \<open>now_ms\<close> in milliseconds, \<open>now_s\<close> in whole seconds, \<open>now\<close> as
  \<^verbatim>\<open>nowSeconds()\<close>.
\<close>

section \<open>Mutators of a session\<close>

definition SetName :: "string \<Rightarrow> session \<Rightarrow> session" where
  "SetName n s = s\<lparr>meta := (meta s)\<lparr>name := n\<rparr>\<rparr>"

definition SetEffort :: "string \<Rightarrow> session \<Rightarrow> session" where
  "SetEffort e s = s\<lparr>config := (config s)\<lparr>cfg_Effort := e\<rparr>\<rparr>"

definition SetModel :: "string \<Rightarrow> session \<Rightarrow> session" where
  "SetModel m s = s\<lparr>config := (config s)\<lparr>cfg_Model := m\<rparr>\<rparr>"

definition opt_or :: "'a option \<Rightarrow> 'a \<Rightarrow> 'a" where
  "opt_or v d = (case v of None \<Rightarrow> d | Some x \<Rightarrow> x)"

definition ApplyCodexSettings ::
  "string option \<Rightarrow> string option \<Rightarrow> string option \<Rightarrow> session \<Rightarrow> session" where
  "ApplyCodexSettings tier mode pers s =
     s\<lparr>config := (config s)\<lparr>cfg_ServiceTier := opt_or tier (cfg_ServiceTier (config s)),
                            cfg_CollaborationMode := opt_or mode (cfg_CollaborationMode (config s)),
                            cfg_Personality := opt_or pers (cfg_Personality (config s))\<rparr>\<rparr>"

definition RestoreConfig :: "snapshot \<Rightarrow> session \<Rightarrow> session" where
  "RestoreConfig sn s =
     s\<lparr>config := (sn_config sn)\<lparr>cfg_Revision := cfg_Revision (config s)\<rparr>\<rparr>"

definition SetMeta :: "bool option \<Rightarrow> bool option \<Rightarrow> session \<Rightarrow> session" where
  "SetMeta p h s =
     s\<lparr>meta := (meta s)\<lparr>pinned := opt_or p (pinned (meta s)), hidden := opt_or h (hidden (meta s))\<rparr>\<rparr>"

definition non_empty_or :: "string \<Rightarrow> string \<Rightarrow> string" where
  "non_empty_or v d = (if v \<noteq> [] then v else d)"

definition ApplyConfig :: "string \<Rightarrow> string \<Rightarrow> string \<Rightarrow> session \<Rightarrow> session" where
  "ApplyConfig backend model sandbox s =
     s\<lparr>config := (config s)\<lparr>cfg_Backend := non_empty_or backend (cfg_Backend (config s)),
                            cfg_Model := non_empty_or model (cfg_Model (config s)),
                            cfg_Sandbox := non_empty_or sandbox (cfg_Sandbox (config s))\<rparr>\<rparr>"

definition appendUniqueResumeID :: "string list \<Rightarrow> string \<Rightarrow> string \<Rightarrow> string list" where
  "appendUniqueResumeID ids rid active =
     (if rid = [] \<or> rid = active then ids
      else if rid \<in> set ids then ids
      else ids @ [rid])"

definition SetResumeID :: "string \<Rightarrow> session \<Rightarrow> session" where
  "SetResumeID rid s =
     (let m = meta s;
          h = (if rid \<noteq> [] \<and> resumeID m \<noteq> [] \<and> resumeID m \<noteq> rid
               then appendUniqueResumeID (historicalResumeIDs m) (resumeID m) rid
               else historicalResumeIDs m)
      in s\<lparr>meta := m\<lparr>historicalResumeIDs := h, resumeID := rid\<rparr>\<rparr>)"

definition ClearResumeIDs :: "session \<Rightarrow> session" where
  "ClearResumeIDs s = s\<lparr>meta := (meta s)\<lparr>resumeID := [], historicalResumeIDs := []\<rparr>\<rparr>"

definition AddHistoricalResumeID :: "string \<Rightarrow> session \<Rightarrow> session" where
  "AddHistoricalResumeID rid s =
     (if rid = [] then s
      else s\<lparr>meta := (meta s)\<lparr>historicalResumeIDs :=
               appendUniqueResumeID (historicalResumeIDs (meta s)) rid (resumeID (meta s))\<rparr>\<rparr>)"

definition ResumeIDs :: "session \<Rightarrow> string list" where
  "ResumeIDs s =
     (if resumeID (meta s) \<noteq> []
      then appendUniqueResumeID (historicalResumeIDs (meta s)) (resumeID (meta s)) []
      else historicalResumeIDs (meta s))"

definition SetContext :: "int \<Rightarrow> int \<Rightarrow> session \<Rightarrow> session" where
  "SetContext used mx s =
     (let m1 = (if 0 \<le> used then (meta s)\<lparr>contextUsed := used, contextUsedKnown := True\<rparr> else meta s);
          m2 = (if 0 \<le> mx then m1\<lparr>contextMax := mx\<rparr> else m1)
      in s\<lparr>meta := m2\<rparr>)"

definition raise_activity :: "real \<Rightarrow> session \<Rightarrow> session" where
  "raise_activity ts s = (if lastActivity s < ts then s\<lparr>lastActivity := ts\<rparr> else s)"

definition SetLastActivity :: "real \<Rightarrow> session \<Rightarrow> session" where
  "SetLastActivity ts s = (if ts \<le> 0 then s else raise_activity ts s)"

section \<open>The registry\<close>

record registry =
  sessions :: "(string \<times> session) list"
  reg_store :: "store option"

definition NewRegistry :: registry where
  "NewRegistry = \<lparr>sessions = [], reg_store = None\<rparr>"

datatype reg_error =
    ErrRenameConflict
  | ErrRenameEmpty
  | ErrPreviewInvalid
  | ErrSessionMissing
  | ErrPersist store_error

definition Get :: "string \<Rightarrow> registry \<Rightarrow> session option" where
  "Get sid r = map_of (sessions r) sid"

definition List :: "registry \<Rightarrow> session list" where
  "List r = map snd (sessions r)"

definition put_session :: "string \<Rightarrow> session \<Rightarrow> registry \<Rightarrow> registry" where
  "put_session sid s r = r\<lparr>sessions := AList.update sid s (sessions r)\<rparr>"

text \<open>\<open>Delete\<close> also returns the session it closed.\<close>

definition Delete :: "string \<Rightarrow> registry \<Rightarrow> session option \<times> registry" where
  "Delete sid r =
     (map_option Close (Get sid r), r\<lparr>sessions := AList.delete sid (sessions r)\<rparr>)"

definition empty_meta :: session_meta where
  "empty_meta =
     \<lparr>name = [], metadataRevision = 0, nameUpdatedAt = 0, nameUpdatedBy = [],
      lastNameMutationID = [], cwd = [], resumeID = [], historicalResumeIDs = [], pinned = False,
      hidden = False, previewText = [], previewRole = [], previewUpdatedAt = 0,
      previewRevision = 0, contextUsed = 0, contextMax = 0, contextUsedKnown = False\<rparr>"

definition empty_config :: configuration where
  "empty_config =
     \<lparr>cfg_Revision = 0, cfg_Backend = [], cfg_Model = [], cfg_Sandbox = [], cfg_Effort = [],
      cfg_ServiceTier = [], cfg_CollaborationMode = [], cfg_Personality = []\<rparr>"

definition Create ::
  "real \<Rightarrow> string \<Rightarrow> string \<Rightarrow> string \<Rightarrow> string \<Rightarrow> string \<Rightarrow> string \<Rightarrow> string \<Rightarrow> registry
    \<Rightarrow> session \<times> registry" where
  "Create now sid nm dir backend model sandbox rid r =
     (case Get sid r of
        Some s \<Rightarrow> (s, r)
      | None \<Rightarrow>
          let s = new_session sid now (empty_meta\<lparr>name := nm, cwd := dir, resumeID := rid\<rparr>)
                    (empty_config\<lparr>cfg_Backend := backend, cfg_Model := model, cfg_Sandbox := sandbox\<rparr>)
          in (s, put_session sid s r))"

section \<open>Restoring\<close>

fun firstNonEmptyRegistry :: "string list \<Rightarrow> string" where
  "firstNonEmptyRegistry [] = []"
| "firstNonEmptyRegistry (v # vs) = (if v \<noteq> [] then v else firstNonEmptyRegistry vs)"

definition preferSavedSession :: "string \<Rightarrow> savedEntry \<Rightarrow> string \<Rightarrow> savedEntry \<Rightarrow> bool" where
  "preferSavedSession sid e pid p =
     (let app = \<not> has_prefix sid ''jl_''; papp = \<not> has_prefix pid ''jl_'' in
      if app \<noteq> papp then app
      else if e_Pinned e \<noteq> e_Pinned p then e_Pinned e
      else if e_LastUsed e \<noteq> e_LastUsed p then e_LastUsed e > e_LastUsed p
      else if e_CreatedAt e \<noteq> e_CreatedAt p then e_CreatedAt e > e_CreatedAt p
      else sid < pid)"

definition resume_of :: "savedEntry \<Rightarrow> string" where
  "resume_of e = firstNonEmptyRegistry [e_ResumeID e, e_ClaudeUUID e]"

type_synonym collapse = "(string \<rightharpoonup> string) \<times> string list"

text \<open>One iteration over the sorted identifiers; the second component is \<^verbatim>\<open>keep\<close>.\<close>

definition collapse_row :: "(string \<Rightarrow> savedEntry) \<Rightarrow> string \<Rightarrow> collapse \<Rightarrow> collapse" where
  "collapse_row loaded sid acc =
     (case acc of (chosen, keep) \<Rightarrow>
        let rid = resume_of (loaded sid) in
        if rid = [] then (chosen, sid # keep)
        else case chosen rid of
            None \<Rightarrow> (chosen(rid \<mapsto> sid), sid # keep)
          | Some pid \<Rightarrow>
              if preferSavedSession sid (loaded sid) pid (loaded pid)
              then (chosen(rid \<mapsto> sid), sid # removeAll pid keep)
              else (chosen, keep))"

definition entry_at :: "(string \<times> savedEntry) list \<Rightarrow> string \<Rightarrow> savedEntry" where
  "entry_at loaded sid = the (map_of loaded sid)"

definition canonicalSavedSessionIDs :: "(string \<times> savedEntry) list \<Rightarrow> string list" where
  "canonicalSavedSessionIDs loaded =
     sort (snd (fold (collapse_row (entry_at loaded)) (sort (map fst loaded)) (Map.empty, [])))"

definition restored_session :: "string \<Rightarrow> savedEntry \<Rightarrow> session" where
  "restored_session sid e =
     (let resume = (if e_ResumeID e = [] then e_ClaudeUUID e else e_ResumeID e);
          created = (if e_CreatedAt e = 0 then real_of_int (e_LastUsed e) else e_CreatedAt e);
          m = \<lparr>name = e_Name e, metadataRevision = e_MetadataRevision e,
               nameUpdatedAt = e_NameUpdatedAt e, nameUpdatedBy = e_NameUpdatedBy e,
               lastNameMutationID = e_LastNameMutationID e, cwd = e_Cwd e, resumeID = resume,
               historicalResumeIDs = e_HistoricalResumeIDs e, pinned = e_Pinned e,
               hidden = e_Hidden e, previewText = e_PreviewText e, previewRole = e_PreviewRole e,
               previewUpdatedAt = e_PreviewUpdatedAt e, previewRevision = e_PreviewRevision e,
               contextUsed = 0, contextMax = 0, contextUsedKnown = False\<rparr>;
          c = \<lparr>cfg_Revision = e_ConfigRevision e, cfg_Backend = e_Backend e,
               cfg_Model = e_Model e, cfg_Sandbox = e_Sandbox e, cfg_Effort = e_Effort e,
               cfg_ServiceTier = e_ServiceTier e, cfg_CollaborationMode = e_CollaborationMode e,
               cfg_Personality = e_Personality e\<rparr>;
          s = (new_session sid created m c)\<lparr>lastActivity := real_of_int (e_LastUsed e)\<rparr>
      in raise_activity (real_of_int (e_PreviewUpdatedAt e) / 1000) s)"

definition AttachStore :: "disk_env \<Rightarrow> int \<Rightarrow> store \<Rightarrow> registry \<Rightarrow> registry" where
  "AttachStore env now_s st r =
     (case Load env st of (loaded, st1) \<Rightarrow>
        let ids = canonicalSavedSessionIDs loaded;
            r1 = fold (\<lambda>sid. put_session sid (restored_session sid (entry_at loaded sid))) ids
                   (r\<lparr>reg_store := Some st1\<rparr>)
        in if length ids \<noteq> length loaded
           then r1\<lparr>reg_store := Some (snd (Save env now_s (List r1) st1))\<rparr>
           else r1)"

section \<open>Persisting\<close>

definition PersistDurably :: "disk_env \<Rightarrow> int \<Rightarrow> registry \<Rightarrow> store_error option \<times> registry" where
  "PersistDurably env now_s r =
     (case reg_store r of
        None \<Rightarrow> (None, r)
      | Some st \<Rightarrow>
          (case Save env now_s (List r) st of (err, st') \<Rightarrow> (err, r\<lparr>reg_store := Some st'\<rparr>)))"

definition Persist :: "disk_env \<Rightarrow> int \<Rightarrow> registry \<Rightarrow> registry" where
  "Persist env now_s r = snd (PersistDurably env now_s r)"

type_synonym commit_result = "snapshot option \<times> bool \<times> reg_error option"

text \<open>
  The shape of the three commits: \<open>change\<close> is applied to the session in memory, the table is
  saved, and a failed save applies \<open>undo\<close>. A panic in the save unwinds without undoing.
\<close>

definition commit_session ::
  "disk_env \<Rightarrow> int \<Rightarrow> string \<Rightarrow> session \<Rightarrow> session \<Rightarrow> session \<Rightarrow> registry
    \<Rightarrow> commit_result \<times> registry" where
  "commit_session env now_s sid before after undone r =
     (case PersistDurably env now_s (put_session sid after r) of (err, r') \<Rightarrow>
        case err of
          None \<Rightarrow> ((Some (snapshotLocked after), True, None), r')
        | Some NilMapPanic \<Rightarrow> ((None, False, Some (ErrPersist NilMapPanic)), r')
        | Some e \<Rightarrow> ((Some (snapshotLocked before), False, Some (ErrPersist e)),
                      put_session sid undone r'))"

definition preview_role_ok :: "string \<Rightarrow> bool" where
  "preview_role_ok role \<longleftrightarrow> role = ''user'' \<or> role = ''assistant''"

definition set_preview :: "string \<Rightarrow> string \<Rightarrow> int \<Rightarrow> session \<Rightarrow> session" where
  "set_preview msg role ts s =
     s\<lparr>meta := (meta s)\<lparr>previewText := msg, previewRole := role, previewUpdatedAt := ts,
                         previewRevision := u64_succ (previewRevision (meta s))\<rparr>\<rparr>"

text \<open>The undo of a preview commit, applied to the session as it then is.\<close>

definition undo_preview :: "session \<Rightarrow> session \<Rightarrow> session \<Rightarrow> session" where
  "undo_preview before after s =
     (if previewRevision (meta s) = previewRevision (meta after)
      then s\<lparr>meta := (meta s)\<lparr>previewText := previewText (meta before),
                               previewRole := previewRole (meta before),
                               previewUpdatedAt := previewUpdatedAt (meta before),
                               previewRevision := previewRevision (meta before)\<rparr>\<rparr>
      else s)"

definition undo_activity :: "session \<Rightarrow> session \<Rightarrow> session \<Rightarrow> session" where
  "undo_activity before after s =
     (if previewRevision (meta s) = previewRevision (meta after) \<and> lastActivity s = lastActivity after
      then s\<lparr>lastActivity := lastActivity before\<rparr> else s)"

definition CommitPreviewAndPersist ::
  "disk_env \<Rightarrow> int \<Rightarrow> string \<Rightarrow> string \<Rightarrow> string \<Rightarrow> int \<Rightarrow> registry \<Rightarrow> commit_result \<times> registry" where
  "CommitPreviewAndPersist env now_s sid text0 role0 ts r =
     (let msg = trim_space text0; role = trim_space role0 in
      if msg = [] \<or> \<not> preview_role_ok role \<or> ts \<le> 0
      then ((None, False, Some ErrPreviewInvalid), r)
      else case Get sid r of
          None \<Rightarrow> ((None, False, Some ErrSessionMissing), r)
        | Some s \<Rightarrow>
            if ts < previewUpdatedAt (meta s)
               \<or> (ts = previewUpdatedAt (meta s) \<and> previewText (meta s) = msg
                   \<and> previewRole (meta s) = role)
            then ((Some (snapshotLocked s), False, None), r)
            else let after = raise_activity (real_of_int ts / 1000) (set_preview msg role ts s)
                 in commit_session env now_s sid s after
                      (undo_preview s after (undo_activity s after after)) r)"

definition RepairPreviewAndPersist ::
  "disk_env \<Rightarrow> int \<Rightarrow> string \<Rightarrow> string \<Rightarrow> string \<Rightarrow> string \<Rightarrow> int \<Rightarrow> registry
    \<Rightarrow> commit_result \<times> registry" where
  "RepairPreviewAndPersist env now_s sid expected text0 role0 ts r =
     (let msg = trim_space text0; role = trim_space role0 in
      if expected = [] \<or> msg = [] \<or> \<not> preview_role_ok role \<or> ts \<le> 0
      then ((None, False, Some ErrPreviewInvalid), r)
      else case Get sid r of
          None \<Rightarrow> ((None, False, Some ErrSessionMissing), r)
        | Some s \<Rightarrow>
            if previewText (meta s) \<noteq> expected \<or> previewRole (meta s) \<noteq> ''assistant''
            then ((Some (snapshotLocked s), False, None), r)
            else let after = set_preview msg role ts s
                 in commit_session env now_s sid s after (undo_preview s after after) r)"

definition undo_name :: "session \<Rightarrow> session \<Rightarrow> session" where
  "undo_name before s =
     s\<lparr>meta := (meta s)\<lparr>name := name (meta before),
                         metadataRevision := metadataRevision (meta before),
                         nameUpdatedAt := nameUpdatedAt (meta before),
                         nameUpdatedBy := nameUpdatedBy (meta before),
                         lastNameMutationID := lastNameMutationID (meta before)\<rparr>\<rparr>"

definition RenameAndPersist ::
  "disk_env \<Rightarrow> int \<Rightarrow> int \<Rightarrow> string \<Rightarrow> string \<Rightarrow> string \<Rightarrow> string \<Rightarrow> u64 option \<Rightarrow> registry
    \<Rightarrow> commit_result \<times> registry" where
  "RenameAndPersist env now_s now_ms sid name0 by0 mutationID expected r =
     (let nm = trim_space name0 in
      if nm = [] then ((None, False, Some ErrRenameEmpty), r)
      else case Get sid r of
          None \<Rightarrow> ((None, False, Some ErrSessionMissing), r)
        | Some s \<Rightarrow>
            let before = snapshotLocked s in
            if mutationID \<noteq> [] \<and> lastNameMutationID (meta s) = mutationID
            then ((Some before, False, None), r)
            else if expected \<noteq> None \<and> expected \<noteq> Some (metadataRevision (meta s))
            then ((Some before, False, Some ErrRenameConflict), r)
            else if name (meta s) = nm then ((Some before, False, None), r)
            else let after = s\<lparr>meta := (meta s)\<lparr>name := nm,
                                metadataRevision := u64_succ (metadataRevision (meta s)),
                                nameUpdatedAt := now_ms, nameUpdatedBy := trim_space by0,
                                lastNameMutationID := mutationID\<rparr>\<rparr>
                 in commit_session env now_s sid s after (undo_name s after) r)"

section \<open>Pruning\<close>

definition PruneCodexSessions ::
  "disk_env \<Rightarrow> int \<Rightarrow> (string \<Rightarrow> string \<Rightarrow> bool) option \<Rightarrow> registry \<Rightarrow> nat \<times> registry" where
  "PruneCodexSessions env now_s ignore r =
     (case ignore of
        None \<Rightarrow> (0, r)
      | Some f \<Rightarrow>
          let dead = (\<lambda>(sid, s). cfg_Backend (config s) = ''codex'' \<and> f (cwd (meta s)) (name (meta s)));
              removed = length (filter dead (sessions r));
              r1 = r\<lparr>sessions := filter (\<lambda>p. \<not> dead p) (sessions r)\<rparr>
          in (removed, if removed > 0 then Persist env now_s r1 else r1))"

definition native_alias :: "string \<Rightarrow> session \<Rightarrow> bool" where
  "native_alias sid s \<longleftrightarrow>
     (let b = cfg_Backend (config s); rid = resumeID (meta s) in
      (b = ''codex'' \<or> b = ''claude'') \<and> 12 \<le> length rid
      \<and> (sid = (if b = ''codex'' then ''jl_x_'' else ''jl_c_'') @ take 12 rid
          \<or> has_prefix sid ''s_''))"

definition retirable :: "session \<Rightarrow> bool" where
  "retirable s \<longleftrightarrow> state s = Idle \<and> mailbox s = [] \<and> queueHolds s = 0 \<and> activeQueuedID s = []
     \<and> \<not> configUpdating s"

text \<open>Closing under the session's lock, before the row is removed.\<close>

definition retire :: "session \<Rightarrow> session" where
  "retire s =
     (let s1 = (opt_close (turnDone s) (s\<lparr>state := Closed\<rparr>))\<lparr>turnDone := None\<rparr>;
          s2 = (opt_close (quit s1) s1)\<lparr>quit := None, queueHolds := 0\<rparr>
      in (signalQueueLocked s2)\<lparr>workerUp := False\<rparr>)"

definition PruneMissingNativeSessions ::
  "disk_env \<Rightarrow> int \<Rightarrow> (snapshot \<Rightarrow> bool) option \<Rightarrow> registry \<Rightarrow> session list \<times> registry" where
  "PruneMissingNativeSessions env now_s missing r =
     (case missing of
        None \<Rightarrow> ([], r)
      | Some f \<Rightarrow>
          let dead = (\<lambda>(sid, s). native_alias sid s \<and> f (snapshotLocked s) \<and> retirable s);
              removed = map (\<lambda>(sid, s). retire s) (filter dead (sessions r));
              r1 = r\<lparr>sessions := filter (\<lambda>p. \<not> dead p) (sessions r)\<rparr>
          in (removed, if removed \<noteq> [] then Persist env now_s r1 else r1))"

section \<open>Native conversations\<close>

definition better_match :: "session \<Rightarrow> session \<Rightarrow> session" where
  "better_match s best =
     (if lastActivity s > lastActivity best
         \<or> (lastActivity s = lastActivity best \<and> ID s < ID best)
      then s else best)"

fun best_match :: "string \<Rightarrow> session list \<Rightarrow> session option \<Rightarrow> session option" where
  "best_match rid [] best = best"
| "best_match rid (s # ss) best =
     (if resumeID (meta s) \<noteq> rid then best_match rid ss best
      else best_match rid ss
             (Some (case best of None \<Rightarrow> s | Some b \<Rightarrow> better_match s b)))"

definition FindByResumeID :: "string \<Rightarrow> registry \<Rightarrow> session option" where
  "FindByResumeID rid r = (if rid = [] then None else best_match rid (List r) None)"

definition HasResumeID :: "string \<Rightarrow> registry \<Rightarrow> bool" where
  "HasResumeID rid r \<longleftrightarrow> \<not> Option.is_none (FindByResumeID rid r)"

definition own_alias :: "string \<Rightarrow> session \<Rightarrow> bool" where
  "own_alias sid s \<longleftrightarrow> ID s = sid \<and> has_prefix (ID s) ''jl_''"

text \<open>The row that already represents the conversation is refreshed.\<close>

definition refresh_known :: "string \<Rightarrow> string \<Rightarrow> string \<Rightarrow> string \<Rightarrow> real \<Rightarrow> session \<Rightarrow> session" where
  "refresh_known sid nm dir backend activity s =
     (let m = meta s;
          n' = (if metadataRevision m = 0 \<and> (name m = [] \<or> own_alias sid s) then nm else name m);
          d' = (if cwd m = [] \<or> own_alias sid s then dir else cwd m);
          b' = (if cfg_Backend (config s) = [] then backend else cfg_Backend (config s))
      in raise_activity activity
           (s\<lparr>meta := m\<lparr>name := n', cwd := d'\<rparr>, config := (config s)\<lparr>cfg_Backend := b'\<rparr>\<rparr>))"

text \<open>The row with the alias exists, but for another conversation or for none.\<close>

definition adopt_alias :: "string \<Rightarrow> string \<Rightarrow> string \<Rightarrow> string \<Rightarrow> real \<Rightarrow> session \<Rightarrow> session" where
  "adopt_alias rid nm dir backend activity s =
     (let m = meta s in
      raise_activity activity
        (if resumeID m \<noteq> [] \<and> resumeID m \<noteq> rid
         then s\<lparr>meta := m\<lparr>historicalResumeIDs :=
                  appendUniqueResumeID (historicalResumeIDs m) rid (resumeID m)\<rparr>\<rparr>
         else s\<lparr>meta := m\<lparr>resumeID := rid,
                           name := (if metadataRevision m = 0 then nm else name m), cwd := dir\<rparr>,
                config := (config s)\<lparr>cfg_Backend := backend\<rparr>\<rparr>))"

definition row_changed :: "session \<Rightarrow> session \<Rightarrow> bool" where
  "row_changed s t \<longleftrightarrow> name (meta s) \<noteq> name (meta t) \<or> cwd (meta s) \<noteq> cwd (meta t)
     \<or> cfg_Backend (config s) \<noteq> cfg_Backend (config t)"

definition adopted_changed :: "string \<Rightarrow> session \<Rightarrow> session \<Rightarrow> bool" where
  "adopted_changed rid s t \<longleftrightarrow>
     (if resumeID (meta s) \<noteq> [] \<and> resumeID (meta s) \<noteq> rid
      then length (historicalResumeIDs (meta t)) \<noteq> length (historicalResumeIDs (meta s))
      else row_changed s t \<or> resumeID (meta s) \<noteq> resumeID (meta t))"

definition UpsertExternal ::
  "real \<Rightarrow> string \<Rightarrow> string \<Rightarrow> string \<Rightarrow> string \<Rightarrow> string \<Rightarrow> int \<Rightarrow> registry
    \<Rightarrow> (session option \<times> bool) \<times> registry" where
  "UpsertExternal now sid name0 dir backend rid lastUsed r =
     (if sid = [] \<or> rid = [] then ((None, False), r)
      else let nm = (if name0 = [] then take 8 rid else name0);
               activity = (if lastUsed \<le> 0 then now else real_of_int lastUsed)
           in case find (\<lambda>(k, s). resumeID (meta s) = rid) (sessions r) of
               Some (k, s) \<Rightarrow>
                 let t = refresh_known sid nm dir backend activity s
                 in ((Some t, row_changed s t), put_session k t r)
             | None \<Rightarrow>
                 (case Get sid r of
                    Some s \<Rightarrow>
                      let t = adopt_alias rid nm dir backend activity s
                      in ((Some t, adopted_changed rid s t), put_session sid t r)
                  | None \<Rightarrow>
                      let s = new_session sid activity
                                (empty_meta\<lparr>name := nm, cwd := dir, resumeID := rid\<rparr>)
                                (empty_config\<lparr>cfg_Backend := backend\<rparr>)
                      in ((Some s, True), put_session sid s r)))"

end
