(* ===== verification/Turn_Invariant.thy ===== *)
theory Turn_Invariant
  imports Turn_Queue
begin

text \<open>
  The invariant of the turn queue and its preservation by every critical section.
\<close>

section \<open>Vocabulary of the invariant\<close>

lemma held_of_simps [simp]:
  "\<not> held_of None" "held_of (Some t) = qt_held t"
  "held_of (map_option (qt_held_update (\<lambda>_. b)) c) = (b \<and> c \<noteq> None)"
  by (simp_all add: held_of_def split: option.split)

lemma id_of_simps [simp]:
  "id_of None = None" "id_of (Some t) = Some (qt_id t)"
  by (simp_all add: id_of_def)

lemma id_of_held [simp]: "id_of (map_option (qt_held_update f) c) = id_of c"
  by (cases c) simp_all

definition opt_list :: "'a option \<Rightarrow> 'a list" where
  "opt_list x = (case x of None \<Rightarrow> [] | Some y \<Rightarrow> [y])"

lemma opt_list_simps [simp]:
  "opt_list None = []" "opt_list (Some x) = [x]" "distinct (opt_list y)"
  by (simp_all add: opt_list_def split: option.split)

lemma set_opt_list [simp]: "set (opt_list y) = set_option y"
  by (cases y) simp_all

fun reserved_of :: "(nat \<times> closure) list \<Rightarrow> nat list" where
  "reserved_of [] = []"
| "reserved_of ((_, FinishQueued r) # ps) = r # reserved_of ps"
| "reserved_of (_ # ps) = reserved_of ps"

fun released_of :: "(nat \<times> closure) list \<Rightarrow> nat list" where
  "released_of [] = []"
| "released_of ((_, ReleaseTurn (Some c)) # ps) = c # released_of ps"
| "released_of (_ # ps) = released_of ps"

definition is_hold :: "closure \<Rightarrow> bool" where
  "is_hold c = (case c of ReleaseTurn _ \<Rightarrow> False | _ \<Rightarrow> True)"

lemma is_hold_simps [simp]:
  "is_hold (FinishQueued r)" "\<not> is_hold (ReleaseTurn x)" "is_hold ReleaseHold" "is_hold ReleaseConfig"
  by (simp_all add: is_hold_def)

definition holders :: "session \<Rightarrow> nat" where
  "holders s = length (filter (\<lambda>p. is_hold (snd p)) (pending s))"

definition configs :: "session \<Rightarrow> nat" where
  "configs s = length (filter (\<lambda>p. snd p = ReleaseConfig) (pending s))"

definition exits :: "worker list \<Rightarrow> nat list" where
  "exits ws = map w_exited (filter (\<lambda>w. w_pc w \<noteq> W_Exited) ws)"

definition live_of :: "nat option \<Rightarrow> nat option \<Rightarrow> nat option \<Rightarrow> (nat \<times> closure) list \<Rightarrow> worker list \<Rightarrow> nat list" where
  "live_of td qc q ps ws = opt_list td @ opt_list qc @ opt_list q @ released_of ps @ exits ws"

abbreviation live :: "session \<Rightarrow> nat list" where
  "live s \<equiv> live_of (turnDone s) (queueChanged s) (quit s) (pending s) (workers s)"

definition in_turn :: "worker_pc \<Rightarrow> nat \<Rightarrow> bool" where
  "in_turn pc c \<longleftrightarrow> pc = W_WaitDone c \<or> (\<exists>r. pc = W_Run r c)"

definition off_turn :: "worker_pc \<Rightarrow> bool" where
  "off_turn pc = (case pc of W_Loop \<Rightarrow> True | W_WaitQueue _ \<Rightarrow> True | W_Ready _ \<Rightarrow> True
                   | W_WaitReady _ \<Rightarrow> True | _ \<Rightarrow> False)"

section \<open>The invariant\<close>

definition chan_inv :: "session \<Rightarrow> bool" where
  "chan_inv s \<longleftrightarrow> \<not> panicked s \<and> distinct (live s) \<and> (\<forall>c\<in>set (live s). c \<notin> closed_chans s \<and> c < fresh s)
     \<and> (\<forall>c\<in>closed_chans s. c < fresh s)"

definition heap_inv :: "session \<Rightarrow> bool" where
  "heap_inv s \<longleftrightarrow> distinct (mailbox s) \<and> (\<forall>r\<in>set (mailbox s). turns s r \<noteq> None)
     \<and> (\<forall>r. turns s r \<noteq> None \<longrightarrow> r < fresh s)
     \<and> distinct (map fst (pending s)) \<and> (\<forall>p\<in>set (pending s). fst p < fresh s)"

definition hold_inv :: "session \<Rightarrow> bool" where
  "hold_inv s \<longleftrightarrow> distinct (reserved_of (pending s)) \<and>
     (if state s = Closed
      then mailbox s = [] \<and> queueHolds s = 0 \<and> (\<forall>r\<in>set (reserved_of (pending s)). \<not> turn_held s r)
      else set (reserved_of (pending s)) = {r \<in> set (mailbox s). turn_held s r}
           \<and> queueHolds s = int (holders s))"

definition conf_inv :: "session \<Rightarrow> bool" where
  "conf_inv s \<longleftrightarrow> configs s = (if configUpdating s then 1 else 0)
     \<and> (configUpdating s \<and> state s \<noteq> Closed \<longrightarrow> state s = Idle)"

definition work_inv :: "session \<Rightarrow> bool" where
  "work_inv s \<longleftrightarrow> length (workers s) \<le> 1 \<and> workerUp s = (state s \<noteq> Closed \<and> workers s \<noteq> [])
     \<and> (\<forall>w\<in>set (workers s).
          workerDone s = Some (w_exited w) \<and> queueChanged s \<noteq> None
          \<and> (w_pc w = W_Exited \<longrightarrow> state s = Closed \<and> w_exited w \<in> closed_chans s)
          \<and> (if state s = Closed then w_quit w \<in> closed_chans s else quit s = Some (w_quit w)))
     \<and> (workers s = [] \<longrightarrow> workerDone s = None) \<and> (workers s = [] \<or> state s = Closed \<longrightarrow> quit s = None)"

definition turn_inv :: "session \<Rightarrow> bool" where
  "turn_inv s \<longleftrightarrow> IsStreaming s = (turnDone s \<noteq> None)
     \<and> (\<forall>c. turnDone s = Some c \<longrightarrow> (\<exists>w\<in>set (workers s). in_turn (w_pc w) c))
     \<and> (\<forall>w\<in>set (workers s). \<forall>c. in_turn (w_pc w) c \<longrightarrow>
          c \<in> closed_chans s \<or> turnDone s = Some c \<or> c \<in> set (released_of (pending s)))
     \<and> (\<forall>w\<in>set (workers s). \<forall>c. w_pc w = W_WaitQueue c \<longrightarrow>
          fired s c \<or> c = queueChanged s \<and> (mailbox s = [] \<or> queueHolds s > 0))"

definition id_inv :: "session \<Rightarrow> bool" where
  "id_inv s \<longleftrightarrow> (\<forall>w\<in>set (workers s). off_turn (w_pc w) \<longrightarrow> activeQueuedID s = [])
     \<and> (workers s = [] \<longrightarrow> activeQueuedID s = [] \<and> mailbox s = [])
     \<and> (\<forall>r\<in>set (mailbox s). \<forall>r'\<in>set (mailbox s). \<forall>x. x \<noteq> [] \<longrightarrow> turn_id s r = Some x \<longrightarrow>
          turn_id s r' = Some x \<longrightarrow> r = r')
     \<and> (turnDone s \<noteq> None \<longrightarrow> activeQueuedID s \<noteq> [] \<longrightarrow>
          (\<forall>r\<in>set (mailbox s). turn_id s r \<noteq> Some (activeQueuedID s)))
     \<and> length (mailbox s) \<le> mailboxSize + (if turnDone s = None then 1 else 0)"

definition session_inv :: "session \<Rightarrow> bool" where
  "session_inv s \<longleftrightarrow> chan_inv s \<and> heap_inv s \<and> hold_inv s \<and> conf_inv s \<and> work_inv s
     \<and> turn_inv s \<and> id_inv s"

lemmas inv_defs = session_inv_def chan_inv_def heap_inv_def hold_inv_def conf_inv_def work_inv_def
  turn_inv_def id_inv_def

section \<open>Effects of the channel operations, field by field\<close>

lemma close_chan_fields [simp]:
  "state (close_chan c s) = state s" "mailbox (close_chan c s) = mailbox s"
  "queueHolds (close_chan c s) = queueHolds s" "activeQueuedID (close_chan c s) = activeQueuedID s"
  "queueChanged (close_chan c s) = queueChanged s" "quit (close_chan c s) = quit s"
  "workerUp (close_chan c s) = workerUp s" "workerDone (close_chan c s) = workerDone s"
  "turnDone (close_chan c s) = turnDone s" "turns (close_chan c s) = turns s"
  "workers (close_chan c s) = workers s" "pending (close_chan c s) = pending s"
  "fresh (close_chan c s) = fresh s" "configUpdating (close_chan c s) = configUpdating s"
  "futureConfig (close_chan c s) = futureConfig s" "config (close_chan c s) = config s"
  "closed_chans (close_chan c s) = insert c (closed_chans s)"
  "panicked (close_chan c s) = (panicked s \<or> c \<in> closed_chans s)"
  "IsStreaming (close_chan c s) = IsStreaming s"
  by (simp_all add: close_chan_def IsStreaming_def fun_eq_iff)

lemma signal_eq:
  "signalQueueLocked s =
     s\<lparr>queueChanged := Some (fresh s), fresh := Suc (fresh s),
       closed_chans := set_option (queueChanged s) \<union> closed_chans s,
       panicked := (panicked s \<or> set_option (queueChanged s) \<inter> closed_chans s \<noteq> {})\<rparr>"
  by (cases "queueChanged s") (simp_all add: signalQueueLocked_def close_chan_def)

lemma signal_fields [simp]:
  "state (signalQueueLocked s) = state s" "mailbox (signalQueueLocked s) = mailbox s"
  "queueHolds (signalQueueLocked s) = queueHolds s"
  "activeQueuedID (signalQueueLocked s) = activeQueuedID s"
  "queueChanged (signalQueueLocked s) = Some (fresh s)" "quit (signalQueueLocked s) = quit s"
  "workerUp (signalQueueLocked s) = workerUp s" "workerDone (signalQueueLocked s) = workerDone s"
  "turnDone (signalQueueLocked s) = turnDone s" "turns (signalQueueLocked s) = turns s"
  "workers (signalQueueLocked s) = workers s" "pending (signalQueueLocked s) = pending s"
  "fresh (signalQueueLocked s) = Suc (fresh s)"
  "configUpdating (signalQueueLocked s) = configUpdating s"
  "futureConfig (signalQueueLocked s) = futureConfig s" "config (signalQueueLocked s) = config s"
  "closed_chans (signalQueueLocked s) = set_option (queueChanged s) \<union> closed_chans s"
  "panicked (signalQueueLocked s) = (panicked s \<or> set_option (queueChanged s) \<inter> closed_chans s \<noteq> {})"
  "IsStreaming (signalQueueLocked s) = IsStreaming s"
  by (simp_all add: signal_eq IsStreaming_def fun_eq_iff)

text \<open>Signalling keeps the invariant, and makes any waiting worker runnable.\<close>

lemma signal_chan: "chan_inv s \<Longrightarrow> chan_inv (signalQueueLocked s)"
  by (auto simp: chan_inv_def live_of_def less_Suc_eq)

lemma signal_inv:
  assumes "chan_inv s" "heap_inv s" "hold_inv s" "conf_inv s" "work_inv s" "id_inv s"
    and "IsStreaming s = (turnDone s \<noteq> None)"
    and "\<And>c. turnDone s = Some c \<Longrightarrow> \<exists>w\<in>set (workers s). in_turn (w_pc w) c"
    and "\<And>w c. w \<in> set (workers s) \<Longrightarrow> in_turn (w_pc w) c \<Longrightarrow>
          c \<in> closed_chans s \<or> turnDone s = Some c \<or> c \<in> set (released_of (pending s))"
    and "\<And>w c. w \<in> set (workers s) \<Longrightarrow> w_pc w = W_WaitQueue c \<Longrightarrow> fired s c \<or> c = queueChanged s"
  shows "session_inv (signalQueueLocked s)"
proof -
  have "heap_inv (signalQueueLocked s)" using assms(2) by (auto simp: heap_inv_def)
  moreover have "hold_inv (signalQueueLocked s)"
    using assms(3) by (auto simp: hold_inv_def holders_def)
  moreover have "conf_inv (signalQueueLocked s)" using assms(4) by (auto simp: conf_inv_def configs_def)
  moreover have "work_inv (signalQueueLocked s)" using assms(5) by (auto simp: work_inv_def)
  moreover have "id_inv (signalQueueLocked s)" using assms(6) by (auto simp: id_inv_def)
  moreover have "fired (signalQueueLocked s) c"
    if w: "w \<in> set (workers s)" and pc: "w_pc w = W_WaitQueue c" for w c
  proof -
    have "queueChanged s \<noteq> None" using assms(5) w by (auto simp: work_inv_def)
    then show ?thesis using assms(10) [OF w pc] by (auto simp: fired_def)
  qed
  then have "turn_inv (signalQueueLocked s)" using assms(7-9) by (auto simp: turn_inv_def)
  ultimately show ?thesis using assms(1) signal_chan by (simp add: session_inv_def)
qed

section \<open>Preservation, operation by operation\<close>

lemma start_worker_inv:
  assumes "session_inv s" "state s \<noteq> Closed"
  shows "session_inv (start_worker s)"
proof (cases "workerUp s")
  case False
  with assms have w: "workers s = []" "quit s = None"
    by (auto simp: session_inv_def work_inv_def)
  moreover from w have t: "turnDone s = None" "activeQueuedID s = []"
    using assms by (auto simp: session_inv_def turn_inv_def id_inv_def)
  moreover have "\<not> IsStreaming s" using assms t by (auto simp: session_inv_def turn_inv_def)
  ultimately have parts: "workers s = []" "quit s = None" "turnDone s = None" "activeQueuedID s = []"
    "\<not> IsStreaming s" "\<not> workerUp s" "chan_inv s" "heap_inv s" "hold_inv s" "conf_inv s" "id_inv s"
    using False assms by (simp_all add: session_inv_def)
  have bound: "\<And>c. c \<in> set (released_of (pending s)) \<Longrightarrow> c < fresh s"
    using parts(7) by (auto simp: chan_inv_def live_of_def)
  have "chan_inv (start_worker s)"
    using parts(1-3,6,7) by (auto simp: chan_inv_def start_worker_def live_of_def exits_def dest!: bound)
  moreover have "heap_inv (start_worker s)" using parts by (fastforce simp: heap_inv_def start_worker_def)
  moreover have "hold_inv (start_worker s)" using parts
    by (simp add: hold_inv_def start_worker_def holders_def)
  moreover have "conf_inv (start_worker s)" using parts
    by (simp add: conf_inv_def start_worker_def configs_def)
  moreover have "work_inv (start_worker s)" using parts assms(2) by (simp add: work_inv_def start_worker_def)
  moreover have "turn_inv (start_worker s)" using parts
    by (simp add: turn_inv_def start_worker_def IsStreaming_def in_turn_def)
  moreover have "id_inv (start_worker s)" using parts
    by (simp add: id_inv_def start_worker_def)
  ultimately show ?thesis by (simp add: session_inv_def)
qed (use assms in \<open>simp add: start_worker_def\<close>)

lemma push_turn_fields [simp]:
  "state (push_turn f t s) = state s" "queueHolds (push_turn f t s) = queueHolds s"
  "activeQueuedID (push_turn f t s) = activeQueuedID s"
  "queueChanged (push_turn f t s) = queueChanged s" "quit (push_turn f t s) = quit s"
  "workerUp (push_turn f t s) = workerUp s" "workerDone (push_turn f t s) = workerDone s"
  "turnDone (push_turn f t s) = turnDone s" "workers (push_turn f t s) = workers s"
  "pending (push_turn f t s) = pending s" "fresh (push_turn f t s) = Suc (fresh s)"
  "configUpdating (push_turn f t s) = configUpdating s"
  "futureConfig (push_turn f t s) = futureConfig s" "config (push_turn f t s) = config s"
  "closed_chans (push_turn f t s) = closed_chans s" "panicked (push_turn f t s) = panicked s"
  "IsStreaming (push_turn f t s) = IsStreaming s"
  "turns (push_turn f t s) = (turns s)(fresh s := Some t)"
  "fired (push_turn f t s) = fired s"
  "set (mailbox (push_turn f t s)) = insert (fresh s) (set (mailbox s))"
  "length (mailbox (push_turn f t s)) = Suc (length (mailbox s))"
  by (simp_all add: push_turn_def fired_def IsStreaming_def fun_eq_iff)

lemma push_turn_distinct:
  "heap_inv s \<Longrightarrow> distinct (mailbox (push_turn f t s))"
  by (auto simp: push_turn_def heap_inv_def)

lemma mailbox_fresh: "heap_inv s \<Longrightarrow> fresh s \<notin> set (mailbox s)"
  by (auto simp: heap_inv_def)

lemma reserved_mailbox: "hold_inv s \<Longrightarrow> state s \<noteq> Closed \<Longrightarrow> set (reserved_of (pending s)) \<subseteq> set (mailbox s)"
  by (auto simp: hold_inv_def)

text \<open>A new cell at either end of the mailbox keeps everything but the bound on its length.\<close>

lemma push_turn_parts:
  assumes inv: "session_inv s" and open_: "state s \<noteq> Closed" and held: "\<not> qt_held t"
  shows "chan_inv (push_turn f t s)" "heap_inv (push_turn f t s)" "hold_inv (push_turn f t s)"
    "conf_inv (push_turn f t s)" "work_inv (push_turn f t s)"
proof -
  have parts: "chan_inv s" "heap_inv s" "hold_inv s" "conf_inv s" "work_inv s"
    using inv by (simp_all add: session_inv_def)
  show "chan_inv (push_turn f t s)" using parts(1) by (auto simp: chan_inv_def less_Suc_eq)
  show "heap_inv (push_turn f t s)" using parts(2) push_turn_distinct [OF parts(2)]
    by (auto simp: heap_inv_def less_Suc_eq)
  show "hold_inv (push_turn f t s)"
    using parts(3) held open_ mailbox_fresh [OF parts(2)] by (auto simp: hold_inv_def holders_def)
  show "conf_inv (push_turn f t s)" using parts(4) by (simp add: conf_inv_def configs_def)
  show "work_inv (push_turn f t s)" using parts(5) by (simp add: work_inv_def)
qed

lemma push_back_inv:
  assumes inv: "session_inv s" and open_: "state s \<noteq> Closed" and held: "\<not> qt_held t"
    and new: "qt_id t \<noteq> [] \<Longrightarrow> activeQueuedID s \<noteq> qt_id t \<and>
                (\<forall>r\<in>set (mailbox s). turn_id s r \<noteq> Some (qt_id t))"
    and room: "length (mailbox s) < mailboxSize" and up: "workers s \<noteq> []"
  shows "session_inv (signalQueueLocked (push_turn False t s))"
proof (rule signal_inv)
  have ids: "id_inv s" and tn: "turn_inv s" and hp: "heap_inv s"
    using inv by (simp_all add: session_inv_def)
  show "id_inv (push_turn False t s)"
    using ids new room up mailbox_fresh [OF hp] unfolding id_inv_def by auto
  show "fired (push_turn False t s) c \<or> c = queueChanged (push_turn False t s)"
    if "w \<in> set (workers (push_turn False t s))" "w_pc w = W_WaitQueue c" for w c
    using tn that by (auto simp: turn_inv_def)
qed (use push_turn_parts [OF inv open_ held] inv in
     \<open>auto simp: session_inv_def turn_inv_def\<close>)

lemma submitReady_inv [inv_intros]:
  assumes "session_inv s"
  shows "session_inv (snd (submitReady tid fn ready s))"
proof (cases "state s = Closed")
  case False
  let ?s = "start_worker s"
  have inv: "session_inv ?s" using assms False by (rule start_worker_inv)
  moreover have "state ?s \<noteq> Closed" using False by (simp add: start_worker_def)
  moreover have "workers ?s \<noteq> []"
    using assms False by (auto simp: start_worker_def session_inv_def work_inv_def)
  ultimately show ?thesis using False
    by (auto simp: submitReady_def Let_def intro!: push_back_inv)
qed (use assms in \<open>simp add: submitReady_def\<close>)

lemma remove_first_found:
  "find p xs = Some x \<Longrightarrow> distinct xs \<Longrightarrow> remove_first p xs = remove_first (\<lambda>y. y = x) xs"
proof (induction xs)
  case (Cons a xs)
  then show ?case by (cases "p a") (auto simp: find_Some_iff)
qed simp

lemma set_held_fields [simp]:
  "state (set_held r b s) = state s" "mailbox (set_held r b s) = mailbox s"
  "queueHolds (set_held r b s) = queueHolds s" "activeQueuedID (set_held r b s) = activeQueuedID s"
  "queueChanged (set_held r b s) = queueChanged s" "quit (set_held r b s) = quit s"
  "workerUp (set_held r b s) = workerUp s" "workerDone (set_held r b s) = workerDone s"
  "turnDone (set_held r b s) = turnDone s" "workers (set_held r b s) = workers s"
  "pending (set_held r b s) = pending s" "fresh (set_held r b s) = fresh s"
  "configUpdating (set_held r b s) = configUpdating s" "closed_chans (set_held r b s) = closed_chans s"
  "panicked (set_held r b s) = panicked s" "futureConfig (set_held r b s) = futureConfig s"
  "config (set_held r b s) = config s"
  "turns (set_held r b s) = (turns s)(r := map_option (qt_held_update (\<lambda>_. b)) (turns s r))"
  by (simp_all add: set_held_def)

lemma find_named_Some:
  "find_named tid s = Some r \<Longrightarrow> r \<in> set (mailbox s) \<and> turn_id s r = Some tid"
  by (auto simp: find_named_def find_Some_iff)

lemma holds_nonneg: "session_inv s \<Longrightarrow> 0 \<le> queueHolds s"
  by (auto simp: session_inv_def hold_inv_def split: if_splits)

lemma open_if_waiting: "session_inv s \<Longrightarrow> r \<in> set (mailbox s) \<Longrightarrow> state s \<noteq> Closed"
  by (auto simp: session_inv_def hold_inv_def split: if_splits)

lemma reserve_inv:
  assumes inv: "session_inv s" and r: "r \<in> set (mailbox s)" and free: "\<not> turn_held s r"
  shows "session_inv (snd (add_closure (FinishQueued r)
           ((set_held r True s)\<lparr>queueHolds := queueHolds s + 1\<rparr>)))" (is "session_inv ?t")
proof -
  have parts: "chan_inv s" "heap_inv s" "hold_inv s" "conf_inv s" "work_inv s" "turn_inv s" "id_inv s"
    using inv by (simp_all add: session_inv_def)
  have op: "state s \<noteq> Closed" using inv r by (rule open_if_waiting)
  have res: "r \<notin> set (reserved_of (pending s))" using parts(3) op free by (auto simp: hold_inv_def)
  have "chan_inv ?t" using parts(1) by (auto simp: add_closure_def chan_inv_def live_of_def less_Suc_eq)
  moreover have "heap_inv ?t" using parts(2) by (fastforce simp: add_closure_def heap_inv_def less_Suc_eq)
  moreover have "hold_inv ?t" using parts(2,3) op res r
    by (auto simp: add_closure_def hold_inv_def holders_def heap_inv_def)
  moreover have "conf_inv ?t" using parts(4) by (simp add: add_closure_def conf_inv_def configs_def)
  moreover have "work_inv ?t" using parts(5) by (simp add: add_closure_def work_inv_def)
  moreover have "turn_inv ?t" using parts(6) holds_nonneg [OF inv]
    by (simp add: add_closure_def turn_inv_def IsStreaming_def fired_def) blast
  moreover have "id_inv ?t" using parts(7) by (simp add: add_closure_def id_inv_def) blast
  ultimately show ?thesis by (simp add: session_inv_def)
qed

lemma reserveQueued_inv [inv_intros]:
  assumes "session_inv s"
  shows "session_inv (snd (reserveQueued tid act excl s))"
proof (cases "find_named tid s")
  case (Some r)
  with assms show ?thesis
    using reserve_inv [OF assms, of r] find_named_Some [OF Some]
    by (cases "turn_held s r") (simp_all add: reserveQueued_def case_prod_beta)
qed (use assms in \<open>simp add: reserveQueued_def\<close>)

lemma CancelQueued_inv [inv_intros]:
  assumes inv: "session_inv s"
  shows "session_inv (snd (CancelQueued tid s))"
proof (cases "find_named tid s")
  case (Some r)
  let ?p = "\<lambda>x. turn_id s x = Some tid"
  let ?t = "s\<lparr>mailbox := remove_first ?p (mailbox s)\<rparr>"
  have r: "r \<in> set (mailbox s)" using Some find_named_Some by blast
  have op: "state s \<noteq> Closed" using inv r by (rule open_if_waiting)
  show ?thesis
  proof (cases "turn_held s r")
    case False
    have parts: "chan_inv s" "heap_inv s" "hold_inv s" "conf_inv s" "work_inv s" "turn_inv s" "id_inv s"
      using inv by (simp_all add: session_inv_def)
    have rf: "remove_first ?p (mailbox s) = remove_first (\<lambda>x. x = r) (mailbox s)"
      using Some parts(2) unfolding find_named_def heap_inv_def
      by (auto intro: remove_first_found)
    have set_t: "set (remove_first ?p (mailbox s)) = set (mailbox s) - {r}"
      using parts(2) by (simp add: rf heap_inv_def set_remove_first_eq)
    have "session_inv (signalQueueLocked ?t)"
    proof (rule signal_inv)
      show "heap_inv ?t" using parts(2) set_t by (auto simp: heap_inv_def distinct_remove_first)
      show "hold_inv ?t" using parts(3) False op set_t by (auto simp: hold_inv_def holders_def)
      show "id_inv ?t" using parts(7) set_t length_remove_first [of ?p "mailbox s"]
        by (fastforce simp: id_inv_def)
      show "fired ?t c \<or> c = queueChanged ?t"
        if "w \<in> set (workers ?t)" "w_pc w = W_WaitQueue c" for w c
        using parts(6) that by (auto simp: turn_inv_def fired_def)
    qed (use parts in \<open>auto simp: chan_inv_def conf_inv_def configs_def work_inv_def turn_inv_def IsStreaming_def\<close>)
    then show ?thesis using Some False by (simp add: CancelQueued_def)
  qed (use Some inv in \<open>simp add: CancelQueued_def\<close>)
qed (use inv in \<open>simp add: CancelQueued_def\<close>)

subsection \<open>Closures\<close>

lemma closure_split:
  assumes "distinct (map fst ps)" "map_of ps k = Some c"
  obtains p q where "ps = p @ (k, c) # q" "remove_first (\<lambda>x. fst x = k) ps = p @ q"
  using assms
proof (induction ps arbitrary: thesis)
  case (Cons a ps)
  show ?case
  proof (cases "fst a = k")
    case True
    with Cons.prems(3) have "a = (k, c)" by (cases a) simp
    then show ?thesis using Cons.prems(1) [of "[]" ps] by simp
  next
    case False
    with Cons.prems(2,3) have "distinct (map fst ps)" "map_of ps k = Some c" by auto
    then obtain p q where "ps = p @ (k, c) # q" "remove_first (\<lambda>x. fst x = k) ps = p @ q"
      using Cons.IH by blast
    then show ?thesis using Cons.prems(1) [of "a # p" q] False by simp
  qed
qed simp

lemma reserved_of_append [simp]: "reserved_of (p @ q) = reserved_of p @ reserved_of q"
  by (induction p rule: reserved_of.induct) simp_all

lemma released_of_append [simp]: "released_of (p @ q) = released_of p @ released_of q"
  by (induction p rule: released_of.induct) simp_all

lemma heap_inv_drop_pending:
  "heap_inv s \<Longrightarrow> pending s = p @ x # q \<Longrightarrow> heap_inv (s\<lparr>pending := p @ q\<rparr>)"
  by (auto simp: heap_inv_def)

lemma finish_queued_inv:
  assumes inv: "session_inv s" and ps: "pending s = p @ (k, FinishQueued r) # q"
  shows "session_inv (finish_queued r remove (s\<lparr>pending := p @ q\<rparr>))"
proof -
  have parts: "chan_inv s" "heap_inv s" "hold_inv s" "conf_inv s" "work_inv s" "turn_inv s" "id_inv s"
    using inv by (simp_all add: session_inv_def)
  let ?s0 = "s\<lparr>pending := p @ q\<rparr>"
  define s1 where "s1 = (if turn_held s r
     then (set_held r False ?s0)\<lparr>queueHolds := queueHolds s - 1\<rparr> else ?s0)"
  define s2 where "s2 = (if remove then s1\<lparr>mailbox := remove_first (\<lambda>x. x = r) (mailbox s)\<rparr> else s1)"
  have mb: "mailbox s2 = (if remove then remove_first (\<lambda>x. x = r) (mailbox s) else mailbox s)"
    by (simp add: s2_def s1_def)
  have mb_set: "set (mailbox s2) = (if remove then set (mailbox s) - {r} else set (mailbox s))"
    using parts(2) mb by (simp add: heap_inv_def set_remove_first_eq)
  have ids: "id_of (turns s2 x) = id_of (turns s x)" for x
    by (simp add: s2_def s1_def)
  have held: "turn_held s2 x = (turn_held s x \<and> x \<noteq> r)" for x
    by (auto simp: s2_def s1_def)
  have defd: "turns s2 x = None \<longleftrightarrow> turns s x = None" for x
    by (auto simp: s2_def s1_def)
  have same: "state s2 = state s" "turnDone s2 = turnDone s" "queueChanged s2 = queueChanged s"
    "quit s2 = quit s" "workers s2 = workers s" "workerUp s2 = workerUp s" "workerDone s2 = workerDone s"
    "closed_chans s2 = closed_chans s" "fresh s2 = fresh s" "panicked s2 = panicked s"
    "activeQueuedID s2 = activeQueuedID s" "configUpdating s2 = configUpdating s" "pending s2 = p @ q"
    by (simp_all add: s2_def s1_def)
  have r_held: "state s \<noteq> Closed \<Longrightarrow> turn_held s r"
    using parts(3) ps by (auto simp: hold_inv_def)
  have holds: "queueHolds s2 = (if turn_held s r then queueHolds s - 1 else queueHolds s)"
    by (simp add: s2_def s1_def)
  have "session_inv (signalQueueLocked s2)"
  proof (rule signal_inv)
    show "chan_inv s2" using parts(1) ps by (simp add: chan_inv_def live_of_def same)
    show "heap_inv s2" using parts(2) ps mb mb_set
      by (auto simp: heap_inv_def same defd distinct_remove_first split: if_splits)
    show "hold_inv s2"
    proof (cases "state s = Closed")
      case True
      then show ?thesis using parts(3) ps mb by (auto simp: hold_inv_def same held holds)
    next
      case False
      then show ?thesis using parts(3) ps r_held [OF False]
        by (auto simp: hold_inv_def same held holds holders_def mb_set)
    qed
    show "conf_inv s2" using parts(4) ps by (simp add: conf_inv_def configs_def same)
    show "work_inv s2" using parts(5) by (simp add: work_inv_def same)
    show "id_inv s2" using parts(7) mb length_remove_first [of "\<lambda>x. x = r" "mailbox s"]
      unfolding id_inv_def same ids mb_set by (auto split: if_splits)
    show "fired s2 c \<or> c = queueChanged s2" if "w \<in> set (workers s2)" "w_pc w = W_WaitQueue c" for w c
      using parts(6) that by (auto simp: turn_inv_def fired_def same)
  qed (use parts(6) ps in \<open>auto simp: turn_inv_def IsStreaming_def same\<close>)
  moreover have "finish_queued r remove ?s0 = signalQueueLocked s2"
    by (simp add: finish_queued_def s2_def s1_def Let_def)
  ultimately show ?thesis by simp
qed

lemma release_hold_inv:
  assumes inv: "session_inv s" and ps: "pending s = p @ (k, c) # q"
    and c: "c = ReleaseHold \<or> c = ReleaseConfig"
    and u: "u = (if c = ReleaseConfig then False else configUpdating s)"
  shows "session_inv (release_hold (s\<lparr>pending := p @ q, configUpdating := u\<rparr>))"
proof -
  have parts: "chan_inv s" "heap_inv s" "hold_inv s" "conf_inv s" "work_inv s" "turn_inv s" "id_inv s"
    using inv by (simp_all add: session_inv_def)
  let ?s0 = "s\<lparr>pending := p @ q, configUpdating := u\<rparr>"
  let ?s1 = "if state ?s0 \<noteq> Closed then ?s0\<lparr>queueHolds := queueHolds ?s0 - 1\<rparr> else ?s0"
  have res: "released_of (pending s) = released_of (p @ q)" using c ps by auto
  have "session_inv (signalQueueLocked ?s1)"
  proof (rule signal_inv)
    have "live ?s1 = live s" by (simp add: live_of_def res del: released_of_append)
    then show "chan_inv ?s1" using parts(1) by (simp add: chan_inv_def)
    show "heap_inv ?s1" using parts(2) ps by (auto simp: heap_inv_def)
    show "hold_inv ?s1" using parts(3) ps c by (auto simp: hold_inv_def holders_def)
    show "conf_inv ?s1" using parts(4) ps c u by (auto simp: conf_inv_def configs_def split: if_splits)
    show "work_inv ?s1" using parts(5) by (simp add: work_inv_def)
    show "id_inv ?s1" using parts(7) by (simp add: id_inv_def)
    show "fired ?s1 c' \<or> c' = queueChanged ?s1"
      if "w \<in> set (workers ?s1)" "w_pc w = W_WaitQueue c'" for w c'
      using parts(6) that by (auto simp: turn_inv_def fired_def split: if_splits)
  qed (use parts(6) res in \<open>auto simp: turn_inv_def IsStreaming_def\<close>)
  then show ?thesis by (simp add: release_hold_def)
qed

lemma release_turn_inv:
  assumes inv: "session_inv s" and ps: "pending s = p @ (k, ReleaseTurn (Some c)) # q"
  shows "session_inv (close_chan c (s\<lparr>pending := p @ q\<rparr>))" (is "session_inv ?t")
proof -
  have parts: "chan_inv s" "heap_inv s" "hold_inv s" "conf_inv s" "work_inv s" "turn_inv s" "id_inv s"
    using inv by (simp_all add: session_inv_def)
  have "chan_inv ?t" using parts(1) ps by (auto simp: chan_inv_def live_of_def)
  moreover have "heap_inv ?t" using parts(2) ps by (auto simp: heap_inv_def)
  moreover have "hold_inv ?t" using parts(3) by (auto simp: hold_inv_def holders_def ps)
  moreover have "conf_inv ?t" using parts(4) ps by (simp add: conf_inv_def configs_def)
  moreover have "work_inv ?t" using parts(5) by (auto simp: work_inv_def)
  moreover have "turn_inv ?t" using parts(6) ps by (auto simp: turn_inv_def IsStreaming_def fired_def)
  moreover have "id_inv ?t" using parts(7) by (simp add: id_inv_def)
  ultimately show ?thesis by (simp add: session_inv_def)
qed

lemma drop_release_inv:
  assumes inv: "session_inv s" and ps: "pending s = p @ (k, ReleaseTurn None) # q"
  shows "session_inv (s\<lparr>pending := p @ q\<rparr>)" (is "session_inv ?t")
proof -
  have parts: "chan_inv s" "heap_inv s" "hold_inv s" "conf_inv s" "work_inv s" "turn_inv s" "id_inv s"
    using inv by (simp_all add: session_inv_def)
  have "chan_inv ?t" using parts(1) ps by (simp add: chan_inv_def live_of_def)
  moreover have "heap_inv ?t" using parts(2) ps by (rule heap_inv_drop_pending)
  moreover have "hold_inv ?t" using parts(3) by (auto simp: hold_inv_def holders_def ps)
  moreover have "conf_inv ?t" using parts(4) ps by (simp add: conf_inv_def configs_def)
  moreover have "work_inv ?t" using parts(5) by (simp add: work_inv_def)
  moreover have "turn_inv ?t" using parts(6) ps by (simp add: turn_inv_def IsStreaming_def fired_def)
  moreover have "id_inv ?t" using parts(7) by (simp add: id_inv_def)
  ultimately show ?thesis by (simp add: session_inv_def)
qed

lemma call_closure_inv [inv_intros]:
  assumes inv: "session_inv s"
  shows "session_inv (call_closure k remove s)"
proof (cases "map_of (pending s) k")
  case (Some c)
  have "distinct (map fst (pending s))" using inv by (simp add: session_inv_def heap_inv_def)
  then obtain p q where ps: "pending s = p @ (k, c) # q"
    and rf: "remove_first (\<lambda>x. fst x = k) (pending s) = p @ q"
    using Some closure_split by metis
  have "call_closure k remove s = run_closure c remove (s\<lparr>pending := p @ q\<rparr>)"
    using Some rf by (simp add: call_closure_def)
  moreover have "session_inv (run_closure c remove (s\<lparr>pending := p @ q\<rparr>))"
  proof (cases c)
    case (FinishQueued r)
    then show ?thesis using finish_queued_inv [OF inv] ps by simp
  next
    case (ReleaseTurn x)
    then show ?thesis using release_turn_inv [OF inv] drop_release_inv [OF inv] ps by (cases x) simp_all
  next
    case ReleaseHold
    then show ?thesis using release_hold_inv [OF inv ps, of "configUpdating s"] by simp
  next
    case ReleaseConfig
    then show ?thesis using release_hold_inv [OF inv ps, of False] by simp
  qed
  ultimately show ?thesis by simp
qed (use inv in \<open>simp add: call_closure_def\<close>)

subsection \<open>Turn boundaries\<close>

lemma apply_future_fields [simp]:
  "state (apply_future s) = state s" "mailbox (apply_future s) = mailbox s"
  "queueHolds (apply_future s) = queueHolds s" "activeQueuedID (apply_future s) = activeQueuedID s"
  "queueChanged (apply_future s) = queueChanged s" "quit (apply_future s) = quit s"
  "workerUp (apply_future s) = workerUp s" "workerDone (apply_future s) = workerDone s"
  "turnDone (apply_future s) = turnDone s" "workers (apply_future s) = workers s"
  "pending (apply_future s) = pending s" "fresh (apply_future s) = fresh s"
  "configUpdating (apply_future s) = configUpdating s" "closed_chans (apply_future s) = closed_chans s"
  "panicked (apply_future s) = panicked s" "turns (apply_future s) = turns s"
  "futureConfig (apply_future s) = futureConfig s"
  "config (apply_future s) = (case futureConfig s of None \<Rightarrow> config s | Some c \<Rightarrow> c)"
  by (simp_all add: apply_future_def applyConfigurationLocked_def split: option.split)

lemma DeferActiveNamed_inv [inv_intros]:
  assumes inv: "session_inv s"
  shows "session_inv (snd (DeferActiveNamed tid ready fn s))"
proof (cases "\<exists>c. turnDone s = Some c \<and> tid \<noteq> [] \<and> activeQueuedID s = tid \<and> state s = Streaming")
  case True
  then obtain c where c: "turnDone s = Some c" "tid \<noteq> []" "activeQueuedID s = tid" "state s = Streaming"
    by blast
  have parts: "chan_inv s" "heap_inv s" "hold_inv s" "conf_inv s" "work_inv s" "turn_inv s" "id_inv s"
    using inv by (simp_all add: session_inv_def)
  let ?q = "\<lparr>qt_id = tid, qt_run = fn, qt_held = False, qt_ready = ready\<rparr>"
  let ?p = "push_turn True ?q s"
  let ?t = "close_chan c (?p\<lparr>state := Idle, turnDone := None\<rparr>)"
  have pt: "chan_inv ?p" "heap_inv ?p" "hold_inv ?p" "conf_inv ?p" "work_inv ?p"
    using push_turn_parts [OF inv, of ?q True] c(4) by simp_all
  have "session_inv (signalQueueLocked ?t)"
  proof (rule signal_inv)
    show "chan_inv ?t" using pt(1) c(1) by (auto simp: chan_inv_def live_of_def)
    show "heap_inv ?t" using pt(2) by (simp add: heap_inv_def)
    show "hold_inv ?t" using pt(3) c(4) by (simp add: hold_inv_def holders_def)
    show "conf_inv ?t" using pt(4) c(4) by (auto simp: conf_inv_def configs_def split: if_splits)
    show "work_inv ?t" using pt(5) c(4) by (auto simp: work_inv_def)
    have "workers s \<noteq> []" using parts(6) c(1) by (auto simp: turn_inv_def)
    then show "id_inv ?t" using parts(7) c mailbox_fresh [OF parts(2)] unfolding id_inv_def by auto
    show "fired ?t x \<or> x = queueChanged ?t"
      if "w \<in> set (workers ?t)" "w_pc w = W_WaitQueue x" for w x
    proof -
      have "fired s x \<or> x = queueChanged s" using parts(6) that by (auto simp: turn_inv_def)
      then show ?thesis by (auto simp: fired_def)
    qed
  qed (use parts(6) c in \<open>auto simp: turn_inv_def IsStreaming_def\<close>)
  then show ?thesis using c by (simp add: DeferActiveNamed_def)
qed (use inv in \<open>auto simp: DeferActiveNamed_def split: option.split\<close>)

lemma PrepareEndTurn_inv [inv_intros]:
  assumes inv: "session_inv s"
  shows "session_inv (snd (PrepareEndTurn now s))" (is "session_inv ?t")
proof -
  have parts: "chan_inv s" "heap_inv s" "hold_inv s" "conf_inv s" "work_inv s" "turn_inv s" "id_inv s"
    using inv by (simp_all add: session_inv_def)
  have t: "pending ?t = (fresh s, ReleaseTurn (turnDone s)) # pending s" "turnDone ?t = None"
    "fresh ?t = Suc (fresh s)" "state ?t = (if IsStreaming s then Idle else state s)"
    "mailbox ?t = mailbox s" "queueHolds ?t = queueHolds s" "activeQueuedID ?t = activeQueuedID s"
    "queueChanged ?t = queueChanged s" "quit ?t = quit s" "workerUp ?t = workerUp s"
    "workerDone ?t = workerDone s" "workers ?t = workers s" "configUpdating ?t = configUpdating s"
    "closed_chans ?t = closed_chans s" "panicked ?t = panicked s" "turns ?t = turns s"
    by (auto simp: PrepareEndTurn_def add_closure_def Let_def IsStreaming_def)
  have rel: "set (released_of (pending ?t)) = set_option (turnDone s) \<union> set (released_of (pending s))"
    by (cases "turnDone s") (simp_all add: t)
  have cl: "state ?t = Closed \<longleftrightarrow> state s = Closed" by (auto simp: t IsStreaming_def)
  have "chan_inv ?t"
    using parts(1) unfolding chan_inv_def live_of_def t by (cases "turnDone s") (auto simp: less_Suc_eq)
  moreover have "heap_inv ?t" using parts(2) unfolding heap_inv_def t by (fastforce simp: less_Suc_eq)
  moreover have "hold_inv ?t" using parts(3) unfolding hold_inv_def cl
    by (cases "turnDone s") (simp_all add: t holders_def)
  moreover have "conf_inv ?t" using parts(4) unfolding conf_inv_def
    by (auto simp: t configs_def IsStreaming_def split: if_splits)
  moreover have "work_inv ?t" using parts(5) unfolding work_inv_def cl by (simp add: t)
  moreover have "turn_inv ?t" using parts(6) unfolding turn_inv_def rel
    by (auto simp: t IsStreaming_def fired_def)
  moreover have "id_inv ?t" using parts(7) unfolding id_inv_def by (auto simp: t split: if_splits)
  ultimately show ?thesis by (simp add: session_inv_def)
qed

lemma streaming_state_inv:
  assumes inv: "session_inv s" and st: "IsStreaming s" "st \<in> {Streaming, Stopping}"
  shows "session_inv (s\<lparr>state := st\<rparr>)" (is "session_inv ?t")
proof -
  have parts: "chan_inv s" "heap_inv s" "hold_inv s" "conf_inv s" "work_inv s" "turn_inv s" "id_inv s"
    using inv by (simp_all add: session_inv_def)
  have st': "state s \<noteq> Closed" "state s \<noteq> Idle" "st \<noteq> Closed" "IsStreaming ?t"
    using st by (auto simp: IsStreaming_def)
  have "chan_inv ?t" using parts(1) by (simp add: chan_inv_def)
  moreover have "heap_inv ?t" using parts(2) by (simp add: heap_inv_def)
  moreover have "hold_inv ?t" using parts(3) st' by (simp add: hold_inv_def holders_def)
  moreover have "conf_inv ?t" using parts(4) st' by (auto simp: conf_inv_def configs_def split: if_splits)
  moreover have "work_inv ?t" using parts(5) st' by (simp add: work_inv_def)
  moreover have "turn_inv ?t" using parts(6) st(1) st'(4) by (simp add: turn_inv_def fired_def)
  moreover have "id_inv ?t" using parts(7) by (simp add: id_inv_def)
  ultimately show ?thesis by (simp add: session_inv_def)
qed

lemma MarkStopping_inv [inv_intros]: "session_inv s \<Longrightarrow> session_inv (MarkStopping s)"
  by (auto simp: MarkStopping_def IsStreaming_def intro: streaming_state_inv)

lemma RestoreStreaming_inv [inv_intros]:
  "session_inv s \<Longrightarrow> session_inv (snd (RestoreStreamingAfterUnconfirmedStop rid s))"
  by (auto simp: RestoreStreamingAfterUnconfirmedStop_def IsStreaming_def intro: streaming_state_inv)

lemma unhold_all_eq:
  "unhold_all s = s\<lparr>turns := (\<lambda>r. if r \<in> set (mailbox s)
     then map_option (qt_held_update (\<lambda>_. False)) (turns s r) else turns s r)\<rparr>"
proof -
  have "fold (\<lambda>r. set_held r False) rs s = s\<lparr>turns := (\<lambda>r. if r \<in> set rs
     then map_option (qt_held_update (\<lambda>_. False)) (turns s r) else turns s r)\<rparr>" for rs
  proof (induction rs arbitrary: s)
    case (Cons a rs)
    have "turns s a = None \<or> (\<exists>t. turns s a = Some t)" by auto
    then show ?case unfolding fold_Cons o_apply Cons.IH by (auto simp: set_held_def fun_eq_iff)
  qed simp
  then show ?thesis by (simp add: unhold_all_def)
qed

lemma opt_close_fields [simp]:
  "state (opt_close x s) = state s" "mailbox (opt_close x s) = mailbox s"
  "queueHolds (opt_close x s) = queueHolds s" "activeQueuedID (opt_close x s) = activeQueuedID s"
  "queueChanged (opt_close x s) = queueChanged s" "quit (opt_close x s) = quit s"
  "workerUp (opt_close x s) = workerUp s" "workerDone (opt_close x s) = workerDone s"
  "turnDone (opt_close x s) = turnDone s" "workers (opt_close x s) = workers s"
  "pending (opt_close x s) = pending s" "fresh (opt_close x s) = fresh s"
  "configUpdating (opt_close x s) = configUpdating s"
  "closed_chans (opt_close x s) = set_option x \<union> closed_chans s"
  "panicked (opt_close x s) = (panicked s \<or> set_option x \<inter> closed_chans s \<noteq> {})"
  "turns (opt_close x s) = turns s"
  by (cases x; simp add: opt_close_def)+

text \<open>The state \<open>Close\<close> leaves, field by field.\<close>

lemma Close_fields:
  assumes "state s \<noteq> Closed"
  shows "state (Close s) = Closed" "mailbox (Close s) = []" "queueHolds (Close s) = 0"
    "turnDone (Close s) = None" "quit (Close s) = None" "workerUp (Close s) = False"
    "queueChanged (Close s) = Some (fresh s)" "fresh (Close s) = Suc (fresh s)"
    "workers (Close s) = workers s" "workerDone (Close s) = workerDone s"
    "pending (Close s) = pending s" "configUpdating (Close s) = configUpdating s"
    "activeQueuedID (Close s) = activeQueuedID s"
    "closed_chans (Close s) = set_option (turnDone s) \<union> set_option (quit s)
       \<union> set_option (queueChanged s) \<union> closed_chans s"
    "panicked (Close s) = (panicked s \<or> set_option (turnDone s) \<inter> closed_chans s \<noteq> {}
       \<or> set_option (quit s) \<inter> (set_option (turnDone s) \<union> closed_chans s) \<noteq> {}
       \<or> set_option (queueChanged s) \<inter> (set_option (quit s) \<union> set_option (turnDone s) \<union> closed_chans s) \<noteq> {})"
    "turns (Close s) = (\<lambda>r. if r \<in> set (mailbox s)
     then map_option (qt_held_update (\<lambda>_. False)) (turns s r) else turns s r)"
  using assms by (auto simp: Close_def Let_def unhold_all_eq)

lemma Close_inv [inv_intros]:
  assumes inv: "session_inv s"
  shows "session_inv (Close s)"
proof (cases "state s = Closed")
  case False
  have parts: "chan_inv s" "heap_inv s" "hold_inv s" "conf_inv s" "work_inv s" "turn_inv s" "id_inv s"
    using inv by (simp_all add: session_inv_def)
  note f = Close_fields [OF False]
  have lt: "c < fresh s" if "c \<in> set (live s) \<or> c \<in> closed_chans s" for c
    using parts(1) that by (auto simp: chan_inv_def)
  have new: "fresh s \<notin> set (live s)" "fresh s \<notin> closed_chans s" using lt by blast+
  have "chan_inv (Close s)"
    using parts(1) new unfolding chan_inv_def live_of_def f
    by (simp add: disjoint_iff less_Suc_eq) blast
  moreover have "heap_inv (Close s)"
    using parts(2) unfolding heap_inv_def f by (auto simp: less_Suc_eq split: if_splits)
  moreover have "hold_inv (Close s)"
    using parts(3) False unfolding hold_inv_def f by auto
  moreover have "conf_inv (Close s)" using parts(4) by (simp add: conf_inv_def configs_def f)
  moreover have "work_inv (Close s)" using parts(5) False by (auto simp: work_inv_def f)
  moreover have "fired (Close s) c" if w: "w \<in> set (workers s)" and pc: "w_pc w = W_WaitQueue c" for w c
  proof -
    have "queueChanged s \<noteq> None" using parts(5) w by (auto simp: work_inv_def)
    moreover have "fired s c \<or> c = queueChanged s" using parts(6) w pc by (auto simp: turn_inv_def)
    ultimately show ?thesis by (auto simp: fired_def f)
  qed
  then have "turn_inv (Close s)" using parts(6) by (auto simp: turn_inv_def IsStreaming_def f)
  moreover have "id_inv (Close s)" using parts(7) by (auto simp: id_inv_def f)
  ultimately show ?thesis by (simp add: session_inv_def)
qed (use inv in \<open>simp add: Close_def\<close>)

lemma hold_closure_inv:
  assumes inv: "session_inv s" and op: "state s \<noteq> Closed"
    and u: "c = ReleaseHold \<and> u = configUpdating s
            \<or> c = ReleaseConfig \<and> \<not> configUpdating s \<and> u \<and> state s = Idle"
  shows "session_inv (snd (add_closure c (s\<lparr>configUpdating := u, queueHolds := queueHolds s + 1\<rparr>)))"
    (is "session_inv ?t")
proof -
  have parts: "chan_inv s" "heap_inv s" "hold_inv s" "conf_inv s" "work_inv s" "turn_inv s" "id_inv s"
    using inv by (simp_all add: session_inv_def)
  have rel: "released_of ((fresh s, c) # pending s) = released_of (pending s)"
    "reserved_of ((fresh s, c) # pending s) = reserved_of (pending s)" "is_hold c"
    using u by auto
  have "live ?t = live s" by (simp add: add_closure_def live_of_def rel)
  then have "chan_inv ?t" using parts(1) by (auto simp: add_closure_def chan_inv_def less_Suc_eq)
  moreover have "heap_inv ?t" using parts(2) by (fastforce simp: add_closure_def heap_inv_def less_Suc_eq)
  moreover have "hold_inv ?t" using parts(3) op rel by (simp add: add_closure_def hold_inv_def holders_def)
  moreover have "conf_inv ?t" using parts(4) u by (auto simp: add_closure_def conf_inv_def configs_def)
  moreover have "work_inv ?t" using parts(5) by (simp add: add_closure_def work_inv_def)
  moreover have "turn_inv ?t" using parts(6) holds_nonneg [OF inv] rel
    by (simp add: add_closure_def turn_inv_def IsStreaming_def fired_def) blast
  moreover have "id_inv ?t" using parts(7) by (simp add: add_closure_def id_inv_def)
  ultimately show ?thesis by (simp add: session_inv_def)
qed

lemma HoldQueue_inv [inv_intros]:
  assumes "session_inv s"
  shows "session_inv (snd (HoldQueue s))"
  using hold_closure_inv [OF assms, of ReleaseHold "configUpdating s"] assms
  by (auto simp: HoldQueue_def case_prod_beta)

text \<open>The invariant reads only the queue: setters of other fields keep it.\<close>

definition queue_part where
  "queue_part s = (state s, mailbox s, queueChanged s, queueHolds s, activeQueuedID s, quit s,
     workerUp s, workerDone s, turnDone s, turns s, closed_chans s, fresh s, panicked s, workers s,
     pending s, configUpdating s)"

lemma inv_cong:
  assumes inv: "session_inv s" and eq: "queue_part t = queue_part s"
  shows "session_inv t"
proof -
  have parts: "chan_inv s" "heap_inv s" "hold_inv s" "conf_inv s" "work_inv s" "turn_inv s" "id_inv s"
    using inv by (simp_all add: session_inv_def)
  have f: "state t = state s" "mailbox t = mailbox s" "queueChanged t = queueChanged s"
    "queueHolds t = queueHolds s" "activeQueuedID t = activeQueuedID s" "quit t = quit s"
    "workerUp t = workerUp s" "workerDone t = workerDone s" "turnDone t = turnDone s"
    "turns t = turns s" "closed_chans t = closed_chans s" "fresh t = fresh s"
    "panicked t = panicked s" "workers t = workers s" "pending t = pending s"
    "configUpdating t = configUpdating s"
    using eq by (simp_all add: queue_part_def)
  have "chan_inv t" using parts(1) by (simp add: chan_inv_def f)
  moreover have "heap_inv t" using parts(2) by (simp add: heap_inv_def f)
  moreover have "hold_inv t" using parts(3) by (simp add: hold_inv_def holders_def f)
  moreover have "conf_inv t" using parts(4) by (simp add: conf_inv_def configs_def f)
  moreover have "work_inv t" using parts(5) by (simp add: work_inv_def f)
  moreover have "turn_inv t" using parts(6) by (simp add: turn_inv_def IsStreaming_def fired_def f)
  moreover have "id_inv t" using parts(7) by (simp add: id_inv_def f)
  ultimately show ?thesis by (simp add: session_inv_def)
qed

lemma SetFutureConfiguration_inv [inv_intros]:
  "session_inv s \<Longrightarrow> session_inv (snd (SetFutureConfiguration c e s))"
  by (erule inv_cong) (simp add: SetFutureConfiguration_def queue_part_def Let_def)

lemma RestoreFutureConfiguration_inv [inv_intros]:
  "session_inv s \<Longrightarrow> session_inv (RestoreFutureConfiguration b s)"
  by (erule inv_cong) (simp add: RestoreFutureConfiguration_def queue_part_def)

lemma ActivateQueuedConfiguration_inv [inv_intros]:
  "session_inv s \<Longrightarrow> session_inv (snd (ActivateQueuedConfiguration c s))"
  by (erule inv_cong)
    (simp add: ActivateQueuedConfiguration_def queue_part_def Let_def applyConfigurationLocked_def)

lemma SetConfigRevision_inv [inv_intros]:
  "session_inv s \<Longrightarrow> session_inv (SetConfigRevision n s)"
  by (erule inv_cong) (simp add: SetConfigRevision_def queue_part_def)

lemma fields_inv [inv_intros]:
  "session_inv s \<Longrightarrow> session_inv (s\<lparr>meta := m, config := c, lastActivity := a\<rparr>)"
  by (erule inv_cong) (simp add: queue_part_def)

lemma ReserveConfiguration_inv [inv_intros]:
  assumes inv: "session_inv s"
  shows "session_inv (snd (snd (ReserveConfiguration e s)))"
proof -
  let ?s1 = "(apply_future s)\<lparr>futureConfig := None\<rparr>"
  have "session_inv ?s1" using inv by (rule inv_cong) (simp add: queue_part_def)
  then show ?thesis
    using hold_closure_inv [of ?s1 ReleaseConfig True] inv
    by (auto simp: ReserveConfiguration_def Let_def case_prod_beta)
qed

subsection \<open>The worker\<close>

lemma goto_fields [simp]:
  "state (goto i pc s) = state s" "mailbox (goto i pc s) = mailbox s"
  "queueHolds (goto i pc s) = queueHolds s" "activeQueuedID (goto i pc s) = activeQueuedID s"
  "queueChanged (goto i pc s) = queueChanged s" "quit (goto i pc s) = quit s"
  "workerUp (goto i pc s) = workerUp s" "workerDone (goto i pc s) = workerDone s"
  "turnDone (goto i pc s) = turnDone s" "turns (goto i pc s) = turns s"
  "pending (goto i pc s) = pending s" "fresh (goto i pc s) = fresh s"
  "configUpdating (goto i pc s) = configUpdating s" "closed_chans (goto i pc s) = closed_chans s"
  "panicked (goto i pc s) = panicked s" "config (goto i pc s) = config s"
  "workers (goto i pc s) = (workers s)[i := (workers s ! i)\<lparr>w_pc := pc\<rparr>]"
  by (simp_all add: goto_def)

lemma worker_only:
  assumes "session_inv s" "i < length (workers s)"
  obtains w where "workers s = [w]" "i = 0"
proof -
  have "length (workers s) \<le> 1" using assms(1) by (simp add: session_inv_def work_inv_def)
  with assms(2) have "length (workers s) = 1" "i = 0" by linarith+
  then show thesis using that by (auto simp: length_Suc_conv)
qed

lemma goto_inv:
  assumes inv: "session_inv s" and w: "workers s = [w]" and pc: "pc \<noteq> W_Exited" "w_pc w \<noteq> W_Exited"
    and "\<And>c. turnDone s = Some c \<Longrightarrow> in_turn pc c"
    and "\<And>c. in_turn pc c \<Longrightarrow>
           c \<in> closed_chans s \<or> turnDone s = Some c \<or> c \<in> set (released_of (pending s))"
    and "\<And>c. pc = W_WaitQueue c \<Longrightarrow> fired s c \<or> c = queueChanged s \<and> (mailbox s = [] \<or> queueHolds s > 0)"
    and "off_turn pc \<Longrightarrow> activeQueuedID s = []"
  shows "session_inv (goto 0 pc s)" (is "session_inv ?t")
proof -
  have parts: "chan_inv s" "heap_inv s" "hold_inv s" "conf_inv s" "work_inv s" "turn_inv s" "id_inv s"
    using inv by (simp_all add: session_inv_def)
  have "live ?t = live s" using w pc by (simp add: live_of_def exits_def)
  then have "chan_inv ?t" using parts(1) by (simp add: chan_inv_def)
  moreover have "heap_inv ?t" using parts(2) by (simp add: heap_inv_def)
  moreover have "hold_inv ?t" using parts(3) by (simp add: hold_inv_def holders_def)
  moreover have "conf_inv ?t" using parts(4) by (simp add: conf_inv_def configs_def)
  moreover have "work_inv ?t" using parts(5) w pc by (simp add: work_inv_def)
  moreover have "turn_inv ?t" using parts(6) w assms(5-7) by (simp add: turn_inv_def IsStreaming_def fired_def)
  moreover have "id_inv ?t" using parts(7) w assms(8) by (simp add: id_inv_def)
  ultimately show ?thesis by (simp add: session_inv_def)
qed

lemma worker_exit_inv:
  assumes inv: "session_inv s" and w: "workers s = [w]" and cl: "state s = Closed" and pc: "w_pc w \<noteq> W_Exited"
  shows "session_inv (worker_exit 0 s)" (is "session_inv ?t")
proof -
  have parts: "chan_inv s" "heap_inv s" "hold_inv s" "conf_inv s" "work_inv s" "turn_inv s" "id_inv s"
    using inv by (simp_all add: session_inv_def)
  have td: "turnDone s = None" using parts(6) cl by (auto simp: turn_inv_def IsStreaming_def)
  have "chan_inv ?t" using parts(1) w pc by (auto simp: chan_inv_def live_of_def exits_def worker_exit_def)
  moreover have "heap_inv ?t" using parts(2) by (simp add: heap_inv_def worker_exit_def)
  moreover have "hold_inv ?t" using parts(3) cl by (simp add: hold_inv_def holders_def worker_exit_def)
  moreover have "conf_inv ?t" using parts(4) by (simp add: conf_inv_def configs_def worker_exit_def)
  moreover have "work_inv ?t" using parts(5) w cl by (simp add: work_inv_def worker_exit_def)
  moreover have "turn_inv ?t" using parts(6) w td
    by (simp add: turn_inv_def IsStreaming_def worker_exit_def in_turn_def)
  moreover have "id_inv ?t" using parts(7) w by (simp add: id_inv_def worker_exit_def off_turn_def)
  ultimately show ?thesis by (simp add: session_inv_def)
qed

text \<open>Only \<open>Close\<close> fires the quit channel.\<close>

lemma quit_closed:
  assumes "session_inv s" "workers s = [w]" "w_quit w \<in> closed_chans s"
  shows "state s = Closed"
  using assms by (auto simp: session_inv_def work_inv_def chan_inv_def live_of_def)

lemma not_streaming_off_turn:
  assumes "session_inv s" "workers s = [w]" "\<not> (\<exists>c. in_turn (w_pc w) c)"
  shows "turnDone s = None" "\<not> IsStreaming s"
  using assms by (auto simp: session_inv_def turn_inv_def)

lemma in_turn_simps [simp]:
  "in_turn (W_Run r c) c' = (c' = c)" "in_turn (W_WaitDone c) c' = (c' = c)"
  "\<not> in_turn W_Loop c'" "\<not> in_turn (W_WaitQueue x) c'" "\<not> in_turn (W_Ready r) c'"
  "\<not> in_turn (W_WaitReady x) c'" "\<not> in_turn W_Clear c'" "\<not> in_turn W_Exited c'"
  by (auto simp: in_turn_def)

lemma off_turn_simps [simp]:
  "off_turn W_Loop" "off_turn (W_WaitQueue x)" "off_turn (W_Ready r)" "off_turn (W_WaitReady x)"
  "\<not> off_turn (W_Run r c)" "\<not> off_turn (W_WaitDone c)" "\<not> off_turn W_Clear" "\<not> off_turn W_Exited"
  by (simp_all add: off_turn_def)

lemma off_turn_not_in: "off_turn pc \<Longrightarrow> \<not> in_turn pc c"
  by (auto simp: off_turn_def in_turn_def)

text \<open>Admission of the head: the only step that starts a turn.\<close>

lemma admit_fields:
  assumes "state s \<noteq> Closed" "workers s = [w]"
  shows "state (admit_head now 0 r s) = Streaming" "mailbox (admit_head now 0 r s) = tl (mailbox s)"
    "activeQueuedID (admit_head now 0 r s) = (case turn_id s r of None \<Rightarrow> [] | Some x \<Rightarrow> x)"
    "turnDone (admit_head now 0 r s) = Some (fresh s)"
    "queueChanged (admit_head now 0 r s) = Some (Suc (fresh s))"
    "fresh (admit_head now 0 r s) = Suc (Suc (fresh s))"
    "closed_chans (admit_head now 0 r s) = set_option (queueChanged s) \<union> closed_chans s"
    "panicked (admit_head now 0 r s) = (panicked s \<or> set_option (queueChanged s) \<inter> closed_chans s \<noteq> {})"
    "workers (admit_head now 0 r s) = [w\<lparr>w_pc := W_Run r (fresh s)\<rparr>]"
    "queueHolds (admit_head now 0 r s) = queueHolds s" "quit (admit_head now 0 r s) = quit s"
    "workerUp (admit_head now 0 r s) = workerUp s" "workerDone (admit_head now 0 r s) = workerDone s"
    "turns (admit_head now 0 r s) = turns s" "pending (admit_head now 0 r s) = pending s"
    "configUpdating (admit_head now 0 r s) = configUpdating s"
  using assms by (simp_all add: admit_head_def beginTurnLocked_def)

lemma configs_le_holders: "configs s \<le> holders s"
proof -
  have "length (filter (\<lambda>p. snd p = ReleaseConfig) ps) \<le> length (filter (\<lambda>p. is_hold (snd p)) ps)"
    for ps :: "(nat \<times> closure) list"
    by (induction ps) auto
  then show ?thesis by (simp add: configs_def holders_def)
qed

lemma reserved_of_no_hold: "filter (\<lambda>p. is_hold (snd p)) ps = [] \<Longrightarrow> reserved_of ps = []"
  by (induction ps rule: reserved_of.induct) auto

lemma admit_inv:
  assumes inv: "session_inv s" and w: "workers s = [w]" and off: "off_turn (w_pc w)"
    and op: "state s \<noteq> Closed" and mb: "mailbox s = r # rs" and free: "\<not> queueHolds s > 0"
  shows "session_inv (admit_head now 0 r s)" (is "session_inv ?t")
proof -
  have parts: "chan_inv s" "heap_inv s" "hold_inv s" "conf_inv s" "work_inv s" "turn_inv s" "id_inv s"
    using inv by (simp_all add: session_inv_def)
  note f = admit_fields [OF op w, of now r]
  have td: "turnDone s = None" using not_streaming_off_turn [OF inv w] off off_turn_not_in by blast
  have nohold: "holders s = 0" using parts(3) op free by (simp add: hold_inv_def)
  then have cfg: "\<not> configUpdating s"
    using parts(4) configs_le_holders [of s] by (auto simp: conf_inv_def split: if_splits)
  have res: "reserved_of (pending s) = []"
    using nohold by (simp add: holders_def reserved_of_no_hold)
  have lt: "c < fresh s" if "c \<in> set (live s) \<or> c \<in> closed_chans s" for c
    using parts(1) that by (auto simp: chan_inv_def)
  have new: "fresh s \<notin> set (live s)" "fresh s \<notin> closed_chans s"
    "Suc (fresh s) \<notin> set (live s)" "Suc (fresh s) \<notin> closed_chans s" using lt by fastforce+
  have ex: "exits [w\<lparr>w_pc := W_Run r (fresh s)\<rparr>] = exits (workers s)"
    using off w unfolding exits_def by (auto simp: off_turn_def)
  have "chan_inv ?t" using parts(1) new td unfolding chan_inv_def live_of_def f ex
    by (simp add: disjoint_iff less_Suc_eq) blast
  moreover have "heap_inv ?t" using parts(2) mb unfolding heap_inv_def f by (auto simp: less_Suc_eq)
  moreover have "hold_inv ?t" using parts(3) op mb res unfolding hold_inv_def holders_def f by auto
  moreover have "conf_inv ?t" using parts(4) cfg unfolding conf_inv_def configs_def f by simp
  moreover have "work_inv ?t" using parts(5) w op unfolding work_inv_def f by auto
  moreover have "turn_inv ?t" using parts(6) unfolding turn_inv_def IsStreaming_def f by simp
  moreover have "id_inv ?t"
  proof -
    have "turns s r \<noteq> None" using parts(2) mb by (auto simp: heap_inv_def)
    then obtain t where t: "turns s r = Some t" by blast
    have "r \<notin> set rs" using parts(2) mb by (auto simp: heap_inv_def)
    then show ?thesis using parts(7) mb td t unfolding id_inv_def f by fastforce
  qed
  ultimately show ?thesis by (simp add: session_inv_def)
qed

lemma worker_step_inv:
  assumes inv: "session_inv s" and w: "workers s = [w]" and st: "worker_step 0 s t"
  shows "session_inv t"
proof -
  have qc: "queueChanged s \<noteq> None" and idle: "off_turn (w_pc w) \<Longrightarrow> activeQueuedID s = []"
    using inv w by (simp_all add: session_inv_def work_inv_def id_inv_def)
  have td: "off_turn (w_pc w) \<or> w_pc w = W_Clear \<Longrightarrow> turnDone s = None"
    using not_streaming_off_turn [OF inv w] off_turn_not_in by auto
  have run: "in_turn (w_pc w) c \<Longrightarrow>
      c \<in> closed_chans s \<or> turnDone s = Some c \<or> c \<in> set (released_of (pending s))" for c
    using inv w by (auto simp: session_inv_def turn_inv_def)
  have same: "turnDone s = Some c \<Longrightarrow> in_turn (w_pc w) c" for c
    using inv w by (auto simp: session_inv_def turn_inv_def)
  have notlive: "c \<in> closed_chans s \<Longrightarrow> turnDone s \<noteq> Some c" for c
    using inv by (auto simp: session_inv_def chan_inv_def live_of_def)
  have loop: "session_inv (goto 0 pc s)"
    if "off_turn (w_pc w)" "off_turn pc" "\<And>c. pc = W_WaitQueue c \<Longrightarrow>
      c = queueChanged s \<and> (mailbox s = [] \<or> queueHolds s > 0)" for pc
    using goto_inv [OF inv w, of pc] that td idle off_turn_not_in by fastforce
  from st show ?thesis
  proof cases
    case (w_loop now)
    then show ?thesis using w
      by (auto simp: worker_loop_def split: list.split
          intro!: loop worker_exit_inv [OF inv w] admit_inv [OF inv w])
  next
    case (w_queue c)
    then show ?thesis using w by (auto intro!: loop)
  next
    case (w_queue_quit c)
    then show ?thesis using w quit_closed [OF inv w] worker_exit_inv [OF inv w] by auto
  next
    case (w_ready r now ok)
    then show ?thesis using w
      by (cases "mailbox s") (auto simp: worker_ready_def intro!: loop admit_inv [OF inv w])
  next
    case (w_retry c)
    then show ?thesis using w by (auto intro!: loop)
  next
    case (w_retry_quit c)
    then show ?thesis using w quit_closed [OF inv w] worker_exit_inv [OF inv w] by auto
  next
    case (w_ran r c)
    then show ?thesis using w goto_inv [OF inv w, of "W_WaitDone c"] run same by auto
  next
    case (w_done c)
    then show ?thesis using w goto_inv [OF inv w, of W_Clear] same notlive by auto
  next
    case (w_done_quit c)
    then show ?thesis using w quit_closed [OF inv w] worker_exit_inv [OF inv w] by auto
  next
    case w_clear
    let ?u = "s\<lparr>activeQueuedID := []\<rparr>"
    have "session_inv ?u"
      using inv w td w_clear(2) unfolding inv_defs
      by (simp add: holders_def configs_def IsStreaming_def fired_def)
    then show ?thesis using w_clear w td goto_inv [of ?u w W_Loop] by auto
  qed
qed

section \<open>The reachable sessions\<close>

lemma new_session_inv: "session_inv (new_session sid now m c)"
  by (simp add: inv_defs new_session_def live_of_def exits_def holders_def configs_def
      IsStreaming_def)

lemma session_step_inv: "session_step s t \<Longrightarrow> session_inv s \<Longrightarrow> session_inv t"
proof (induction rule: session_step.induct)
  case (st_worker i s t)
  then show ?case using worker_only worker_step_inv by metis
qed (auto intro: inv_intros)

interpretation turn_sys: step_system fresh_session session_step session_inv
  by unfold_locales (auto simp: fresh_session_def new_session_inv intro: session_step_inv)

end
