(* ===== verification/Turn_Properties.thy ===== *)
theory Turn_Properties
  imports Turn_Invariant
begin

text \<open>
  What the turn queue guarantees in every reachable state: turns of one session never overlap and
  start in queue order, no channel is closed twice, every hold is accounted for, no wake-up is lost,
  a closed session stays closed and its worker can be joined, and a configuration change never
  interleaves with the start of a turn.
\<close>

section \<open>Executions\<close>

definition reachable_session :: "session \<Rightarrow> bool" where
  "reachable_session s \<longleftrightarrow> (\<exists>s0. fresh_session s0 \<and> session_step\<^sup>*\<^sup>* s0 s)"

lemma reachable_inv: "reachable_session s \<Longrightarrow> session_inv s"
  by (auto simp: reachable_session_def intro: turn_sys.reachable_good)

lemma reachable_new: "reachable_session (new_session sid now m c)"
  unfolding reachable_session_def fresh_session_def by blast

lemma reachable_next: "reachable_session s \<Longrightarrow> session_step s t \<Longrightarrow> reachable_session t"
  unfolding reachable_session_def by (meson rtranclp.rtrancl_into_rtrancl)

text \<open>A session with two accepted turns, for the concrete instances below.\<close>

definition demo_meta :: session_meta where
  "demo_meta = \<lparr>name = ''demo'', metadataRevision = 0, nameUpdatedAt = 0, nameUpdatedBy = [],
     lastNameMutationID = [], cwd = ''/w'', resumeID = [], historicalResumeIDs = [], pinned = False,
     hidden = False, previewText = [], previewRole = [], previewUpdatedAt = 0, previewRevision = 0,
     contextUsed = 0, contextMax = 0, contextUsedKnown = False\<rparr>"

definition demo_config :: configuration where
  "demo_config = \<lparr>cfg_Revision = 0, cfg_Backend = ''codex'', cfg_Model = ''m'', cfg_Sandbox = ''ro'',
     cfg_Effort = [], cfg_ServiceTier = [], cfg_CollaborationMode = [], cfg_Personality = []\<rparr>"

definition demo0 :: session where
  "demo0 = new_session ''s1'' 0 demo_meta demo_config"

definition demo1 :: session where
  "demo1 = snd (submitReady ''a'' 7 None demo0)"

definition demo2 :: session where
  "demo2 = snd (submitReady ''b'' 8 None demo1)"

lemma demo_reachable: "reachable_session demo0" "reachable_session demo1" "reachable_session demo2"
proof -
  show 0: "reachable_session demo0" unfolding demo0_def by (rule reachable_new)
  show 1: "reachable_session demo1" unfolding demo1_def using 0 by (rule reachable_next) (rule st_submit)
  show "reachable_session demo2" unfolding demo2_def using 1 by (rule reachable_next) (rule st_submit)
qed

lemmas demo_simps = demo0_def demo1_def demo2_def new_session_def submitReady_def start_worker_def
  push_turn_def signal_eq mailboxSize_def id_of_def

lemma demo2_facts:
  "state demo2 = Idle" "mailbox demo2 = [3, 5]" "queueHolds demo2 = 0" "turnDone demo2 = None"
  "pending demo2 = []" "ready_of (turns demo2 3) = None" "length (workers demo2) = 1"
  "w_pc (workers demo2 ! 0) = W_Loop" "id_of (turns demo2 3) = Some ''a''"
  "id_of (turns demo2 5) = Some ''b''" "\<not> held_of (turns demo2 3)" "futureConfig demo2 = None"
  by (simp_all add: demo_simps ready_of_def held_of_def)

section \<open>Single flight and queue order\<close>

text \<open>
  C1. At most one worker goroutine of a session ever executes a turn; the session reports a turn in
  flight exactly while a turn's completion signal is armed, and then that one worker is the one
  executing or awaiting that turn.
\<close>

theorem turns_never_overlap:
  assumes "reachable_session s"
  shows "length (workers s) \<le> 1 \<and> (IsStreaming s \<longleftrightarrow> turnDone s \<noteq> None) \<and>
    (\<forall>c. turnDone s = Some c \<longrightarrow> (\<exists>w. workers s = [w] \<and> (w_pc w = W_WaitDone c \<or> (\<exists>r. w_pc w = W_Run r c))))"
proof -
  have inv: "session_inv s" using assms by (rule reachable_inv)
  have len: "length (workers s) \<le> 1" using inv by (simp add: session_inv_def work_inv_def)
  have "\<exists>w. workers s = [w] \<and> in_turn (w_pc w) c" if "turnDone s = Some c" for c
  proof -
    obtain w where w: "w \<in> set (workers s)" "in_turn (w_pc w) c"
      using inv \<open>turnDone s = Some c\<close> unfolding session_inv_def turn_inv_def by blast
    then have "workers s = [w]" using len by (cases "workers s") auto
    with w show ?thesis by simp
  qed
  then show ?thesis using inv len by (auto simp: session_inv_def turn_inv_def in_turn_def)
qed

lemma turns_never_overlap_witness:
  "reachable_session demo2 \<and> length (workers demo2) \<le> 1"
  using turns_never_overlap [OF demo_reachable(3)] demo_reachable(3) by blast

text \<open>
  C2. A worker starts a turn only in an open, idle session whose queue nobody holds and whose
  configuration is not being changed; the turn it starts is the head of the queue, the rest of the
  queue is untouched, and the session is then streaming.
\<close>

theorem turn_starts_at_head:
  assumes "reachable_session s" "i < length (workers s)" "worker_step i s t"
    and "w_pc (workers t ! i) = W_Run r c" "w_pc (workers s ! i) \<noteq> W_Run r c"
  shows "state s = Idle \<and> queueHolds s = 0 \<and> \<not> configUpdating s \<and> mailbox s = r # mailbox t
    \<and> state t = Streaming \<and> turnDone t = Some c"
proof -
  have inv: "session_inv s" using assms(1) by (rule reachable_inv)
  obtain w where w: "workers s = [w]" "i = 0" using worker_only [OF inv assms(2)] .
  have admit: "state s = Idle \<and> queueHolds s = 0 \<and> \<not> configUpdating s \<and> mailbox s = r # mailbox t
    \<and> state t = Streaming \<and> turnDone t = Some c"
    if "t = admit_head now 0 r' s" "mailbox s = r' # rs" "state s \<noteq> Closed" "\<not> queueHolds s > 0"
      "off_turn (w_pc w)" for now r' rs
  proof -
    note f = admit_fields [OF that(3) w(1), of now r']
    have "\<not> IsStreaming s" using not_streaming_off_turn [OF inv w(1)] that(5) off_turn_not_in by blast
    then have "state s = Idle" using that(3) by (cases "state s") (auto simp: IsStreaming_def)
    moreover have "queueHolds s = 0" using that(4) holds_nonneg [OF inv] by simp
    moreover have "\<not> configUpdating s"
      using inv that(3) \<open>queueHolds s = 0\<close> configs_le_holders [of s]
      by (auto simp: session_inv_def hold_inv_def conf_inv_def split: if_splits)
    ultimately show ?thesis using f that(1,2) assms(4) w by auto
  qed
  from assms(3) have "\<exists>now r' rs. t = admit_head now 0 r' s \<and> mailbox s = r' # rs \<and> state s \<noteq> Closed
    \<and> \<not> queueHolds s > 0 \<and> off_turn (w_pc w)"
  proof cases
    case (w_loop now)
    then show ?thesis using assms(4) w
      by (fastforce simp: worker_loop_def worker_exit_def split: if_splits list.splits)
  next
    case (w_ready r' now ok)
    then show ?thesis using assms(4) w
      by (cases "mailbox s") (fastforce simp: worker_ready_def split: if_splits)+
  qed (use assms(4,5) w in \<open>auto simp: worker_exit_def\<close>)
  then show ?thesis using admit by blast
qed

lemma turn_starts_at_head_witness:
  "worker_step 0 demo2 (worker_loop 5 0 demo2) \<and> mailbox demo2 = 3 # mailbox (worker_loop 5 0 demo2)
   \<and> state demo2 = Idle"
proof -
  have st: "worker_step 0 demo2 (worker_loop 5 0 demo2)"
    by (rule worker_step.w_loop) (rule demo2_facts)
  obtain w where w: "workers demo2 = [w]"
    using demo2_facts(7) by (auto simp: length_Suc_conv)
  have eq: "worker_loop 5 0 demo2 = admit_head 5 0 3 demo2"
    by (simp add: worker_loop_def demo2_facts)
  have pc: "w_pc (workers (worker_loop 5 0 demo2) ! 0) = W_Run 3 (fresh demo2)"
    using admit_fields(9) [of demo2 w 5 3] w demo2_facts(1) eq by simp
  show ?thesis
    using turn_starts_at_head [OF demo_reachable(3) _ st pc] demo2_facts st by simp
qed

section \<open>Absence of run-time panics\<close>

text \<open>
  C3. No interleaving of the operations, of the closures they return and of the worker closes a
  channel twice: the queue never panics.
\<close>

theorem queue_never_panics: "fresh_session s0 \<Longrightarrow> session_step\<^sup>*\<^sup>* s0 s \<Longrightarrow> \<not> panicked s"
  using turn_sys.reachable_good by (auto simp: session_inv_def chan_inv_def)

lemma queue_never_panics_witness:
  "fresh_session demo0 \<and> session_step\<^sup>*\<^sup>* demo0 (Close demo0) \<and> \<not> panicked (Close demo0)"
proof -
  have f: "fresh_session demo0" by (auto simp: fresh_session_def demo0_def)
  have st: "session_step\<^sup>*\<^sup>* demo0 (Close demo0)" by (rule r_into_rtranclp) (rule st_close)
  show ?thesis using f st queue_never_panics [OF f st] by blast
qed

section \<open>Holds\<close>

text \<open>
  C4. The hold counter of an open session is exactly the number of hold, reservation and
  configuration closures that were handed out and not yet called, so it is never negative; a waiting
  turn is marked held exactly when one such reservation names it; in a closed session it is zero.
\<close>

theorem holds_are_accounted:
  assumes "reachable_session s"
  shows "queueHolds s = (if state s = Closed then 0
      else int (length (filter (\<lambda>p. is_hold (snd p)) (pending s))))
    \<and> 0 \<le> queueHolds s
    \<and> (state s \<noteq> Closed \<longrightarrow>
        (\<forall>r\<in>set (mailbox s). turn_held s r \<longleftrightarrow> (\<exists>k. (k, FinishQueued r) \<in> set (pending s))))"
proof -
  have res: "r \<in> set (reserved_of ps) \<longleftrightarrow> (\<exists>k. (k, FinishQueued r) \<in> set ps)" for r ps
    by (induction ps rule: reserved_of.induct) auto
  have inv: "session_inv s" using assms by (rule reachable_inv)
  then have "hold_inv s" by (simp add: session_inv_def)
  then show ?thesis using holds_nonneg [OF inv] unfolding hold_inv_def holders_def
    by (auto simp: res [symmetric] split: if_splits)
qed

lemma holds_are_accounted_witness:
  "reachable_session (snd (HoldQueue demo2)) \<and> queueHolds (snd (HoldQueue demo2)) = 1"
proof -
  have r: "reachable_session (snd (HoldQueue demo2))"
    using demo_reachable(3) by (rule reachable_next) (rule st_hold)
  show ?thesis using r holds_are_accounted [OF r] by (simp add: HoldQueue_def add_closure_def demo2_facts)
qed

lemma remove_first_absent: "k \<notin> fst ` set ps \<Longrightarrow> remove_first (\<lambda>p. fst p = k) ps = ps"
  by (induction ps) auto

text \<open>
  Reserving a waiting turn and giving it back with \<^verbatim>\<open>finish(false)\<close> leaves the queue,
  its marks and the hold counter as they were; \<^verbatim>\<open>finish(true)\<close> removes that turn and no
  other; a second call of the same closure does nothing.
\<close>

theorem reservation_round_trip:
  assumes "reachable_session s" "reserveQueued tid act excl s = (Inr k, s1)"
  shows "mailbox (call_closure k False s1) = mailbox s
    \<and> turns (call_closure k False s1) = turns s
    \<and> queueHolds (call_closure k False s1) = queueHolds s
    \<and> (\<exists>r. turn_id s r = Some tid \<and> r \<in> set (mailbox s) \<and>
         mailbox (call_closure k True s1) = filter (\<lambda>x. x \<noteq> r) (mailbox s))
    \<and> call_closure k again (call_closure k rm s1) = call_closure k rm s1"
proof -
  have inv: "session_inv s" using assms(1) by (rule reachable_inv)
  obtain r where r: "find_named tid s = Some r" "\<not> turn_held s r" and k: "k = fresh s"
    and s1: "s1 = (set_held r True s)\<lparr>queueHolds := queueHolds s + 1,
                     pending := (fresh s, FinishQueued r) # pending s, fresh := Suc (fresh s)\<rparr>"
    using assms(2) by (auto simp: reserveQueued_def add_closure_def split: if_splits option.splits)
  note rn = find_named_Some [OF r(1)]
  have hp: "heap_inv s" using inv by (simp add: session_inv_def)
  obtain q where q: "turns s r = Some q" using hp rn by (auto simp: heap_inv_def)
  have k_new: "k \<notin> fst ` set (pending s)" using hp k by (auto simp: heap_inv_def)
  then have none: "map_of (pending s) k = None" by (simp add: map_of_eq_None_iff)
  have held: "q\<lparr>qt_held := False\<rparr> = q" using r(2) q by (cases q) simp
  have rm: "remove_first (\<lambda>x. x = r) xs = filter (\<lambda>x. x \<noteq> r) xs" if "distinct xs" for xs
    using that by (induction xs) (auto intro: filter_True [symmetric])
  have call: "call_closure k b s1 = finish_queued r b (s1\<lparr>pending := pending s\<rparr>)" for b
    by (simp add: call_closure_def s1 k)
  have "pending (call_closure k b s1) = pending s" for b
    unfolding call finish_queued_def by (simp add: Let_def)
  then have "call_closure k again (call_closure k rm s1) = call_closure k rm s1"
    by (simp add: call_closure_def [of k again] none)
  moreover have "mailbox (call_closure k b s1) = (if b then filter (\<lambda>x. x \<noteq> r) (mailbox s) else mailbox s)" for b
    unfolding call finish_queued_def using hp by (simp add: s1 Let_def heap_inv_def rm)
  moreover have "turns (call_closure k False s1) = turns s"
    unfolding call finish_queued_def using q held by (simp add: s1 Let_def fun_upd_idem)
  moreover have "queueHolds (call_closure k False s1) = queueHolds s"
    unfolding call finish_queued_def using q by (simp add: s1 Let_def)
  ultimately show ?thesis using rn by auto
qed

lemma demo2_reserve:
  "reserveQueued ''a'' False False demo2 = (Inr (fresh demo2), snd (reserveQueued ''a'' False False demo2))"
  by (simp add: reserveQueued_def find_named_def demo2_facts add_closure_def)

lemma reservation_round_trip_witness:
  "mailbox (call_closure (fresh demo2) False (snd (reserveQueued ''a'' False False demo2))) = [3, 5]"
  using reservation_round_trip [OF demo_reachable(3) demo2_reserve] demo2_facts(2) by simp

section \<open>No duplicate, no lost wake-up\<close>

lemma start_worker_up [simp]: "workerUp (start_worker s)" "state (start_worker s) = state s"
  by (simp_all add: start_worker_def)

lemma submit_accepted:
  assumes "fst (submitReady tid fn ready s) = Accepted" "tid \<noteq> []"
  shows "state (snd (submitReady tid fn ready s)) \<noteq> Closed
    \<and> workerUp (snd (submitReady tid fn ready s))
    \<and> (activeQueuedID (snd (submitReady tid fn ready s)) = tid
       \<or> (\<exists>r\<in>set (mailbox (snd (submitReady tid fn ready s))).
             turn_id (snd (submitReady tid fn ready s)) r = Some tid))"
  using assms by (simp add: submitReady_def Let_def split: if_splits)

lemma submit_again:
  assumes "tid \<noteq> []" "state s \<noteq> Closed" "workerUp s"
    and "activeQueuedID s = tid \<or> (\<exists>r\<in>set (mailbox s). turn_id s r = Some tid)"
  shows "submitReady tid fn ready s = (Accepted, s)"
  using assms by (auto simp: submitReady_def start_worker_def)

text \<open>
  A named turn is queued at most once: after an accepted submission under an identity, a second
  submission under it is accepted and changes nothing, and the identities waiting in the queue of a
  reachable session are distinct and differ from the one being executed.
\<close>

theorem named_turns_are_unique:
  assumes "reachable_session s" "tid \<noteq> []"
  shows "(fst (SubmitNamed tid fn s) \<longrightarrow>
      SubmitNamed tid fn' (snd (SubmitNamed tid fn s)) = (True, snd (SubmitNamed tid fn s)))
    \<and> length (filter (\<lambda>r. turn_id s r = Some tid) (mailbox s)) \<le> 1
    \<and> (turnDone s \<noteq> None \<and> activeQueuedID s = tid \<longrightarrow> (\<forall>r\<in>set (mailbox s). turn_id s r \<noteq> Some tid))"
proof -
  have inv: "session_inv s" using assms(1) by (rule reachable_inv)
  have dist: "length (filter p xs) \<le> 1"
    if "distinct xs" "\<And>x y. x \<in> set xs \<Longrightarrow> y \<in> set xs \<Longrightarrow> p x \<Longrightarrow> p y \<Longrightarrow> x = y" for p and xs :: "nat list"
    using that by (induction xs) (auto simp: filter_empty_conv)
  have "length (filter (\<lambda>r. turn_id s r = Some tid) (mailbox s)) \<le> 1"
    using inv assms(2) by (intro dist) (auto simp: session_inv_def heap_inv_def id_inv_def)
  moreover have "turnDone s \<noteq> None \<and> activeQueuedID s = tid \<longrightarrow> (\<forall>r\<in>set (mailbox s). turn_id s r \<noteq> Some tid)"
    using inv assms(2) by (auto simp: session_inv_def id_inv_def)
  moreover have "fst (SubmitNamed tid fn s) \<longrightarrow>
      SubmitNamed tid fn' (snd (SubmitNamed tid fn s)) = (True, snd (SubmitNamed tid fn s))"
    using submit_again [OF assms(2)] submit_accepted [OF _ assms(2), of fn None s]
    by (auto simp: SubmitNamed_def submit_nowait_def case_prod_beta split: submit_outcome.splits)
  ultimately show ?thesis by blast
qed

lemma named_turns_are_unique_witness:
  "SubmitNamed ''a'' 9 (snd (SubmitNamed ''a'' 7 demo0)) = (True, snd (SubmitNamed ''a'' 7 demo0))"
proof -
  have "fst (SubmitNamed ''a'' 7 demo0)"
    by (simp add: SubmitNamed_def submit_nowait_def demo_simps)
  then show ?thesis using named_turns_are_unique [OF demo_reachable(1), of "''a''" 7 9] by simp
qed

section \<open>Progress\<close>

lemma runs_after:
  assumes "(worker_step 0)\<^sup>*\<^sup>* s u"
    and "\<exists>t c. (worker_step 0)\<^sup>*\<^sup>* u t \<and> w_pc (workers t ! 0) = W_Run r c \<and> mailbox t = rs"
  shows "\<exists>t c. (worker_step 0)\<^sup>*\<^sup>* s t \<and> w_pc (workers t ! 0) = W_Run r c \<and> mailbox t = rs"
proof -
  from assms(2) obtain t c where t: "(worker_step 0)\<^sup>*\<^sup>* u t" "w_pc (workers t ! 0) = W_Run r c"
    "mailbox t = rs" by blast
  have "(worker_step 0)\<^sup>*\<^sup>* s t" using assms(1) t(1) by (rule rtranclp_trans)
  with t(2,3) show ?thesis by blast
qed

lemma runs_after_step:
  assumes "worker_step 0 s u"
    and "\<exists>t c. (worker_step 0)\<^sup>*\<^sup>* u t \<and> w_pc (workers t ! 0) = W_Run r c \<and> mailbox t = rs"
  shows "\<exists>t c. (worker_step 0)\<^sup>*\<^sup>* s t \<and> w_pc (workers t ! 0) = W_Run r c \<and> mailbox t = rs"
  using runs_after [OF _ assms(2)] assms(1) by blast

text \<open>From the top of its loop the worker reaches the head of an unheld queue.\<close>

lemma loop_runs_head:
  assumes w: "workers s = [w]" "w_pc w = W_Loop" and op: "state s \<noteq> Closed"
    and mb: "mailbox s = r # rs" and free: "queueHolds s = 0"
  shows "\<exists>t c. (worker_step 0)\<^sup>*\<^sup>* s t \<and> w_pc (workers t ! 0) = W_Run r c \<and> mailbox t = rs"
proof (cases "turn_ready s r")
  case None
  have "worker_step 0 s (worker_loop 0 0 s)" using w by (intro worker_step.w_loop) simp
  moreover have "worker_loop 0 0 s = admit_head 0 0 r s" using op mb free None by (simp add: worker_loop_def)
  ultimately show ?thesis using admit_fields [OF op w(1), of 0 r] mb by (intro exI [of _ "admit_head 0 0 r s"]) auto
next
  case (Some a)
  let ?u = "goto 0 (W_Ready r) s"
  have "worker_step 0 s (worker_loop 0 0 s)" using w by (intro worker_step.w_loop) simp
  moreover have "worker_loop 0 0 s = ?u" using op mb free Some by (simp add: worker_loop_def)
  ultimately have 1: "worker_step 0 s ?u" by simp
  have 2: "worker_step 0 ?u (worker_ready 0 0 r True ?u)" using w by (intro worker_step.w_ready) simp
  have 3: "worker_ready 0 0 r True ?u = admit_head 0 0 r ?u" using op mb free by (simp add: worker_ready_def)
  have u: "state ?u \<noteq> Closed" "workers ?u = [w\<lparr>w_pc := W_Ready r\<rparr>]" using op w by simp_all
  have "(worker_step 0)\<^sup>*\<^sup>* s (admit_head 0 0 r ?u)" using 1 2 3 by (metis rtranclp.simps)
  then show ?thesis using admit_fields [OF u, of 0 r] mb by (intro exI [of _ "admit_head 0 0 r ?u"]) auto
qed

lemma clear_runs_head:
  assumes w: "workers s = [w]" and op: "state s \<noteq> Closed"
    and mb: "mailbox s = r # rs" and free: "queueHolds s = 0"
    and pc: "w_pc w = W_Clear \<or> w_pc w = W_WaitDone c \<and> c \<in> closed_chans s"
  shows "\<exists>t c. (worker_step 0)\<^sup>*\<^sup>* s t \<and> w_pc (workers t ! 0) = W_Run r c \<and> mailbox t = rs"
proof -
  let ?u = "goto 0 W_Clear s"
  let ?v = "goto 0 W_Loop (?u\<lparr>activeQueuedID := []\<rparr>)"
  have "(worker_step 0)\<^sup>*\<^sup>* s ?u"
  proof (cases "w_pc w = W_Clear")
    case True
    then have "?u = s" using w by (simp add: goto_def)
    then show ?thesis by simp
  next
    case False
    then show ?thesis using pc w worker_step.w_done [of s 0 c] by auto
  qed
  moreover have "worker_step 0 ?u ?v" using w by (intro worker_step.w_clear) simp
  ultimately have sv: "(worker_step 0)\<^sup>*\<^sup>* s ?v" by (rule rtranclp.rtrancl_into_rtrancl)
  have v: "workers ?v = [w\<lparr>w_pc := W_Loop\<rparr>]" using w by simp
  show ?thesis by (rule runs_after [OF sv], rule loop_runs_head [OF v]) (use op mb free in simp_all)
qed

lemma jump_runs_head:
  assumes "worker_step 0 s (goto 0 W_Loop s)" "workers s = [w]" "state s \<noteq> Closed"
    "mailbox s = r # rs" "queueHolds s = 0"
  shows "\<exists>t c. (worker_step 0)\<^sup>*\<^sup>* s t \<and> w_pc (workers t ! 0) = W_Run r c \<and> mailbox t = rs"
proof -
  have v: "workers (goto 0 W_Loop s) = [w\<lparr>w_pc := W_Loop\<rparr>]" using assms(2) by simp
  show ?thesis
    by (rule runs_after_step [OF assms(1)], rule loop_runs_head [OF v])
      (use assms(3-5) in simp_all)
qed

text \<open>
  C5. No wake-up is lost: in every reachable open session with a waiting turn, no hold, no turn in
  flight and every prepared end of turn released, the worker can reach the execution of exactly the
  head of the queue by its own moves, whatever it was waiting for.
\<close>

theorem waiting_turn_can_start:
  assumes "reachable_session s" "state s \<noteq> Closed" "mailbox s = r # rs" "queueHolds s = 0"
    and "turnDone s = None" "released_of (pending s) = []"
  shows "\<exists>t c. (worker_step 0)\<^sup>*\<^sup>* s t \<and> w_pc (workers t ! 0) = W_Run r c \<and> mailbox t = rs"
proof -
  have inv: "session_inv s" using assms(1) by (rule reachable_inv)
  have "workers s \<noteq> []" using inv assms(3) by (auto simp: session_inv_def id_inv_def)
  moreover have "length (workers s) \<le> 1" using inv by (simp add: session_inv_def work_inv_def)
  ultimately obtain w where w: "workers s = [w]" by (cases "workers s") auto
  have turn: "c \<in> closed_chans s" if "in_turn (w_pc w) c" for c
    using inv w that assms(5,6) by (auto simp: session_inv_def turn_inv_def)
  note jump = jump_runs_head [OF _ w assms(2-4)]
  show ?thesis
  proof (cases "w_pc w")
    case W_Loop
    then show ?thesis using loop_runs_head [OF w _ assms(2-4)] by simp
  next
    case (W_WaitQueue c)
    have "fired s c" using inv w W_WaitQueue assms(3,4) by (auto simp: session_inv_def turn_inv_def)
    then show ?thesis using jump worker_step.w_queue [of s 0 c] w W_WaitQueue by simp
  next
    case (W_Ready x)
    then have st: "worker_step 0 s (worker_ready 0 0 x True s)" using w by (intro worker_step.w_ready) simp
    show ?thesis
    proof (cases "x = r")
      case True
      then have "worker_ready 0 0 x True s = admit_head 0 0 r s" using assms(2-4) by (simp add: worker_ready_def)
      then show ?thesis using st True admit_fields [OF assms(2) w, of 0 r] assms(3)
        by (intro exI [of _ "admit_head 0 0 r s"]) auto
    next
      case False
      then show ?thesis using jump st assms(3) by (simp add: worker_ready_def)
    qed
  next
    case (W_WaitReady c)
    then show ?thesis using jump worker_step.w_retry [of s 0 c] w by simp
  next
    case (W_Run x c)
    let ?u = "goto 0 (W_WaitDone c) s"
    have st: "worker_step 0 s ?u" using w W_Run by (intro worker_step.w_ran) simp
    have u: "workers ?u = [w\<lparr>w_pc := W_WaitDone c\<rparr>]" using w by simp
    show ?thesis
      by (rule runs_after_step [OF st], rule clear_runs_head [OF u, of _ _ c])
        (use assms(2-4) turn W_Run in simp_all)
  next
    case (W_WaitDone c)
    then show ?thesis using clear_runs_head [OF w assms(2-4), of c] turn [of c] by simp
  next
    case W_Clear
    then show ?thesis using clear_runs_head [OF w assms(2-4)] by simp
  next
    case W_Exited
    then show ?thesis using inv w assms(2) by (auto simp: session_inv_def work_inv_def)
  qed
qed

lemma waiting_turn_can_start_witness:
  "\<exists>t c. (worker_step 0)\<^sup>*\<^sup>* demo2 t \<and> w_pc (workers t ! 0) = W_Run 3 c \<and> mailbox t = [5]"
  by (rule waiting_turn_can_start [OF demo_reachable(3)]) (simp_all add: demo2_facts)

section \<open>Closing\<close>

lemma step_closed:
  assumes "session_step s t" "session_inv s" "state s = Closed"
  shows "state t = Closed"
  using assms
proof (induction rule: session_step.induct)
  case (st_closure s k remove)
  have "state (run_closure c remove s') = state s'" for c s'
    by (cases c; cases "case c of ReleaseTurn x \<Rightarrow> x | _ \<Rightarrow> None")
       (simp_all add: finish_queued_def release_hold_def Let_def split: closure.splits)
  then show ?case using st_closure by (simp add: call_closure_def split: option.split)
next
  case (st_worker i s t)
  obtain w where w: "workers s = [w]" "i = 0" using worker_only [OF st_worker(3,1)] .
  from st_worker(2,4) w show ?case
    by (cases rule: worker_step.cases) (auto simp: worker_loop_def worker_exit_def worker_ready_def)
qed (auto simp: submitReady_def reserveQueued_def CancelQueued_def DeferActiveNamed_def
      PrepareEndTurn_def MarkStopping_def RestoreStreamingAfterUnconfirmedStop_def Close_def
      HoldQueue_def SetFutureConfiguration_def RestoreFutureConfiguration_def
      ActivateQueuedConfiguration_def ReserveConfiguration_def SetConfigRevision_def Let_def
      add_closure_def find_named_def hold_inv_def session_inv_def split: option.split)

interpretation closed_sys: step_system "\<lambda>s. session_inv s \<and> state s = Closed" session_step
    "\<lambda>s. session_inv s \<and> state s = Closed"
  by unfold_locales (auto dest: step_closed session_step_inv)

lemma exit_joins:
  assumes "session_inv s" "workers s = [w]"
  shows "joined (worker_exit 0 s)"
  using assms by (auto simp: joined_def worker_exit_def session_inv_def work_inv_def)

lemma closed_worker_exits:
  assumes inv: "session_inv s" and w: "workers s = [w]" and cl: "state s = Closed"
  shows "\<exists>t. (worker_step 0)\<^sup>*\<^sup>* s t \<and> joined t"
proof -
  have q: "w_quit w \<in> closed_chans s" using inv w cl by (simp add: session_inv_def work_inv_def)
  have done_: "workerDone s = Some (w_exited w)" using inv w by (simp add: session_inv_def work_inv_def)
  have loop: "\<exists>t. (worker_step 0)\<^sup>*\<^sup>* s t \<and> joined t"
    if "(worker_step 0)\<^sup>*\<^sup>* s u" "workers u = [w\<lparr>w_pc := W_Loop\<rparr>]" "state u = Closed"
      "workerDone u = workerDone s" for u
  proof -
    have "worker_step 0 u (worker_loop 0 0 u)" using that by (intro worker_step.w_loop) simp
    moreover have "joined (worker_loop 0 0 u)"
      using that done_ by (simp add: worker_loop_def worker_exit_def joined_def)
    ultimately show ?thesis using that(1) by (meson rtranclp.rtrancl_into_rtrancl)
  qed
  have exit: "\<exists>t. (worker_step 0)\<^sup>*\<^sup>* s t \<and> joined t" if "worker_step 0 s (worker_exit 0 s)"
    using that exit_joins [OF inv w] by blast
  show ?thesis
  proof (cases "w_pc w")
    case W_Loop
    then show ?thesis using loop [of s] w cl by (cases w) simp
  next
    case (W_WaitQueue c)
    then show ?thesis using exit worker_step.w_queue_quit [of s 0 c] w q by simp
  next
    case (W_Ready r)
    then have "worker_step 0 s (worker_ready 0 0 r True s)" using w by (intro worker_step.w_ready) simp
    then show ?thesis using loop [of "goto 0 W_Loop s"] w cl by (auto simp: worker_ready_def)
  next
    case (W_WaitReady c)
    then show ?thesis using exit worker_step.w_retry_quit [of s 0 c] w q by simp
  next
    case (W_Run r c)
    let ?u = "goto 0 (W_WaitDone c) s"
    have "worker_step 0 s ?u" using w W_Run by (intro worker_step.w_ran) simp
    moreover have "worker_step 0 ?u (worker_exit 0 ?u)"
      using w q by (intro worker_step.w_done_quit) simp_all
    moreover have "joined (worker_exit 0 ?u)" using w done_ by (simp add: joined_def worker_exit_def)
    ultimately show ?thesis by (meson converse_rtranclp_into_rtranclp r_into_rtranclp)
  next
    case (W_WaitDone c)
    then show ?thesis using exit worker_step.w_done_quit [of s 0 c] w q by simp
  next
    case W_Clear
    then have "worker_step 0 s (goto 0 W_Loop (s\<lparr>activeQueuedID := []\<rparr>))"
      using w by (intro worker_step.w_clear) simp
    then show ?thesis using loop [of "goto 0 W_Loop (s\<lparr>activeQueuedID := []\<rparr>)"] w cl by auto
  next
    case W_Exited
    then show ?thesis using inv w by (auto simp: joined_def session_inv_def work_inv_def)
  qed
qed

text \<open>
  C6. Closing is final and joinable: from a closed session every further step leads to a closed
  session with an empty queue that refuses submissions, and the worker can always run to the point
  where \<^verbatim>\<open>CloseAndWait\<close> returns.
\<close>

theorem closed_is_final_and_joinable:
  assumes "reachable_session s" "state s = Closed"
  shows "(\<forall>t. session_step\<^sup>*\<^sup>* s t \<longrightarrow> state t = Closed \<and> mailbox t = []
            \<and> submitReady tid fn ready t = (Refused, t))
    \<and> (\<exists>t. (worker_step 0)\<^sup>*\<^sup>* s t \<and> joined t)"
proof
  have inv: "session_inv s" using assms(1) by (rule reachable_inv)
  have stay: "session_inv t \<and> state t = Closed" if "session_step\<^sup>*\<^sup>* s t" for t
    using closed_sys.steps_good [OF that] inv assms(2) by simp
  have "mailbox t = []" if "session_inv t" "state t = Closed" for t
    using that by (simp add: session_inv_def hold_inv_def)
  then show "\<forall>t. session_step\<^sup>*\<^sup>* s t \<longrightarrow> state t = Closed \<and> mailbox t = []
          \<and> submitReady tid fn ready t = (Refused, t)"
    using stay by (simp add: submitReady_def)
  have "length (workers s) \<le> 1" using inv by (simp add: session_inv_def work_inv_def)
  then consider "workers s = []" | w where "workers s = [w]" by (cases "workers s") auto
  then show "\<exists>t. (worker_step 0)\<^sup>*\<^sup>* s t \<and> joined t"
  proof cases
    case 1
    then show ?thesis using inv by (auto simp: joined_def session_inv_def work_inv_def)
  next
    case 2
    then show ?thesis using closed_worker_exits inv assms(2) by blast
  qed
qed

lemma closed_is_final_and_joinable_witness:
  "\<exists>t. (worker_step 0)\<^sup>*\<^sup>* (Close demo2) t \<and> joined t"
proof -
  have r: "reachable_session (Close demo2)"
    using demo_reachable(3) by (rule reachable_next) (rule st_close)
  have "state (Close demo2) = Closed" using Close_fields(1) [of demo2] demo2_facts(1) by simp
  then show ?thesis using closed_is_final_and_joinable [OF r] by blast
qed

section \<open>Configuration\<close>

lemma EndTurn_fields:
  "state (EndTurn now s) = (if IsStreaming s then Idle else state s)"
  "config (EndTurn now s) =
     (if IsStreaming s then (case futureConfig s of None \<Rightarrow> config s | Some c \<Rightarrow> c) else config s)"
  by (cases "turnDone s"; cases "futureConfig s";
      simp add: EndTurn_def PrepareEndTurn_def add_closure_def call_closure_def IsStreaming_def Let_def
        apply_future_def applyConfigurationLocked_def)+

text \<open>
  The configuration pinned to a queued message is in force only for its own turn: activating it
  succeeds only with the session's backend and sandbox, and at the end of the turn the session is
  back on the default that was in force before (the pending one, if there is one).
\<close>

theorem queued_configuration_is_scoped:
  assumes "ActivateQueuedConfiguration c s = (None, s1)"
  shows "config s1 = c \<and> cfg_Backend c = cfg_Backend (config s) \<and> cfg_Sandbox c = cfg_Sandbox (config s)
    \<and> config (EndTurn now s1) = sn_config (SettingsSnapshot s)
    \<and> SettingsSnapshot s1 = (SettingsSnapshot s)
    \<and> state (EndTurn now s1) = Idle"
proof -
  have st: "state s = Streaming" and c: "cfg_Backend c = cfg_Backend (config s)"
      "cfg_Sandbox c = cfg_Sandbox (config s)"
    and s1: "s1 = s\<lparr>futureConfig := Some (sn_config (SettingsSnapshot s)), config := c\<rparr>"
    using assms
    by (auto simp: ActivateQueuedConfiguration_def Let_def applyConfigurationLocked_def
        ConfigurationFrom_def snapshotLocked_def SettingsSnapshot_def applySnapshot_def
        split: if_splits option.splits)
  show ?thesis using c st
    by (simp add: EndTurn_fields s1 SettingsSnapshot_def snapshotLocked_def applySnapshot_def
        IsStreaming_def split: option.splits)
qed

lemma queued_configuration_is_scoped_witness:
  "config (EndTurn 9 (snd (ActivateQueuedConfiguration (demo_config\<lparr>cfg_Model := ''x''\<rparr>)
      (demo0\<lparr>state := Streaming\<rparr>)))) = demo_config"
proof -
  let ?s = "demo0\<lparr>state := Streaming\<rparr>" and ?c = "demo_config\<lparr>cfg_Model := ''x''\<rparr>"
  have "ActivateQueuedConfiguration ?c ?s = (None, snd (ActivateQueuedConfiguration ?c ?s))"
    by (simp add: ActivateQueuedConfiguration_def demo0_def new_session_def demo_config_def Let_def)
  from queued_configuration_is_scoped [OF this, of 9] show ?thesis
    by (simp add: SettingsSnapshot_def snapshotLocked_def demo0_def new_session_def)
qed

end
