(* ===== verification/Registry_Properties.thy ===== *)
theory Registry_Properties
  imports Session_Registry Turn_Properties
begin

text \<open>
  What the session registry and its store guarantee: legacy duplicates collapse to the preferred
  row, a saved table comes back after a restart, a rename is durable or undone, a preview only moves
  forward, discovery of native transcripts keeps one row per conversation and never overrides a
  user's name, and saving keeps what it does not know.
\<close>

section \<open>Collapsing duplicate rows\<close>

text \<open>\<^verbatim>\<open>preferSavedSession\<close> is a strict linear order on distinct identifiers.\<close>

abbreviation pref :: "(string \<Rightarrow> savedEntry) \<Rightarrow> string \<Rightarrow> string \<Rightarrow> bool" where
  "pref loaded x y \<equiv> preferSavedSession x (loaded x) y (loaded y)"

lemma pref_total: "x \<noteq> y \<Longrightarrow> pref loaded x y \<or> pref loaded y x"
  by (auto simp: preferSavedSession_def Let_def)

lemma pref_asym: "pref loaded x y \<Longrightarrow> \<not> pref loaded y x"
  by (auto simp: preferSavedSession_def Let_def split: if_splits)

lemma pref_trans: "pref loaded x y \<Longrightarrow> pref loaded y z \<Longrightarrow> pref loaded x z"
  by (auto simp: preferSavedSession_def Let_def split: if_splits)

definition best_row :: "(string \<Rightarrow> savedEntry) \<Rightarrow> string set \<Rightarrow> string \<Rightarrow> bool" where
  "best_row loaded P x \<longleftrightarrow>
     x \<in> P \<and> (\<forall>y\<in>P. resume_of (loaded y) = resume_of (loaded x) \<longrightarrow> y \<noteq> x \<longrightarrow> pref loaded x y)"

text \<open>The loop invariant: \<open>chosen\<close> maps every conversation seen to its best row so far.\<close>

definition collapse_inv :: "(string \<Rightarrow> savedEntry) \<Rightarrow> string set \<Rightarrow> collapse \<Rightarrow> bool" where
  "collapse_inv loaded P acc \<longleftrightarrow>
     (\<forall>rid x. rid \<noteq> [] \<longrightarrow>
        fst acc rid = Some x \<longleftrightarrow> best_row loaded P x \<and> resume_of (loaded x) = rid)
     \<and> (\<forall>rid. rid \<noteq> [] \<longrightarrow> fst acc rid = None \<longleftrightarrow> (\<forall>y\<in>P. resume_of (loaded y) \<noteq> rid))
     \<and> set (snd acc) = {x \<in> P. resume_of (loaded x) = [] \<or> best_row loaded P x}
     \<and> distinct (snd acc)"

lemma best_row_insert:
  assumes "x \<notin> P"
  shows "best_row loaded (insert x P) y \<longleftrightarrow>
     (if y = x then (\<forall>z\<in>P. resume_of (loaded z) = resume_of (loaded x) \<longrightarrow> pref loaded x z)
      else best_row loaded P y
           \<and> (resume_of (loaded x) = resume_of (loaded y) \<longrightarrow> pref loaded y x))"
  using assms by (auto simp: best_row_def)

lemma collapse_row_inv:
  assumes inv: "collapse_inv loaded P acc" and x: "x \<notin> P"
  shows "collapse_inv loaded (insert x P) (collapse_row loaded x acc)"
proof -
  obtain chosen keep where acc [simp]: "acc = (chosen, keep)" by (cases acc)
  let ?r = "resume_of (loaded x)"
  note inv' = inv [unfolded collapse_inv_def acc fst_conv snd_conv]
  consider (none) "?r = []" | (new) "?r \<noteq> []" "chosen ?r = None"
    | (better) p where "?r \<noteq> []" "chosen ?r = Some p" "pref loaded x p"
    | (worse) p where "?r \<noteq> []" "chosen ?r = Some p" "\<not> pref loaded x p"
    by (cases "?r = []"; cases "chosen ?r") auto
  then show ?thesis
  proof cases
    case none
    with inv' x show ?thesis
      by (auto simp: collapse_inv_def collapse_row_def best_row_insert)
  next
    case new
    have no: "y \<in> P \<Longrightarrow> resume_of (loaded y) \<noteq> ?r" for y using new inv' by blast
    have ins: "best_row loaded (insert x P) y \<longleftrightarrow> y = x \<or> best_row loaded P y" for y
      unfolding best_row_insert [OF x] using no by (metis best_row_def)
    have row: "collapse_row loaded x acc = (chosen(?r \<mapsto> x), x # keep)"
      using new by (simp add: collapse_row_def)
    have "x \<notin> set keep" using inv' x by auto
    moreover have "best_row loaded P y \<Longrightarrow> resume_of (loaded y) \<noteq> ?r" for y
      using no [of y] by (simp add: best_row_def)
    ultimately show ?thesis
      unfolding collapse_inv_def row fst_conv snd_conv ins using inv' no new(1)
      by (intro conjI) (force simp: fun_upd_def)+
  next
    case (better p)
    then have p: "best_row loaded P p" "resume_of (loaded p) = ?r" using inv' by auto
    have xb: "\<forall>z\<in>P. resume_of (loaded z) = ?r \<longrightarrow> pref loaded x z"
      using p better(3) pref_trans by (metis best_row_def)
    have px: "\<not> pref loaded p x" using better(3) pref_asym by blast
    have uniq: "best_row loaded P y \<Longrightarrow> resume_of (loaded y) = ?r \<Longrightarrow> y = p" for y
      using p pref_asym by (metis best_row_def)
    have ins: "best_row loaded (insert x P) y \<longleftrightarrow> y = x \<or> best_row loaded P y \<and> y \<noteq> p" for y
      unfolding best_row_insert [OF x] using xb px uniq p by metis
    have row: "collapse_row loaded x acc = (chosen(?r \<mapsto> x), x # removeAll p keep)"
      using better by (simp add: collapse_row_def)
    have keep: "x \<notin> set keep" "p \<in> P" "p \<noteq> x" "distinct keep"
      using inv' x p(1) by (auto simp: best_row_def)
    have c1: "(chosen(?r \<mapsto> x)) rid = Some y \<longleftrightarrow>
        (y = x \<or> best_row loaded P y \<and> y \<noteq> p) \<and> resume_of (loaded y) = rid" if "rid \<noteq> []" for rid y
      using that inv' p(2) uniq by (cases "rid = ?r") auto
    have c2: "(chosen(?r \<mapsto> x)) rid = None \<longleftrightarrow> (\<forall>y\<in>insert x P. resume_of (loaded y) \<noteq> rid)"
      if "rid \<noteq> []" for rid
      using that inv' by (cases "rid = ?r") auto
    have c3: "set (x # removeAll p keep) =
        {y \<in> insert x P. resume_of (loaded y) = [] \<or> y = x \<or> best_row loaded P y \<and> y \<noteq> p}"
      using inv' p(2) better(1) keep x by auto
    show ?thesis
      unfolding collapse_inv_def row fst_conv snd_conv ins
      using c1 c2 c3 keep by (simp add: distinct_removeAll)
  next
    case (worse p)
    then have p: "best_row loaded P p" "resume_of (loaded p) = ?r" using inv' by auto
    have "p \<noteq> x" using p(1) x by (auto simp: best_row_def)
    then have px: "pref loaded p x" using worse(3) pref_total by blast
    have xb: "\<not> (\<forall>z\<in>P. resume_of (loaded z) = ?r \<longrightarrow> pref loaded x z)"
      using p worse(3) by (auto simp: best_row_def)
    have uniq: "best_row loaded P y \<Longrightarrow> resume_of (loaded y) = ?r \<Longrightarrow> y = p" for y
      using p pref_asym by (metis best_row_def)
    have ins: "best_row loaded (insert x P) y \<longleftrightarrow> best_row loaded P y" for y
      unfolding best_row_insert [OF x] using xb px uniq p x by (metis best_row_def)
    have row: "collapse_row loaded x acc = (chosen, keep)"
      using worse by (simp add: collapse_row_def)
    have "\<not> best_row loaded P x" "p \<in> P" using x p(1) by (auto simp: best_row_def)
    then show ?thesis
      unfolding collapse_inv_def row fst_conv snd_conv ins using inv' p worse(1)
      by (intro conjI) force+
  qed
qed

lemma collapse_fold_inv:
  "collapse_inv loaded P acc \<Longrightarrow> distinct xs \<Longrightarrow> set xs \<inter> P = {} \<Longrightarrow>
   collapse_inv loaded (set xs \<union> P) (fold (collapse_row loaded) xs acc)"
proof (induction xs arbitrary: acc P)
  case (Cons x xs)
  from Cons.prems have "collapse_inv loaded (insert x P) (collapse_row loaded x acc)"
    by (intro collapse_row_inv) auto
  from Cons.IH [OF this] Cons.prems show ?case by auto
qed simp

lemma collapse_start: "collapse_inv loaded {} (Map.empty, [])"
  by (simp add: collapse_inv_def best_row_def)

lemma canonical_set:
  assumes "distinct (map fst loaded)"
  shows "set (canonicalSavedSessionIDs loaded) =
           {x \<in> fst ` set loaded. resume_of (entry_at loaded x) = []
                                  \<or> best_row (entry_at loaded) (fst ` set loaded) x}"
    and "distinct (canonicalSavedSessionIDs loaded)"
  using collapse_fold_inv [OF collapse_start, of "sort (map fst loaded)" "entry_at loaded"] assms
  by (simp_all add: collapse_inv_def canonicalSavedSessionIDs_def)

lemma collapse_inv_best:
  assumes "collapse_inv loaded P acc" and "y \<in> P" and "resume_of (loaded y) \<noteq> []"
  shows "\<exists>x. best_row loaded P x \<and> resume_of (loaded x) = resume_of (loaded y)"
proof -
  have "fst acc (resume_of (loaded y)) \<noteq> None" using assms unfolding collapse_inv_def by blast
  then obtain x where "fst acc (resume_of (loaded y)) = Some x" by blast
  with assms show ?thesis unfolding collapse_inv_def by blast
qed

lemma best_row_unique:
  "best_row loaded P x \<Longrightarrow> best_row loaded P y \<Longrightarrow> resume_of (loaded x) = resume_of (loaded y) \<Longrightarrow> x = y"
  using pref_asym by (metis best_row_def)

lemma canonical_one_per_conversation:
  assumes "distinct (map fst loaded)" and "sid \<in> fst ` set loaded"
    and "resume_of (entry_at loaded sid) \<noteq> []"
  shows "\<exists>!pid. pid \<in> set (canonicalSavedSessionIDs loaded)
           \<and> resume_of (entry_at loaded pid) = resume_of (entry_at loaded sid)"
proof -
  let ?L = "entry_at loaded" and ?P = "fst ` set loaded"
  have "collapse_inv ?L ?P (fold (collapse_row ?L) (sort (map fst loaded)) (Map.empty, []))"
    using collapse_fold_inv [OF collapse_start, of "sort (map fst loaded)" ?L] assms(1) by simp
  from collapse_inv_best [OF this assms(2,3)] obtain x
    where x: "best_row ?L ?P x" "resume_of (?L x) = resume_of (?L sid)" by blast
  show ?thesis
  proof (rule ex1I [of _ x])
    show "x \<in> set (canonicalSavedSessionIDs loaded) \<and> resume_of (?L x) = resume_of (?L sid)"
      using x unfolding canonical_set(1) [OF assms(1)] by (simp add: best_row_def)
  next
    fix y assume "y \<in> set (canonicalSavedSessionIDs loaded) \<and> resume_of (?L y) = resume_of (?L sid)"
    then have "best_row ?L ?P y" "resume_of (?L y) = resume_of (?L x)"
      using assms(3) x(2) unfolding canonical_set(1) [OF assms(1)] by auto
    then show "y = x" using x(1) best_row_unique by blast
  qed
qed

text \<open>
  Restoring collapses the saved rows to exactly one row per native conversation: a row is kept
  if and only if it names no conversation or is preferred to every other row of its conversation;
  every conversation with a row keeps exactly one, and the result is sorted and free of duplicates.
\<close>

theorem canonical_rows_are_best:
  assumes "distinct (map fst loaded)"
  shows "(\<forall>sid. sid \<in> set (canonicalSavedSessionIDs loaded) \<longleftrightarrow> sid \<in> fst ` set loaded \<and>
            (resume_of (entry_at loaded sid) = [] \<or>
             (\<forall>pid \<in> fst ` set loaded - {sid}.
                resume_of (entry_at loaded pid) = resume_of (entry_at loaded sid) \<longrightarrow>
                preferSavedSession sid (entry_at loaded sid) pid (entry_at loaded pid))))
       \<and> (\<forall>sid \<in> fst ` set loaded. resume_of (entry_at loaded sid) \<noteq> [] \<longrightarrow>
            (\<exists>!pid. pid \<in> set (canonicalSavedSessionIDs loaded)
               \<and> resume_of (entry_at loaded pid) = resume_of (entry_at loaded sid)))
       \<and> sorted (canonicalSavedSessionIDs loaded) \<and> distinct (canonicalSavedSessionIDs loaded)"
proof (intro conjI allI ballI impI)
  show "distinct (canonicalSavedSessionIDs loaded)" by (rule canonical_set(2) [OF assms])
  show "sorted (canonicalSavedSessionIDs loaded)" by (simp add: canonicalSavedSessionIDs_def)
qed (use canonical_one_per_conversation [OF assms] in \<open>auto simp: canonical_set(1) [OF assms] best_row_def\<close>)

definition demo_entry :: "string \<Rightarrow> string \<Rightarrow> int \<Rightarrow> savedEntry" where
  "demo_entry nm rid used =
     \<lparr>e_ConfigRevision = 0, e_Name = nm, e_MetadataRevision = 0, e_NameUpdatedAt = 0,
      e_NameUpdatedBy = [], e_LastNameMutationID = [], e_ResumeID = rid, e_ClaudeUUID = rid,
      e_LastUsed = used, e_PreviewText = [], e_PreviewRole = [], e_PreviewUpdatedAt = 0,
      e_PreviewRevision = 0, e_Cwd = [], e_Backend = ''claude'', e_Model = [], e_Sandbox = [],
      e_Effort = [], e_ServiceTier = [], e_CollaborationMode = [], e_Personality = [],
      e_HistoricalResumeIDs = [], e_CreatedAt = 1, e_Pinned = False, e_Hidden = False\<rparr>"

definition demo_rows :: "(string \<times> savedEntry) list" where
  "demo_rows = [(''jl_c_1'', demo_entry ''native'' ''u1'' 9), (''app'', demo_entry ''mine'' ''u1'' 5),
                (''old'', demo_entry ''mine'' ''u1'' 3), (''none'', demo_entry ''new'' [] 1)]"

lemmas demo_row_simps = demo_rows_def demo_entry_def entry_at_def resume_of_def
  preferSavedSession_def Let_def has_prefix_def

lemma canonical_rows_are_best_witness:
  "distinct (map fst demo_rows) \<and> ''app'' \<in> set (canonicalSavedSessionIDs demo_rows)
   \<and> ''none'' \<in> set (canonicalSavedSessionIDs demo_rows)
   \<and> ''jl_c_1'' \<notin> set (canonicalSavedSessionIDs demo_rows)"
proof -
  have d: "distinct (map fst demo_rows)" by (simp add: demo_rows_def)
  have ids: "fst ` set demo_rows = {''jl_c_1'', ''app'', ''old'', ''none''}"
    by (simp add: demo_rows_def)
  note t = conjunct1 [OF canonical_rows_are_best [OF d], rule_format, unfolded ids]
  have "''app'' \<in> set (canonicalSavedSessionIDs demo_rows)"
    unfolding t by (auto simp: demo_row_simps)
  moreover have "''none'' \<in> set (canonicalSavedSessionIDs demo_rows)"
    unfolding t by (auto simp: demo_row_simps)
  moreover have "''jl_c_1'' \<notin> set (canonicalSavedSessionIDs demo_rows)"
    unfolding t by (auto simp: demo_row_simps)
  ultimately show ?thesis using d by simp
qed

section \<open>Restart\<close>

text \<open>The table is keyed by the identifiers of its sessions.\<close>

definition table_ok :: "registry \<Rightarrow> bool" where
  "table_ok r \<longleftrightarrow> distinct (map fst (sessions r)) \<and> (\<forall>(k, s)\<in>set (sessions r). ID s = k)"

definition one_row_each :: "registry \<Rightarrow> bool" where
  "one_row_each r \<longleftrightarrow> (\<forall>s\<in>set (List r). \<forall>t\<in>set (List r).
     resumeID (meta s) \<noteq> [] \<longrightarrow> resumeID (meta s) = resumeID (meta t) \<longrightarrow> ID s = ID t)"

lemma table_keys: "table_ok r \<Longrightarrow> map ID (List r) = map fst (sessions r)"
  by (auto simp: table_ok_def List_def)

lemma Get_in_List: "Get sid r = Some s \<Longrightarrow> s \<in> set (List r)"
  by (force simp: Get_def List_def dest: map_of_SomeD)

lemma Get_ID: "table_ok r \<Longrightarrow> Get sid r = Some s \<Longrightarrow> ID s = sid"
  by (auto simp: table_ok_def Get_def dest: map_of_SomeD)

lemma List_Get: "table_ok r \<Longrightarrow> s \<in> set (List r) \<Longrightarrow> Get (ID s) r = Some s"
  by (auto simp: table_ok_def Get_def List_def)

lemma table_ok_iff:
  "table_ok r \<longleftrightarrow> distinct (map fst (sessions r)) \<and> (\<forall>k s. Get k r = Some s \<longrightarrow> ID s = k)"
  by (auto simp: table_ok_def Get_def)

lemma Get_put [simp]: "Get k (put_session sid s r) = (if k = sid then Some s else Get k r)"
  by (simp add: Get_def put_session_def update_conv')

lemma table_ok_put: "table_ok r \<Longrightarrow> ID s = sid \<Longrightarrow> table_ok (put_session sid s r)"
  unfolding table_ok_iff
  by (auto split: if_splits) (simp add: put_session_def distinct_update)

lemma put_store [simp]: "reg_store (put_session sid s r) = reg_store r"
  by (simp add: put_session_def)

lemma raise_activity_fields [simp]:
  "ID (raise_activity a s) = ID s" "meta (raise_activity a s) = meta s"
  "config (raise_activity a s) = config s" "state (raise_activity a s) = state s"
  "mailbox (raise_activity a s) = mailbox s" "futureConfig (raise_activity a s) = futureConfig s"
  "CreatedAt (raise_activity a s) = CreatedAt s"
  "lastActivity (raise_activity a s) = max a (lastActivity s)"
  by (simp_all add: raise_activity_def)

lemma restored_fields [simp]:
  "ID (restored_session sid e) = sid" "state (restored_session sid e) = Idle"
  "mailbox (restored_session sid e) = []"
  by (simp_all add: restored_session_def new_session_def Let_def)

lemma fold_put_Get:
  "Get k (fold (\<lambda>sid. put_session sid (f sid)) ids r) = (if k \<in> set ids then Some (f k) else Get k r)"
  by (induction ids arbitrary: r) auto

lemma fold_put_store [simp]:
  "reg_store (fold (\<lambda>sid. put_session sid (f sid)) ids r) = reg_store r"
  by (induction ids arbitrary: r) auto

lemma canonical_all:
  assumes "distinct (map fst loaded)"
    and "\<And>x y. \<lbrakk>x \<in> fst ` set loaded; y \<in> fst ` set loaded; resume_of (entry_at loaded x) \<noteq> [];
           resume_of (entry_at loaded x) = resume_of (entry_at loaded y)\<rbrakk> \<Longrightarrow> x = y"
  shows "set (canonicalSavedSessionIDs loaded) = fst ` set loaded"
    and "length (canonicalSavedSessionIDs loaded) = length loaded"
proof -
  show "set (canonicalSavedSessionIDs loaded) = fst ` set loaded"
    unfolding canonical_set(1) [OF assms(1)] using assms(2) by (auto simp: best_row_def)
  with canonical_set(2) [OF assms(1)] assms(1) show "length (canonicalSavedSessionIDs loaded) = length loaded"
    by (metis distinct_card length_map list.set_map)
qed

text \<open>What a session is read back as.\<close>

definition row_of :: "int \<Rightarrow> session \<Rightarrow> savedEntry" where
  "row_of now_s s = stored (saved_of now_s (SettingsSnapshot s))"

lemma Settings_fields [simp]:
  "sn_meta (SettingsSnapshot s) = meta s" "sn_CreatedAt (SettingsSnapshot s) = CreatedAt s"
  "sn_LastActivity (SettingsSnapshot s) = lastActivity s"
  by (simp_all add: SettingsSnapshot_def snapshotLocked_def applySnapshot_def split: option.splits)

lemma row_of_resume [simp]: "resume_of (row_of now_s s) = resumeID (meta s)"
  by (simp add: row_of_def stored_def saved_of_def resume_of_def Let_def)

text \<open>The session a saved row restores to.\<close>

lemma restored_row:
  "meta (restored_session sid (row_of now_s s)) =
     (if previewText (meta s) \<noteq> [] \<and> previewUpdatedAt (meta s) > 0 then meta s
      else (meta s)\<lparr>previewText := [], previewRole := [], previewUpdatedAt := 0,
                     previewRevision := 0\<rparr>)
     \<lparr>contextUsed := 0, contextMax := 0, contextUsedKnown := False\<rparr>"
  "config (restored_session sid (row_of now_s s)) = sn_config (SettingsSnapshot s)"
proof -
  let ?e = "saved_of now_s (SettingsSnapshot s)"
  have p: "has_preview ?e \<longleftrightarrow> previewText (meta s) \<noteq> [] \<and> previewUpdatedAt (meta s) > 0"
    by (simp add: has_preview_def saved_of_def Let_def)
  show "meta (restored_session sid (row_of now_s s)) =
     (if previewText (meta s) \<noteq> [] \<and> previewUpdatedAt (meta s) > 0 then meta s
      else (meta s)\<lparr>previewText := [], previewRole := [], previewUpdatedAt := 0,
                     previewRevision := 0\<rparr>)
     \<lparr>contextUsed := 0, contextMax := 0, contextUsedKnown := False\<rparr>"
    unfolding p [symmetric] row_of_def stored_def
    by (cases "has_preview ?e") (simp_all add: restored_session_def new_session_def Let_def saved_of_def)
  show "config (restored_session sid (row_of now_s s)) = sn_config (SettingsSnapshot s)"
    unfolding row_of_def stored_def
    by (cases "has_preview ?e") (simp_all add: restored_session_def new_session_def Let_def saved_of_def)
qed

lemma Save_rows:
  assumes ok: "table_ok r" and save: "Save env now_s (List r) st = (None, st')"
    and own: "fst ` set (file_rows st) \<subseteq> set (knownIDs st) \<union> fst ` set (sessions r)"
    and rows: "rows_ok st" and lock: "lock_ok env'"
    and enc: "\<And>s. s \<in> set (List r) \<Longrightarrow> entry_ok (saved_of now_s (SettingsSnapshot s))"
  shows "map_of (fst (Load env' st')) sid = map_option (row_of now_s) (Get sid r)"
    and "distinct (map fst (fst (Load env' st')))"
proof -
  have ids: "ID ` set (List r) = fst ` set (sessions r)"
    using table_keys [OF ok] by (metis list.set_map)
  have dist: "distinct (map ID (List r))"
    using ok by (simp add: table_keys table_ok_def)
  note onfile = Save_file(1) [OF save, of sid]
  have load: "map_of (fst (Load env' st')) sid = map_option entryFromRaw (map_of (file_rows st') sid)"
    using lock by (simp add: Load_def Let_def map_of_map)
  show "map_of (fst (Load env' st')) sid = map_option (row_of now_s) (Get sid r)"
  proof (cases "Get sid r")
    case None
    then have out: "sid \<notin> fst ` set (sessions r)" by (simp add: Get_def map_of_eq_None_iff)
    then have "map_of (file_rows st') sid = None"
      using onfile own ids by (auto simp: map_of_merges_other map_of_eq_None_iff)
    with load None show ?thesis by simp
  next
    case (Some s)
    then have s: "s \<in> set (List r)" "ID s = sid" using Get_in_List Get_ID [OF ok] by auto
    have "map_of (file_rows st') sid =
        Some (putKnownFields (old_row (file_rows st) sid) (saved_of now_s (SettingsSnapshot s)))"
      using onfile s map_of_merges [OF s(1) dist, of now_s "file_rows st"] by auto
    with load Some enc [OF s(1)] show ?thesis by (simp add: entry_read_back row_of_def)
  qed
  show "distinct (map fst (fst (Load env' st')))"
    using Save_file(2) [OF save rows] lock
    by (simp add: Load_def Let_def rows_ok_def comp_def case_prod_unfold)
qed

lemma AttachStore_one_row:
  assumes load: "Load env st = (loaded, st1)" and d: "distinct (map fst loaded)"
    and uniq: "\<And>x y. \<lbrakk>x \<in> fst ` set loaded; y \<in> fst ` set loaded; resume_of (entry_at loaded x) \<noteq> [];
           resume_of (entry_at loaded x) = resume_of (entry_at loaded y)\<rbrakk> \<Longrightarrow> x = y"
  shows "Get sid (AttachStore env now_s st NewRegistry) =
           map_option (restored_session sid) (map_of loaded sid)"
proof -
  have "length (canonicalSavedSessionIDs loaded) = length loaded"
       "set (canonicalSavedSessionIDs loaded) = fst ` set loaded"
    using canonical_all [OF d uniq] by auto
  then have "Get sid (AttachStore env now_s st NewRegistry) =
      (if sid \<in> fst ` set loaded then Some (restored_session sid (entry_at loaded sid)) else None)"
    by (simp add: AttachStore_def load fold_put_Get) (simp add: NewRegistry_def Get_def)
  then show ?thesis
    by (cases "map_of loaded sid")
       (auto simp: entry_at_def simp flip: dom_map_of_conv_image_fst)
qed

text \<open>
  C7. Restart. If saving a registry succeeds, a new process that attaches the store finds exactly
  the same sessions: each with its identity, its complete metadata (context usage is not saved, a
  preview without text or time is dropped), the configuration new messages would have used, and an
  empty idle queue. Hypotheses: the table is keyed by session identifiers, no two sessions claim one
  native conversation, every row of the file is one this process knows, and strings and integers fit
  their encoding.
\<close>

theorem restart_restores_sessions:
  assumes "table_ok r" and "one_row_each r" and "rows_ok st"
    and "Save env now_s (List r) st = (None, st')"
    and "fst ` set (file_rows st) \<subseteq> set (knownIDs st) \<union> fst ` set (sessions r)"
    and "\<forall>s\<in>set (List r). entry_ok (saved_of now_s (SettingsSnapshot s))"
    and "lock_ok env'"
  shows "(Get sid r = None \<longrightarrow> Get sid (AttachStore env' now2 st' NewRegistry) = None) \<and>
         (\<forall>s. Get sid r = Some s \<longrightarrow> (\<exists>t. Get sid (AttachStore env' now2 st' NewRegistry) = Some t \<and> ID t = ID s
            \<and> config t = sn_config (SettingsSnapshot s)
            \<and> meta t = (if previewText (meta s) \<noteq> [] \<and> previewUpdatedAt (meta s) > 0 then meta s
                        else (meta s)\<lparr>previewText := [], previewRole := [], previewUpdatedAt := 0,
                                       previewRevision := 0\<rparr>)
                       \<lparr>contextUsed := 0, contextMax := 0, contextUsedKnown := False\<rparr>
            \<and> state t = Idle \<and> mailbox t = []))"
proof -
  obtain loaded st1 where load: "Load env' st' = (loaded, st1)" by fastforce
  have rows: "map_of loaded k = map_option (row_of now_s) (Get k r)" for k
    using Save_rows(1) [OF assms(1) assms(4) assms(5) assms(3) assms(7)] assms(6) load by auto
  have d: "distinct (map fst loaded)"
    using Save_rows(2) [OF assms(1) assms(4) assms(5) assms(3) assms(7)] assms(6) load by auto
  have uniq: "x = y" if "x \<in> fst ` set loaded" "y \<in> fst ` set loaded"
      "resume_of (entry_at loaded x) \<noteq> []"
      "resume_of (entry_at loaded x) = resume_of (entry_at loaded y)" for x y
  proof -
    from that(1,2) rows obtain s t where st: "Get x r = Some s" "Get y r = Some t"
      unfolding dom_map_of_conv_image_fst [symmetric] by auto
    with that(3,4) rows have "resumeID (meta s) \<noteq> []" "resumeID (meta s) = resumeID (meta t)"
      by (simp_all add: entry_at_def)
    with st assms(1,2) show ?thesis
      using Get_in_List Get_ID unfolding one_row_each_def by metis
  qed
  have "Get sid (AttachStore env' now2 st' NewRegistry) = map_option (restored_session sid) (map_option (row_of now_s) (Get sid r))"
    using AttachStore_one_row [OF load d uniq] rows by simp
  then show ?thesis
    using Get_ID [OF assms(1), of sid] by (auto simp: restored_row)
qed

definition demo_env :: disk_env where
  "demo_env = \<lparr>lock_ok = True, write_ok = True\<rparr>"

definition demo_full :: disk_env where
  "demo_full = \<lparr>lock_ok = True, write_ok = False\<rparr>"

definition demo_store :: store where
  "demo_store = \<lparr>st_file = NoFile, knownIDs = []\<rparr>"

definition demo_reg :: registry where
  "demo_reg = \<lparr>sessions = [(''a'', new_session ''a'' 7 (empty_meta\<lparr>name := ''One'', resumeID := ''u1''\<rparr>)
                              (empty_config\<lparr>cfg_Backend := ''claude''\<rparr>))],
               reg_store = Some demo_store\<rparr>"

lemmas demo_reg_simps = demo_reg_def demo_store_def demo_env_def demo_full_def new_session_def
  empty_meta_def empty_config_def List_def Get_def

lemma demo_reg_ok: "table_ok demo_reg" "one_row_each demo_reg" "rows_ok demo_store"
  by (simp_all add: demo_reg_simps table_ok_def one_row_each_def rows_ok_def loadRawLocked_def raw_of_def)

lemma demo_entry_ok:
  "s \<in> set (List demo_reg) \<Longrightarrow> entry_ok (saved_of 1 (SettingsSnapshot s))"
  by (simp add: demo_reg_simps entry_ok_def saved_of_def SettingsSnapshot_def snapshotLocked_def Let_def
      utf8_valid.simps rune_len_def rune_bytes_def int64_of_float_def truncate_def int64_range_def)

lemma restart_restores_sessions_witness:
  "\<exists>st' t. Save demo_env 1 (List demo_reg) demo_store = (None, st')
     \<and> Get ''a'' (AttachStore demo_env 2 st' NewRegistry) = Some t \<and> name (meta t) = ''One''"
proof -
  obtain st' where save: "Save demo_env 1 (List demo_reg) demo_store = (None, st')"
    using Save_succeeds [of demo_env demo_store] by (auto simp: demo_reg_simps)
  have "fst ` set (file_rows demo_store) \<subseteq> set (knownIDs demo_store) \<union> fst ` set (sessions demo_reg)"
    by (simp add: demo_store_def raw_of_def loadRawLocked_def)
  with restart_restores_sessions [OF demo_reg_ok(1,2,3) save, of demo_env "''a''" 2] demo_entry_ok
  have "\<exists>t. Get ''a'' (AttachStore demo_env 2 st' NewRegistry) = Some t \<and> name (meta t) = ''One''"
    by (auto simp: demo_reg_simps split: if_splits)
  with save show ?thesis by blast
qed

section \<open>Committing a name\<close>

lemma put_session_back:
  "Get sid r = Some s \<Longrightarrow> put_session sid s (put_session sid t r) = r"
  by (simp add: Get_def put_session_def update_triv)

lemma Persist_sessions [simp]:
  "sessions (snd (PersistDurably env now_s r)) = sessions r"
  by (simp add: PersistDurably_def split: option.splits prod.splits)

lemma Get_sessions: "sessions r = sessions r' \<Longrightarrow> Get sid r = Get sid r'"
  by (simp add: Get_def)

text \<open>
  The outcomes of a commit: the new session is in the table and on disk, or the save failed and the
  table is what the undo makes of it, or the save panicked.
\<close>

lemma commit_cases:
  assumes "commit_session env now_s sid before after undone r = ((out, changed, err), r')"
  obtains
    (committed) "err = None" "changed" "out = Some (snapshotLocked after)"
      "fst (PersistDurably env now_s (put_session sid after r)) = None"
      "r' = snd (PersistDurably env now_s (put_session sid after r))"
  | (undone) e where "err = Some (ErrPersist e)" "e \<noteq> NilMapPanic" "\<not> changed"
      "out = Some (snapshotLocked before)" "fst (PersistDurably env now_s (put_session sid after r)) = Some e"
      "r' = put_session sid undone (snd (PersistDurably env now_s (put_session sid after r)))"
  | (panicked) "err = Some (ErrPersist NilMapPanic)" "\<not> changed"
      "fst (PersistDurably env now_s (put_session sid after r)) = Some NilMapPanic"
      "r' = snd (PersistDurably env now_s (put_session sid after r))"
proof -
  obtain e r1 where p: "PersistDurably env now_s (put_session sid after r) = (e, r1)" by fastforce
  show thesis
  proof (cases e)
    case None
    with p assms show ?thesis by (intro committed) (auto simp: commit_session_def)
  next
    case (Some x)
    with p assms show ?thesis
      by (cases x) (auto simp: commit_session_def intro: undone panicked)
  qed
qed

text \<open>The row on disk after a successful save.\<close>

lemma persisted_row:
  assumes "table_ok r" and "fst (PersistDurably env now_s r) = None"
    and "reg_store (snd (PersistDurably env now_s r)) = Some st'" and "Get sid r = Some s"
  shows "\<exists>obj. map_of (file_rows st') sid =
           Some (putKnownFields obj (saved_of now_s (SettingsSnapshot s)))"
proof -
  obtain st where st: "reg_store r = Some st" "Save env now_s (List r) st = (None, st')"
    using assms(2,3) by (auto simp: PersistDurably_def split: option.splits prod.splits)
  have s: "s \<in> set (List r)" "ID s = sid"
    using assms(1,4) Get_in_List Get_ID by auto
  have "distinct (map ID (List r))" using assms(1) by (simp add: table_keys table_ok_def)
  then show ?thesis
    using Save_file(1) [OF st(2), of sid] map_of_merges [OF s(1)] s by auto
qed

lemma Persist_store: "reg_store r = Some st \<Longrightarrow> \<exists>st'. reg_store (snd (PersistDurably env now_s r)) = Some st'"
  by (simp add: PersistDurably_def split: prod.splits)

abbreviation file_of :: "registry \<Rightarrow> raw_file option" where
  "file_of r \<equiv> map_option st_file (reg_store r)"

lemma Persist_failed_file:
  "fst (PersistDurably env now_s r) = Some e \<Longrightarrow> file_of (snd (PersistDurably env now_s r)) = file_of r"
  by (auto simp: PersistDurably_def split: option.splits prod.splits dest: Save_failed)

lemma undone_table:
  assumes "Get sid r = Some s" and "r1 = snd (PersistDurably env now_s (put_session sid t r))"
  shows "sessions (put_session sid s r1) = sessions r"
  using assms by (simp add: put_session_def Get_def update_triv)

lemma name_on_disk [simp]: "e_Name (entryFromRaw (putKnownFields obj e)) = utf8_fix (e_Name e)"
  by (simp add: entryFromRaw_def put_fields rawString_def Let_def)

lemma saved_name [simp]: "e_Name (saved_of now_s (SettingsSnapshot s)) = name (meta s)"
  by (simp add: saved_of_def Let_def)

lemma commit_ok:
  assumes "lock_ok env" "write_ok env" "reg_store r = Some st" "st_file st \<noteq> NullFile"
  shows "fst (snd (fst (commit_session env now_s sid before after undone r)))"
proof -
  obtain st' where "Save env now_s (List (put_session sid after r)) st = (None, st')"
    using Save_succeeds [OF assms(1,2,4)] by blast
  with assms(3) show ?thesis by (simp add: commit_session_def PersistDurably_def)
qed

text \<open>The session with its new name, and when the commit takes place at all.\<close>

definition renamed :: "int \<Rightarrow> string \<Rightarrow> string \<Rightarrow> string \<Rightarrow> session \<Rightarrow> session" where
  "renamed now_ms nm by0 mutationID s =
     s\<lparr>meta := (meta s)\<lparr>name := trim_space nm, metadataRevision := u64_succ (metadataRevision (meta s)),
                         nameUpdatedAt := now_ms, nameUpdatedBy := trim_space by0,
                         lastNameMutationID := mutationID\<rparr>\<rparr>"

lemma rename_commits:
  assumes "RenameAndPersist env now_s now_ms sid nm by0 mid expected r = ((out, changed, err), r')"
    and "Get sid r = Some s"
  shows "r' = r \<and> \<not> changed \<or>
    commit_session env now_s sid s (renamed now_ms nm by0 mid s) s r = ((out, changed, err), r')"
proof -
  have "undo_name s (renamed now_ms nm by0 mid s) = s"
    by (simp add: undo_name_def renamed_def)
  with assms show ?thesis
    by (auto simp: RenameAndPersist_def Let_def renamed_def [symmetric] split: if_splits)
qed

text \<open>
  C8. A rename is durable or has no effect. If it reports a change, the session carries the trimmed
  name with the next metadata revision, the row on disk carries the name (as UTF-8), and no other
  session changed; a retry with the same mutation identifier then changes nothing. If it reports no
  change, the sessions and the file are as before, unless the save itself panicked.
\<close>

theorem rename_is_durable_or_undone:
  assumes "table_ok r" and "reg_store r \<noteq> None" and "Get sid r = Some s"
    and "RenameAndPersist env now_s now_ms sid nm by0 mid expected r = ((out, changed, err), r')"
  shows "(changed \<longrightarrow> err = None \<and> Get sid r' = Some (renamed now_ms nm by0 mid s)
             \<and> (\<forall>k. k \<noteq> sid \<longrightarrow> Get k r' = Get k r)
             \<and> (\<exists>st obj. reg_store r' = Some st \<and> map_of (file_rows st) sid = Some obj
                   \<and> e_Name (entryFromRaw obj) = utf8_fix (trim_space nm))
             \<and> (mid \<noteq> [] \<longrightarrow> trim_space nm2 \<noteq> [] \<longrightarrow>
                  (\<exists>sn. RenameAndPersist env2 now_s2 now_ms2 sid nm2 by2 mid expected2 r'
                        = ((Some sn, False, None), r'))))
       \<and> (\<not> changed \<longrightarrow> err \<noteq> Some (ErrPersist NilMapPanic) \<longrightarrow>
            sessions r' = sessions r \<and> file_of r' = file_of r)"
  using rename_commits [OF assms(4,3)]
proof
  assume "r' = r \<and> \<not> changed"
  then show ?thesis by simp
next
  let ?t = "renamed now_ms nm by0 mid s"
  assume "commit_session env now_s sid s ?t s r = ((out, changed, err), r')"
  then show ?thesis
  proof (cases rule: commit_cases)
    case committed
    have t: "ID ?t = sid" using Get_ID [OF assms(1,3)] by (simp add: renamed_def)
    have get: "Get k r' = (if k = sid then Some ?t else Get k r)" for k
      using committed(5) Get_sessions [of r' "put_session sid ?t r" k] by simp
    obtain st where st: "reg_store r' = Some st"
      using assms(2) Persist_store [of "put_session sid ?t r" _ env now_s] committed(5) by auto
    obtain obj where obj: "map_of (file_rows st) sid =
        Some (putKnownFields obj (saved_of now_s (SettingsSnapshot ?t)))"
      using persisted_row [OF table_ok_put [OF assms(1) t] committed(4), of st sid ?t] st committed(5) by auto
    have "name (meta ?t) = trim_space nm" "lastNameMutationID (meta ?t) = mid"
      by (simp_all add: renamed_def)
    with committed get st obj show ?thesis by (auto simp: RenameAndPersist_def Let_def)
  next
    case (undone e)
    with undone_table [OF assms(3), of r'] Persist_failed_file [OF undone(5)] show ?thesis
      using undone_table [OF assms(3) refl, of env now_s ?t] by simp
  qed simp
qed

lemma rename_is_durable_or_undone_witness:
  "\<exists>out err r' t. RenameAndPersist demo_env 1 5 ''a'' ''Two'' ''me'' ''m1'' (Some 0) demo_reg
      = ((out, True, err), r') \<and> Get ''a'' r' = Some t \<and> name (meta t) = trim_space ''Two''"
proof -
  obtain s where s: "Get ''a'' demo_reg = Some s" by (simp add: demo_reg_simps)
  obtain out changed err r' where
    r: "RenameAndPersist demo_env 1 5 ''a'' ''Two'' ''me'' ''m1'' (Some 0) demo_reg = ((out, changed, err), r')"
    by (cases "RenameAndPersist demo_env 1 5 ''a'' ''Two'' ''me'' ''m1'' (Some 0) demo_reg") auto
  have t: "trim_space ''Two'' = ''Two''" by (simp add: trim_eval)
  have m: "name (meta s) = ''One''" "metadataRevision (meta s) = 0" "lastNameMutationID (meta s) = []"
    using s by (auto simp: demo_reg_simps)
  have "changed = fst (snd (fst (RenameAndPersist demo_env 1 5 ''a'' ''Two'' ''me'' ''m1'' (Some 0) demo_reg)))"
    by (simp add: r)
  then have "changed" unfolding RenameAndPersist_def Let_def
    using commit_ok [of demo_env demo_reg demo_store] by (simp add: t s m) (simp add: demo_reg_simps)
  with r s rename_is_durable_or_undone [OF demo_reg_ok(1) _ s r] show ?thesis
    by (auto simp: renamed_def) (simp add: demo_reg_def)
qed

section \<open>Committing a preview\<close>

definition previewed :: "string \<Rightarrow> string \<Rightarrow> int \<Rightarrow> session \<Rightarrow> session" where
  "previewed msg role ts s =
     raise_activity (real_of_int ts / 1000) (set_preview (trim_space msg) (trim_space role) ts s)"

lemma undo_previewed:
  "undo_preview s (previewed msg role ts s) (undo_activity s (previewed msg role ts s) (previewed msg role ts s)) = s"
  by (simp add: undo_preview_def undo_activity_def previewed_def raise_activity_def set_preview_def)

lemma preview_commits:
  assumes "CommitPreviewAndPersist env now_s sid msg role ts r = ((out, changed, err), r')"
    and "Get sid r = Some s"
  shows "r' = r \<and> \<not> changed \<or> previewUpdatedAt (meta s) \<le> ts \<and>
    commit_session env now_s sid s (previewed msg role ts s) s r = ((out, changed, err), r')"
  using assms undo_previewed [of s msg role ts]
  by (auto simp: CommitPreviewAndPersist_def Let_def previewed_def [symmetric] split: if_splits)

lemma previewed_meta:
  "previewUpdatedAt (meta (previewed msg role ts s)) = ts"
  "previewText (meta (previewed msg role ts s)) = trim_space msg"
  "previewRole (meta (previewed msg role ts s)) = trim_space role"
  "previewRevision (meta (previewed msg role ts s)) = u64_succ (previewRevision (meta s))"
  "lastActivity s \<le> lastActivity (previewed msg role ts s)"
  by (simp_all add: previewed_def set_preview_def)

text \<open>
  A preview only moves forward. A commit that reports a change replaced the preview by the
  trimmed text, with a time not before the old one and the next revision, never lowered the activity
  time, and repeating it changes nothing; a commit that reports no change (an older or equal
  observation, an invalid one, a failed save) leaves every session as it was.
\<close>

theorem preview_moves_forward:
  assumes "Get sid r = Some s"
    and "CommitPreviewAndPersist env now_s sid msg role ts r = ((out, changed, err), r')"
  shows "(changed \<longrightarrow> err = None \<and> (\<exists>t. Get sid r' = Some t
             \<and> previewText (meta t) = trim_space msg \<and> previewRole (meta t) = trim_space role
             \<and> previewUpdatedAt (meta t) = ts \<and> previewUpdatedAt (meta s) \<le> ts
             \<and> previewRevision (meta t) = u64_succ (previewRevision (meta s))
             \<and> lastActivity s \<le> lastActivity t)
             \<and> fst (snd (fst (CommitPreviewAndPersist env2 now2 sid msg role ts r'))) = False
             \<and> snd (CommitPreviewAndPersist env2 now2 sid msg role ts r') = r')
       \<and> (\<not> changed \<longrightarrow> err \<noteq> Some (ErrPersist NilMapPanic) \<longrightarrow> sessions r' = sessions r)"
  using preview_commits [OF assms(2,1)]
proof
  assume "r' = r \<and> \<not> changed"
  then show ?thesis by simp
next
  let ?t = "previewed msg role ts s"
  assume c: "previewUpdatedAt (meta s) \<le> ts \<and>
    commit_session env now_s sid s ?t s r = ((out, changed, err), r')"
  from conjunct2 [OF c] show ?thesis
  proof (cases rule: commit_cases)
    case committed
    have get: "Get sid r' = Some ?t"
      using committed(5) Get_sessions [of r' "put_session sid ?t r" sid] by simp
    have again: "CommitPreviewAndPersist env2 now2 sid msg role ts r' = (x, r'') \<Longrightarrow>
        \<not> fst (snd x) \<and> r'' = r'" for x r''
      using get by (auto simp: CommitPreviewAndPersist_def Let_def previewed_meta split: if_splits)
    show ?thesis
      using committed get c previewed_meta again [OF surjective_pairing] by simp
  next
    case (undone e)
    then show ?thesis using undone_table [OF assms(1) refl, of env now_s ?t] by simp
  qed simp
qed

lemma preview_moves_forward_witness:
  "\<exists>out err r' t. CommitPreviewAndPersist demo_env 1 ''a'' ''hello'' ''user'' 9000 demo_reg
      = ((out, True, err), r') \<and> Get ''a'' r' = Some t \<and> previewUpdatedAt (meta t) = 9000"
proof -
  obtain s where s: "Get ''a'' demo_reg = Some s" by (simp add: demo_reg_simps)
  obtain out changed err r' where
    r: "CommitPreviewAndPersist demo_env 1 ''a'' ''hello'' ''user'' 9000 demo_reg = ((out, changed, err), r')"
    by (cases "CommitPreviewAndPersist demo_env 1 ''a'' ''hello'' ''user'' 9000 demo_reg") auto
  have t: "trim_space ''hello'' = ''hello''" "trim_space ''user'' = ''user''"
    by (simp_all add: trim_eval)
  have m: "previewUpdatedAt (meta s) = 0" using s by (auto simp: demo_reg_simps)
  have "changed = fst (snd (fst (CommitPreviewAndPersist demo_env 1 ''a'' ''hello'' ''user'' 9000 demo_reg)))"
    by (simp add: r)
  then have "changed" unfolding CommitPreviewAndPersist_def Let_def
    using commit_ok [of demo_env demo_reg demo_store]
    by (simp add: t s m preview_role_ok_def) (simp add: demo_reg_simps)
  with preview_moves_forward [OF s r, of demo_env 2] have "\<exists>t. Get ''a'' r' = Some t \<and> previewUpdatedAt (meta t) = 9000"
    by blast
  with r \<open>changed\<close> show ?thesis by auto
qed

section \<open>Saving beside another writer\<close>

text \<open>
  A successful save keeps what it does not own: rows it has never seen stay exactly as they are,
  and in its own rows every field outside the known ones keeps its value; rows it knew whose session
  was deleted are gone.
\<close>

theorem save_keeps_foreign_data:
  assumes "Save env now_s ss st = (None, st')" and "distinct (map ID ss)"
  shows "(\<forall>sid. sid \<notin> set (knownIDs st) \<union> ID ` set ss \<longrightarrow>
            map_of (file_rows st') sid = map_of (file_rows st) sid)
       \<and> (\<forall>s\<in>set ss. \<exists>obj. map_of (file_rows st') (ID s) = Some obj
            \<and> (\<forall>key. key \<notin> set known_fields \<longrightarrow> obj key = old_row (file_rows st) (ID s) key))
       \<and> (\<forall>sid. sid \<in> set (knownIDs st) - ID ` set ss \<longrightarrow> map_of (file_rows st') sid = None)"
  using Save_file(1) [OF assms(1)] map_of_merges [OF _ assms(2), of _ now_s "file_rows st"]
  by (auto simp: map_of_merges_other put_unknown)

definition shared_store :: store where
  "shared_store =
     \<lparr>st_file = Rows [(''py'', [''name'' \<mapsto> JStr ''x'']), (''a'', [''mood'' \<mapsto> JInt 3]), (''gone'', Map.empty)],
      knownIDs = [''a'', ''gone'']\<rparr>"

lemma save_keeps_foreign_data_witness:
  "\<exists>st' obj. Save demo_env 1 (List demo_reg) shared_store = (None, st')
     \<and> map_of (file_rows st') ''py'' = Some [''name'' \<mapsto> JStr ''x'']
     \<and> map_of (file_rows st') ''a'' = Some obj \<and> obj ''mood'' = Some (JInt 3)
     \<and> map_of (file_rows st') ''gone'' = None"
proof -
  obtain st' where save: "Save demo_env 1 (List demo_reg) shared_store = (None, st')"
    using Save_succeeds [of demo_env shared_store] by (auto simp: demo_env_def shared_store_def)
  have d: "distinct (map ID (List demo_reg))" by (simp add: demo_reg_simps)
  have ids: "ID ` set (List demo_reg) = {''a''}" by (simp add: demo_reg_simps)
  have rows: "file_rows shared_store = [(''py'', [''name'' \<mapsto> JStr ''x'']), (''a'', [''mood'' \<mapsto> JInt 3]), (''gone'', Map.empty)]"
    by (simp add: shared_store_def raw_of_def loadRawLocked_def)
  have k: "set (knownIDs shared_store) = {''a'', ''gone''}" by (auto simp: shared_store_def)
  obtain s where s: "s \<in> set (List demo_reg)" "ID s = ''a''" by (simp add: demo_reg_simps)
  have u: "''mood'' \<notin> set known_fields" by (simp add: known_fields_def)
  note t = save_keeps_foreign_data [OF save d, unfolded ids k]
  from t s(1) obtain obj where "map_of (file_rows st') ''a'' = Some obj"
    "\<And>key. key \<notin> set known_fields \<Longrightarrow> obj key = old_row (file_rows shared_store) ''a'' key"
    using s(2) by metis
  moreover have "map_of (file_rows st') ''py'' = Some [''name'' \<mapsto> JStr ''x'']"
    using t rows by simp
  moreover have "map_of (file_rows st') ''gone'' = None" using t by simp
  ultimately show ?thesis using save u rows by auto
qed

text \<open>
  A deletion is lost when the save after it fails: the failed save already forgets that the row
  was known, so the next successful save keeps the row of the deleted session in the file, and the
  session returns at the next restart.
\<close>

theorem deletion_lost_after_failed_save:
  assumes "Save env now_s ss st = (Some WriteFailed, st1)"
    and "sid \<in> set (knownIDs st)" and "sid \<notin> ID ` set ss"
    and "map_of (file_rows st) sid = Some obj"
    and "Save env2 now2 ss st1 = (None, st2)"
  shows "map_of (file_rows st2) sid = Some obj"
proof -
  have lock: "lock_ok env" using assms(1) by (auto simp: Save_def split: if_splits)
  have "set (knownIDs st1) = ID ` set ss" using Save_known [OF assms(1) lock] by simp
  moreover have "file_rows st1 = file_rows st"
    using Save_failed [OF assms(1)] by (simp add: loadRawLocked_def)
  ultimately show ?thesis
    using Save_file(1) [OF assms(5), of sid] assms(3,4) by (simp add: map_of_merges_other)
qed

lemma deletion_lost_after_failed_save_witness:
  "\<exists>st1 st2. Save demo_full 1 (List demo_reg) shared_store = (Some WriteFailed, st1)
     \<and> Save demo_env 2 (List demo_reg) st1 = (None, st2)
     \<and> map_of (file_rows st2) ''gone'' = Some Map.empty"
proof -
  obtain st1 where s1: "Save demo_full 1 (List demo_reg) shared_store = (Some WriteFailed, st1)"
    by (simp add: Save_def Let_def writeRawLocked_def demo_full_def loadRawLocked_def shared_store_def)
  have "st_file st1 \<noteq> NullFile" using Save_failed [OF s1] by (simp add: shared_store_def)
  then obtain st2 where s2: "Save demo_env 2 (List demo_reg) st1 = (None, st2)"
    using Save_succeeds [of demo_env st1] by (auto simp: demo_env_def)
  have "map_of (file_rows st2) ''gone'' = Some Map.empty"
    by (rule deletion_lost_after_failed_save [OF s1 _ _ _ s2])
       (simp_all add: shared_store_def raw_of_def loadRawLocked_def demo_reg_simps)
  with s1 s2 show ?thesis by blast
qed

end
