(* ===== verification/Registry_System.thy ===== *)
theory Registry_System
  imports Registry_Properties
begin

text \<open>
  The registry as a whole: discovery of native conversations, the chain of resume identifiers of a
  session, and the registry as a step system whose sessions are the step systems of the turn queue.
  Every session in a reachable registry satisfies the queue invariant, so the theorems on the queue
  apply to each session of a running bridge.
\<close>

section \<open>Conversations\<close>

lemma activity_refresh: "lastActivity s \<le> lastActivity (refresh_known sid nm dir b a s)"
  by (simp add: refresh_known_def Let_def)

lemma activity_adopt: "lastActivity s \<le> lastActivity (adopt_alias rid nm dir b a s)"
  by (simp add: adopt_alias_def Let_def)

lemma refresh_fields [simp]:
  "ID (refresh_known sid nm dir b a s) = ID s"
  "resumeID (meta (refresh_known sid nm dir b a s)) = resumeID (meta s)"
  "metadataRevision (meta (refresh_known sid nm dir b a s)) = metadataRevision (meta s)"
  by (simp_all add: refresh_known_def Let_def)

lemma adopt_fields [simp]:
  "ID (adopt_alias rid nm dir b a s) = ID s"
  "metadataRevision (meta (adopt_alias rid nm dir b a s)) = metadataRevision (meta s)"
  "resumeID (meta (adopt_alias rid nm dir b a s)) =
     (if resumeID (meta s) \<noteq> [] then resumeID (meta s) else rid)"
  by (auto simp: adopt_alias_def Let_def)

lemma refresh_name:
  "metadataRevision (meta s) \<noteq> 0 \<Longrightarrow> name (meta (refresh_known sid nm dir b a s)) = name (meta s)"
  by (simp add: refresh_known_def Let_def)

lemma adopt_name:
  "metadataRevision (meta s) \<noteq> 0 \<Longrightarrow> name (meta (adopt_alias rid nm dir b a s)) = name (meta s)"
  by (simp add: adopt_alias_def Let_def)

lemma adopt_records: "rid \<noteq> [] \<Longrightarrow> rid \<in> set (ResumeIDs (adopt_alias rid nm dir b a s))"
  by (auto simp: ResumeIDs_def adopt_alias_def appendUniqueResumeID_def Let_def)

lemma own_id_recorded: "resumeID (meta s) \<noteq> [] \<Longrightarrow> resumeID (meta s) \<in> set (ResumeIDs s)"
  by (auto simp: ResumeIDs_def appendUniqueResumeID_def)

lemma one_row_eachI:
  assumes "table_ok r"
    and "\<And>k l s t. \<lbrakk>Get k r = Some s; Get l r = Some t; resumeID (meta s) \<noteq> [];
           resumeID (meta s) = resumeID (meta t)\<rbrakk> \<Longrightarrow> k = l"
  shows "one_row_each r"
  unfolding one_row_each_def using assms List_Get by blast

lemma one_row_eachD:
  "table_ok r \<Longrightarrow> one_row_each r \<Longrightarrow> Get k r = Some s \<Longrightarrow> Get l r = Some t \<Longrightarrow>
   resumeID (meta s) \<noteq> [] \<Longrightarrow> resumeID (meta s) = resumeID (meta t) \<Longrightarrow> k = l"
  unfolding one_row_each_def using Get_in_List Get_ID by metis

text \<open>Replacing a row keeps one row per conversation if no other row has its conversation.\<close>

lemma one_row_put:
  assumes "table_ok r" "one_row_each r" "ID t = k"
    and "\<And>l s. Get l r = Some s \<Longrightarrow> l \<noteq> k \<Longrightarrow> resumeID (meta t) \<noteq> [] \<Longrightarrow> resumeID (meta s) \<noteq> resumeID (meta t)"
  shows "one_row_each (put_session k t r)"
proof (rule one_row_eachI [OF table_ok_put [OF assms(1,3)]])
  fix l l' s s'
  assume "Get l (put_session k t r) = Some s" "Get l' (put_session k t r) = Some s'"
    "resumeID (meta s) \<noteq> []" "resumeID (meta s) = resumeID (meta s')"
  then show "l = l'" using assms(4) one_row_eachD [OF assms(1,2)] by (metis Get_put option.inject)
qed

lemma find_row_Some:
  "find (\<lambda>(k, s). resumeID (meta s) = rid) (sessions r) = Some (k, s) \<Longrightarrow> table_ok r \<Longrightarrow>
   Get k r = Some s \<and> resumeID (meta s) = rid"
  by (auto simp: find_Some_iff Get_def table_ok_def) (metis nth_mem)

lemma find_row_None:
  "find (\<lambda>(k, s). resumeID (meta s) = rid) (sessions r) = None \<Longrightarrow> Get k r = Some s \<Longrightarrow>
   resumeID (meta s) \<noteq> rid"
  by (auto simp: find_None_iff Get_def dest!: map_of_SomeD)

text \<open>The three ways in which discovery changes the table.\<close>

lemma upsert_cases:
  assumes "UpsertExternal now sid nm dir b rid used r = (out, r')" "table_ok r" "sid \<noteq> []" "rid \<noteq> []"
  obtains
    (refreshed) k s n a where "Get k r = Some s" "resumeID (meta s) = rid"
      "r' = put_session k (refresh_known sid n dir b a s) r"
  | (adopted) s n a where "Get sid r = Some s" "\<And>k t. Get k r = Some t \<Longrightarrow> resumeID (meta t) \<noteq> rid"
      "r' = put_session sid (adopt_alias rid n dir b a s) r"
  | (added) s where "Get sid r = None" "\<And>k t. Get k r = Some t \<Longrightarrow> resumeID (meta t) \<noteq> rid"
      "r' = put_session sid s r" "ID s = sid" "resumeID (meta s) = rid" "session_inv s"
proof (cases "find (\<lambda>(k, s). resumeID (meta s) = rid) (sessions r)")
  case (Some p)
  obtain k s where p: "p = (k, s)" by (cases p)
  show thesis
  proof (rule refreshed)
    show "Get k r = Some s" "resumeID (meta s) = rid"
      using find_row_Some [of rid r k s] Some p assms(2) by simp_all
    show "r' = put_session k (refresh_known sid (if nm = [] then take 8 rid else nm) dir b
        (if used \<le> 0 then now else real_of_int used) s) r"
      using assms(1,3,4) Some p unfolding UpsertExternal_def Let_def by simp
  qed
next
  case None
  note no = find_row_None [OF None]
  show thesis
  proof (cases "Get sid r")
    case (Some s)
    with None no assms(1,3,4) show thesis by (intro adopted) (auto simp: UpsertExternal_def Let_def)
  next
    case new: None
    let ?s = "new_session sid (if used \<le> 0 then now else real_of_int used)
            (empty_meta\<lparr>name := if nm = [] then take 8 rid else nm, cwd := dir, resumeID := rid\<rparr>)
            (empty_config\<lparr>cfg_Backend := b\<rparr>)"
    have "ID ?s = sid" "resumeID (meta ?s) = rid" by (simp_all add: new_session_def)
    with None new no assms(1,3,4) show thesis
      by (intro added [of ?s]) (auto simp: UpsertExternal_def Let_def new_session_inv)
  qed
qed

text \<open>
  Discovery of a native conversation keeps the table sound: one row per conversation before
  means one row per conversation after, the discovered conversation is recorded in some session, and
  no existing session loses its active conversation, its activity time, or a name its user chose.
\<close>

theorem discovery_keeps_one_row:
  assumes "table_ok r" and "one_row_each r"
    and "UpsertExternal now sid nm dir b rid used r = (out, r')" and "sid \<noteq> []" and "rid \<noteq> []"
  shows "table_ok r' \<and> one_row_each r' \<and> (\<exists>k t. Get k r' = Some t \<and> rid \<in> set (ResumeIDs t))
    \<and> (\<forall>k s. Get k r = Some s \<longrightarrow> (\<exists>t. Get k r' = Some t
         \<and> (resumeID (meta s) \<noteq> [] \<longrightarrow> resumeID (meta t) = resumeID (meta s))
         \<and> lastActivity s \<le> lastActivity t
         \<and> (metadataRevision (meta s) \<noteq> 0 \<longrightarrow> name (meta t) = name (meta s))))"
  using assms(3,1,4,5)
proof (cases rule: upsert_cases)
  case (refreshed k s n a)
  let ?t = "refresh_known sid n dir b a s"
  have id: "ID ?t = k" using Get_ID [OF assms(1) refreshed(1)] by simp
  have "one_row_each r'" unfolding refreshed(3)
    by (rule one_row_put [OF assms(1,2) id]) (use refreshed one_row_eachD [OF assms(1,2)] in force)
  moreover have "rid \<in> set (ResumeIDs ?t)" using own_id_recorded [of ?t] refreshed(2) assms(5) by simp
  ultimately show ?thesis
    using refreshed table_ok_put [OF assms(1) id] activity_refresh refresh_name by auto
next
  case (adopted s n a)
  let ?t = "adopt_alias rid n dir b a s"
  have id: "ID ?t = sid" using Get_ID [OF assms(1) adopted(1)] by simp
  have "one_row_each r'" unfolding adopted(3)
  proof (rule one_row_put [OF assms(1,2) id])
    fix l u assume u: "Get l r = Some u" "l \<noteq> sid"
    show "resumeID (meta u) \<noteq> resumeID (meta ?t)"
    proof (cases "resumeID (meta s) = []")
      case True
      with adopted(2) [OF u(1)] show ?thesis by simp
    next
      case False
      then have "resumeID (meta ?t) = resumeID (meta s)" by simp
      with False u(2) one_row_eachD [OF assms(1,2) adopted(1) u(1)] show ?thesis by metis
    qed
  qed
  then show ?thesis
    using adopted table_ok_put [OF assms(1) id] activity_adopt adopt_name adopt_records [OF assms(5)]
    by auto
next
  case (added s)
  have "one_row_each r'" unfolding added(3)
    by (rule one_row_put [OF assms(1,2) added(4)]) (use added in auto)
  then show ?thesis
    using added table_ok_put [OF assms(1) added(4)] own_id_recorded [of s] assms(5) by auto
qed

lemma discovery_keeps_one_row_witness:
  "\<exists>out r' t. UpsertExternal 4 ''jl_c_u1'' ''native title'' ''/w'' ''claude'' ''u1'' 9 demo_reg = (out, r')
     \<and> one_row_each r' \<and> Get ''a'' r' = Some t \<and> resumeID (meta t) = ''u1''"
proof -
  obtain out r' where r: "UpsertExternal 4 ''jl_c_u1'' ''native title'' ''/w'' ''claude'' ''u1'' 9 demo_reg = (out, r')"
    by fastforce
  obtain s where s: "Get ''a'' demo_reg = Some s" "resumeID (meta s) = ''u1''" by (simp add: demo_reg_simps)
  with discovery_keeps_one_row [OF demo_reg_ok(1,2) r] r show ?thesis by fastforce
qed

section \<open>Looking up a conversation\<close>

definition beats :: "session \<Rightarrow> session \<Rightarrow> bool" where
  "beats s t \<longleftrightarrow> lastActivity s > lastActivity t \<or> (lastActivity s = lastActivity t \<and> ID s \<le> ID t)"

lemma beats_refl: "beats s s"
  by (simp add: beats_def)

lemma beats_trans: "beats s t \<Longrightarrow> beats t u \<Longrightarrow> beats s u"
  by (auto simp: beats_def)

lemma better_match_beats:
  "beats (better_match s b) s" "beats (better_match s b) b" "better_match s b \<in> {s, b}"
  by (auto simp: better_match_def beats_def)

text \<open>The loop keeps a best candidate among those seen.\<close>

lemma best_match_sound:
  "best_match rid ss best = Some b \<Longrightarrow> (\<forall>c. best = Some c \<longrightarrow> resumeID (meta c) = rid) \<Longrightarrow>
   (b \<in> set ss \<or> best = Some b) \<and> resumeID (meta b) = rid
   \<and> (\<forall>s\<in>set ss. resumeID (meta s) = rid \<longrightarrow> beats b s) \<and> (\<forall>c. best = Some c \<longrightarrow> beats b c)"
proof (induction ss arbitrary: best)
  case (Cons s ss)
  show ?case
  proof (cases "resumeID (meta s) = rid")
    case False
    with Cons show ?thesis by auto
  next
    case True
    let ?n = "case best of None \<Rightarrow> s | Some c \<Rightarrow> better_match s c"
    have n: "resumeID (meta ?n) = rid" "?n \<in> insert s (set_option best)" "beats ?n s"
      "\<forall>c. best = Some c \<longrightarrow> beats ?n c"
      using True Cons.prems(2) better_match_beats beats_refl
      by (auto split: option.splits) (metis insertE singletonD)+
    have "best_match rid ss (Some ?n) = Some b" using True Cons.prems(1) by simp
    from Cons.IH [OF this] n show ?thesis using True by (auto intro: beats_trans)
  qed
qed (auto simp: beats_refl)

lemma best_match_None:
  "best_match rid ss best = None \<longleftrightarrow> best = None \<and> (\<forall>s\<in>set ss. resumeID (meta s) \<noteq> rid)"
  by (induction ss arbitrary: best) auto

text \<open>
  Looking up a native conversation is deterministic although the map is iterated in any order:
  it finds a session if and only if one carries the identifier, and then the one with the latest
  activity, the smallest identifier among equals.
\<close>

theorem lookup_is_deterministic:
  assumes "table_ok r" and "rid \<noteq> []"
  shows "FindByResumeID rid r = Some b \<longleftrightarrow>
     Get (ID b) r = Some b \<and> resumeID (meta b) = rid
     \<and> (\<forall>s\<in>set (List r). resumeID (meta s) = rid \<longrightarrow>
          lastActivity s < lastActivity b \<or> (lastActivity s = lastActivity b \<and> ID b \<le> ID s))"
proof
  assume "FindByResumeID rid r = Some b"
  then have "best_match rid (List r) None = Some b" using assms(2) by (simp add: FindByResumeID_def)
  from best_match_sound [OF this] have "b \<in> set (List r)" "resumeID (meta b) = rid"
    "\<forall>s\<in>set (List r). resumeID (meta s) = rid \<longrightarrow> beats b s" by simp_all
  with List_Get [OF assms(1)]
  show "Get (ID b) r = Some b \<and> resumeID (meta b) = rid
     \<and> (\<forall>s\<in>set (List r). resumeID (meta s) = rid \<longrightarrow>
          lastActivity s < lastActivity b \<or> (lastActivity s = lastActivity b \<and> ID b \<le> ID s))"
    by (auto simp: beats_def)
next
  assume b: "Get (ID b) r = Some b \<and> resumeID (meta b) = rid
     \<and> (\<forall>s\<in>set (List r). resumeID (meta s) = rid \<longrightarrow>
          lastActivity s < lastActivity b \<or> (lastActivity s = lastActivity b \<and> ID b \<le> ID s))"
  then have "best_match rid (List r) None \<noteq> None"
    using Get_in_List [of "ID b" r b] by (auto simp: best_match_None)
  then obtain c where c: "best_match rid (List r) None = Some c" by blast
  from best_match_sound [OF c] have c': "c \<in> set (List r)" "resumeID (meta c) = rid"
    "beats c b" using b Get_in_List [of "ID b" r b] by auto
  have "ID c = ID b" using b c' by (auto simp: beats_def)
  then have "c = b" using List_Get [OF assms(1) c'(1)] b by (metis option.inject)
  then show "FindByResumeID rid r = Some b" using c assms(2) by (simp add: FindByResumeID_def)
qed

lemma lookup_is_deterministic_witness:
  "FindByResumeID ''u1'' demo_reg = Some (snd (hd (sessions demo_reg)))"
proof -
  have "''u1'' \<noteq> []" by simp
  from lookup_is_deterministic [OF demo_reg_ok(1) this] show ?thesis
    by (simp add: demo_reg_simps)
qed

section \<open>The chain of resume identifiers\<close>

definition chain_ok :: "session \<Rightarrow> bool" where
  "chain_ok s \<longleftrightarrow> distinct (historicalResumeIDs (meta s)) \<and> [] \<notin> set (historicalResumeIDs (meta s))"

lemma append_unique: "distinct ids \<Longrightarrow> distinct (appendUniqueResumeID ids rid active)"
  by (simp add: appendUniqueResumeID_def)

lemma set_append_unique:
  "set (appendUniqueResumeID ids rid active) =
     (if rid = [] \<or> rid = active then set ids else insert rid (set ids))"
  by (auto simp: appendUniqueResumeID_def)

lemma chain_ok_set: "chain_ok s \<Longrightarrow> chain_ok (SetResumeID rid s)"
  by (auto simp: chain_ok_def SetResumeID_def Let_def append_unique set_append_unique)

text \<open>
  Switching a session to another native conversation loses no generation: the identifiers of
  the session stay free of duplicates and are exactly those it had and the new one, the new one is
  active, and it is the last of the chain unless the session had used it before. In that case the
  active conversation is not the last one.
\<close>

theorem resume_chain_is_complete:
  assumes "chain_ok s" and "rid \<noteq> []"
  shows "distinct (ResumeIDs (SetResumeID rid s)) \<and> chain_ok (SetResumeID rid s)
    \<and> set (ResumeIDs (SetResumeID rid s)) = insert rid (set (ResumeIDs s))
    \<and> resumeID (meta (SetResumeID rid s)) = rid
    \<and> (rid \<notin> set (historicalResumeIDs (meta s)) \<longrightarrow> last (ResumeIDs (SetResumeID rid s)) = rid)
    \<and> (rid \<in> set (historicalResumeIDs (meta s)) \<and> resumeID (meta s) \<notin> set (historicalResumeIDs (meta s))
        \<and> resumeID (meta s) \<noteq> [] \<longrightarrow> last (ResumeIDs (SetResumeID rid s)) \<noteq> rid)"
  using assms
  by (auto simp: chain_ok_def ResumeIDs_def SetResumeID_def Let_def appendUniqueResumeID_def)

lemma resume_chain_is_complete_witness:
  "last (ResumeIDs (SetResumeID ''A'' (SetResumeID ''B'' (SetResumeID ''A'' demo0)))) = ''B''
   \<and> resumeID (meta (SetResumeID ''A'' (SetResumeID ''B'' (SetResumeID ''A'' demo0)))) = ''A''"
proof -
  define s where "s = SetResumeID ''B'' (SetResumeID ''A'' demo0)"
  have h: "historicalResumeIDs (meta s) = [''A'']" "resumeID (meta s) = ''B''"
    by (simp_all add: s_def SetResumeID_def demo0_def new_session_def demo_meta_def appendUniqueResumeID_def)
  have "chain_ok s" by (simp add: chain_ok_def h)
  note t = resume_chain_is_complete [OF this, of "''A''", unfolded h]
  have "set (ResumeIDs s) = {''A'', ''B''}" by (auto simp: ResumeIDs_def h set_append_unique)
  with t have l: "last (ResumeIDs (SetResumeID ''A'' s)) \<noteq> ''A''" "resumeID (meta (SetResumeID ''A'' s)) = ''A''"
    "set (ResumeIDs (SetResumeID ''A'' s)) = {''A'', ''B''}" by simp_all
  then have "last (ResumeIDs (SetResumeID ''A'' s)) \<in> {''A'', ''B''}" by (metis last_in_set list.set(1) insert_not_empty)
  with l show ?thesis unfolding s_def by simp
qed

section \<open>The registry as a step system\<close>

text \<open>
  Every mutator of \<open>Session_Registry\<close> writes only the metadata, configuration and activity
  fields, which a session step may do; retiring a session is closing it.
\<close>

lemma same_queue_step:
  assumes "t = s\<lparr>meta := meta t, config := config t, lastActivity := lastActivity t\<rparr>"
  shows "session_step s t"
  using st_fields [where s = s and m = "meta t" and c = "config t" and a = "lastActivity t"] assms
  by metis

lemma mutator_steps:
  "session_step s (SetName n s)" "session_step s (SetEffort e s)" "session_step s (SetModel m s)"
  "session_step s (ApplyCodexSettings t1 t2 t3 s)" "session_step s (RestoreConfig sn s)"
  "session_step s (SetMeta p h s)" "session_step s (ApplyConfig b1 b2 b3 s)"
  "session_step s (SetResumeID rid s)" "session_step s (ClearResumeIDs s)"
  "session_step s (AddHistoricalResumeID rid s)" "session_step s (SetContext u x s)"
  "session_step s (SetLastActivity a s)"
  by (rule same_queue_step,
      simp add: SetName_def SetEffort_def SetModel_def ApplyCodexSettings_def RestoreConfig_def
        SetMeta_def ApplyConfig_def SetResumeID_def ClearResumeIDs_def AddHistoricalResumeID_def
        SetContext_def SetLastActivity_def raise_activity_def Let_def)+

lemma commit_steps:
  "session_step s (previewed msg role ts s)" "session_step s (renamed now_ms nm by0 mid s)"
  "session_step s (set_preview msg role ts s)"
  "session_step s (refresh_known sid nm dir b a s)" "session_step s (adopt_alias rid nm dir b a s)"
  by (rule same_queue_step,
      simp add: previewed_def renamed_def set_preview_def refresh_known_def adopt_alias_def
        raise_activity_def Let_def)+

lemma retire_is_Close:
  assumes "retirable s"
  shows "retire s = Close s"
proof -
  have m: "mailbox s = []" "state s \<noteq> Closed" using assms by (simp_all add: retirable_def)
  have u: "mailbox x = [] \<Longrightarrow> unhold_all x = x" for x by (simp add: unhold_all_def)
  have c: "mailbox (opt_close c x) = mailbox x" for c x
    by (simp add: opt_close_def close_chan_def split: option.splits)
  have q: "x\<lparr>quit := None, queueHolds := 0\<rparr> = x\<lparr>quit := None, mailbox := [], queueHolds := 0\<rparr>"
    if "mailbox x = []" for x :: session using that by simp
  show ?thesis unfolding retire_def Close_def Let_def using m by (simp add: u c q)
qed

definition reg_inv :: "registry \<Rightarrow> bool" where
  "reg_inv r \<longleftrightarrow> table_ok r \<and> (\<forall>k s. Get k r = Some s \<longrightarrow> session_inv s)"

text \<open>
  A step of the registry: an operation of the registry, a step of one of its sessions, or the map
  being iterated in another order.
\<close>

inductive registry_step :: "registry \<Rightarrow> registry \<Rightarrow> bool" where
  rs_session: "Get k r = Some s \<Longrightarrow> session_step s t \<Longrightarrow> registry_step r (put_session k t r)"
| rs_create: "registry_step r (snd (Create now sid nm dir b m x rid r))"
| rs_delete: "registry_step r (snd (Delete sid r))"
| rs_attach: "rows_ok st \<Longrightarrow> registry_step r (AttachStore env now_s st r)"
| rs_persist: "registry_step r (Persist env now_s r)"
| rs_preview: "registry_step r (snd (CommitPreviewAndPersist env now_s sid msg role ts r))"
| rs_repair: "registry_step r (snd (RepairPreviewAndPersist env now_s sid old msg role ts r))"
| rs_rename: "registry_step r (snd (RenameAndPersist env now_s now_ms sid nm by0 mid expected r))"
| rs_prune: "registry_step r (snd (PruneCodexSessions env now_s ignore r))"
| rs_missing: "registry_step r (snd (PruneMissingNativeSessions env now_s missing r))"
| rs_upsert: "registry_step r (snd (UpsertExternal now sid nm dir b rid used r))"
| rs_order: "distinct (map fst (sessions r')) \<Longrightarrow> set (sessions r') = set (sessions r) \<Longrightarrow>
     reg_store r' = reg_store r \<Longrightarrow> registry_step r r'"

lemma reg_inv_put: "reg_inv r \<Longrightarrow> session_inv t \<Longrightarrow> ID t = k \<Longrightarrow> reg_inv (put_session k t r)"
  by (simp add: reg_inv_def table_ok_put)

lemma reg_inv_sessions: "reg_inv r \<Longrightarrow> sessions r' = sessions r \<Longrightarrow> reg_inv r'"
  using Get_sessions [of r' r] by (simp add: reg_inv_def table_ok_def)

lemma reg_inv_filter: "reg_inv r \<Longrightarrow> sessions r' = filter p (sessions r) \<Longrightarrow> reg_inv r'"
  by (auto simp: reg_inv_def table_ok_def Get_def distinct_map_filter dest!: map_of_SomeD)

lemma reg_inv_fold:
  "reg_inv r \<Longrightarrow> (\<And>k. session_inv (f k) \<and> ID (f k) = k) \<Longrightarrow>
   reg_inv (fold (\<lambda>sid. put_session sid (f sid)) ids r)"
  by (induction ids arbitrary: r) (auto intro: reg_inv_put)

text \<open>No step changes the identifier.\<close>

lemma ID_ops [simp]:
  "ID (close_chan c s) = ID s" "ID (signalQueueLocked s) = ID s" "ID (set_held q v s) = ID s"
  "ID (start_worker s) = ID s" "ID (push_turn f t s) = ID s" "ID (snd (add_closure cl s)) = ID s"
  "ID (apply_future s) = ID s" "ID (opt_close oc s) = ID s" "ID (goto i pc s) = ID s"
  by (simp_all add: close_chan_def signalQueueLocked_def set_held_def start_worker_def push_turn_def
      add_closure_def apply_future_def applyConfigurationLocked_def opt_close_def goto_def Let_def
      split: option.splits)

lemma ID_unhold [simp]: "ID (unhold_all s) = ID s"
proof -
  have "ID (fold (\<lambda>r. set_held r False) xs t) = ID t" for xs t
    by (induction xs arbitrary: t) simp_all
  then show ?thesis by (simp add: unhold_all_def)
qed

lemma ID_closures [simp]:
  "ID (finish_queued q rm s) = ID s" "ID (release_hold s) = ID s"
  by (simp_all add: finish_queued_def release_hold_def Let_def)

lemma ID_run [simp]: "ID (run_closure cl rm s) = ID s"
  by (induction cl rm s rule: run_closure.induct) simp_all

lemma ID_call [simp]: "ID (call_closure k rm s) = ID s"
  by (simp add: call_closure_def split: option.splits)

lemma ID_worker [simp]: "ID (admit_head now i r s) = ID s" "ID (worker_exit i s) = ID s"
  by (simp_all add: admit_head_def worker_exit_def beginTurnLocked_def)

lemma worker_step_ID: "worker_step i s t \<Longrightarrow> ID t = ID s"
  by (induction rule: worker_step.induct)
     (simp_all add: worker_loop_def worker_ready_def split: list.splits)

lemma ID_queue_ops [simp]:
  "ID (snd (submitReady tid fn rdy s)) = ID s" "ID (snd (reserveQueued tid a x s)) = ID s"
  "ID (snd (CancelQueued tid s)) = ID s" "ID (snd (DeferActiveNamed tid rdy fn s)) = ID s"
  "ID (snd (PrepareEndTurn now s)) = ID s" "ID (MarkStopping s) = ID s" "ID (Close s) = ID s"
  "ID (snd (RestoreStreamingAfterUnconfirmedStop tid s)) = ID s" "ID (snd (HoldQueue s)) = ID s"
  by (simp_all add: submitReady_def reserveQueued_def CancelQueued_def DeferActiveNamed_def
      PrepareEndTurn_def MarkStopping_def RestoreStreamingAfterUnconfirmedStop_def HoldQueue_def
      Close_def add_closure_def Let_def split: option.splits)

lemma ID_config_ops [simp]:
  "ID (snd (SetFutureConfiguration c ex s)) = ID s" "ID (RestoreFutureConfiguration b s) = ID s"
  "ID (snd (ActivateQueuedConfiguration c s)) = ID s" "ID (SetConfigRevision n s) = ID s"
  "ID (snd (snd (ReserveConfiguration ex s))) = ID s"
  by (simp_all add: SetFutureConfiguration_def RestoreFutureConfiguration_def
      ActivateQueuedConfiguration_def SetConfigRevision_def ReserveConfiguration_def
      applyConfigurationLocked_def add_closure_def Let_def)

lemma step_ID: "session_step s t \<Longrightarrow> ID t = ID s"
  by (induction rule: session_step.induct) (simp_all add: worker_step_ID)

section \<open>Every operation of the registry keeps its invariant\<close>

lemma reg_inv_step: "reg_inv r \<Longrightarrow> Get k r = Some s \<Longrightarrow> session_step s t \<Longrightarrow> reg_inv (put_session k t r)"
  using session_step_inv step_ID by (intro reg_inv_put) (auto simp: reg_inv_def Get_ID)

lemma restored_inv: "session_inv (restored_session sid e) \<and> ID (restored_session sid e) = sid"
proof -
  let ?t = "restored_session sid e"
  have "session_step (new_session sid (CreatedAt ?t) (meta ?t) (config ?t)) ?t"
    by (rule same_queue_step) (simp add: restored_session_def new_session_def raise_activity_def Let_def)
  then show ?thesis using session_step_inv new_session_inv by (metis restored_fields(1))
qed

lemma Create_inv: "reg_inv r \<Longrightarrow> reg_inv (snd (Create now sid nm dir b m x rid r))"
  by (auto simp: Create_def Let_def split: option.splits intro!: reg_inv_put new_session_inv)
     (simp add: new_session_def)

lemma Delete_inv: "reg_inv r \<Longrightarrow> reg_inv (snd (Delete sid r))"
  by (rule reg_inv_filter [of r _ "\<lambda>(k, _). k \<noteq> sid"]) (auto simp: Delete_def AList.delete_eq intro: filter_cong)

lemma AttachStore_inv: "reg_inv r \<Longrightarrow> reg_inv (AttachStore env now_s st r)"
proof -
  assume "reg_inv r"
  moreover obtain loaded st1 where l: "Load env st = (loaded, st1)" by fastforce
  ultimately have "reg_inv (fold (\<lambda>sid. put_session sid (restored_session sid (entry_at loaded sid)))
      (canonicalSavedSessionIDs loaded) (r\<lparr>reg_store := Some st1\<rparr>))"
    by (intro reg_inv_fold restored_inv) (auto elim: reg_inv_sessions)
  then show ?thesis by (auto simp: AttachStore_def l Let_def elim: reg_inv_sessions)
qed

lemma Persist_inv: "reg_inv r \<Longrightarrow> reg_inv (snd (PersistDurably env now_s r))"
  by (rule reg_inv_sessions) simp_all

lemma commit_inv:
  assumes "reg_inv r" "Get sid r = Some s" "session_step s after"
  shows "reg_inv (snd (commit_session env now_s sid s after s r))"
proof -
  obtain out changed err r' where c: "commit_session env now_s sid s after s r = ((out, changed, err), r')"
    by (cases "commit_session env now_s sid s after s r") auto
  have p: "reg_inv (snd (PersistDurably env now_s (put_session sid after r)))"
    using reg_inv_step [OF assms] Persist_inv by blast
  from c show ?thesis
  proof (cases rule: commit_cases)
    case (undone e)
    have "session_inv s" "ID s = sid" using assms(1,2) by (auto simp: reg_inv_def Get_ID)
    with undone p c show ?thesis by (simp add: reg_inv_put)
  qed (use p c in simp_all)
qed

lemma Rename_inv: "reg_inv r \<Longrightarrow> reg_inv (snd (RenameAndPersist env now_s now_ms sid nm by0 mid expected r))"
proof (cases "Get sid r")
  case (Some s)
  assume inv: "reg_inv r"
  obtain out changed err r' where
    c: "RenameAndPersist env now_s now_ms sid nm by0 mid expected r = ((out, changed, err), r')"
    by (cases "RenameAndPersist env now_s now_ms sid nm by0 mid expected r") auto
  from rename_commits [OF c Some] commit_inv [OF inv Some commit_steps(2)] inv c show ?thesis
    by (metis snd_conv)
qed (simp add: RenameAndPersist_def Let_def)

lemma Preview_inv: "reg_inv r \<Longrightarrow> reg_inv (snd (CommitPreviewAndPersist env now_s sid msg role ts r))"
proof (cases "Get sid r")
  case (Some s)
  assume inv: "reg_inv r"
  obtain out changed err r' where
    c: "CommitPreviewAndPersist env now_s sid msg role ts r = ((out, changed, err), r')"
    by (cases "CommitPreviewAndPersist env now_s sid msg role ts r") auto
  from preview_commits [OF c Some] commit_inv [OF inv Some commit_steps(1)] inv c show ?thesis
    by (metis snd_conv)
qed (simp add: CommitPreviewAndPersist_def Let_def)

lemma undo_set_preview: "undo_preview s (set_preview msg role ts s) (set_preview msg role ts s) = s"
  by (simp add: undo_preview_def set_preview_def)

lemma Repair_inv: "reg_inv r \<Longrightarrow> reg_inv (snd (RepairPreviewAndPersist env now_s sid old msg role ts r))"
  by (auto simp: RepairPreviewAndPersist_def Let_def undo_set_preview
      intro: commit_inv commit_steps(3) split: option.splits)

lemma Prune_inv:
  "reg_inv r \<Longrightarrow> reg_inv (snd (PruneCodexSessions env now_s ignore r))"
  "reg_inv r \<Longrightarrow> reg_inv (snd (PruneMissingNativeSessions env now_s missing r))"
  by (auto simp: PruneCodexSessions_def PruneMissingNativeSessions_def Let_def Persist_def
      intro!: Persist_inv elim: reg_inv_filter split: option.splits)

lemma Upsert_inv: "reg_inv r \<Longrightarrow> reg_inv (snd (UpsertExternal now sid nm dir b rid used r))"
proof (cases "sid = [] \<or> rid = []")
  case False
  assume inv: "reg_inv r"
  then have ok: "table_ok r" by (simp add: reg_inv_def)
  obtain out r' where u: "UpsertExternal now sid nm dir b rid used r = (out, r')" by fastforce
  from False have ne: "sid \<noteq> []" "rid \<noteq> []" by auto
  from u ok ne have "reg_inv r'"
  proof (cases rule: upsert_cases)
    case (refreshed k s n a)
    then show ?thesis using reg_inv_step [OF inv _ commit_steps(4)] by simp
  next
    case (adopted s n a)
    then show ?thesis using reg_inv_step [OF inv _ commit_steps(5)] by simp
  next
    case (added s)
    then show ?thesis using reg_inv_put [OF inv] by simp
  qed
  then show ?thesis by (simp add: u)
qed (simp add: UpsertExternal_def)

lemma registry_step_inv: "registry_step r r' \<Longrightarrow> reg_inv r \<Longrightarrow> reg_inv r'"
proof (induction rule: registry_step.induct)
  case (rs_order r' r)
  then have "Get l r' = Get l r" for l
    using map_of_inject_set [of "sessions r'" "sessions r"] by (simp add: Get_def reg_inv_def table_ok_def)
  with rs_order show ?case by (simp add: reg_inv_def table_ok_def)
next
  case (rs_persist r env now_s)
  then show ?case by (simp add: Persist_def Persist_inv)
qed (simp_all add: reg_inv_step Create_inv Delete_inv AttachStore_inv Preview_inv Repair_inv
      Rename_inv Prune_inv Upsert_inv)

interpretation reg_sys: step_system "\<lambda>r. r = NewRegistry" registry_step reg_inv
  by unfold_locales
     (auto intro: registry_step_inv, simp add: NewRegistry_def reg_inv_def table_ok_def Get_def)

text \<open>
  Whatever sequence of registry operations, restarts and steps of the individual sessions the
  bridge executes, every session in the table keeps the guarantees of the turn queue: it is filed
  under its own identifier, no channel was closed twice, it has at most one worker, and it is
  streaming exactly while a turn's completion signal is armed. Retiring a session whose conversation
  vanished is exactly closing it.
\<close>

theorem registry_sessions_are_sound:
  assumes "registry_step\<^sup>*\<^sup>* NewRegistry r" and "Get k r = Some s"
  shows "ID s = k \<and> \<not> panicked s \<and> length (workers s) \<le> 1 \<and> (IsStreaming s \<longleftrightarrow> turnDone s \<noteq> None)
    \<and> (retirable s \<longrightarrow> retire s = Close s)"
proof -
  have "reg_inv r" using reg_sys.reachable_good [OF refl assms(1)] .
  with assms(2) have inv: "session_inv s" "table_ok r" by (auto simp: reg_inv_def)
  show ?thesis
    using inv Get_ID [OF inv(2) assms(2)] retire_is_Close
    by (simp add: session_inv_def chan_inv_def work_inv_def turn_inv_def)
qed

lemma registry_sessions_are_sound_witness:
  "\<exists>r s. registry_step\<^sup>*\<^sup>* NewRegistry r \<and> Get ''a'' r = Some s \<and> mailbox s \<noteq> [] \<and> ID s = ''a''
     \<and> length (workers s) \<le> 1"
proof -
  let ?r1 = "snd (Create 1 ''a'' ''One'' ''/w'' ''claude'' [] [] [] NewRegistry)"
  obtain s where s: "Get ''a'' ?r1 = Some s" "state s = Idle" "workerUp s = False" "mailbox s = []" "activeQueuedID s = []"
    by (simp add: Create_def Get_def NewRegistry_def put_session_def new_session_def Let_def)
  let ?t = "snd (submitReady ''m'' 0 None s)"
  have "registry_step\<^sup>*\<^sup>* NewRegistry ?r1" by (blast intro: rs_create)
  then have r2: "registry_step\<^sup>*\<^sup>* NewRegistry (put_session ''a'' ?t ?r1)"
    using rs_session [OF s(1) st_submit] by (rule rtranclp.rtrancl_into_rtrancl)
  have "mailbox ?t \<noteq> []"
    using s(2-5) by (simp add: Let_def submitReady_def start_worker_def push_turn_def signalQueueLocked_def
        mailboxSize_def close_chan_def split: option.splits)
  with registry_sessions_are_sound [OF r2, of "''a''" ?t] r2 show ?thesis by fastforce
qed

end
