(* ===== verification/Offline_Buffer.thy ===== *)
theory Offline_Buffer
  imports Bridge_Prelude
begin

text \<open>
  The offline event journal (\<^verbatim>\<open>internal/governance/offline.go\<close>) and its reliable replay
  (\<^verbatim>\<open>internal/core/replay.go\<close>).

  While no client is connected the hub appends events to a bounded buffer that merges cumulative
  deltas and drops superseded snapshots; a reconnecting client receives the buffer in batches, and a
  batch leaves the buffer only when the client acknowledges it. The constructors of \<open>event\<close> are
  the types the buffer treats specially, with the fields it reads; \<open>Other\<close> is every other type of
  \<^verbatim>\<open>internal/protocol\<close>. Fields that are only carried along are numbers.
\<close>

section \<open>Events\<close>

record goal =
  g_ThreadID :: string
  g_Objective :: string
  g_Status :: string
  g_TokenBudget :: "int option"
  g_TokensUsed :: int
  g_TimeUsedSeconds :: int
  g_CreatedAt :: int
  g_UpdatedAt :: int

datatype event =
    TextChunk string string string string
  | ThinkingChunk string string string
  | ToolStart string string string string string
  | ToolResult string string string string
  | ToolEnd string string string
  | TodoUpdate string string nat
  | UsageReport nat
  | GoalUpdate string goal
  | GoalCleared string
  | Done string string
  | Stopped string string
  | Error string string nat
  | Other nat

type_synonym buffer = "event list"

definition offlineCap :: nat where
  "offlineCap = 10000"

definition goalSession :: "event \<Rightarrow> string option" where
  "goalSession e = (case e of GoalUpdate sid _ \<Rightarrow> Some sid | GoalCleared sid \<Rightarrow> Some sid | _ \<Rightarrow> None)"

definition streamingContentEvent :: "event \<Rightarrow> (string \<times> string) option" where
  "streamingContentEvent e =
     (case e of
        TextChunk sid rid _ _ \<Rightarrow> Some (sid, rid)
      | ThinkingChunk sid rid _ \<Rightarrow> Some (sid, rid)
      | ToolStart sid rid _ _ _ \<Rightarrow> Some (sid, rid)
      | ToolResult sid rid _ _ \<Rightarrow> Some (sid, rid)
      | ToolEnd sid rid _ \<Rightarrow> Some (sid, rid)
      | TodoUpdate sid rid _ \<Rightarrow> Some (sid, rid)
      | _ \<Rightarrow> None)"

definition terminalEvent :: "event \<Rightarrow> (string \<times> string) option" where
  "terminalEvent e =
     (case e of
        Done sid rid \<Rightarrow> Some (sid, rid)
      | Stopped sid rid \<Rightarrow> Some (sid, rid)
      | Error sid rid _ \<Rightarrow> Some (sid, rid)
      | _ \<Rightarrow> None)"

section \<open>Compaction\<close>

definition is_text :: "string \<Rightarrow> string \<Rightarrow> event \<Rightarrow> bool" where
  "is_text sid rid e = (case e of TextChunk s r _ _ \<Rightarrow> s = sid \<and> r = rid | _ \<Rightarrow> False)"

definition is_thinking :: "string \<Rightarrow> string \<Rightarrow> event \<Rightarrow> bool" where
  "is_thinking sid rid e = (case e of ThinkingChunk s r _ \<Rightarrow> s = sid \<and> r = rid | _ \<Rightarrow> False)"

definition is_todo :: "string \<Rightarrow> string \<Rightarrow> event \<Rightarrow> bool" where
  "is_todo sid rid e = (case e of TodoUpdate s r _ \<Rightarrow> s = sid \<and> r = rid | _ \<Rightarrow> False)"

definition is_usage :: "event \<Rightarrow> bool" where
  "is_usage e = (case e of UsageReport _ \<Rightarrow> True | _ \<Rightarrow> False)"

definition is_goal :: "string \<Rightarrow> event \<Rightarrow> bool" where
  "is_goal sid e \<longleftrightarrow> goalSession e = Some sid"

definition content_of :: "event \<Rightarrow> string" where
  "content_of e = (case e of TextChunk _ _ c _ \<Rightarrow> c | ThinkingChunk _ _ c \<Rightarrow> c | _ \<Rightarrow> [])"

definition taken :: "event option \<Rightarrow> string" where
  "taken e = (case e of None \<Rightarrow> [] | Some x \<Rightarrow> content_of x)"

definition takeTextContent :: "string \<Rightarrow> string \<Rightarrow> buffer \<Rightarrow> string \<times> buffer" where
  "takeTextContent sid rid b =
     (taken (find_last (is_text sid rid) b), remove_last (is_text sid rid) b)"

definition takeThinkingContent :: "string \<Rightarrow> string \<Rightarrow> buffer \<Rightarrow> string \<times> buffer" where
  "takeThinkingContent sid rid b =
     (taken (find_last (is_thinking sid rid) b), remove_last (is_thinking sid rid) b)"

text \<open>The loop from the end of the buffer, on the reversed buffer.\<close>

fun remove_tool_rev :: "string \<Rightarrow> string \<Rightarrow> bool \<Rightarrow> event list \<Rightarrow> event list" where
  "remove_tool_rev sid tool incl [] = []"
| "remove_tool_rev sid tool incl (e # es) =
     (case e of
        ToolStart s _ t _ _ \<Rightarrow>
          if incl \<and> s = sid \<and> t = tool then es else e # remove_tool_rev sid tool incl es
      | ToolResult s _ t _ \<Rightarrow>
          if s = sid \<and> t = tool then (if incl then remove_tool_rev sid tool incl es else es)
          else e # remove_tool_rev sid tool incl es
      | ToolEnd s _ t \<Rightarrow>
          if s = sid \<and> t = tool then (if incl then remove_tool_rev sid tool incl es else es)
          else e # remove_tool_rev sid tool incl es
      | _ \<Rightarrow> e # remove_tool_rev sid tool incl es)"

definition removeToolEvents :: "string \<Rightarrow> string \<Rightarrow> bool \<Rightarrow> buffer \<Rightarrow> buffer" where
  "removeToolEvents sid tool incl b = rev (remove_tool_rev sid tool incl (rev b))"

definition removeTodoUpdate :: "string \<Rightarrow> string \<Rightarrow> buffer \<Rightarrow> buffer" where
  "removeTodoUpdate sid rid b = remove_last (is_todo sid rid) b"

definition removeUsageReports :: "buffer \<Rightarrow> buffer" where
  "removeUsageReports b = remove_last is_usage b"

definition collapseTurnContent :: "string \<Rightarrow> string \<Rightarrow> buffer \<Rightarrow> buffer" where
  "collapseTurnContent sid rid b = filter (\<lambda>e. streamingContentEvent e \<noteq> Some (sid, rid)) b"

text \<open>
  The \<^verbatim>\<open>switch\<close> of \<^verbatim>\<open>Append\<close>: the event to append, or \<^term>\<open>None\<close> when a completed
  tool only removes its traces, and the compacted buffer.
\<close>

definition compact_event :: "event \<Rightarrow> buffer \<Rightarrow> event option \<times> buffer" where
  "compact_event e b =
     (case e of
        TextChunk sid rid c src \<Rightarrow>
          (case takeTextContent sid rid b of (old, b') \<Rightarrow> (Some (TextChunk sid rid (old @ c) src), b'))
      | ThinkingChunk sid rid c \<Rightarrow>
          (case takeThinkingContent sid rid b of (old, b') \<Rightarrow> (Some (ThinkingChunk sid rid (old @ c)), b'))
      | ToolResult sid _ tool _ \<Rightarrow> (Some e, removeToolEvents sid tool False b)
      | ToolEnd sid _ tool \<Rightarrow> (None, removeToolEvents sid tool True b)
      | TodoUpdate sid rid _ \<Rightarrow> (Some e, removeTodoUpdate sid rid b)
      | UsageReport _ \<Rightarrow> (Some e, removeUsageReports b)
      | _ \<Rightarrow> (Some e, b))"

definition drop_goal :: "event \<Rightarrow> buffer \<Rightarrow> buffer" where
  "drop_goal e b = (case goalSession e of None \<Rightarrow> b | Some sid \<Rightarrow> remove_last (is_goal sid) b)"

definition collapse_terminal :: "event \<Rightarrow> buffer \<Rightarrow> buffer" where
  "collapse_terminal e b =
     (case terminalEvent e of
        Some (sid, rid) \<Rightarrow> if sid \<noteq> [] \<and> rid \<noteq> [] then collapseTurnContent sid rid b else b
      | None \<Rightarrow> b)"

definition push_capped :: "event \<Rightarrow> buffer \<Rightarrow> buffer" where
  "push_capped e b = (if offlineCap \<le> length b then tl b else b) @ [e]"

definition Append :: "event \<Rightarrow> buffer \<Rightarrow> buffer" where
  "Append e b =
     (case compact_event e (drop_goal e b) of
        (None, b') \<Rightarrow> b'
      | (Some e', b') \<Rightarrow> push_capped e' (collapse_terminal e' b'))"

section \<open>Reading\<close>

definition Drain :: "buffer \<Rightarrow> event list \<times> buffer" where
  "Drain b = (b, [])"

definition Peek :: "int \<Rightarrow> buffer \<Rightarrow> event list" where
  "Peek limit b = (if limit \<le> 0 then [] else take (nat limit) b)"

text \<open>The loop of \<^verbatim>\<open>PeekSized\<close>; \<open>size\<close> is the number of bytes an event encodes to.\<close>

fun sized_batch :: "(event \<Rightarrow> nat) \<Rightarrow> nat \<Rightarrow> nat \<Rightarrow> event list \<Rightarrow> event list \<Rightarrow> event list" where
  "sized_batch sz maxBytes used out [] = out"
| "sized_batch sz maxBytes used out (e # es) =
     (if out \<noteq> [] \<and> used + sz e > maxBytes then out
      else sized_batch sz maxBytes (used + sz e) (out @ [e]) es)"

definition PeekSized :: "(event \<Rightarrow> nat) \<Rightarrow> int \<Rightarrow> int \<Rightarrow> buffer \<Rightarrow> event list" where
  "PeekSized sz limit maxBytes b =
     (if limit \<le> 0 \<or> maxBytes \<le> 0 then []
      else sized_batch sz (nat maxBytes) 0 [] (take (nat limit) b))"

definition Commit :: "int \<Rightarrow> buffer \<Rightarrow> nat \<times> buffer" where
  "Commit count b =
     (if count \<le> 0 then (0, b) else (min (nat count) (length b), drop (nat count) b))"

section \<open>Replay\<close>

definition replayBatchSize :: int where
  "replayBatchSize = 64"

definition replayBatchMaxBytes :: int where
  "replayBatchMaxBytes = 256 * 1024"

text \<open>
  Clients and batch identifiers are numbers. \<open>gone\<close> are the clients whose \<^verbatim>\<open>quit\<close> channel
  is closed. A lease of a legacy client has no events: it sends and commits one event at a time.
\<close>

record replayLease =
  l_owner :: nat
  l_batchID :: nat
  l_events :: "event list"
  l_count :: nat

record replay =
  offline :: buffer
  lease :: "replayLease option"
  gone :: "nat set"

text \<open>
  \<open>startOfflineReplay\<close> for a client that acknowledges; the first component is the batch sent. The
  fresh random batch identifier is an argument.
\<close>

definition startOfflineReplay ::
  "(event \<Rightarrow> nat) \<Rightarrow> nat \<Rightarrow> nat \<Rightarrow> replay \<Rightarrow> replayLease option \<times> replay" where
  "startOfflineReplay sz fresh_id c h =
     (case lease h of
        Some l \<Rightarrow>
          if l_owner l = c \<or> l_owner l \<notin> gone h then (None, h)
          else (let es = PeekSized sz replayBatchSize replayBatchMaxBytes (offline h) in
                if es = [] then (None, h\<lparr>lease := None\<rparr>)
                else let l' = \<lparr>l_owner = c, l_batchID = fresh_id, l_events = es, l_count = length es\<rparr>
                     in (Some l', h\<lparr>lease := Some l'\<rparr>))
      | None \<Rightarrow>
          (let es = PeekSized sz replayBatchSize replayBatchMaxBytes (offline h) in
           if es = [] then (None, h)
           else let l' = \<lparr>l_owner = c, l_batchID = fresh_id, l_events = es, l_count = length es\<rparr>
                in (Some l', h\<lparr>lease := Some l'\<rparr>)))"

definition startLegacyReplay :: "nat \<Rightarrow> nat \<Rightarrow> replay \<Rightarrow> replay" where
  "startLegacyReplay fresh_id c h =
     (case lease h of
        Some _ \<Rightarrow> h
      | None \<Rightarrow> h\<lparr>lease := Some \<lparr>l_owner = c, l_batchID = fresh_id, l_events = [], l_count = 0\<rparr>\<rparr>)"

definition holds_batch :: "nat \<Rightarrow> nat \<Rightarrow> replay \<Rightarrow> bool" where
  "holds_batch c batch h \<longleftrightarrow>
     (case lease h of None \<Rightarrow> False | Some l \<Rightarrow> l_owner l = c \<and> l_batchID l = batch)"

definition retryOfflineReplay :: "nat \<Rightarrow> nat \<Rightarrow> replay \<Rightarrow> event list option \<times> replay" where
  "retryOfflineReplay c batch h =
     (if \<not> holds_batch c batch h then (None, h)
      else if c \<in> gone h then (None, h\<lparr>lease := None\<rparr>)
      else (map_option l_events (lease h), h))"

text \<open>
  The acknowledgement of a batch that the attachment journal does not own: the number of events
  committed, and the state before the next batch is started.
\<close>

definition ackOfflineReplay :: "nat \<Rightarrow> nat \<Rightarrow> replay \<Rightarrow> nat option \<times> replay" where
  "ackOfflineReplay c batch h =
     (case lease h of
        None \<Rightarrow> (None, h)
      | Some l \<Rightarrow>
          if l_owner l \<noteq> c \<or> l_batchID l \<noteq> batch then (None, h)
          else (case Commit (int (l_count l)) (offline h) of
                  (n, b) \<Rightarrow> (Some n, h\<lparr>lease := None, offline := b\<rparr>)))"

definition releaseReplayLease :: "nat \<Rightarrow> replay \<Rightarrow> replay" where
  "releaseReplayLease c h =
     (case lease h of
        None \<Rightarrow> h
      | Some l \<Rightarrow> if l_owner l = c then h\<lparr>lease := None\<rparr> else h)"

text \<open>One round of the legacy loop: the oldest event entered the client's write queue.\<close>

definition legacyRound :: "replay \<Rightarrow> event list \<times> replay" where
  "legacyRound h =
     (case Peek 1 (offline h) of
        [] \<Rightarrow> ([], h)
      | e # _ \<Rightarrow> ([e], h\<lparr>offline := snd (Commit 1 (offline h))\<rparr>))"

end
