(* ===== verification/Offline_Properties.thy ===== *)
theory Offline_Properties
  imports Offline_Buffer
begin

text \<open>
  The journal stays bounded and compact, keeps every event that nothing supersedes, accumulates the
  streamed text of a running turn without loss, and is replayed in order and exactly once as long as
  nothing is appended under an outstanding lease.
\<close>

section \<open>What compaction removes\<close>

definition reliable :: "event \<Rightarrow> bool" where
  "reliable e \<longleftrightarrow> streamingContentEvent e = None \<and> goalSession e = None \<and> \<not> is_usage e"

lemma kinds_not_reliable:
  "is_text sid rid e \<Longrightarrow> \<not> reliable e" "is_thinking sid rid e \<Longrightarrow> \<not> reliable e"
  "is_todo sid rid e \<Longrightarrow> \<not> reliable e" "is_usage e \<Longrightarrow> \<not> reliable e" "is_goal sid e \<Longrightarrow> \<not> reliable e"
  "streamingContentEvent e = Some k \<Longrightarrow> \<not> reliable e"
  by (auto simp: reliable_def is_text_def is_thinking_def is_todo_def is_goal_def
      streamingContentEvent_def split: event.splits)

lemma tools_not_reliable [simp]:
  "\<not> reliable (ToolStart s r t n c)" "\<not> reliable (ToolResult s r t out)" "\<not> reliable (ToolEnd s r t)"
  by (simp_all add: reliable_def streamingContentEvent_def)

lemma filter_remove_tool_rev:
  assumes "\<And>s r t n c. \<not> q (ToolStart s r t n c)" "\<And>s r t out. \<not> q (ToolResult s r t out)"
    "\<And>s r t. \<not> q (ToolEnd s r t)"
  shows "filter q (remove_tool_rev sid tool incl es) = filter q es"
  using assms by (induction es) (auto split: event.splits)

lemma filter_removeToolEvents:
  assumes "\<And>s r t n c. \<not> q (ToolStart s r t n c)" "\<And>s r t out. \<not> q (ToolResult s r t out)"
    "\<And>s r t. \<not> q (ToolEnd s r t)"
  shows "filter q (removeToolEvents sid tool incl b) = filter q b"
  using filter_remove_tool_rev [OF assms, where es = "rev b"]
  by (simp add: removeToolEvents_def rev_filter [symmetric])

lemma length_remove_tool_rev: "length (remove_tool_rev sid tool incl es) \<le> length es"
  by (induction es) (auto split: event.splits)

lemma length_compact: "length (snd (compact_event e b)) \<le> length b"
  using length_remove_tool_rev [of _ _ _ "rev b"] length_remove_last
  by (auto simp: compact_event_def takeTextContent_def takeThinkingContent_def removeToolEvents_def
      removeTodoUpdate_def removeUsageReports_def split: event.splits)

lemma length_drop_goal: "length (drop_goal e b) \<le> length b"
  by (simp add: drop_goal_def length_remove_last split: option.splits)

lemma length_collapse: "length (collapse_terminal e b) \<le> length b"
  by (simp add: collapse_terminal_def collapseTurnContent_def split: option.splits prod.splits)

text \<open>The buffer before the new event is pushed, and the event pushed.\<close>

definition kept :: "event \<Rightarrow> buffer \<Rightarrow> buffer" where
  "kept e b = (case compact_event e (drop_goal e b) of
      (None, b') \<Rightarrow> b' | (Some e', b') \<Rightarrow> collapse_terminal e' b')"

lemma length_kept: "length (kept e b) \<le> length b"
  using length_compact [of e "drop_goal e b"] length_drop_goal [of e b] length_collapse
  by (auto simp: kept_def split: prod.splits option.splits) (meson le_trans)+

lemma Append_kept:
  "Append e b = (case fst (compact_event e (drop_goal e b)) of
      None \<Rightarrow> kept e b | Some e' \<Rightarrow> push_capped e' (kept e b))"
  by (simp add: Append_def kept_def split: prod.splits option.splits)

lemma length_Append: "length (Append e b) \<le> Suc (length b)"
  using length_kept [of e b] by (auto simp: Append_kept push_capped_def split: option.splits)

lemma length_Append_cap: "length b \<le> offlineCap \<Longrightarrow> length (Append e b) \<le> offlineCap"
  using length_kept [of e b]
  by (auto simp: Append_kept push_capped_def offlineCap_def split: option.splits)

lemma push_below: "length b < offlineCap \<Longrightarrow> push_capped e (kept e' b) = kept e' b @ [e]"
  using length_kept [of e' b] by (simp add: push_capped_def)

text \<open>A predicate that no superseded kind satisfies is untouched by compaction.\<close>

lemma filter_compact:
  assumes "\<And>x. q x \<Longrightarrow> reliable x"
  shows "filter q (snd (compact_event e b)) = filter q b"
proof -
  note no = kinds_not_reliable
  have "filter q (remove_last (is_text sid rid) b) = filter q b"
       "filter q (remove_last (is_thinking sid rid) b) = filter q b"
       "filter q (remove_last (is_todo sid rid) b) = filter q b"
       "filter q (remove_last is_usage b) = filter q b" for sid rid
    using no assms by (blast intro: filter_remove_last)+
  moreover have "filter q (removeToolEvents sid tool incl b) = filter q b" for sid tool incl
    by (rule filter_removeToolEvents) (use assms tools_not_reliable in blast)+
  ultimately show ?thesis
    by (simp add: compact_event_def takeTextContent_def takeThinkingContent_def removeTodoUpdate_def
        removeUsageReports_def split: event.splits)
qed

lemma filter_drop_goal:
  "(\<And>x sid. is_goal sid x \<Longrightarrow> \<not> q x) \<Longrightarrow> filter q (drop_goal e b) = filter q b"
  by (simp add: drop_goal_def filter_remove_last split: option.splits)

lemma filter_collapse:
  "(\<And>x k. streamingContentEvent x = Some k \<Longrightarrow> \<not> q x) \<Longrightarrow> filter q (collapse_terminal e b) = filter q b"
  by (auto simp: collapse_terminal_def collapseTurnContent_def intro: filter_cong
      split: option.splits prod.splits)

lemma filter_kept:
  assumes "\<And>x. q x \<Longrightarrow> reliable x"
  shows "filter q (kept e b) = filter q b"
proof -
  have "filter q (collapse_terminal x y) = filter q y" for x y
    using assms kinds_not_reliable(6) by (blast intro: filter_collapse)
  then have "filter q (kept e b) = filter q (snd (compact_event e (drop_goal e b)))"
    by (simp add: kept_def split: prod.splits option.splits)
  moreover have "filter q (drop_goal e b) = filter q b"
    using assms kinds_not_reliable(5) by (blast intro: filter_drop_goal)
  ultimately show ?thesis by (simp add: filter_compact [OF assms])
qed

lemma compact_reliable: "reliable e \<Longrightarrow> fst (compact_event e b) = Some e"
  by (auto simp: compact_event_def reliable_def streamingContentEvent_def split: event.splits)

lemma compact_unreliable: "fst (compact_event e b) = Some e' \<Longrightarrow> reliable e' = reliable e"
  by (auto simp: compact_event_def reliable_def streamingContentEvent_def goalSession_def is_usage_def
      split: event.splits prod.splits)



section \<open>One entry per slot\<close>

text \<open>
  Events of these kinds replace one another: streamed text and reasoning per turn, the to-do list per
  turn, the usage report, the goal per session.
\<close>

datatype slot = TextSlot string string | ThinkingSlot string string | TodoSlot string string
  | UsageSlot | GoalSlot string

definition slot_of :: "event \<Rightarrow> slot option" where
  "slot_of e =
     (case e of
        TextChunk sid rid _ _ \<Rightarrow> Some (TextSlot sid rid)
      | ThinkingChunk sid rid _ \<Rightarrow> Some (ThinkingSlot sid rid)
      | TodoUpdate sid rid _ \<Rightarrow> Some (TodoSlot sid rid)
      | UsageReport _ \<Rightarrow> Some UsageSlot
      | GoalUpdate sid _ \<Rightarrow> Some (GoalSlot sid)
      | GoalCleared sid \<Rightarrow> Some (GoalSlot sid)
      | _ \<Rightarrow> None)"

lemma slot_of_simps [simp]:
  "slot_of (TextChunk sid rid c src) = Some (TextSlot sid rid)"
  "slot_of (ThinkingChunk sid rid c) = Some (ThinkingSlot sid rid)"
  "slot_of (TodoUpdate sid rid n) = Some (TodoSlot sid rid)" "slot_of (UsageReport n) = Some UsageSlot"
  "slot_of (GoalUpdate sid g) = Some (GoalSlot sid)" "slot_of (GoalCleared sid) = Some (GoalSlot sid)"
  "slot_of (ToolStart sid rid t nm cm) = None" "slot_of (ToolResult sid rid t out) = None"
  "slot_of (ToolEnd sid rid t) = None" "slot_of (Done sid rid) = None" "slot_of (Stopped sid rid) = None"
  "slot_of (Error sid rid n) = None" "slot_of (Other n) = None"
  by (simp_all add: slot_of_def)

abbreviation in_slot :: "slot \<Rightarrow> event \<Rightarrow> bool" where
  "in_slot k \<equiv> (\<lambda>e. slot_of e = Some k)"

lemma slot_kinds:
  "is_text sid rid = in_slot (TextSlot sid rid)" "is_thinking sid rid = in_slot (ThinkingSlot sid rid)"
  "is_todo sid rid = in_slot (TodoSlot sid rid)" "is_usage = in_slot UsageSlot"
  "is_goal sid = in_slot (GoalSlot sid)"
  by (auto simp: slot_of_def is_text_def is_thinking_def is_todo_def is_usage_def is_goal_def
      goalSession_def fun_eq_iff split: event.splits)

definition occupied :: "slot \<Rightarrow> buffer \<Rightarrow> nat" where
  "occupied k b = length (filter (in_slot k) b)"

lemma occupied_remove_same: "occupied k (remove_last (in_slot k) b) = occupied k b - 1"
  by (simp add: occupied_def remove_last_at_most_one)

lemma filter_remove_slot: "k \<noteq> l \<Longrightarrow> filter (in_slot k) (remove_last (in_slot l) b) = filter (in_slot k) b"
  by (intro filter_remove_last) simp

lemma occupied_remove: "occupied k (remove_last (in_slot l) b) \<le> occupied k b"
proof (cases "k = l")
  case False
  then show ?thesis by (simp add: occupied_def filter_remove_slot)
qed (simp add: occupied_remove_same)

lemma occupied_tools [simp]: "occupied k (removeToolEvents sid tool incl b) = occupied k b"
  by (simp add: occupied_def filter_removeToolEvents)

lemma occupied_filter: "occupied k (filter q b) \<le> occupied k b"
  by (induction b) (simp_all add: occupied_def)

lemma occupied_collapse: "occupied k (collapse_terminal e b) \<le> occupied k b"
  by (simp add: collapse_terminal_def collapseTurnContent_def occupied_filter
      split: option.splits prod.splits)

lemma occupied_kept: "occupied k (kept e b) \<le> occupied k b - (if slot_of e = Some k then 1 else 0)"
proof -
  have 1: "occupied k (snd (compact_event e (drop_goal e b)))
      \<le> occupied k b - (if slot_of e = Some k then 1 else 0)"
    using occupied_remove [of k _ b]
    by (cases e) (auto simp: compact_event_def drop_goal_def goalSession_def takeTextContent_def
        takeThinkingContent_def removeTodoUpdate_def removeUsageReports_def slot_kinds
        occupied_remove_same)
  have "occupied k (kept e b) \<le> occupied k (snd (compact_event e (drop_goal e b)))"
    by (simp add: kept_def occupied_collapse split: prod.splits option.splits)
  with 1 show ?thesis by linarith
qed

lemma slot_pushed: "fst (compact_event e b) = Some e' \<Longrightarrow> slot_of e' = slot_of e"
  by (auto simp: compact_event_def slot_of_def split: event.splits prod.splits)

lemma occupied_push: "occupied k (push_capped e b) \<le> occupied k b + (if slot_of e = Some k then 1 else 0)"
proof -
  have "occupied k (tl b) \<le> occupied k b" by (cases b) (simp_all add: occupied_def)
  then show ?thesis by (simp add: push_capped_def) (simp add: occupied_def)
qed

lemma occupied_Append:
  assumes "occupied k b \<le> 1"
  shows "occupied k (Append e b) \<le> 1"
proof (cases "fst (compact_event e (drop_goal e b))")
  case None
  then show ?thesis using occupied_kept [of k e b] assms by (simp add: Append_kept)
next
  case (Some e')
  then show ?thesis
    using occupied_push [of k e' "kept e b"] occupied_kept [of k e b] slot_pushed [OF Some] assms
    by (auto simp: Append_kept split: if_splits)
qed

text \<open>The journal between reconnects: events are appended, batches are committed, it is drained.\<close>

inductive journal_step :: "buffer \<Rightarrow> buffer \<Rightarrow> bool" where
  j_append: "journal_step b (Append e b)"
| j_commit: "journal_step b (snd (Commit n b))"
| j_drain: "journal_step b (snd (Drain b))"

definition journal_inv :: "buffer \<Rightarrow> bool" where
  "journal_inv b \<longleftrightarrow> length b \<le> offlineCap \<and> (\<forall>k. occupied k b \<le> 1)"

lemma occupied_drop: "occupied k (drop n b) \<le> occupied k b"
proof -
  have "filter (in_slot k) b = filter (in_slot k) (take n b) @ filter (in_slot k) (drop n b)"
    by (metis append_take_drop_id filter_append)
  then show ?thesis by (simp add: occupied_def)
qed

lemma journal_step_inv: "journal_step b b' \<Longrightarrow> journal_inv b \<Longrightarrow> journal_inv b'"
proof (induction rule: journal_step.induct)
  case (j_append b e)
  then show ?case
    using occupied_Append [of _ b e] by (auto simp: journal_inv_def length_Append_cap)
next
  case (j_commit b n)
  then show ?case
    using occupied_drop [of _ "nat n" b] by (auto simp: journal_inv_def Commit_def intro: le_trans)
next
  case (j_drain b)
  then show ?case by (simp add: journal_inv_def Drain_def occupied_def)
qed

interpretation journal_sys: step_system "\<lambda>b. b = []" journal_step journal_inv
  by unfold_locales (auto intro: journal_step_inv, simp add: journal_inv_def occupied_def)

text \<open>
  The journal never exceeds its capacity, and however long the outage it holds at most one
  entry for the streamed text of a turn, for its reasoning, for its to-do list, for the goal of a
  session, and for the usage report.
\<close>

theorem journal_is_bounded_and_compact:
  assumes "journal_step\<^sup>*\<^sup>* [] b"
  shows "length b \<le> 10000 \<and> length (filter (is_text sid rid) b) \<le> 1
    \<and> length (filter (is_thinking sid rid) b) \<le> 1 \<and> length (filter (is_todo sid rid) b) \<le> 1
    \<and> length (filter is_usage b) \<le> 1 \<and> length (filter (is_goal sid) b) \<le> 1"
  using journal_sys.reachable_good [OF refl assms]
  by (simp add: journal_inv_def offlineCap_def slot_kinds occupied_def)

lemma journal_is_bounded_and_compact_witness:
  "\<exists>b. journal_step\<^sup>*\<^sup>* [] b \<and> b \<noteq> [] \<and> length (filter is_usage b) \<le> 1"
proof -
  let ?b = "Append (UsageReport 2) (Append (UsageReport 1) [])"
  have r: "journal_step\<^sup>*\<^sup>* [] ?b"
    by (rule rtranclp.rtrancl_into_rtrancl, rule r_into_rtranclp, rule j_append, rule j_append)
  have "?b \<noteq> []"
    by (simp add: Append_def compact_event_def drop_goal_def goalSession_def removeUsageReports_def
        collapse_terminal_def terminalEvent_def push_capped_def)
  with r journal_is_bounded_and_compact [OF r] show ?thesis by blast
qed

section \<open>Streamed text\<close>

definition streamed :: "string \<Rightarrow> string \<Rightarrow> event list \<Rightarrow> string" where
  "streamed sid rid es = concat (map content_of (filter (is_text sid rid) es))"

lemma filter_drop_other:
  "slot_of e \<noteq> Some (TextSlot sid rid) \<Longrightarrow>
   filter (is_text sid rid) (snd (compact_event e (drop_goal e b))) = filter (is_text sid rid) b"
  by (cases e) (auto simp: compact_event_def drop_goal_def goalSession_def takeTextContent_def
      takeThinkingContent_def removeTodoUpdate_def removeUsageReports_def slot_kinds
      filter_remove_slot filter_removeToolEvents)

lemma filter_collapse_other:
  assumes "terminalEvent e \<noteq> Some (sid, rid)"
  shows "filter (is_text sid rid) (collapse_terminal e b) = filter (is_text sid rid) b"
proof -
  have "is_text sid rid x \<Longrightarrow> streamingContentEvent x = Some (sid, rid)" for x
    by (auto simp: is_text_def streamingContentEvent_def split: event.splits)
  with assms show ?thesis
    by (auto simp: collapse_terminal_def collapseTurnContent_def intro!: filter_cong
        split: option.splits)
qed

lemma terminal_pushed: "fst (compact_event e b) = Some e' \<Longrightarrow> terminalEvent e' = terminalEvent e"
  by (auto simp: compact_event_def terminalEvent_def split: event.splits prod.splits)

lemma text_other:
  assumes "length b < offlineCap" "slot_of e \<noteq> Some (TextSlot sid rid)" "terminalEvent e \<noteq> Some (sid, rid)"
  shows "filter (is_text sid rid) (Append e b) = filter (is_text sid rid) b"
proof (cases "fst (compact_event e (drop_goal e b))")
  case None
  then have "kept e b = snd (compact_event e (drop_goal e b))"
    by (cases "compact_event e (drop_goal e b)") (simp add: kept_def)
  with None filter_drop_other [OF assms(2)] show ?thesis by (simp add: Append_kept)
next
  case (Some e')
  then have "kept e b = collapse_terminal e' (snd (compact_event e (drop_goal e b)))"
    by (cases "compact_event e (drop_goal e b)") (simp add: kept_def)
  then have "filter (is_text sid rid) (kept e b) = filter (is_text sid rid) b"
    using terminal_pushed [OF Some] assms(2,3) by (simp add: filter_collapse_other filter_drop_other)
  moreover have "Append e b = kept e b @ [e']" using Some push_below [OF assms(1)] by (simp add: Append_kept)
  moreover have "\<not> is_text sid rid e'" using slot_pushed [OF Some] assms(2) by (simp add: slot_kinds)
  ultimately show ?thesis by simp
qed

lemma single_text:
  assumes "length (filter p b) \<le> 1"
  shows "filter p (remove_last p b) = []" "filter p b = (case find_last p b of None \<Rightarrow> [] | Some x \<Rightarrow> [x])"
proof -
  show "filter p (remove_last p b) = []"
    using remove_last_at_most_one [of p b] assms by simp
  show "filter p b = (case find_last p b of None \<Rightarrow> [] | Some x \<Rightarrow> [x])"
  proof (cases "find_last p b")
    case None
    then have "filter p b = []" using find_last_None [of p b] by (simp add: filter_empty_conv)
    with None show ?thesis by simp
  next
    case (Some x)
    then have x: "x \<in> set (filter p b)" using find_last_Some [OF Some] by simp
    obtain y where "filter p b = [y]"
      using x assms by (metis One_nat_def empty_iff le_Suc_eq le_zero_eq length_0_conv length_Suc_conv set_empty)
    with x Some show ?thesis by simp
  qed
qed

lemma text_chunk:
  assumes "length b < offlineCap" "occupied (TextSlot sid rid) b \<le> 1"
  shows "streamed sid rid (Append (TextChunk sid rid c src) b) = streamed sid rid b @ c"
proof -
  let ?p = "is_text sid rid" and ?e = "TextChunk sid rid c src"
  have 1: "length (filter ?p b) \<le> 1" using assms(2) by (simp add: occupied_def slot_kinds)
  have k: "kept ?e b = remove_last ?p b"
    by (simp add: kept_def compact_event_def drop_goal_def goalSession_def takeTextContent_def
        collapse_terminal_def terminalEvent_def)
  have "Append ?e b = kept ?e b @ [TextChunk sid rid (taken (find_last ?p b) @ c) src]"
    using push_below [OF assms(1)]
    by (simp add: Append_kept) (simp add: compact_event_def drop_goal_def goalSession_def takeTextContent_def)
  then show ?thesis
    unfolding streamed_def k using single_text [OF 1]
    by (simp add: is_text_def content_of_def taken_def split: option.splits)
qed

lemma text_step:
  assumes "length b < offlineCap" "occupied (TextSlot sid rid) b \<le> 1" "terminalEvent e \<noteq> Some (sid, rid)"
  shows "streamed sid rid (Append e b) = streamed sid rid b @ streamed sid rid [e]"
proof (cases "slot_of e = Some (TextSlot sid rid)")
  case True
  then obtain c src where e: "e = TextChunk sid rid c src" by (cases e) auto
  then show ?thesis using text_chunk [OF assms(1,2)] by (simp add: streamed_def is_text_def content_of_def)
next
  case False
  then show ?thesis using text_other [OF assms(1) False assms(3)] by (simp add: streamed_def slot_kinds)
qed

lemma length_fold_Append: "length (fold Append es b) \<le> length es + length b"
proof (induction es arbitrary: b)
  case (Cons e es)
  show ?case using Cons [of "Append e b"] length_Append [of e b] by simp
qed simp

lemma occupied_fold_Append: "occupied k b \<le> 1 \<Longrightarrow> occupied k (fold Append es b) \<le> 1"
  by (induction es arbitrary: b) (simp_all only: fold.simps comp_apply id_apply occupied_Append)

lemma text_fold:
  assumes "length es < offlineCap" "\<forall>e\<in>set es. terminalEvent e \<noteq> Some (sid, rid)"
  shows "streamed sid rid (fold Append es []) = streamed sid rid es"
  using assms
proof (induction es rule: rev_induct)
  case (snoc e es)
  have "length (fold Append es []) < offlineCap" using length_fold_Append [of es "[]"] snoc.prems by simp
  moreover have "occupied (TextSlot sid rid) (fold Append es []) \<le> 1"
    by (rule occupied_fold_Append) (simp add: occupied_def)
  ultimately have "streamed sid rid (Append e (fold Append es [])) =
      streamed sid rid (fold Append es []) @ streamed sid rid [e]"
    using snoc.prems by (intro text_step) auto
  with snoc show ?case by (simp add: streamed_def)
qed (simp add: streamed_def)

text \<open>
  While a turn runs, the journal's merged text of that turn is exactly the concatenation of the
  chunks streamed since the client left, however they were interleaved with other events; once the
  turn ends its streamed content is gone from the journal.
\<close>

theorem streamed_text_is_complete:
  assumes "length es < offlineCap" and "\<forall>e\<in>set es. terminalEvent e \<noteq> Some (sid, rid)"
  shows "streamed sid rid (fold Append es []) = streamed sid rid es
    \<and> (sid \<noteq> [] \<longrightarrow> rid \<noteq> [] \<longrightarrow> streamed sid rid (Append (Done sid rid) (fold Append es [])) = [])"
proof -
  have "is_text sid rid x \<Longrightarrow> streamingContentEvent x = Some (sid, rid)" for x
    by (auto simp: is_text_def streamingContentEvent_def split: event.splits)
  then have no: "filter (is_text sid rid) (collapseTurnContent sid rid b) = []" for b
    by (auto simp: collapseTurnContent_def filter_empty_conv)
  have tl: "filter (is_text sid rid) (tl (collapseTurnContent sid rid b)) = []" for b
    using no [of b] by (cases "collapseTurnContent sid rid b") (auto split: if_splits)
  have "streamed sid rid (Append (Done sid rid) b) = []" if "sid \<noteq> []" "rid \<noteq> []" for b
  proof -
    have "\<not> is_text sid rid (Done sid rid)" by (simp add: is_text_def)
    moreover have "Append (Done sid rid) b = push_capped (Done sid rid) (collapseTurnContent sid rid b)"
      using that by (simp add: Append_def compact_event_def drop_goal_def goalSession_def
          collapse_terminal_def terminalEvent_def)
    ultimately have "filter (is_text sid rid) (Append (Done sid rid) b) = []"
      using no [of b] tl [of b] by (simp only: push_capped_def filter_append) simp
    then show ?thesis by (simp only: streamed_def) simp
  qed
  with text_fold [OF assms] show ?thesis by blast
qed

lemma streamed_text_is_complete_witness:
  "streamed ''s'' ''r'' (fold Append [TextChunk ''s'' ''r'' ''ab'' [], Other 1, TextChunk ''s'' ''r'' ''cd'' []] []) = ''abcd''"
proof -
  let ?es = "[TextChunk ''s'' ''r'' ''ab'' [], Other 1, TextChunk ''s'' ''r'' ''cd'' []]"
  have "length ?es < offlineCap" by (simp add: offlineCap_def)
  moreover have "\<forall>e\<in>set ?es. terminalEvent e \<noteq> Some (''s'', ''r'')" by (simp add: terminalEvent_def)
  ultimately have "streamed ''s'' ''r'' (fold Append ?es []) = streamed ''s'' ''r'' ?es"
    using streamed_text_is_complete [of ?es "''s''" "''r''"] by blast
  also have "\<dots> = ''abcd''" by (simp add: streamed_def is_text_def content_of_def)
  finally show ?thesis .
qed

end
