(* ===== verification/Replay_Properties.thy ===== *)
theory Replay_Properties
  imports Offline_Properties
begin

text \<open>
  Reliable replay of the offline journal. The interface \<open>replay_source\<close> states what replay relies
  on: peeking returns a non-empty prefix of what is left, committing drops as many events as were
  peeked. The journal provides it; from it follow delivery of everything, in order, exactly once.
\<close>

section \<open>The interface\<close>

text \<open>Rounds of peek, acknowledge, commit: the events delivered and the source afterwards.\<close>

fun replay_rounds :: "('b \<Rightarrow> 'e list) \<Rightarrow> (nat \<Rightarrow> 'b \<Rightarrow> 'b) \<Rightarrow> nat \<Rightarrow> 'b \<Rightarrow> 'e list \<times> 'b" where
  "replay_rounds peek commit 0 b = ([], b)"
| "replay_rounds peek commit (Suc n) b =
     (case replay_rounds peek commit n (commit (length (peek b)) b) of
        (rest, b') \<Rightarrow> (peek b @ rest, b'))"

locale replay_source =
  fixes content :: "'b \<Rightarrow> 'e list"
    and peek :: "'b \<Rightarrow> 'e list"
    and commit :: "nat \<Rightarrow> 'b \<Rightarrow> 'b"
  assumes peek_prefix: "prefix (peek b) (content b)"
    and peek_progress: "content b \<noteq> [] \<Longrightarrow> peek b \<noteq> []"
    and commit_drop: "n \<le> length (content b) \<Longrightarrow> content (commit n b) = drop n (content b)"
begin

lemma peek_take: "peek b = take (length (peek b)) (content b)"
  using peek_prefix [of b] by (auto simp: prefix_def)

lemma batch_commit: "peek b @ content (commit (length (peek b)) b) = content b"
  using peek_take [of b] peek_prefix [of b] by (auto simp: prefix_def commit_drop)

lemma rounds_partition:
  "fst (replay_rounds peek commit n b) @ content (snd (replay_rounds peek commit n b)) = content b"
proof (induction n arbitrary: b)
  case (Suc n)
  let ?c = "commit (length (peek b)) b"
  show ?case using Suc [of ?c] batch_commit [of b]
    by (cases "replay_rounds peek commit n ?c") simp
qed simp

lemma rounds_finish: "length (content b) \<le> n \<Longrightarrow> content (snd (replay_rounds peek commit n b)) = []"
proof (induction n arbitrary: b)
  case (Suc n)
  have "length (content (commit (length (peek b)) b)) \<le> n"
  proof (cases "content b = []")
    case False
    then have "0 < length (peek b)" using peek_progress by auto
    moreover have "length (peek b) + length (content (commit (length (peek b)) b)) = length (content b)"
      using arg_cong [OF batch_commit [of b], of length] by simp
    ultimately show ?thesis using Suc.prems by linarith
  qed (metis batch_commit append_is_Nil_conv le0 list.size(3))
  from Suc.IH [OF this] show ?case
    by (cases "replay_rounds peek commit n (commit (length (peek b)) b)") simp
qed simp

end

section \<open>The journal provides it\<close>

lemma sized_batch_prefix:
  "\<exists>k. sized_batch sz mx used out es = out @ take k es"
proof (induction es arbitrary: used out)
  case (Cons e es)
  show ?case
  proof (cases "out \<noteq> [] \<and> used + sz e > mx")
    case True
    then show ?thesis by (auto intro: exI [of _ 0])
  next
    case False
    from Cons [of "used + sz e" "out @ [e]"] obtain k
      where "sized_batch sz mx (used + sz e) (out @ [e]) es = (out @ [e]) @ take k es" by blast
    with False show ?thesis by (intro exI [of _ "Suc k"]) auto
  qed
qed simp

lemma sized_batch_nonempty: "es \<noteq> [] \<Longrightarrow> sized_batch sz mx used [] es \<noteq> []"
proof (cases es)
  case (Cons e r)
  obtain k where "sized_batch sz mx (used + sz e) [e] r = [e] @ take k r"
    using sized_batch_prefix by blast
  with Cons show ?thesis by simp
qed simp

lemma PeekSized_prefix: "prefix (PeekSized sz limit mx b) b"
proof (cases "limit \<le> 0 \<or> mx \<le> 0")
  case False
  obtain k where "sized_batch sz (nat mx) 0 [] (take (nat limit) b) = take k (take (nat limit) b)"
    using sized_batch_prefix [of sz "nat mx" 0 "[]" "take (nat limit) b"] by (metis append_Nil)
  with False show ?thesis by (simp add: PeekSized_def take_is_prefix)
qed (simp add: PeekSized_def)

lemma sized_batch_bytes:
  "out = [] \<and> used = 0 \<or> used = sum_list (map sz out) \<and> (used \<le> mx \<or> length out = 1) \<Longrightarrow>
   sum_list (map sz (sized_batch sz mx used out es)) \<le> mx \<or> length (sized_batch sz mx used out es) \<le> 1"
proof (induction es arbitrary: used out)
  case (Cons e es)
  show ?case
  proof (cases "out \<noteq> [] \<and> used + sz e > mx")
    case True
    with Cons.prems show ?thesis by auto
  next
    case False
    with Cons.prems have "used + sz e = sum_list (map sz (out @ [e])) \<and> (used + sz e \<le> mx \<or> length (out @ [e]) = 1)"
      by auto
    with Cons.IH [of "out @ [e]" "used + sz e"] False show ?thesis by auto
  qed
qed auto

interpretation offline_source: replay_source "\<lambda>b. b" "PeekSized sz replayBatchSize replayBatchMaxBytes"
  "\<lambda>n b. snd (Commit (int n) b)" for sz
proof
  show "prefix (PeekSized sz replayBatchSize replayBatchMaxBytes b) b" for b by (rule PeekSized_prefix)
  show "b \<noteq> [] \<Longrightarrow> PeekSized sz replayBatchSize replayBatchMaxBytes b \<noteq> []" for b
    by (simp add: PeekSized_def replayBatchSize_def replayBatchMaxBytes_def sized_batch_nonempty)
  show "n \<le> length b \<Longrightarrow> snd (Commit (int n) b) = drop n b" for n b by (simp add: Commit_def)
qed

lemma Commit_drop: "snd (Commit (int n) b) = drop n b"
  by (simp add: Commit_def)

text \<open>
  C11. Acknowledged replay delivers the whole journal: with at most as many rounds of peek and commit
  as there are events, the delivered batches concatenate to the journal in order and the journal is
  empty. No batch has more than 64 events, and one with more than a single event stays within the
  byte budget.
\<close>

theorem replay_delivers_everything:
  assumes "length b \<le> n"
  shows "replay_rounds (PeekSized sz replayBatchSize replayBatchMaxBytes)
           (\<lambda>k b. snd (Commit (int k) b)) n b = (b, [])
    \<and> length (PeekSized sz replayBatchSize replayBatchMaxBytes b) \<le> 64
    \<and> (length (PeekSized sz replayBatchSize replayBatchMaxBytes b) \<le> 1
        \<or> sum_list (map sz (PeekSized sz replayBatchSize replayBatchMaxBytes b)) \<le> 262144)"
proof -
  obtain k where "sized_batch sz (nat replayBatchMaxBytes) 0 [] (take 64 b) = take k (take 64 b)"
    using sized_batch_prefix [of sz "nat replayBatchMaxBytes" 0 "[]" "take 64 b"] by (metis append_Nil)
  then have "length (PeekSized sz replayBatchSize replayBatchMaxBytes b) \<le> 64"
    by (simp add: PeekSized_def replayBatchSize_def replayBatchMaxBytes_def)
  moreover have "length (PeekSized sz replayBatchSize replayBatchMaxBytes b) \<le> 1
        \<or> sum_list (map sz (PeekSized sz replayBatchSize replayBatchMaxBytes b)) \<le> 262144"
    using sized_batch_bytes [of "[]" 0 sz 262144 "take 64 b"]
    by (auto simp: PeekSized_def replayBatchSize_def replayBatchMaxBytes_def)
  moreover have "replay_rounds (PeekSized sz replayBatchSize replayBatchMaxBytes)
           (\<lambda>k b. snd (Commit (int k) b)) n b = (b, [])"
    using offline_source.rounds_partition [of sz n b] offline_source.rounds_finish [OF assms, of sz]
    by (simp add: prod_eq_iff)
  ultimately show ?thesis by blast
qed

lemma replay_delivers_everything_witness:
  "fst (replay_rounds (PeekSized (\<lambda>_. 200000) replayBatchSize replayBatchMaxBytes)
     (\<lambda>k b. snd (Commit (int k) b)) 3 [Other 1, Other 2, Other 3]) = [Other 1, Other 2, Other 3]"
  using replay_delivers_everything [of "[Other 1, Other 2, Other 3]" 3 "\<lambda>_. 200000"] by simp

section \<open>Leases\<close>

text \<open>
  The replay protocol with a record of what clients acknowledged (or, for legacy clients, accepted).
  A client acknowledges a batch only after it received it, so an accepted acknowledgement delivers
  the events of the lease. Nothing is appended: the hub appends only while no client is connected.
\<close>

definition acked_events :: "nat \<Rightarrow> nat \<Rightarrow> replay \<Rightarrow> event list" where
  "acked_events c batch h =
     (case lease h of
        None \<Rightarrow> []
      | Some l \<Rightarrow> if l_owner l = c \<and> l_batchID l = batch then l_events l else [])"

definition legacy_lease :: "replay \<Rightarrow> bool" where
  "legacy_lease h \<longleftrightarrow> (\<exists>l. lease h = Some l \<and> l_events l = [])"

inductive replay_step :: "replay \<times> event list \<Rightarrow> replay \<times> event list \<Rightarrow> bool" where
  rp_start: "replay_step (h, a) (snd (startOfflineReplay sz fid c h), a)"
| rp_legacy: "replay_step (h, a) (startLegacyReplay fid c h, a)"
| rp_ack: "replay_step (h, a) (snd (ackOfflineReplay c batch h), a @ acked_events c batch h)"
| rp_retry: "replay_step (h, a) (snd (retryOfflineReplay c batch h), a)"
| rp_release: "replay_step (h, a) (releaseReplayLease c h, a)"
| rp_round: "legacy_lease h \<Longrightarrow> replay_step (h, a) (snd (legacyRound h), a @ fst (legacyRound h))"
| rp_gone: "replay_step (h, a) (h\<lparr>gone := insert c (gone h)\<rparr>, a)"

text \<open>A lease always covers the oldest events of the journal.\<close>

definition lease_ok :: "replay \<Rightarrow> bool" where
  "lease_ok h \<longleftrightarrow> (\<forall>l. lease h = Some l \<longrightarrow> l_count l = length (l_events l) \<and> prefix (l_events l) (offline h))"

definition replay_inv :: "event list \<Rightarrow> replay \<times> event list \<Rightarrow> bool" where
  "replay_inv all0 = (\<lambda>(h, a). lease_ok h \<and> a @ offline h = all0)"

lemma start_replay_ok:
  "lease_ok h \<Longrightarrow> lease_ok (snd (startOfflineReplay sz fid c h))
     \<and> offline (snd (startOfflineReplay sz fid c h)) = offline h"
  using PeekSized_prefix [of sz replayBatchSize replayBatchMaxBytes "offline h"]
  by (auto simp: lease_ok_def startOfflineReplay_def Let_def split: option.splits)

lemma ack_replay_ok:
  assumes "lease_ok h"
  shows "lease_ok (snd (ackOfflineReplay c batch h))"
    and "acked_events c batch h @ offline (snd (ackOfflineReplay c batch h)) = offline h"
proof -
  show "lease_ok (snd (ackOfflineReplay c batch h))"
    using assms by (auto simp: lease_ok_def ackOfflineReplay_def split: option.splits prod.splits)
  show "acked_events c batch h @ offline (snd (ackOfflineReplay c batch h)) = offline h"
    using assms
    by (auto simp: lease_ok_def ackOfflineReplay_def acked_events_def Commit_def prefix_def
        split: option.splits)
qed

lemma legacy_round_ok:
  assumes "legacy_lease h" "lease_ok h"
  shows "lease_ok (snd (legacyRound h)) \<and> fst (legacyRound h) @ offline (snd (legacyRound h)) = offline h"
  using assms by (cases "offline h") (auto simp: legacyRound_def Peek_def Commit_def lease_ok_def legacy_lease_def)

lemma replay_step_inv: "replay_step x y \<Longrightarrow> replay_inv all0 x \<Longrightarrow> replay_inv all0 y"
proof (induction rule: replay_step.induct)
  case (rp_start h a sz fid c)
  then show ?case using start_replay_ok by (simp add: replay_inv_def)
next
  case (rp_legacy h a fid c)
  then show ?case by (auto simp: replay_inv_def startLegacyReplay_def lease_ok_def split: option.splits)
next
  case (rp_ack h a c batch)
  then show ?case using ack_replay_ok [of h c batch] by (auto simp: replay_inv_def)
next
  case (rp_retry h a c batch)
  then show ?case by (auto simp: replay_inv_def retryOfflineReplay_def lease_ok_def)
next
  case (rp_release h a c)
  then show ?case by (auto simp: replay_inv_def releaseReplayLease_def lease_ok_def split: option.splits)
next
  case (rp_round h a)
  then show ?case using legacy_round_ok [of h] by (auto simp: replay_inv_def)
next
  case (rp_gone h a c)
  then show ?case by (simp add: replay_inv_def lease_ok_def)
qed

interpretation replay_sys: step_system "\<lambda>x. replay_inv all0 x" replay_step "replay_inv all0" for all0
  by unfold_locales (auto intro: replay_step_inv)


definition demo_replay :: replay where
  "demo_replay = \<lparr>offline = [Other 1, Other 2], lease = None, gone = {}\<rparr>"


text \<open>
  The lease counts events, so an event appended while a batch is outstanding can shift the
  journal under it: the acknowledgement then drops an event no client ever received. Appending a
  chunk that merges with the leased head is enough. (The hub tests for connected clients before it
  appends, without holding the lock that registers a client and starts the replay.)
\<close>

theorem append_under_lease_loses_event:
  "\<exists>h l h1 h2. lease h = None \<and> startOfflineReplay (\<lambda>_. 200000) 7 0 h = (Some l, h1)
     \<and> h2 = snd (ackOfflineReplay 0 7 (h1\<lparr>offline := Append (TextChunk ''s'' ''r'' ''b'' []) (offline h1)\<rparr>))
     \<and> Other 1 \<in> set (offline h) \<and> Other 1 \<notin> set (l_events l) \<and> Other 1 \<notin> set (offline h2)"
proof -
  let ?h = "\<lparr>offline = [TextChunk ''s'' ''r'' ''a'' [], Other 1], lease = None, gone = {}\<rparr>"
  let ?l = "\<lparr>l_owner = 0, l_batchID = 7, l_events = [TextChunk ''s'' ''r'' ''a'' []], l_count = 1\<rparr>"
  have start: "startOfflineReplay (\<lambda>_. 200000) 7 0 ?h = (Some ?l, ?h\<lparr>lease := Some ?l\<rparr>)"
    by (simp add: Let_def startOfflineReplay_def PeekSized_def replayBatchSize_def replayBatchMaxBytes_def)
  have "Append (TextChunk ''s'' ''r'' ''b'' []) (offline ?h) = [Other 1, TextChunk ''s'' ''r'' ''ab'' []]"
    by (simp add: Append_def compact_event_def drop_goal_def goalSession_def takeTextContent_def
        find_last_def remove_last_def is_text_def taken_def content_of_def collapse_terminal_def
        terminalEvent_def push_capped_def offlineCap_def)
  then have "offline (snd (ackOfflineReplay 0 7 (?h\<lparr>lease := Some ?l,
      offline := Append (TextChunk ''s'' ''r'' ''b'' []) (offline ?h)\<rparr>))) = [TextChunk ''s'' ''r'' ''ab'' []]"
    by (simp add: ackOfflineReplay_def Commit_def)
  then show ?thesis
    using start
    by (intro exI [of _ ?h] exI [of _ ?l] exI [of _ "?h\<lparr>lease := Some ?l\<rparr>"] exI conjI)
       (assumption | rule refl | simp)+
qed

end
