(* ===== verification/Runtime_Journal.thy ===== *)
theory Runtime_Journal
  imports Bridge_Prelude "HOL-Library.AList"
begin

text \<open>
  The runtime journal (\<^verbatim>\<open>internal/runtimejournal\<close>: \<^verbatim>\<open>store.go\<close>,
  \<^verbatim>\<open>interactions.go\<close>, \<^verbatim>\<open>stop.go\<close>): the authoritative lifecycle of every session,
  its ledger of terminal results and the delivery and read cursors of each device.

  Records are an association list keyed by session. A nil map of cursors reads as zero, so the
  cursors are functions. The disk is part of the state: the snapshot file, the cursor log and the
  shared-read file. What the operating system decides is the argument \<open>io\<close>: the clock, the random
  read epoch of a session created in this operation, and for every file operation whether it worked; \<open>W_Late\<close>
  means that the new file was renamed into place before the sync of its directory failed, which only a
  durable write attempts. \<open>disk_snapshot\<close> is the snapshot a restarted process reads, \<open>disk_synced\<close>
  the last one that was synced and so survives the loss of power. Decoding a file gives back what was
  encoded.
\<close>

section \<open>State\<close>

record terminal =
  t_Revision :: u64
  t_RequestID :: string
  t_Status :: string
  t_At :: int
  t_StartedAt :: int
  t_Source :: string

record Record =
  r_SessionID :: string
  Revision :: u64
  Phase :: string
  Stage :: string
  StageMessage :: string
  StageStartedAt :: int
  ActiveStartedAt :: int
  ActiveRequestID :: string
  QueueLength :: int
  LastTerminal :: string
  LastError :: string
  UpdatedAt :: int
  CompletedAt :: int
  Terminals :: "terminal list"
  AckedByDevice :: "string \<Rightarrow> u64"
  ReadByDevice :: "string \<Rightarrow> u64"
  ReadEpoch :: string
  WaitingInteractions :: "(string \<times> string) list"

record View =
  v_SessionID :: string
  v_Revision :: u64
  v_Phase :: string
  v_Stage :: string
  v_StageMessage :: string
  v_StageStartedAt :: int
  v_ActiveStartedAt :: int
  v_ActiveRequestID :: string
  v_QueueLength :: int
  v_LastTerminal :: string
  v_LastError :: string
  v_UpdatedAt :: int
  v_CompletedAt :: int
  v_Unread :: nat
  v_DeliveryPending :: bool
  v_HistoryReconcile :: bool
  v_ReadEpoch :: string
  v_ReadRevision :: u64
  v_ReadVersion :: u64
  v_LastCompletedRevision :: u64

record cursorEntry =
  c_SessionID :: string
  c_DeviceID :: string
  c_Acked :: u64
  c_Read :: u64

record sharedReadRecord =
  sr_Epoch :: string
  sr_Revision :: u64
  sr_Version :: u64

record persistedRuntimeRecord =
  p_revision :: u64
  p_epoch :: string
  p_durable :: bool

type_synonym record_table = "(string \<times> Record) list"

datatype shared_file = SharedMissing | SharedUnreadable | SharedRows "(string \<times> sharedReadRecord) list"

record journal =
  records :: record_table
  sharedReads :: "(string \<times> sharedReadRecord) list"
  persistedRecords :: "string \<rightharpoonup> persistedRuntimeRecord"
  has_path :: bool
  dirty :: bool
  timer :: bool
  sharedReadLoadErr :: bool
  disk_snapshot :: "record_table option"
  disk_synced :: "record_table option"
  disk_cursors :: "cursorEntry list"
  disk_shared :: shared_file

datatype write_result = W_Ok | W_Failed | W_Late

record io =
  io_now :: int
  io_epoch :: "string \<Rightarrow> string"
  io_snapshot :: write_result
  io_truncate :: bool
  io_cursor :: bool
  io_shared :: write_result
  io_sync :: bool

definition maxSessions :: nat where
  "maxSessions = 2000"

section \<open>Phases and stages\<close>

definition defaultStageForPhase :: "string \<Rightarrow> string" where
  "defaultStageForPhase phase =
     (if phase = ''queued'' then ''queued''
      else if phase = ''running'' then ''preparing''
      else if phase = ''stopping'' then ''stopping''
      else if phase = ''waiting'' then ''waiting_user''
      else if phase = ''completed'' then ''completed''
      else if phase = ''failed'' then ''failed''
      else if phase = ''interrupted'' then ''interrupted''
      else if phase = ''closed'' then ''closed''
      else ''idle'')"

definition stageRank :: "string \<Rightarrow> nat" where
  "stageRank stage =
     (if stage = ''transmitting'' then 1
      else if stage = ''received'' then 2
      else if stage = ''queued'' then 3
      else if stage = ''preparing'' then 4
      else if stage \<in> {''resuming_thread'', ''starting_thread''} then 5
      else if stage = ''submitting_turn'' then 6
      else if stage = ''waiting_model'' then 7
      else if stage \<in> {''thinking'', ''composing'', ''running_tool'', ''waiting_user''} then 8
      else if stage = ''stopping'' then 9
      else if stage \<in> {''completed'', ''failed'', ''interrupted'', ''closed''} then 10
      else 0)"

definition active_phase :: "string \<Rightarrow> bool" where
  "active_phase phase \<longleftrightarrow> phase \<in> {''queued'', ''running'', ''stopping'', ''waiting''}"

section \<open>Records\<close>

definition new_record :: "string \<Rightarrow> string \<Rightarrow> Record" where
  "new_record sid epoch =
     \<lparr>r_SessionID = sid, Revision = 0, Phase = ''idle'', Stage = [], StageMessage = [],
      StageStartedAt = 0, ActiveStartedAt = 0, ActiveRequestID = [], QueueLength = 0,
      LastTerminal = [], LastError = [], UpdatedAt = 0, CompletedAt = 0, Terminals = [],
      AckedByDevice = (\<lambda>_. 0), ReadByDevice = (\<lambda>_. 0), ReadEpoch = epoch,
      WaitingInteractions = []\<rparr>"

text \<open>The self-healing part of \<^verbatim>\<open>ensureLocked\<close> on an existing record.\<close>

definition heal_record :: "Record \<Rightarrow> Record" where
  "heal_record r =
     (let r1 = (if Stage r = [] then r\<lparr>Stage := defaultStageForPhase (Phase r), StageStartedAt := UpdatedAt r\<rparr>
                else r)
      in if ActiveStartedAt r1 = 0 \<and> active_phase (Phase r1)
         then r1\<lparr>ActiveStartedAt := (if StageStartedAt r1 = 0 then UpdatedAt r1 else StageStartedAt r1)\<rparr>
         else r1)"

definition lookup :: "string \<Rightarrow> journal \<Rightarrow> Record option" where
  "lookup sid s = map_of (records s) sid"

definition put_record :: "string \<Rightarrow> Record \<Rightarrow> journal \<Rightarrow> journal" where
  "put_record sid r s = s\<lparr>records := AList.update sid r (records s)\<rparr>"

definition ensured :: "io \<Rightarrow> string \<Rightarrow> journal \<Rightarrow> Record" where
  "ensured i sid s =
     heal_record (case lookup sid s of None \<Rightarrow> new_record sid (io_epoch i sid) | Some r \<Rightarrow> r)"

definition ensureLocked :: "io \<Rightarrow> string \<Rightarrow> journal \<Rightarrow> Record \<times> journal" where
  "ensureLocked i sid s = (ensured i sid s, put_record sid (ensured i sid s) s)"

definition unread_above :: "u64 \<Rightarrow> terminal list \<Rightarrow> nat" where
  "unread_above n ts = length (filter (\<lambda>t. t_Status t = ''completed'' \<and> t_Revision t > n) ts)"

definition last_completed :: "terminal list \<Rightarrow> u64" where
  "last_completed ts =
     fold (\<lambda>t m. if t_Status t = ''completed'' \<and> t_Revision t > m then t_Revision t else m) ts 0"

definition viewLocked :: "Record \<Rightarrow> string \<Rightarrow> View" where
  "viewLocked r dev =
     (let read = ReadByDevice r dev;
          stale = active_phase (Phase r) \<and> ActiveRequestID r \<noteq> [] \<and> Terminals r \<noteq> []
                  \<and> t_RequestID (last (Terminals r)) \<noteq> ActiveRequestID r
      in \<lparr>v_SessionID = r_SessionID r, v_Revision = Revision r, v_Phase = Phase r, v_Stage = Stage r,
          v_StageMessage = StageMessage r, v_StageStartedAt = StageStartedAt r,
          v_ActiveStartedAt = ActiveStartedAt r, v_ActiveRequestID = ActiveRequestID r,
          v_QueueLength = QueueLength r,
          v_LastTerminal = (if stale then [] else LastTerminal r),
          v_LastError = (if stale then [] else LastError r),
          v_UpdatedAt = UpdatedAt r,
          v_CompletedAt = (if stale then 0 else CompletedAt r),
          v_Unread = unread_above read (Terminals r),
          v_DeliveryPending = (dev \<noteq> [] \<and> AckedByDevice r dev < Revision r),
          v_HistoryReconcile = (dev \<noteq> [] \<and> (\<exists>t\<in>set (Terminals r). t_Revision t > read)),
          v_ReadEpoch = [], v_ReadRevision = 0, v_ReadVersion = 0,
          v_LastCompletedRevision = last_completed (Terminals r)\<rparr>)"

section \<open>Writing\<close>

definition written_marks :: "bool \<Rightarrow> record_table \<Rightarrow> string \<rightharpoonup> persistedRuntimeRecord" where
  "written_marks durable rows =
     (\<lambda>sid. map_option (\<lambda>r. \<lparr>p_revision = Revision r, p_epoch = ReadEpoch r, p_durable = durable\<rparr>)
              (map_of rows sid))"

definition writeRuntimeSnapshotLocked :: "io \<Rightarrow> bool \<Rightarrow> journal \<Rightarrow> bool \<times> journal" where
  "writeRuntimeSnapshotLocked i durable s =
     (if \<not> has_path s then (True, s)
      else if io_snapshot i = W_Failed then (False, s)
      else if durable \<and> io_snapshot i = W_Late then (False, s\<lparr>disk_snapshot := Some (records s)\<rparr>)
      else (True, s\<lparr>disk_snapshot := Some (records s),
                    disk_synced := (if durable then Some (records s) else disk_synced s),
                    persistedRecords := written_marks durable (records s),
                    disk_cursors := (if io_truncate i then [] else disk_cursors s)\<rparr>))"

definition writeLocked :: "io \<Rightarrow> journal \<Rightarrow> journal" where
  "writeLocked i s = snd (writeRuntimeSnapshotLocked i False s)"

definition saveLocked :: "io \<Rightarrow> journal \<Rightarrow> journal" where
  "saveLocked i s = writeLocked i (s\<lparr>timer := False, dirty := False\<rparr>)"

definition scheduleSaveLocked :: "journal \<Rightarrow> journal" where
  "scheduleSaveLocked s =
     (if \<not> has_path s \<or> timer s then s\<lparr>dirty := True\<rparr> else s\<lparr>dirty := True, timer := True\<rparr>)"

text \<open>
  The flush timer fires; a timer that was stopped too late may still fire, so this may happen at any
  time.
\<close>

definition flush_timer :: "io \<Rightarrow> journal \<Rightarrow> journal" where
  "flush_timer i s =
     (if \<not> dirty s then s\<lparr>timer := False\<rparr>
      else writeLocked i (s\<lparr>timer := False, dirty := False\<rparr>))"

definition Flush :: "io \<Rightarrow> journal \<Rightarrow> journal" where
  "Flush i s = (if dirty s then saveLocked i s else s)"

text \<open>The oldest records beyond the cap go; the order among equal times is that of the table.\<close>

definition enforceCapLocked :: "journal \<Rightarrow> journal" where
  "enforceCapLocked s =
     (if length (records s) \<le> maxSessions then s
      else let old = take (length (records s) - maxSessions)
                       (sort_key (\<lambda>(k, r). UpdatedAt r) (records s))
           in s\<lparr>records := filter (\<lambda>(k, r). k \<notin> r_SessionID ` snd ` set old) (records s)\<rparr>)"

definition appendCursorLocked :: "io \<Rightarrow> cursorEntry \<Rightarrow> journal \<Rightarrow> bool \<times> journal" where
  "appendCursorLocked i e s =
     (if \<not> has_path s \<or> \<not> io_cursor i then (False, s)
      else (True, s\<lparr>disk_cursors := disk_cursors s @ [e]\<rparr>))"

section \<open>Lifecycle\<close>

definition max0 :: "int \<Rightarrow> int" where
  "max0 n = (if n < 0 then 0 else n)"

definition starts_turn :: "string \<Rightarrow> string \<Rightarrow> string \<Rightarrow> Record \<Rightarrow> bool" where
  "starts_turn phase rid term r \<longleftrightarrow>
     term = [] \<and> rid \<noteq> [] \<and> (rid \<noteq> ActiveRequestID r \<or> Phase r = ''interrupted'')
     \<and> (phase = ''queued'' \<or> phase = ''running'')"

definition trim_terminals :: "terminal list \<Rightarrow> terminal list" where
  "trim_terminals ts = (if length ts > 128 then keep_newest 128 ts else ts)"

text \<open>The transition of \<^verbatim>\<open>Update\<close> on a record that changes.\<close>

definition advanced :: "int \<Rightarrow> string \<Rightarrow> string \<Rightarrow> int \<Rightarrow> string \<Rightarrow> string \<Rightarrow> Record \<Rightarrow> Record" where
  "advanced now phase rid qlen term err r =
     (let new = starts_turn phase rid term r;
          r1 = r\<lparr>Revision := u64_succ (Revision r), Phase := phase,
                 WaitingInteractions :=
                   (if phase \<noteq> ''waiting'' \<or> rid \<noteq> ActiveRequestID r then [] else WaitingInteractions r),
                 Stage := defaultStageForPhase phase, StageMessage := [], StageStartedAt := now,
                 ActiveStartedAt :=
                   (if new \<or> (ActiveStartedAt r = 0 \<and> active_phase phase) then now else ActiveStartedAt r),
                 ActiveRequestID := rid, QueueLength := qlen, UpdatedAt := now\<rparr>
      in if term \<noteq> []
         then r1\<lparr>LastTerminal := term, LastError := err, CompletedAt := now,
                 Terminals := trim_terminals (Terminals r1 @
                   [\<lparr>t_Revision = Revision r1, t_RequestID = rid, t_Status = term, t_At = now,
                     t_StartedAt = ActiveStartedAt r1, t_Source = []\<rparr>])\<rparr>
         else if new then r1\<lparr>LastTerminal := [], LastError := [], CompletedAt := 0\<rparr>
         else if active_phase phase then r1\<lparr>LastError := []\<rparr>
         else r1)"

definition Update ::
  "io \<Rightarrow> string \<Rightarrow> string \<Rightarrow> string \<Rightarrow> int \<Rightarrow> string \<Rightarrow> string \<Rightarrow> journal
    \<Rightarrow> (View option \<times> bool) \<times> journal" where
  "Update i sid phase0 rid qlen0 term err s =
     (if sid = [] then ((None, False), s)
      else case ensureLocked i sid s of (r, s1) \<Rightarrow>
        let qlen = max0 qlen0; phase = (if phase0 = [] then Phase r else phase0) in
        if Phase r = phase \<and> ActiveRequestID r = rid \<and> QueueLength r = qlen
           \<and> LastTerminal r = term \<and> LastError r = err
        then ((Some (viewLocked r []), False), s1)
        else let r' = advanced (io_now i) phase rid qlen term err r
             in ((Some (viewLocked r' []), True),
                 saveLocked i (enforceCapLocked (put_record sid r' s1))))"

definition UpdateQueueLength ::
  "io \<Rightarrow> string \<Rightarrow> int \<Rightarrow> journal \<Rightarrow> (View option \<times> bool) \<times> journal" where
  "UpdateQueueLength i sid qlen0 s =
     (if sid = [] then ((None, False), s)
      else case ensureLocked i sid s of (r, s1) \<Rightarrow>
        let qlen = max0 qlen0 in
        if QueueLength r = qlen then ((Some (viewLocked r []), False), s1)
        else let r' = r\<lparr>Revision := u64_succ (Revision r), QueueLength := qlen, UpdatedAt := io_now i\<rparr>
             in ((Some (viewLocked r' []), True), saveLocked i (put_record sid r' s1)))"

text \<open>\<^verbatim>\<open>Progress\<close>: whether the report is accepted, and the record it leads to.\<close>

definition progress_refused :: "string \<Rightarrow> string \<Rightarrow> string \<Rightarrow> Record \<Rightarrow> bool" where
  "progress_refused rid stage msg r \<longleftrightarrow>
     rid \<noteq> [] \<and> ActiveRequestID r \<noteq> [] \<and> rid \<noteq> ActiveRequestID r
     \<or> (rid = [] \<or> ActiveRequestID r = [] \<or> ActiveRequestID r = rid) \<and> stageRank stage < stageRank (Stage r)
     \<or> Stage r = stage \<and> StageMessage r = msg \<and> (rid = [] \<or> ActiveRequestID r = rid)"

definition progressed :: "int \<Rightarrow> string \<Rightarrow> string \<Rightarrow> string \<Rightarrow> Record \<Rightarrow> Record" where
  "progressed now rid stage msg r =
     r\<lparr>Revision := u64_succ (Revision r),
       ActiveRequestID := (if rid \<noteq> [] then rid else ActiveRequestID r),
       ActiveStartedAt := (if (rid \<noteq> [] \<and> rid \<noteq> ActiveRequestID r) \<or> ActiveStartedAt r = 0 then now
                           else ActiveStartedAt r),
       Stage := stage, StageMessage := msg, StageStartedAt := now, UpdatedAt := now\<rparr>"

definition Progress ::
  "io \<Rightarrow> string \<Rightarrow> string \<Rightarrow> string \<Rightarrow> string \<Rightarrow> journal \<Rightarrow> (View option \<times> bool) \<times> journal" where
  "Progress i sid rid stage msg s =
     (if sid = [] \<or> stage = [] then ((None, False), s)
      else case ensureLocked i sid s of (r, s1) \<Rightarrow>
        if progress_refused rid stage msg r then ((Some (viewLocked r []), False), s1)
        else let r' = progressed (io_now i) rid stage msg r
             in ((Some (viewLocked r' []), True), scheduleSaveLocked (put_record sid r' s1)))"

definition Ensure :: "io \<Rightarrow> string \<Rightarrow> string \<Rightarrow> int \<Rightarrow> journal \<Rightarrow> View \<times> journal" where
  "Ensure i sid phase qlen s =
     (case ensureLocked i sid s of (r, s1) \<Rightarrow>
        if Revision r \<noteq> 0 then (viewLocked r [], s1)
        else let ph = (if phase = [] then ''idle'' else phase);
                 r' = r\<lparr>Revision := 1, Phase := ph, QueueLength := qlen, UpdatedAt := io_now i,
                        Stage := defaultStageForPhase ph, StageStartedAt := io_now i\<rparr>
             in (viewLocked r' [], saveLocked i (put_record sid r' s1)))"

section \<open>Recovery\<close>

definition restart_error :: string where
  "restart_error = ''Bridge restarted before the terminal event was observed''"

definition interrupted :: "int \<Rightarrow> Record \<Rightarrow> Record" where
  "interrupted now r =
     r\<lparr>Revision := u64_succ (Revision r), Phase := ''interrupted'', QueueLength := 0,
       LastTerminal := ''interrupted'', LastError := restart_error, UpdatedAt := now,
       Stage := ''interrupted'', StageMessage := restart_error, StageStartedAt := now,
       CompletedAt := now,
       Terminals := Terminals r @
         [\<lparr>t_Revision = u64_succ (Revision r), t_RequestID = ActiveRequestID r,
           t_Status = ''interrupted'', t_At = now, t_StartedAt = 0, t_Source = ''bridge_recovery''\<rparr>],
       ActiveRequestID := [], ActiveStartedAt := 0\<rparr>"

definition Recover :: "io \<Rightarrow> string \<Rightarrow> bool \<Rightarrow> journal \<Rightarrow> (View \<times> bool) \<times> journal" where
  "Recover i sid actuallyActive s =
     (case ensureLocked i sid s of (r, s1) \<Rightarrow>
        if \<not> active_phase (Phase r) \<or> actuallyActive then ((viewLocked r [], False), s1)
        else let r' = interrupted (io_now i) r
             in ((viewLocked r' [], True), saveLocked i (put_record sid r' s1)))"

definition interrupt_stale :: "int \<Rightarrow> Record \<Rightarrow> Record" where
  "interrupt_stale now r = (if active_phase (Phase r) then interrupted now r else r)"

definition RecoverAllStale :: "io \<Rightarrow> journal \<Rightarrow> View list \<times> journal" where
  "RecoverAllStale i s =
     (let stale = filter (\<lambda>(k, r). active_phase (Phase r)) (records s);
          views = map (\<lambda>(k, r). viewLocked (interrupted (io_now i) r) []) stale;
          s1 = s\<lparr>records := map (\<lambda>(k, r). (k, interrupt_stale (io_now i) r)) (records s)\<rparr>
      in (views, if views \<noteq> [] then saveLocked i s1 else s1))"

definition ReconcileHistoryActivity ::
  "io \<Rightarrow> string \<Rightarrow> int \<Rightarrow> string \<Rightarrow> journal \<Rightarrow> (View option \<times> bool) \<times> journal" where
  "ReconcileHistoryActivity i sid latest observed s =
     (if sid = [] \<or> latest \<le> 0 then ((None, False), s)
      else case ensureLocked i sid s of (r, s1) \<Rightarrow>
        if Phase r \<noteq> ''interrupted'' \<or> LastTerminal r \<noteq> ''interrupted'' \<or> LastError r \<noteq> restart_error
           \<or> CompletedAt r = 0 \<or> latest \<le> CompletedAt r
        then ((Some (viewLocked r []), False), s1)
        else let ph = (if active_phase observed then observed else ''idle'');
                 r' = r\<lparr>Revision := u64_succ (Revision r), Phase := ph, Stage := defaultStageForPhase ph,
                        StageMessage := [], StageStartedAt := io_now i, ActiveRequestID := [],
                        ActiveStartedAt := 0, QueueLength := 0, LastTerminal := [], LastError := [],
                        CompletedAt := 0, UpdatedAt := io_now i\<rparr>
             in ((Some (viewLocked r' []), True), saveLocked i (put_record sid r' s1)))"

section \<open>Interactions and unconfirmed stops\<close>

definition WaitForInteraction ::
  "io \<Rightarrow> string \<Rightarrow> string \<Rightarrow> journal \<Rightarrow> (View option \<times> bool) \<times> journal" where
  "WaitForInteraction i sid iid s =
     (case lookup sid s of
        None \<Rightarrow> ((None, False), s)
      | Some r \<Rightarrow>
          if iid = [] \<or> (Phase r \<noteq> ''running'' \<and> Phase r \<noteq> ''waiting'') then ((None, False), s)
          else if map_of (WaitingInteractions r) iid = Some (ActiveRequestID r)
          then ((Some (viewLocked r []), False), s)
          else let r1 = r\<lparr>WaitingInteractions := AList.update iid (ActiveRequestID r) (WaitingInteractions r)\<rparr>;
                   r2 = (if Phase r = ''waiting'' then r1
                         else r1\<lparr>Revision := u64_succ (Revision r), Phase := ''waiting'',
                                 Stage := ''waiting_user'', StageMessage := [], UpdatedAt := io_now i,
                                 StageStartedAt := io_now i\<rparr>)
               in ((Some (viewLocked r2 []), Phase r \<noteq> ''waiting''), saveLocked i (put_record sid r2 s)))"

definition ResolveInteraction ::
  "io \<Rightarrow> string \<Rightarrow> string \<Rightarrow> journal \<Rightarrow> (View option \<times> bool) \<times> journal" where
  "ResolveInteraction i sid iid s =
     (case lookup sid s of
        None \<Rightarrow> ((None, False), s)
      | Some r \<Rightarrow>
          if iid = [] \<or> Phase r \<noteq> ''waiting'' then ((None, False), s)
          else if map_of (WaitingInteractions r) iid \<noteq> Some (ActiveRequestID r)
          then ((Some (viewLocked r []), False), s)
          else let r1 = r\<lparr>WaitingInteractions := AList.delete iid (WaitingInteractions r)\<rparr> in
               if WaitingInteractions r1 \<noteq> []
               then ((Some (viewLocked r1 []), False), saveLocked i (put_record sid r1 s))
               else let r2 = r1\<lparr>Revision := u64_succ (Revision r), Phase := ''running'',
                                Stage := ''thinking'', StageMessage := [], UpdatedAt := io_now i,
                                StageStartedAt := io_now i\<rparr>
                    in ((Some (viewLocked r2 []), True), saveLocked i (put_record sid r2 s)))"

text \<open>\<open>stop_message\<close> is the (Chinese) notice that the stop is not confirmed.\<close>

definition RestoreUnconfirmedStop ::
  "string \<Rightarrow> io \<Rightarrow> string \<Rightarrow> string \<Rightarrow> string \<Rightarrow> journal \<Rightarrow> (View option \<times> bool) \<times> journal" where
  "RestoreUnconfirmedStop stop_message i sid rid previous s =
     (case lookup sid s of
        None \<Rightarrow> ((None, False), s)
      | Some r \<Rightarrow>
          if Phase r \<noteq> ''stopping'' \<or> ActiveRequestID r \<noteq> rid then ((None, False), s)
          else let ph = (if previous \<in> {''queued'', ''running'', ''waiting''} then previous else ''running'');
                   r' = r\<lparr>Phase := ph, Stage := defaultStageForPhase ph, StageMessage := stop_message,
                          StageStartedAt := io_now i, UpdatedAt := io_now i,
                          Revision := u64_succ (Revision r)\<rparr>
               in ((Some (viewLocked r' []), True), saveLocked i (put_record sid r' s)))"

section \<open>Cursors\<close>

definition Snapshot :: "io \<Rightarrow> string \<Rightarrow> string list \<Rightarrow> journal \<Rightarrow> View list \<times> journal" where
  "Snapshot i dev sids s =
     (let s' = fold (\<lambda>sid s. snd (ensureLocked i sid s)) sids s
      in (sort_key v_SessionID (map (\<lambda>sid. viewLocked (ensured i sid s) dev) sids), s'))"

definition WidgetTerminals :: "string \<Rightarrow> int \<Rightarrow> journal \<Rightarrow> terminal list" where
  "WidgetTerminals sid since s =
     (case lookup sid s of
        None \<Rightarrow> []
      | Some r \<Rightarrow> filter (\<lambda>t. t_At t \<ge> since \<and> t_RequestID t \<noteq> []) (Terminals r))"

definition raise_cursor :: "string \<Rightarrow> u64 \<Rightarrow> (string \<Rightarrow> u64) \<Rightarrow> string \<Rightarrow> u64" where
  "raise_cursor dev n f = (if n > f dev then f(dev := n) else f)"

text \<open>A revision of zero or in the future means the current one.\<close>

definition ack_revision :: "u64 \<Rightarrow> Record \<Rightarrow> u64" where
  "ack_revision n r = (if n = 0 \<or> n > Revision r then Revision r else n)"

definition acked :: "string \<Rightarrow> u64 \<Rightarrow> bool \<Rightarrow> Record \<Rightarrow> Record" where
  "acked dev n read r =
     r\<lparr>AckedByDevice := raise_cursor dev n (AckedByDevice r),
       ReadByDevice := (if read then raise_cursor dev n (ReadByDevice r) else ReadByDevice r)\<rparr>"

definition Ack ::
  "io \<Rightarrow> string \<Rightarrow> string \<Rightarrow> u64 \<Rightarrow> bool \<Rightarrow> journal \<Rightarrow> (View option \<times> bool) \<times> journal" where
  "Ack i dev sid n0 read s =
     (if dev = [] \<or> sid = [] then ((None, False), s)
      else case ensureLocked i sid s of (r, s1) \<Rightarrow>
        let n = ack_revision n0 r;
            r' = acked dev n read r;
            changed = (n > AckedByDevice r dev \<or> read \<and> n > ReadByDevice r dev);
            s2 = put_record sid r' s1
        in ((Some (viewLocked r' dev), changed),
            if \<not> changed then s2
            else case appendCursorLocked i
                        \<lparr>c_SessionID = sid, c_DeviceID = dev, c_Acked = AckedByDevice r' dev,
                         c_Read = ReadByDevice r' dev\<rparr> s2 of
                (True, s3) \<Rightarrow> s3
              | (False, s3) \<Rightarrow> saveLocked i s3))"

definition Remove :: "io \<Rightarrow> string \<Rightarrow> journal \<Rightarrow> journal" where
  "Remove i sid s =
     (if lookup sid s = None then s
      else saveLocked i (s\<lparr>records := AList.delete sid (records s),
                           sharedReads := AList.delete sid (sharedReads s)\<rparr>))"

section \<open>Loading\<close>

definition apply_cursor :: "cursorEntry \<Rightarrow> record_table \<Rightarrow> record_table" where
  "apply_cursor e rows =
     (if c_SessionID e = [] \<or> c_DeviceID e = [] then rows
      else case map_of rows (c_SessionID e) of
          None \<Rightarrow> rows
        | Some r0 \<Rightarrow>
            let r = heal_record r0
            in AList.update (c_SessionID e)
                 (r\<lparr>AckedByDevice := raise_cursor (c_DeviceID e) (c_Acked e) (AckedByDevice r),
                    ReadByDevice := raise_cursor (c_DeviceID e) (c_Read e) (ReadByDevice r)\<rparr>) rows)"

definition loadCursorLog :: "journal \<Rightarrow> journal" where
  "loadCursorLog s =
     (if \<not> has_path s then s else s\<lparr>records := fold apply_cursor (disk_cursors s) (records s)\<rparr>)"

definition load :: "journal \<Rightarrow> journal" where
  "load s =
     (let rows = (case disk_snapshot s of Some rows \<Rightarrow> if has_path s then rows else records s
                  | None \<Rightarrow> records s);
          healed = map (\<lambda>(k, r). (k, heal_record r)) rows
      in enforceCapLocked (loadCursorLog
           (s\<lparr>records := healed, persistedRecords := written_marks True healed\<rparr>)))"

end
