(* ===== verification/Runtime_Shared.thy ===== *)
theory Runtime_Shared
  imports Runtime_Journal Complex_Main
begin

text \<open>
  Shared reads and the durable generation of a session
  (\<^verbatim>\<open>internal/runtimejournal/shared_reads.go\<close>, \<^verbatim>\<open>source_epoch.go\<close>): the read boundary
  all paired devices of the owner share, which is written to its own file only after the lifecycle
  snapshot it refers to has reached the disk.

  \<open>digest\<close> stands for the hexadecimal SHA-256 of the encoded tuple of a read boundary. One call of
  \<^verbatim>\<open>ensureSharedReadsLocked\<close> may write several files, so it takes the outcomes per session
  (\<open>ios\<close>) and those of the last write.
\<close>

section \<open>Results\<close>

datatype shared_error =
    ErrSharedReadUnknownSession
  | ErrSharedReadStaleEpoch
  | ErrSharedReadInvalidRevision
  | ErrSharedReadStaleBoundary
  | ErrSharedReadLoad
  | ErrSessionRequired
  | ErrDisk

record SharedReadState =
  srs_SessionID :: string
  srs_ReadEpoch :: string
  srs_ReadRevision :: u64
  srs_ReadVersion :: u64
  srs_RuntimeRevision :: u64
  srs_Unread :: nat
  srs_LastCompletedRevision :: u64

definition SharedReadsAvailable :: "journal \<Rightarrow> bool" where
  "SharedReadsAvailable s \<longleftrightarrow> \<not> sharedReadLoadErr s"

definition sharedReadState :: "Record \<Rightarrow> sharedReadRecord \<Rightarrow> SharedReadState" where
  "sharedReadState r read =
     \<lparr>srs_SessionID = r_SessionID r, srs_ReadEpoch = sr_Epoch read, srs_ReadRevision = sr_Revision read,
      srs_ReadVersion = sr_Version read, srs_RuntimeRevision = Revision r,
      srs_Unread = unread_above (sr_Revision read) (Terminals r),
      srs_LastCompletedRevision = last_completed (Terminals r)\<rparr>"

section \<open>Loading\<close>

text \<open>A boundary beyond the revision of its record rotates the epoch of the record.\<close>

definition load_shared_row :: "io \<Rightarrow> string \<times> sharedReadRecord \<Rightarrow> journal \<Rightarrow> journal" where
  "load_shared_row i row s =
     (case row of (sid, read) \<Rightarrow>
        case lookup sid s of
          None \<Rightarrow> s
        | Some r \<Rightarrow>
            if ReadEpoch r = [] \<or> sr_Epoch read \<noteq> ReadEpoch r then s
            else if sr_Revision read > Revision r then put_record sid (r\<lparr>ReadEpoch := io_epoch i sid\<rparr>) s
            else s\<lparr>sharedReads := AList.update sid read (sharedReads s)\<rparr>)"

definition loadSharedReads :: "io \<Rightarrow> journal \<Rightarrow> journal" where
  "loadSharedReads i s =
     (if \<not> has_path s then s
      else case disk_shared s of
          SharedMissing \<Rightarrow> s
        | SharedUnreadable \<Rightarrow> s\<lparr>sharedReadLoadErr := True\<rparr>
        | SharedRows rows \<Rightarrow> fold (load_shared_row i) rows s)"

text \<open>A new process: everything in memory is gone, the files are read.\<close>

definition New_store :: "io \<Rightarrow> journal \<Rightarrow> journal" where
  "New_store i s =
     loadSharedReads i (load (s\<lparr>records := [], sharedReads := [], persistedRecords := Map.empty,
                               dirty := False, timer := False, sharedReadLoadErr := False\<rparr>))"

section \<open>Writing\<close>

definition copySharedReadsLocked :: "journal \<Rightarrow> (string \<times> sharedReadRecord) list" where
  "copySharedReadsLocked s =
     filter (\<lambda>(sid, read). case lookup sid s of None \<Rightarrow> False | Some r \<Rightarrow> sr_Epoch read = ReadEpoch r)
       (sharedReads s)"

definition writeSharedReadsLocked ::
  "io \<Rightarrow> (string \<times> sharedReadRecord) list \<Rightarrow> journal \<Rightarrow> bool \<times> journal" where
  "writeSharedReadsLocked i rows s =
     (if \<not> has_path s then (True, s)
      else case io_shared i of
          W_Failed \<Rightarrow> (False, s)
        | W_Late \<Rightarrow> (False, s\<lparr>disk_shared := SharedRows rows\<rparr>)
        | W_Ok \<Rightarrow> (True, s\<lparr>disk_shared := SharedRows rows\<rparr>))"

definition syncSnapshotFile :: "io \<Rightarrow> journal \<Rightarrow> bool \<times> journal" where
  "syncSnapshotFile i s = (if io_sync i then (True, s\<lparr>disk_synced := disk_snapshot s\<rparr>) else (False, s))"

definition zero_mark :: persistedRuntimeRecord where
  "zero_mark = \<lparr>p_revision = 0, p_epoch = [], p_durable = False\<rparr>"

definition mark_of :: "string \<Rightarrow> journal \<Rightarrow> persistedRuntimeRecord" where
  "mark_of sid s = (case persistedRecords s sid of None \<Rightarrow> zero_mark | Some m \<Rightarrow> m)"

definition persistReadBoundaryLocked :: "io \<Rightarrow> Record \<Rightarrow> u64 \<Rightarrow> journal \<Rightarrow> bool \<times> journal" where
  "persistReadBoundaryLocked i r n s =
     (if \<not> has_path s then (True, s)
      else let m = mark_of (r_SessionID r) s in
        if p_epoch m = ReadEpoch r \<and> n \<le> p_revision m then
          if p_durable m then (True, s)
          else case syncSnapshotFile i s of
              (False, s1) \<Rightarrow> (False, s1)
            | (True, s1) \<Rightarrow>
                (True, s1\<lparr>persistedRecords := map_option (\<lambda>m. m\<lparr>p_durable := True\<rparr>) \<circ> persistedRecords s1\<rparr>)
        else writeRuntimeSnapshotLocked i True s)"

section \<open>First enrollment\<close>

definition imported_read :: "Record \<Rightarrow> string list \<Rightarrow> u64" where
  "imported_read r devs =
     fold (\<lambda>d n. if ReadByDevice r d \<le> Revision r \<and> ReadByDevice r d > n then ReadByDevice r d else n) devs 0"

definition enrolled :: "(string \<times> sharedReadRecord) list \<Rightarrow> string \<Rightarrow> Record \<Rightarrow> bool" where
  "enrolled reads sid r \<longleftrightarrow>
     (case map_of reads sid of None \<Rightarrow> False | Some read \<Rightarrow> sr_Epoch read = ReadEpoch r)"

fun enroll_loop ::
  "(string \<Rightarrow> io) \<Rightarrow> string list \<Rightarrow> string list \<Rightarrow> (string \<times> sharedReadRecord) list \<Rightarrow> bool \<Rightarrow> journal
    \<Rightarrow> ((string \<times> sharedReadRecord) list \<times> bool) option \<times> journal" where
  "enroll_loop ios [] devs cand changed s = (Some (cand, changed), s)"
| "enroll_loop ios (sid # sids) devs cand changed s =
     (case lookup sid s of
        None \<Rightarrow> enroll_loop ios sids devs cand changed s
      | Some r0 \<Rightarrow>
          if enrolled cand sid r0 then enroll_loop ios sids devs cand changed s
          else let r = (if ReadEpoch r0 = [] then r0\<lparr>ReadEpoch := io_epoch (ios sid) sid\<rparr> else r0);
                   s1 = (if ReadEpoch r0 = [] then put_record sid r s else s);
                   n = imported_read r devs
               in case persistReadBoundaryLocked (ios sid) r n s1 of
                   (False, s2) \<Rightarrow> (None, s2)
                 | (True, s2) \<Rightarrow>
                     enroll_loop ios sids devs
                       (AList.update sid \<lparr>sr_Epoch = ReadEpoch r, sr_Revision = n,
                                          sr_Version = (if n > 0 then 1 else 0)\<rparr> cand) True s2)"

definition ensureSharedReadsLocked ::
  "(string \<Rightarrow> io) \<Rightarrow> io \<Rightarrow> string list \<Rightarrow> string list \<Rightarrow> journal \<Rightarrow> shared_error option \<times> journal" where
  "ensureSharedReadsLocked ios i sids devs s =
     (if sharedReadLoadErr s then (Some ErrSharedReadLoad, s)
      else if \<forall>sid\<in>set sids. case lookup sid s of None \<Rightarrow> True | Some r \<Rightarrow> enrolled (sharedReads s) sid r
      then (None, s)
      else case enroll_loop ios sids devs (copySharedReadsLocked s) False s of
          (None, s1) \<Rightarrow> (Some ErrDisk, s1)
        | (Some (cand, changed), s1) \<Rightarrow>
            if \<not> changed then (None, s1)
            else case writeSharedReadsLocked i cand s1 of
                (False, s2) \<Rightarrow> (Some ErrDisk, s2)
              | (True, s2) \<Rightarrow> (None, s2\<lparr>sharedReads := cand\<rparr>))"

definition zero_read :: sharedReadRecord where
  "zero_read = \<lparr>sr_Epoch = [], sr_Revision = 0, sr_Version = 0\<rparr>"

definition shared_view :: "string \<Rightarrow> journal \<Rightarrow> string \<Rightarrow> View option" where
  "shared_view dev s sid =
     (case lookup sid s of
        None \<Rightarrow> None
      | Some r \<Rightarrow>
          let read = (case map_of (sharedReads s) sid of None \<Rightarrow> zero_read | Some read \<Rightarrow> read)
          in Some ((viewLocked r dev)
               \<lparr>v_ReadEpoch := sr_Epoch read, v_ReadRevision := sr_Revision read,
                v_ReadVersion := sr_Version read, v_Unread := srs_Unread (sharedReadState r read)\<rparr>))"

definition SharedSnapshot ::
  "(string \<Rightarrow> io) \<Rightarrow> io \<Rightarrow> string \<Rightarrow> string list \<Rightarrow> string list \<Rightarrow> journal
    \<Rightarrow> (shared_error + View list) \<times> journal" where
  "SharedSnapshot ios i dev sids devs s =
     (case ensureSharedReadsLocked ios i sids devs s of
        (Some e, s1) \<Rightarrow> (Inl e, s1)
      | (None, s1) \<Rightarrow> (Inr (List.map_filter (shared_view dev s1) sids), s1))"

section \<open>Boundaries\<close>

definition zero_terminal :: terminal where
  "zero_terminal = \<lparr>t_Revision = 0, t_RequestID = [], t_Status = [], t_At = 0, t_StartedAt = 0, t_Source = []\<rparr>"

definition boundary_terminal :: "u64 \<Rightarrow> terminal list \<Rightarrow> terminal" where
  "boundary_terminal n ts =
     fold (\<lambda>c t. if t_Revision c \<le> n \<and> t_Revision c \<ge> t_Revision t then c else t) ts zero_terminal"

type_synonym boundary = "string \<times> u64 \<times> u64 \<times> string \<times> string \<times> int"

definition read_boundary :: "Record \<Rightarrow> u64 \<Rightarrow> boundary" where
  "read_boundary r n =
     (let t = boundary_terminal n (Terminals r)
      in (ReadEpoch r, n, t_Revision t, t_RequestID t, t_Status t, t_At t))"

definition readBoundaryTokenLocked :: "(boundary \<Rightarrow> string) \<Rightarrow> Record \<Rightarrow> u64 \<Rightarrow> string" where
  "readBoundaryTokenLocked digest r n = digest (read_boundary r n)"

definition ReadBoundaryToken ::
  "(boundary \<Rightarrow> string) \<Rightarrow> string \<Rightarrow> string \<Rightarrow> u64 \<Rightarrow> journal \<Rightarrow> shared_error + string" where
  "ReadBoundaryToken digest sid epoch n s =
     (case lookup sid s of
        None \<Rightarrow> Inl ErrSharedReadUnknownSession
      | Some r \<Rightarrow>
          if epoch = [] \<or> epoch \<noteq> ReadEpoch r then Inl ErrSharedReadStaleEpoch
          else if n = 0 \<or> n > Revision r then Inl ErrSharedReadInvalidRevision
          else Inr (readBoundaryTokenLocked digest r n))"

definition MarkSharedRead ::
  "(boundary \<Rightarrow> string) \<Rightarrow> io \<Rightarrow> string \<Rightarrow> string \<Rightarrow> u64 \<Rightarrow> string \<Rightarrow> journal
    \<Rightarrow> (shared_error + SharedReadState \<times> bool) \<times> journal" where
  "MarkSharedRead digest i sid epoch n token s =
     (case (lookup sid s, map_of (sharedReads s) sid) of
        (Some r, Some read) \<Rightarrow>
          if epoch = [] \<or> epoch \<noteq> ReadEpoch r \<or> epoch \<noteq> sr_Epoch read then (Inl ErrSharedReadStaleEpoch, s)
          else if n = 0 \<or> n > Revision r then (Inl ErrSharedReadInvalidRevision, s)
          else if n \<le> sr_Revision read then (Inr (sharedReadState r read, False), s)
          else if token = [] \<or> token \<noteq> readBoundaryTokenLocked digest r n
          then (Inl ErrSharedReadStaleBoundary, s)
          else (case persistReadBoundaryLocked i r n s of
                  (False, s1) \<Rightarrow> (Inl ErrDisk, s1)
                | (True, s1) \<Rightarrow>
                    let read' = read\<lparr>sr_Revision := n, sr_Version := u64_succ (sr_Version read)\<rparr>;
                        cand = AList.update sid read' (copySharedReadsLocked s1)
                    in case writeSharedReadsLocked i cand s1 of
                        (False, s2) \<Rightarrow> (Inl ErrDisk, s2)
                      | (True, s2) \<Rightarrow> (Inr (sharedReadState r read', True), s2\<lparr>sharedReads := cand\<rparr>))
      | _ \<Rightarrow> (Inl ErrSharedReadUnknownSession, s))"

definition SourceEpoch :: "io \<Rightarrow> string \<Rightarrow> journal \<Rightarrow> (shared_error + string) \<times> journal" where
  "SourceEpoch i sid s =
     (if sid = [] then (Inl ErrSessionRequired, s)
      else case ensureLocked i sid s of (r, s1) \<Rightarrow>
        case persistReadBoundaryLocked i r (Revision r) s1 of
          (False, s2) \<Rightarrow> (Inl ErrDisk, s2)
        | (True, s2) \<Rightarrow> (Inr (ReadEpoch r), s2))"

section \<open>History evidence\<close>

text \<open>The dynamic values of a history message; a floating-point timestamp is truncated.\<close>

datatype any_value = AStr string | ABool bool | AInt64 int | AInt int | AFloat64 rat

type_synonym message = "(string \<times> any_value) list"

definition str_field :: "message \<Rightarrow> string \<Rightarrow> string" where
  "str_field m k = (case map_of m k of Some (AStr v) \<Rightarrow> v | _ \<Rightarrow> [])"

definition timestamp_field :: "message \<Rightarrow> int" where
  "timestamp_field m =
     (case map_of m ''timestamp'' of
        Some (AInt64 v) \<Rightarrow> v
      | Some (AFloat64 v) \<Rightarrow> (if v < 0 then \<lceil>v\<rceil> else \<lfloor>v\<rfloor>)
      | Some (AInt v) \<Rightarrow> v
      | _ \<Rightarrow> 0)"

definition message_matches :: "terminal \<Rightarrow> message \<Rightarrow> bool" where
  "message_matches target m \<longleftrightarrow>
     map_of m ''role'' = Some (AStr ''assistant'')
     \<and> map_of m ''history_read_result_verified'' = Some (ABool True)
     \<and> trim_space (str_field m ''content'') \<noteq> []
     \<and> str_field m ''origin'' = []
     \<and> (if str_field m ''request_id'' \<noteq> [] then str_field m ''request_id'' = t_RequestID target
        else map_of m ''source'' = Some (AStr ''claude'')
             \<and> map_of m ''history_timestamp_verified'' = Some (ABool True)
             \<and> 0 < t_StartedAt target
             \<and> t_StartedAt target < timestamp_field m \<and> timestamp_field m \<le> t_At target)"

definition HistoryMatchesReadBoundary :: "string \<Rightarrow> string \<Rightarrow> u64 \<Rightarrow> message list \<Rightarrow> journal \<Rightarrow> bool" where
  "HistoryMatchesReadBoundary sid epoch n messages s =
     (case lookup sid s of
        None \<Rightarrow> False
      | Some r \<Rightarrow>
          if epoch \<noteq> ReadEpoch r \<or> n = 0 \<or> n > Revision r \<or> messages = [] then False
          else let t = boundary_terminal n (Terminals r);
                   target = (if t_StartedAt t = 0 \<and> t_RequestID t = ActiveRequestID r
                             then t\<lparr>t_StartedAt := ActiveStartedAt r\<rparr> else t)
               in t_Revision t = 0 \<or> (\<exists>m\<in>set messages. message_matches target m))"

end
