(* ===== verification/Runtime_Properties.thy ===== *)
theory Runtime_Properties
  imports Runtime_Journal
begin

text \<open>
  What the runtime journal guarantees while the process runs: revisions only grow, terminal results
  are recorded in order, cursors never pass the revision, an acknowledgement touches one device,
  delayed progress cannot rebind a session, a resolved question resumes only its own turn, and
  recovery leaves nothing active. All operations are instances of one relation, \<open>evolves\<close>, on the
  record they touch.
\<close>

section \<open>How a record evolves\<close>

definition rec_inv :: "Record \<Rightarrow> bool" where
  "rec_inv r \<longleftrightarrow> sorted_wrt (<) (map t_Revision (Terminals r))
     \<and> (\<forall>t\<in>set (Terminals r). t_Revision t \<le> Revision r)
     \<and> (\<forall>d. AckedByDevice r d \<le> Revision r) \<and> (\<forall>d. ReadByDevice r d \<le> Revision r)"

definition evolves :: "Record \<Rightarrow> Record \<Rightarrow> bool" where
  "evolves r r' \<longleftrightarrow> r_SessionID r' = r_SessionID r \<and> ReadEpoch r' = ReadEpoch r
     \<and> Revision r \<le> Revision r' \<and> (rec_inv r \<longrightarrow> rec_inv r')"

lemma evolves_refl [simp]: "evolves r r"
  by (simp add: evolves_def)

lemma evolves_trans: "evolves r s \<Longrightarrow> evolves s t \<Longrightarrow> evolves r t"
  by (auto simp: evolves_def)

text \<open>A change that keeps the ledger and the cursors and does not lower the revision.\<close>

lemma evolvesI:
  assumes "r_SessionID r' = r_SessionID r" "ReadEpoch r' = ReadEpoch r" "Revision r \<le> Revision r'"
    "Terminals r' = Terminals r" "AckedByDevice r' = AckedByDevice r" "ReadByDevice r' = ReadByDevice r"
  shows "evolves r r'"
  using assms by (auto simp: evolves_def rec_inv_def intro: order.trans)

text \<open>A change that appends a terminal with the next revision, keeping a suffix of the ledger.\<close>

lemma evolves_terminal:
  assumes "r_SessionID r' = r_SessionID r" "ReadEpoch r' = ReadEpoch r" "Revision r' = Suc (Revision r)"
    "suffix (Terminals r') (Terminals r @ [t])" "t_Revision t = Revision r'"
    "AckedByDevice r' = AckedByDevice r" "ReadByDevice r' = ReadByDevice r"
  shows "evolves r r'"
proof -
  have "rec_inv r'" if "rec_inv r"
  proof -
    obtain ds where ts: "Terminals r @ [t] = ds @ Terminals r'" using assms(4) by (auto simp: suffix_def)
    have "sorted_wrt (<) (map t_Revision (Terminals r @ [t]))"
      using \<open>rec_inv r\<close> assms(3,5) by (auto simp: rec_inv_def sorted_wrt_append less_Suc_eq_le)
    then have "sorted_wrt (<) (map t_Revision (Terminals r'))"
      unfolding ts by (simp add: sorted_wrt_append)
    moreover have "set (Terminals r') \<subseteq> insert t (set (Terminals r))"
      using arg_cong [OF ts, of set] by auto
    ultimately show ?thesis
      using \<open>rec_inv r\<close> assms by (auto simp: rec_inv_def le_Suc_eq dest!: subsetD)
  qed
  then show ?thesis using assms(1-3) by (simp add: evolves_def)
qed

lemma evolves_heal: "evolves r (heal_record r)"
  by (rule evolvesI) (simp_all add: heal_record_def Let_def)

lemma suffix_trim: "suffix (trim_terminals ts) ts"
  by (simp add: trim_terminals_def suffix_keep_newest)

lemma evolves_advanced: "u64_room (Revision r) \<Longrightarrow> evolves r (advanced now phase rid q term err r)"
proof (cases "term = []")
  case False
  assume room: "u64_room (Revision r)"
  let ?r = "advanced now phase rid q term err r"
  let ?t = "\<lparr>t_Revision = Suc (Revision r), t_RequestID = rid, t_Status = term, t_At = now,
             t_StartedAt = ActiveStartedAt ?r, t_Source = []\<rparr>"
  have "Terminals ?r = trim_terminals (Terminals r @ [?t])"
    using False room by (simp add: advanced_def Let_def u64_succ_room)
  then show ?thesis
    using room suffix_trim [of "Terminals r @ [?t]"]
    by (intro evolves_terminal [where t = ?t]) (simp_all only:, simp_all add: advanced_def Let_def u64_succ_room)
qed (intro evolvesI; simp add: advanced_def Let_def u64_succ_room)

lemma evolves_progressed: "u64_room (Revision r) \<Longrightarrow> evolves r (progressed now rid stage msg r)"
  by (intro evolvesI) (simp_all add: progressed_def u64_succ_room)

lemma evolves_interrupted: "u64_room (Revision r) \<Longrightarrow> evolves r (interrupted now r)"
  by (rule evolves_terminal [where t = "last (Terminals (interrupted now r))"])
     (simp_all add: interrupted_def u64_succ_room)

lemma evolves_cursor:
  assumes "n \<le> Revision r" "m \<le> Revision r"
  shows "evolves r (r\<lparr>AckedByDevice := raise_cursor dev n (AckedByDevice r),
                      ReadByDevice := raise_cursor dev m (ReadByDevice r)\<rparr>)"
  using assms by (auto simp: evolves_def rec_inv_def raise_cursor_def)

section \<open>How the journal evolves\<close>

definition keys_ok :: "journal \<Rightarrow> bool" where
  "keys_ok s \<longleftrightarrow> distinct (map fst (records s)) \<and> (\<forall>(k, r)\<in>set (records s). r_SessionID r = k)"

text \<open>Every record is one that was there and evolved, or a new one.\<close>

definition comes_from :: "journal \<Rightarrow> string \<Rightarrow> Record \<Rightarrow> bool" where
  "comes_from s sid r' \<longleftrightarrow>
     (case lookup sid s of Some r \<Rightarrow> evolves r r' | None \<Rightarrow> (\<exists>ep. evolves (new_record sid ep) r'))"

definition jevolves :: "journal \<Rightarrow> journal \<Rightarrow> bool" where
  "jevolves s s' \<longleftrightarrow> (keys_ok s \<longrightarrow> keys_ok s' \<and> (\<forall>sid r'. lookup sid s' = Some r' \<longrightarrow> comes_from s sid r'))"

lemma keys_ok_iff:
  "keys_ok s \<longleftrightarrow> distinct (map fst (records s)) \<and> (\<forall>k r. lookup k s = Some r \<longrightarrow> r_SessionID r = k)"
  by (auto simp: keys_ok_def lookup_def)

lemma lookup_put [simp]: "lookup k (put_record sid r s) = (if k = sid then Some r else lookup k s)"
  by (simp add: lookup_def put_record_def update_conv')

lemma put_put [simp]: "put_record k a (put_record k b s) = put_record k a s"
  by (simp add: put_record_def)

lemma put_record_fields [simp]:
  "has_path (put_record k r s) = has_path s" "disk_cursors (put_record k r s) = disk_cursors s"
  "disk_snapshot (put_record k r s) = disk_snapshot s" "disk_shared (put_record k r s) = disk_shared s"
  "sharedReads (put_record k r s) = sharedReads s" "persistedRecords (put_record k r s) = persistedRecords s"
  "disk_synced (put_record k r s) = disk_synced s" "sharedReadLoadErr (put_record k r s) = sharedReadLoadErr s"
  by (simp_all add: put_record_def)

lemma records_write [simp]:
  "records (snd (writeRuntimeSnapshotLocked i d s)) = records s" "records (writeLocked i s) = records s"
  "records (saveLocked i s) = records s" "records (scheduleSaveLocked s) = records s"
  "records (flush_timer i s) = records s" "records (Flush i s) = records s"
  "records (snd (appendCursorLocked i e s)) = records s"
  by (simp_all add: writeRuntimeSnapshotLocked_def writeLocked_def saveLocked_def scheduleSaveLocked_def
      flush_timer_def Flush_def appendCursorLocked_def split: write_result.splits)

lemma lookup_records: "records s = records s' \<Longrightarrow> lookup k s = lookup k s'"
  by (simp add: lookup_def)

lemma comes_from_self: "lookup sid s = Some r \<Longrightarrow> comes_from s sid r"
  by (simp add: comes_from_def)

lemma jevolves_refl: "jevolves s s"
  by (simp add: jevolves_def comes_from_self)

lemma jevolves_records: "jevolves s s' \<Longrightarrow> records s'' = records s' \<Longrightarrow> jevolves s s''"
  using lookup_records [of s'' s'] by (auto simp: jevolves_def keys_ok_def)

lemma comes_from_ID: "keys_ok s \<Longrightarrow> comes_from s sid r \<Longrightarrow> r_SessionID r = sid"
  by (auto simp: comes_from_def keys_ok_iff evolves_def new_record_def split: option.splits)

lemma jevolves_put: "comes_from s sid r \<Longrightarrow> jevolves s (put_record sid r s)"
  unfolding jevolves_def keys_ok_iff
  using comes_from_ID [of s sid r] comes_from_self [of _ s]
  by (simp add: keys_ok_iff) (simp add: put_record_def distinct_update)

lemma jevolves_filter:
  assumes "jevolves s s'" "records s'' = filter p (records s')"
  shows "jevolves s s''"
proof -
  have sub: "lookup k s'' = Some r \<Longrightarrow> lookup k s' = Some r" if "distinct (map fst (records s'))" for k r
    using that assms(2) by (auto simp: lookup_def dest!: map_of_SomeD)
  show ?thesis
    unfolding jevolves_def
  proof (intro impI conjI allI)
    assume "keys_ok s"
    with assms(1) have k: "keys_ok s'" "\<And>sid r'. lookup sid s' = Some r' \<Longrightarrow> comes_from s sid r'"
      by (auto simp: jevolves_def)
    with assms(2) show "keys_ok s''" by (simp add: keys_ok_def distinct_map_filter)
    fix sid r' assume "lookup sid s'' = Some r'"
    with k sub show "comes_from s sid r'" by (simp add: keys_ok_def)
  qed
qed

lemma jevolves_cap: "jevolves s s' \<Longrightarrow> jevolves s (enforceCapLocked s')"
  by (cases "length (records s') \<le> maxSessions")
     (auto simp: enforceCapLocked_def Let_def elim: jevolves_filter)

lemma ensured_comes: "comes_from s sid (ensured i sid s)"
  using evolves_heal by (fastforce simp: comes_from_def ensured_def split: option.splits)

lemma comes_evolves: "comes_from s sid r \<Longrightarrow> evolves r r' \<Longrightarrow> comes_from s sid r'"
  by (auto simp: comes_from_def intro: evolves_trans split: option.splits)

lemma jevolves_ensured: "evolves (ensured i sid s) r \<Longrightarrow> jevolves s (put_record sid r s)"
  by (rule jevolves_put) (rule comes_evolves [OF ensured_comes])

lemma jevolves_saved: "jevolves s s' \<Longrightarrow> jevolves s (saveLocked i s')"
  by (erule jevolves_records) simp

lemma heal_Revision [simp]: "Revision (heal_record r) = Revision r"
  by (simp add: heal_record_def Let_def)

text \<open>The revision counters of the journal can still be incremented.\<close>

definition room :: "journal \<Rightarrow> bool" where
  "room s \<longleftrightarrow> (\<forall>sid r. lookup sid s = Some r \<longrightarrow> u64_room (Revision r))"

lemma room_ensured: "room s \<Longrightarrow> u64_room (Revision (ensured i sid s))"
  by (auto simp: room_def ensured_def new_record_def u64_room_def split: option.splits)

section \<open>Every operation\<close>

lemma evolves_bump:
  assumes "u64_room (Revision r)" "r_SessionID r' = r_SessionID r" "ReadEpoch r' = ReadEpoch r"
    "Revision r' = u64_succ (Revision r)" "Terminals r' = Terminals r"
    "AckedByDevice r' = AckedByDevice r" "ReadByDevice r' = ReadByDevice r"
  shows "evolves r r'"
  using assms by (intro evolvesI) (simp_all add: u64_succ_room)

lemma jevolves_ensure [simp]: "jevolves s (put_record sid (ensured i sid s) s)"
  by (rule jevolves_ensured [of i]) simp

lemma jevolves_schedule: "jevolves s s' \<Longrightarrow> jevolves s (scheduleSaveLocked s')"
  by (erule jevolves_records) simp

lemma Update_evolves: "room s \<Longrightarrow> jevolves s (snd (Update i sid ph rid q term err s))"
  using evolves_advanced [OF room_ensured]
  by (simp add: Update_def ensureLocked_def Let_def jevolves_refl)
     (intro impI conjI jevolves_saved jevolves_cap jevolves_ensured [of i]; blast)

lemma UpdateQueueLength_evolves: "room s \<Longrightarrow> jevolves s (snd (UpdateQueueLength i sid q s))"
  by (simp add: UpdateQueueLength_def ensureLocked_def Let_def jevolves_refl)
     (intro impI jevolves_saved jevolves_ensured [of i] evolves_bump room_ensured; simp)

lemma Progress_evolves: "room s \<Longrightarrow> jevolves s (snd (Progress i sid rid stage msg s))"
  using evolves_progressed [OF room_ensured]
  by (simp add: Progress_def ensureLocked_def Let_def jevolves_refl)
     (intro impI jevolves_schedule jevolves_ensured [of i]; blast)

lemma Ensure_evolves: "jevolves s (snd (Ensure i sid ph q s))"
  by (simp add: Ensure_def ensureLocked_def Let_def)
     (intro impI conjI jevolves_saved jevolves_ensured [of i] evolvesI; simp)

lemma Recover_evolves: "room s \<Longrightarrow> jevolves s (snd (Recover i sid a s))"
  using evolves_interrupted [OF room_ensured]
  by (simp add: Recover_def ensureLocked_def Let_def)
     (intro impI jevolves_saved jevolves_ensured [of i]; blast)

lemma Reconcile_evolves: "room s \<Longrightarrow> jevolves s (snd (ReconcileHistoryActivity i sid l ob s))"
  by (simp add: ReconcileHistoryActivity_def ensureLocked_def Let_def jevolves_refl)
     (intro impI conjI jevolves_saved jevolves_ensured [of i] evolves_bump room_ensured; simp)

lemma comes_from_lookup: "lookup sid s = Some r \<Longrightarrow> evolves r r' \<Longrightarrow> comes_from s sid r'"
  by (simp add: comes_from_def)

lemma Wait_evolves: "room s \<Longrightarrow> jevolves s (snd (WaitForInteraction i sid iid s))"
proof (cases "lookup sid s")
  case (Some r)
  assume "room s"
  with Some have "u64_room (Revision r)" by (simp add: room_def)
  with Some show ?thesis
    by (simp add: WaitForInteraction_def Let_def jevolves_refl)
       (intro impI conjI jevolves_saved jevolves_put comes_from_lookup; (assumption | rule evolves_bump evolvesI)?; simp)+
qed (simp add: WaitForInteraction_def jevolves_refl)

lemma Resolve_evolves: "room s \<Longrightarrow> jevolves s (snd (ResolveInteraction i sid iid s))"
proof (cases "lookup sid s")
  case (Some r)
  assume "room s"
  with Some have "u64_room (Revision r)" by (simp add: room_def)
  with Some show ?thesis
    by (simp add: ResolveInteraction_def Let_def jevolves_refl)
       (intro impI conjI jevolves_saved jevolves_put comes_from_lookup; (assumption | rule evolves_bump evolvesI)?; simp)+
qed (simp add: ResolveInteraction_def jevolves_refl)

lemma RestoreStop_evolves: "room s \<Longrightarrow> jevolves s (snd (RestoreUnconfirmedStop m i sid rid pr s))"
proof (cases "lookup sid s")
  case (Some r)
  assume "room s"
  with Some have "u64_room (Revision r)" by (simp add: room_def)
  with Some show ?thesis
    by (simp add: RestoreUnconfirmedStop_def Let_def jevolves_refl)
       (intro impI conjI jevolves_saved jevolves_put comes_from_lookup evolves_bump; simp)
qed (simp add: RestoreUnconfirmedStop_def jevolves_refl)

lemma Ack_records:
  "dev \<noteq> [] \<Longrightarrow> sid \<noteq> [] \<Longrightarrow> records (snd (Ack i dev sid n read s)) =
     records (put_record sid (acked dev (ack_revision n (ensured i sid s)) read (ensured i sid s)) s)"
  by (simp add: Ack_def ensureLocked_def Let_def appendCursorLocked_def)

lemma evolves_acked: "evolves r (acked dev (ack_revision n r) read r)"
  by (auto simp: evolves_def rec_inv_def acked_def raise_cursor_def ack_revision_def)

lemma Ack_evolves: "jevolves s (snd (Ack i dev sid n read s))"
proof (cases "dev = [] \<or> sid = []")
  case False
  then show ?thesis
    by (intro jevolves_records [OF jevolves_ensured [OF evolves_acked] Ack_records]) auto
qed (auto simp: Ack_def jevolves_refl)

lemma Remove_evolves: "jevolves s (Remove i sid s)"
  by (auto simp: Remove_def jevolves_refl AList.delete_eq
      intro!: jevolves_saved jevolves_filter [OF jevolves_refl])

lemma stage_nonempty [simp]: "defaultStageForPhase ph \<noteq> []"
  by (simp add: defaultStageForPhase_def)

lemma heal_idem: "heal_record (heal_record r) = heal_record r"
  by (simp add: heal_record_def Let_def)

lemma ensured_put: "ensured i k (put_record sid (ensured i sid s) s) = ensured i k s"
  by (simp add: ensured_def heal_idem split: option.splits)

lemma fold_ensure_lookup:
  "lookup k (fold (\<lambda>sid s. snd (ensureLocked i sid s)) sids s) =
     (if k \<in> set sids then Some (ensured i k s) else lookup k s)"
  by (induction sids arbitrary: s) (auto simp: ensureLocked_def ensured_put)

lemma fold_ensure_keys:
  "keys_ok s \<Longrightarrow> keys_ok (fold (\<lambda>sid s. snd (ensureLocked i sid s)) sids s)"
proof (induction sids arbitrary: s)
  case (Cons sid sids)
  have "keys_ok (put_record sid (ensured i sid s) s)"
    using jevolves_ensure [of s sid i] Cons.prems unfolding jevolves_def by blast
  from Cons.IH [OF this] show ?case by (simp add: ensureLocked_def)
qed simp

lemma Snapshot_evolves: "jevolves s (snd (Snapshot i dev sids s))"
  using ensured_comes [of s _ i]
  by (auto simp: jevolves_def Snapshot_def Let_def fold_ensure_lookup fold_ensure_keys comes_from_self
      split: if_splits)

lemma lookup_map:
  "map_of (map (\<lambda>(k, r). (k, f r)) rows) sid = map_option f (map_of rows sid)"
  by (induction rows) auto

lemma RecoverAll_lookup:
  "lookup sid (snd (RecoverAllStale i s)) =
     map_option (interrupt_stale (io_now i)) (lookup sid s)"
  by (simp add: RecoverAllStale_def Let_def lookup_def lookup_map [symmetric] case_prod_unfold)

lemma RecoverAll_keys: "map fst (records (snd (RecoverAllStale i s))) = map fst (records s)"
  by (simp add: RecoverAllStale_def Let_def comp_def case_prod_unfold)

lemma RecoverAll_evolves: "room s \<Longrightarrow> jevolves s (snd (RecoverAllStale i s))"
proof -
  assume room: "room s"
  have ev: "evolves r (interrupt_stale (io_now i) r)" if "lookup sid s = Some r" for sid r
    using room that evolves_interrupted by (auto simp: room_def interrupt_stale_def)
  moreover have "r_SessionID (interrupt_stale (io_now i) r) = r_SessionID r" for r
    by (simp add: interrupt_stale_def interrupted_def)
  ultimately show ?thesis
    unfolding jevolves_def keys_ok_iff RecoverAll_keys RecoverAll_lookup
    by (auto simp: comes_from_def)
qed

section \<open>The journal as a step system\<close>

text \<open>One step is one operation of a running process; no revision counter is about to wrap.\<close>

inductive runtime_step :: "journal \<Rightarrow> journal \<Rightarrow> bool" where
  rt_update: "room s \<Longrightarrow> runtime_step s (snd (Update i sid ph rid q term err s))"
| rt_queue: "room s \<Longrightarrow> runtime_step s (snd (UpdateQueueLength i sid q s))"
| rt_progress: "room s \<Longrightarrow> runtime_step s (snd (Progress i sid rid stage msg s))"
| rt_ensure: "runtime_step s (snd (Ensure i sid ph q s))"
| rt_recover: "room s \<Longrightarrow> runtime_step s (snd (Recover i sid a s))"
| rt_recover_all: "room s \<Longrightarrow> runtime_step s (snd (RecoverAllStale i s))"
| rt_reconcile: "room s \<Longrightarrow> runtime_step s (snd (ReconcileHistoryActivity i sid l ob s))"
| rt_wait: "room s \<Longrightarrow> runtime_step s (snd (WaitForInteraction i sid iid s))"
| rt_resolve: "room s \<Longrightarrow> runtime_step s (snd (ResolveInteraction i sid iid s))"
| rt_restore: "room s \<Longrightarrow> runtime_step s (snd (RestoreUnconfirmedStop m i sid rid pr s))"
| rt_ack: "runtime_step s (snd (Ack i dev sid n read s))"
| rt_snapshot: "runtime_step s (snd (Snapshot i dev sids s))"
| rt_remove: "runtime_step s (Remove i sid s)"
| rt_timer: "runtime_step s (flush_timer i s)"
| rt_flush: "runtime_step s (Flush i s)"

lemma runtime_step_evolves: "runtime_step s t \<Longrightarrow> jevolves s t"
proof (induction rule: runtime_step.induct)
  case (rt_timer s i)
  show ?case by (rule jevolves_records [OF jevolves_refl]) simp
next
  case (rt_flush s i)
  show ?case by (rule jevolves_records [OF jevolves_refl]) simp
qed (simp_all add: Update_evolves UpdateQueueLength_evolves Progress_evolves Ensure_evolves
    Recover_evolves RecoverAll_evolves Reconcile_evolves Wait_evolves Resolve_evolves
    RestoreStop_evolves Ack_evolves Snapshot_evolves Remove_evolves)

definition runtime_inv :: "journal \<Rightarrow> bool" where
  "runtime_inv s \<longleftrightarrow> keys_ok s \<and> (\<forall>sid r. lookup sid s = Some r \<longrightarrow> rec_inv r)"

lemma new_record_inv: "rec_inv (new_record sid ep)"
  by (simp add: rec_inv_def new_record_def)

lemma comes_from_inv: "runtime_inv s \<Longrightarrow> comes_from s sid r \<Longrightarrow> rec_inv r"
  using new_record_inv by (auto simp: comes_from_def runtime_inv_def evolves_def split: option.splits)

lemma jevolves_inv: "jevolves s t \<Longrightarrow> runtime_inv s \<Longrightarrow> runtime_inv t"
  using comes_from_inv unfolding jevolves_def runtime_inv_def by blast

definition empty_journal :: "bool \<Rightarrow> journal" where
  "empty_journal path =
     \<lparr>records = [], sharedReads = [], persistedRecords = Map.empty, has_path = path, dirty = False,
      timer = False, sharedReadLoadErr = False, disk_snapshot = None, disk_synced = None, disk_cursors = [],
      disk_shared = SharedMissing\<rparr>"

lemma empty_inv: "runtime_inv (empty_journal path)"
  by (simp add: runtime_inv_def keys_ok_def lookup_def empty_journal_def)

interpretation runtime_sys: step_system "\<lambda>s. \<exists>path. s = empty_journal path" runtime_step runtime_inv
  using empty_inv jevolves_inv runtime_step_evolves by unfold_locales blast+

text \<open>The revision of a session along steps that keep it.\<close>

definition revision_of :: "string \<Rightarrow> journal \<Rightarrow> u64" where
  "revision_of sid s = (case lookup sid s of None \<Rightarrow> 0 | Some r \<Rightarrow> Revision r)"

definition keeping :: "string \<Rightarrow> journal \<Rightarrow> journal \<Rightarrow> bool" where
  "keeping sid s t \<longleftrightarrow> runtime_step s t \<and> runtime_inv s \<and> lookup sid t \<noteq> None"

lemma keeping_evolves:
  assumes "keeping sid s t"
  shows "\<exists>r'. lookup sid t = Some r' \<and> comes_from s sid r'"
proof -
  obtain r' where r': "lookup sid t = Some r'" using assms by (auto simp: keeping_def)
  have "keys_ok s" using assms by (simp add: keeping_def runtime_inv_def)
  then show ?thesis
    using r' runtime_step_evolves [of s t] assms unfolding jevolves_def keeping_def by blast
qed

lemma revision_step: "keeping sid s t \<Longrightarrow> revision_of sid s \<le> revision_of sid t"
  using keeping_evolves [of sid s t]
  by (auto simp: revision_of_def comes_from_def evolves_def split: option.splits)

interpretation revision_sys: monotone_system "keeping sid" "revision_of sid" for sid
  by unfold_locales (rule revision_step)

lemma kept_epoch: "keeping sid s t \<Longrightarrow> lookup sid s = Some r \<Longrightarrow> \<exists>r'. lookup sid t = Some r' \<and> ReadEpoch r' = ReadEpoch r"
  using keeping_evolves [of sid s t] by (auto simp: comes_from_def evolves_def)

lemma kept_epochs:
  "(keeping sid)\<^sup>*\<^sup>* s t \<Longrightarrow> lookup sid s = Some r \<Longrightarrow> \<exists>r'. lookup sid t = Some r' \<and> ReadEpoch r' = ReadEpoch r"
proof (induction rule: rtranclp_induct)
  case (step t u)
  then obtain r' where "lookup sid t = Some r'" "ReadEpoch r' = ReadEpoch r" by blast
  with kept_epoch [OF step.hyps(2)] show ?case by metis
qed simp


definition demo_io :: io where
  "demo_io = \<lparr>io_now = 1000, io_epoch = (\<lambda>_. ''e1''), io_snapshot = W_Ok, io_truncate = True,
             io_cursor = True, io_shared = W_Ok, io_sync = True\<rparr>"

definition demo_journal :: journal where
  "demo_journal = snd (Update demo_io ''s'' ''running'' ''q1'' 0 [] [] (empty_journal True))"

lemma empty_room: "room (empty_journal path)"
  by (simp add: room_def lookup_def empty_journal_def)

definition demo_record :: Record where
  "demo_record = (new_record ''s'' ''e1'')\<lparr>Revision := 1, Phase := ''running'', Stage := ''preparing'',
     StageStartedAt := 1000, ActiveStartedAt := 1000, ActiveRequestID := ''q1'', UpdatedAt := 1000\<rparr>"

lemma demo_journal_record: "records demo_journal = [(''s'', demo_record)]"
  by (simp add: demo_journal_def Update_def ensureLocked_def ensured_def lookup_def empty_journal_def
      new_record_def heal_record_def Let_def active_phase_def defaultStageForPhase_def advanced_def
      starts_turn_def max0_def put_record_def enforceCapLocked_def maxSessions_def demo_io_def
      demo_record_def u64_succ_def)

lemma demo_journal_reachable: "runtime_step\<^sup>*\<^sup>* (empty_journal True) demo_journal"
  unfolding demo_journal_def by (rule r_into_rtranclp, rule rt_update, rule empty_room)

lemma demo_journal_inv: "runtime_inv demo_journal"
  using runtime_sys.reachable_good demo_journal_reachable by blast

lemma demo_lookup: "lookup ''s'' demo_journal = Some demo_record"
  by (simp add: lookup_def demo_journal_record)


end
