(* ===== verification/Runtime_Behaviour.thy ===== *)
theory Runtime_Behaviour
  imports Runtime_Properties
begin

text \<open>
  The behaviour of the journal's operations one by one: the ledger and the cursors, progress,
  interactions, recovery, and what a crash before the progress flush does to the cursors.
\<close>

section \<open>Ledger and cursors\<close>



lemma unread_zero:
  "(\<And>t. t \<in> set ts \<Longrightarrow> t_Revision t \<le> n) \<Longrightarrow> unread_above n ts = 0"
  by (auto simp: unread_above_def filter_empty_conv not_less)

lemma ensured_known: "lookup sid s = Some r \<Longrightarrow> ensured i sid s = heal_record r"
  by (simp add: ensured_def)

lemma heal_fields [simp]:
  "Terminals (heal_record r) = Terminals r" "AckedByDevice (heal_record r) = AckedByDevice r"
  "ReadByDevice (heal_record r) = ReadByDevice r" "Phase (heal_record r) = Phase r"
  "ActiveRequestID (heal_record r) = ActiveRequestID r" "QueueLength (heal_record r) = QueueLength r"
  by (simp_all add: heal_record_def Let_def)

lemma Ack_lookup:
  assumes "dev \<noteq> []" "sid \<noteq> []"
  shows "lookup k (snd (Ack i dev sid n read s)) =
     (if k = sid then Some (acked dev (ack_revision n (ensured i sid s)) read (ensured i sid s))
      else lookup k s)"
  using lookup_records [OF Ack_records [OF assms]] by simp

lemma raise_cursor_other: "d \<noteq> dev \<Longrightarrow> raise_cursor dev n f d = f d"
  by (simp add: raise_cursor_def)

lemma raise_cursor_same: "raise_cursor dev n f dev = max n (f dev)"
  by (simp add: raise_cursor_def)

lemma ack_revision_cong: "Revision x = Revision y \<Longrightarrow> ack_revision n x = ack_revision n y"
  by (simp add: ack_revision_def)

text \<open>
  An acknowledgement moves the cursors of the one device that sent it, never beyond the
  session's revision and never back, and repeating it changes nothing. Another device sees the same
  unread count and delivery state as before, other sessions are untouched, and after a read of the
  current revision the acknowledging device has nothing unread or pending.
\<close>

theorem ack_is_per_device:
  assumes "dev \<noteq> []" and "sid \<noteq> []" and "lookup sid s = Some r" and "rec_inv r"
    and t_def: "t = snd (Ack i dev sid n read s)"
  shows "(\<forall>k. k \<noteq> sid \<longrightarrow> lookup k t = lookup k s) \<and>
    (\<exists>r'. lookup sid t = Some r' \<and> Revision r' = Revision r \<and> Terminals r' = Terminals r
       \<and> (\<forall>d. d \<noteq> dev \<longrightarrow> AckedByDevice r' d = AckedByDevice r d \<and> ReadByDevice r' d = ReadByDevice r d
            \<and> v_Unread (viewLocked r' d) = v_Unread (viewLocked r d))
       \<and> AckedByDevice r dev \<le> AckedByDevice r' dev \<and> AckedByDevice r' dev \<le> Revision r
       \<and> ReadByDevice r dev \<le> ReadByDevice r' dev \<and> ReadByDevice r' dev \<le> Revision r
       \<and> (read \<and> n = 0 \<longrightarrow> v_Unread (viewLocked r' dev) = 0 \<and> \<not> v_DeliveryPending (viewLocked r' dev)
            \<and> \<not> v_HistoryReconcile (viewLocked r' dev)))
    \<and> snd (fst (Ack i dev sid n read t)) = False"
proof -
  let ?e = "ensured i sid s"
  let ?r = "acked dev (ack_revision n ?e) read ?e"
  have e: "Revision ?e = Revision r" "Terminals ?e = Terminals r" "AckedByDevice ?e = AckedByDevice r"
    "ReadByDevice ?e = ReadByDevice r"
    using assms(3) by (simp_all add: ensured_known)
  have get: "lookup k t = (if k = sid then Some ?r else lookup k s)" for k
    unfolding t_def by (rule Ack_lookup [OF assms(1,2)])
  have n: "ack_revision n ?e \<le> Revision r" by (simp add: ack_revision_def e)
  have cur: "AckedByDevice r dev \<le> Revision r" "ReadByDevice r dev \<le> Revision r"
    "\<forall>x\<in>set (Terminals r). t_Revision x \<le> Revision r"
    using assms(4) by (auto simp: rec_inv_def)
  have one: "Revision ?r = Revision r \<and> Terminals ?r = Terminals r
       \<and> (\<forall>d. d \<noteq> dev \<longrightarrow> AckedByDevice ?r d = AckedByDevice r d \<and> ReadByDevice ?r d = ReadByDevice r d)
       \<and> AckedByDevice ?r dev = max (ack_revision n ?e) (AckedByDevice r dev)
       \<and> ReadByDevice ?r dev = (if read then max (ack_revision n ?e) (ReadByDevice r dev) else ReadByDevice r dev)"
    by (simp add: acked_def e raise_cursor_other raise_cursor_same)
  have un: "v_Unread (viewLocked ?r d) = v_Unread (viewLocked r d)" if "d \<noteq> dev" for d
    using one that by (simp add: viewLocked_def Let_def)
  have read0: "v_Unread (viewLocked ?r dev) = 0 \<and> \<not> v_DeliveryPending (viewLocked ?r dev)
      \<and> \<not> v_HistoryReconcile (viewLocked ?r dev)" if "read" "n = 0"
    using one cur that unread_zero [of "Terminals r" "Revision r"]
    by (auto simp: viewLocked_def Let_def ack_revision_def e max_def not_less)
  have again: "snd (fst (Ack i dev sid n read t)) = False"
  proof -
    have t: "ensured i sid t = heal_record ?r" using get [of sid] by (simp add: ensured_known)
    have "ack_revision n (heal_record ?r) = ack_revision n ?e"
      by (rule ack_revision_cong) (use one e in simp)
    then show ?thesis
      using assms(1,2) one by (auto simp: Ack_def ensureLocked_def Let_def t)
  qed
  show ?thesis
    using get one un read0 again n cur by (auto simp: max_def)
qed

lemma ack_is_per_device_witness:
  "\<exists>r'. lookup ''s'' (snd (Ack demo_io ''phone'' ''s'' 0 True demo_journal)) = Some r'
     \<and> v_Unread (viewLocked r' ''phone'') = 0 \<and> ReadByDevice r' ''pad'' = ReadByDevice demo_record ''pad''"
proof -
  have "rec_inv demo_record" using demo_journal_inv demo_lookup by (simp add: runtime_inv_def)
  from ack_is_per_device [OF _ _ demo_lookup this refl, of "''phone''" demo_io 0 True] show ?thesis by auto
qed

section \<open>Progress\<close>

lemma Progress_lookup:
  "sid \<noteq> [] \<Longrightarrow> stage \<noteq> [] \<Longrightarrow> lookup sid (snd (Progress i sid rid stage msg s)) =
     Some (if progress_refused rid stage msg (ensured i sid s) then ensured i sid s
           else progressed (io_now i) rid stage msg (ensured i sid s))"
  using lookup_records [of "scheduleSaveLocked _"]
  by (simp add: Progress_def ensureLocked_def Let_def)

text \<open>
  Progress reports cannot rebind a session: a report for another request than the active one
  changes nothing, an accepted report keeps the active request (or supplies it when there was none)
  and never touches the phase, the queue length or the ledger, and the stage of a request never moves
  to a lower rank.
\<close>

theorem progress_cannot_rebind:
  assumes "sid \<noteq> []" and "stage \<noteq> []" and "lookup sid s = Some r"
    and t_def: "t = snd (Progress i sid rid stage msg s)"
  shows "\<exists>r'. lookup sid t = Some r' \<and> Phase r' = Phase r \<and> QueueLength r' = QueueLength r
    \<and> Terminals r' = Terminals r
    \<and> (ActiveRequestID r \<noteq> [] \<longrightarrow> ActiveRequestID r' = ActiveRequestID r)
    \<and> (rid \<noteq> [] \<and> ActiveRequestID r \<noteq> [] \<and> rid \<noteq> ActiveRequestID r \<longrightarrow> r' = heal_record r)
    \<and> stageRank (Stage (heal_record r)) \<le> stageRank (Stage r')"
proof -
  have e: "ensured i sid s = heal_record r" using assms(3) by (rule ensured_known)
  show ?thesis
    unfolding t_def Progress_lookup [OF assms(1,2)] e
    by (auto simp: progressed_def progress_refused_def not_less)
qed

lemma progress_cannot_rebind_witness:
  "\<exists>r'. lookup ''s'' (snd (Progress demo_io ''s'' ''q0'' ''thinking'' [] demo_journal)) = Some r'
     \<and> ActiveRequestID r' = ''q1''"
  using progress_cannot_rebind [OF _ _ demo_lookup refl, of "''thinking''" demo_io "''q0''" "[]"]
  by (auto simp: demo_record_def)

section \<open>Interactions\<close>

lemma save_lookup [simp]: "lookup k (saveLocked i s) = lookup k s"
  by (rule lookup_records) simp

lemma Resolve_lookup:
  assumes "lookup sid s = Some r"
  shows "lookup sid (snd (ResolveInteraction i sid iid s)) = Some (
     if iid = [] \<or> Phase r \<noteq> ''waiting'' \<or> map_of (WaitingInteractions r) iid \<noteq> Some (ActiveRequestID r) then r
     else let r1 = r\<lparr>WaitingInteractions := AList.delete iid (WaitingInteractions r)\<rparr>
          in if WaitingInteractions r1 \<noteq> [] then r1
             else r1\<lparr>Revision := u64_succ (Revision r), Phase := ''running'', Stage := ''thinking'',
                     StageMessage := [], UpdatedAt := io_now i, StageStartedAt := io_now i\<rparr>)"
  using assms by (simp add: ResolveInteraction_def Let_def)

text \<open>
  A resolved question resumes only the turn that asked it, and only when it was the last
  outstanding one: the phase leaves \<open>waiting\<close> exactly if the question was registered by the active
  request and no other question is left; the active request, the queue length and the ledger never
  change. Asking and then answering a question returns a running turn to running.
\<close>

theorem resolution_resumes_own_turn:
  assumes "lookup sid s = Some r" and "distinct (map fst (WaitingInteractions r))"
    and t_def: "t = snd (ResolveInteraction i sid iid s)"
  shows "(\<exists>r'. lookup sid t = Some r' \<and> ActiveRequestID r' = ActiveRequestID r \<and> QueueLength r' = QueueLength r
      \<and> Terminals r' = Terminals r
      \<and> (Phase r = ''waiting'' \<longrightarrow>
          (Phase r' = ''running'' \<longleftrightarrow> iid \<noteq> [] \<and> WaitingInteractions r = [(iid, ActiveRequestID r)]))
      \<and> (Phase r \<noteq> ''waiting'' \<longrightarrow> r' = r))
    \<and> (Phase r = ''running'' \<and> iid \<noteq> [] \<and> WaitingInteractions r = [] \<longrightarrow>
        (\<exists>r'. lookup sid (snd (ResolveInteraction i sid iid (snd (WaitForInteraction i sid iid s)))) = Some r'
           \<and> Phase r' = ''running'' \<and> WaitingInteractions r' = [] \<and> ActiveRequestID r' = ActiveRequestID r))"
proof -
  have last: "map_of w iid = Some a \<and> AList.delete iid w = [] \<longleftrightarrow> w = [(iid, a)]"
    if "distinct (map fst w)" for w :: "(string \<times> string) list" and a
  proof (cases w)
    case (Cons x list)
    from that Cons have "AList.delete iid list = list" if "fst x = iid"
      using that by (auto simp: delete_idem)
    with Cons show ?thesis by (cases x) auto
  qed simp
  have res: "\<exists>r'. lookup sid t = Some r' \<and> ActiveRequestID r' = ActiveRequestID r \<and> QueueLength r' = QueueLength r
      \<and> Terminals r' = Terminals r
      \<and> (Phase r = ''waiting'' \<longrightarrow>
          (Phase r' = ''running'' \<longleftrightarrow> iid \<noteq> [] \<and> WaitingInteractions r = [(iid, ActiveRequestID r)]))
      \<and> (Phase r \<noteq> ''waiting'' \<longrightarrow> r' = r)"
    unfolding t_def Resolve_lookup [OF assms(1)]
    using last [OF assms(2), of "ActiveRequestID r"] by (auto simp: Let_def)
  have ask: "lookup sid (snd (WaitForInteraction i sid iid s)) =
      Some (r\<lparr>WaitingInteractions := [(iid, ActiveRequestID r)], Revision := u64_succ (Revision r),
              Phase := ''waiting'', Stage := ''waiting_user'', StageMessage := [], UpdatedAt := io_now i,
              StageStartedAt := io_now i\<rparr>)"
    if "Phase r = ''running''" "iid \<noteq> []" "WaitingInteractions r = []"
    using that assms(1) by (simp add: WaitForInteraction_def Let_def)
  show ?thesis using res Resolve_lookup [OF ask] by (auto simp: Let_def)
qed

lemma resolution_resumes_own_turn_witness:
  "\<exists>r'. lookup ''s'' (snd (ResolveInteraction demo_io ''s'' ''ask'' (snd (WaitForInteraction demo_io ''s'' ''ask'' demo_journal)))) = Some r'
     \<and> Phase r' = ''running''"
proof -
  have d: "distinct (map fst (WaitingInteractions demo_record))" "Phase demo_record = ''running''"
    "WaitingInteractions demo_record = []"
    by (simp_all add: demo_record_def new_record_def)
  from resolution_resumes_own_turn [OF demo_lookup d(1) refl, of demo_io "''ask''"] d show ?thesis by auto
qed

end
