(* ===== verification/Runtime_Durability.thy ===== *)
theory Runtime_Durability
  imports Runtime_Shared Runtime_Behaviour
begin

text \<open>
  What survives a crash of the process or a loss of power: the marks that remember what reached the
  disk are truthful, so an accepted shared read is there again after any restart.
\<close>

section \<open>What an operation does to the disk\<close>

definition disk_of :: "journal \<Rightarrow> (string \<rightharpoonup> persistedRuntimeRecord) \<times> record_table option \<times> record_table option" where
  "disk_of s = (persistedRecords s, disk_snapshot s, disk_synced s)"

definition disk_step :: "journal \<Rightarrow> journal \<Rightarrow> bool" where
  "disk_step s t \<longleftrightarrow>
     disk_of t = disk_of s
     \<or> disk_of t = (written_marks False (records t), Some (records t), disk_synced s)
     \<or> disk_of t = (written_marks True (records t), Some (records t), Some (records t))
     \<or> disk_of t = (persistedRecords s, Some (records t), disk_synced s)"

lemma disk_step_same: "disk_of t = disk_of s \<Longrightarrow> disk_step s t"
  by (simp add: disk_step_def)

lemma disk_of_simps [simp]:
  "disk_of (put_record k r s) = disk_of s"
  "disk_of (s\<lparr>timer := b\<rparr>) = disk_of s" "disk_of (s\<lparr>dirty := b\<rparr>) = disk_of s"
  "disk_of (s\<lparr>records := rows\<rparr>) = disk_of s" "disk_of (s\<lparr>sharedReads := reads\<rparr>) = disk_of s"
  "disk_of (s\<lparr>disk_shared := f\<rparr>) = disk_of s" "disk_of (s\<lparr>disk_cursors := es\<rparr>) = disk_of s"
  "disk_of (scheduleSaveLocked s) = disk_of s" "disk_of (enforceCapLocked s) = disk_of s"
  "disk_of (snd (appendCursorLocked i e s)) = disk_of s"
  by (simp_all add: disk_of_def scheduleSaveLocked_def enforceCapLocked_def Let_def appendCursorLocked_def)

lemma write_disk:
  assumes "disk_of u = disk_of s"
  shows "disk_step s (snd (writeRuntimeSnapshotLocked i d u))"
  using assms by (auto simp: disk_step_def writeRuntimeSnapshotLocked_def disk_of_def)

lemma save_disk: "disk_of u = disk_of s \<Longrightarrow> disk_step s (saveLocked i u)"
  unfolding saveLocked_def writeLocked_def by (rule write_disk) simp

lemma flush_timer_disk: "disk_step s (flush_timer i s)"
  unfolding flush_timer_def writeLocked_def using write_disk disk_step_same by (simp add: disk_of_simps)

lemma ensure_fold_disk: "disk_of (fold (\<lambda>sid s. snd (ensureLocked i sid s)) sids s) = disk_of s"
  by (induction sids arbitrary: s) (simp_all add: ensureLocked_def)

lemma Ack_disk: "disk_step s (snd (Ack i dev sid n read s))"
  by (auto simp: Ack_def ensureLocked_def Let_def appendCursorLocked_def disk_step_same save_disk)

lemma runtime_step_disk: "runtime_step s t \<Longrightarrow> disk_step s t"
proof (induction rule: runtime_step.induct)
  case (rt_ack s i dev sid n read)
  show ?case by (rule Ack_disk)
next
  case (rt_timer s i)
  show ?case by (rule flush_timer_disk)
next
  case (rt_snapshot s i dev sids)
  show ?case by (simp add: Snapshot_def Let_def ensure_fold_disk disk_step_same)
next
  case (rt_wait s i sid iid)
  show ?case by (auto simp: WaitForInteraction_def Let_def disk_step_same save_disk split: option.splits)
next
  case (rt_resolve s i sid iid)
  show ?case by (auto simp: ResolveInteraction_def Let_def disk_step_same save_disk split: option.splits)
next
  case (rt_restore s m i sid rid pr)
  show ?case by (auto simp: RestoreUnconfirmedStop_def Let_def disk_step_same save_disk split: option.splits)
qed (auto simp: Update_def UpdateQueueLength_def Progress_def Ensure_def Recover_def RecoverAllStale_def
    ReconcileHistoryActivity_def Remove_def Flush_def ensureLocked_def Let_def disk_step_same save_disk)

section \<open>Truthful marks\<close>

definition on_disk :: "record_table option \<Rightarrow> string \<Rightarrow> string \<Rightarrow> u64 \<Rightarrow> bool" where
  "on_disk d sid epoch n \<longleftrightarrow>
     (\<exists>rows r. d = Some rows \<and> map_of rows sid = Some r \<and> ReadEpoch r = epoch \<and> n \<le> Revision r)"

definition mark_ok :: "journal \<Rightarrow> string \<Rightarrow> Record \<Rightarrow> persistedRuntimeRecord \<Rightarrow> bool" where
  "mark_ok s sid r m \<longleftrightarrow>
     p_revision m \<le> Revision r \<and> on_disk (disk_snapshot s) sid (p_epoch m) (p_revision m)
     \<and> (p_durable m \<longrightarrow> on_disk (disk_synced s) sid (p_epoch m) (p_revision m))"

definition marks_ok :: "journal \<Rightarrow> bool" where
  "marks_ok s \<longleftrightarrow> (\<forall>sid r m. lookup sid s = Some r \<longrightarrow> persistedRecords s sid = Some m
     \<longrightarrow> p_epoch m = ReadEpoch r \<longrightarrow> mark_ok s sid r m)"

definition reads_ok :: "journal \<Rightarrow> bool" where
  "reads_ok s \<longleftrightarrow> (\<forall>sid r read. lookup sid s = Some r \<longrightarrow> map_of (sharedReads s) sid = Some read
     \<longrightarrow> sr_Epoch read = ReadEpoch r \<longrightarrow> sr_Revision read \<le> Revision r)"

text \<open>The generations of a session the journal has met; a random epoch is none of them.\<close>

definition known_epochs :: "journal \<Rightarrow> string \<Rightarrow> string set" where
  "known_epochs s sid =
     insert [] (p_epoch ` set_option (persistedRecords s sid) \<union> sr_Epoch ` set_option (map_of (sharedReads s) sid))"

definition follows :: "journal \<Rightarrow> journal \<Rightarrow> bool" where
  "follows s t \<longleftrightarrow> (\<forall>sid r. lookup sid t = Some r \<longrightarrow>
     (\<exists>r0. lookup sid s = Some r0 \<and> ReadEpoch r = ReadEpoch r0 \<and> Revision r0 \<le> Revision r)
     \<or> ReadEpoch r \<notin> known_epochs s sid)"

definition fresh_epochs :: "journal \<Rightarrow> journal \<Rightarrow> bool" where
  "fresh_epochs s t \<longleftrightarrow> (\<forall>sid r. lookup sid s = None \<longrightarrow> lookup sid t = Some r \<longrightarrow> ReadEpoch r \<notin> known_epochs s sid)"

lemma jevolves_follows:
  assumes "jevolves s t" and "keys_ok s" and "fresh_epochs s t"
  shows "follows s t"
  unfolding follows_def
proof (intro allI impI)
  fix sid r assume r: "lookup sid t = Some r"
  with assms(1,2) have "comes_from s sid r" by (auto simp: jevolves_def)
  with r assms(3) show "(\<exists>r0. lookup sid s = Some r0 \<and> ReadEpoch r = ReadEpoch r0 \<and> Revision r0 \<le> Revision r)
      \<or> ReadEpoch r \<notin> known_epochs s sid"
    by (cases "lookup sid s") (auto simp: comes_from_def evolves_def fresh_epochs_def)
qed

lemma known_mark: "persistedRecords s sid = Some m \<Longrightarrow> p_epoch m \<in> known_epochs s sid"
  by (simp add: known_epochs_def)

lemma known_read: "map_of (sharedReads s) sid = Some read \<Longrightarrow> sr_Epoch read \<in> known_epochs s sid"
  by (simp add: known_epochs_def)

lemma marks_step:
  assumes "marks_ok s" and "follows s t" and "disk_step s t"
  shows "marks_ok t"
  unfolding marks_ok_def
proof (intro allI impI)
  fix sid r m assume h: "lookup sid t = Some r" "persistedRecords t sid = Some m" "p_epoch m = ReadEpoch r"
  have old: "\<exists>r0. p_epoch m = ReadEpoch r0 \<and> mark_ok s sid r0 m \<and> Revision r0 \<le> Revision r"
    if "persistedRecords s sid = Some m"
    using assms(1,2) h that known_mark [OF that] unfolding follows_def marks_ok_def by metis
  from assms(3) consider
      "disk_of t = disk_of s"
    | "disk_of t = (written_marks False (records t), Some (records t), disk_synced s)"
    | "disk_of t = (written_marks True (records t), Some (records t), Some (records t))"
    | "disk_of t = (persistedRecords s, Some (records t), disk_synced s)"
    unfolding disk_step_def by blast
  then show "mark_ok t sid r m"
  proof cases
    case 1
    with old h show ?thesis by (auto simp: disk_of_def mark_ok_def)
  next
    case 2
    with h show ?thesis by (auto simp: disk_of_def mark_ok_def on_disk_def written_marks_def lookup_def)
  next
    case 3
    with h show ?thesis by (auto simp: disk_of_def mark_ok_def on_disk_def written_marks_def lookup_def)
  next
    case 4
    with old h show ?thesis by (auto simp: disk_of_def mark_ok_def on_disk_def lookup_def)
  qed
qed

lemma reads_step:
  assumes "reads_ok s" and "follows s t" and "\<And>sid read. map_of (sharedReads t) sid = Some read \<Longrightarrow> map_of (sharedReads s) sid = Some read"
  shows "reads_ok t"
  unfolding reads_ok_def
proof (intro allI impI)
  fix sid r read assume h: "lookup sid t = Some r" "map_of (sharedReads t) sid = Some read" "sr_Epoch read = ReadEpoch r"
  have s: "map_of (sharedReads s) sid = Some read" using assms(3) h(2) .
  then obtain r0 where "lookup sid s = Some r0" "ReadEpoch r = ReadEpoch r0" "Revision r0 \<le> Revision r"
    using assms(2) h(1,3) known_read [OF s] unfolding follows_def by metis
  then show "sr_Revision read \<le> Revision r" using assms(1) s h(3) unfolding reads_ok_def by fastforce
qed

text \<open>The shared reads themselves change only by their own operations and by \<^verbatim>\<open>Remove\<close>.\<close>

definition shared_of :: "journal \<Rightarrow> (string \<times> sharedReadRecord) list \<times> shared_file \<times> bool \<times> bool" where
  "shared_of s = (sharedReads s, disk_shared s, sharedReadLoadErr s, has_path s)"

lemma shared_of_simps [simp]:
  "shared_of (put_record k r s) = shared_of s"
  "shared_of (s\<lparr>timer := b\<rparr>) = shared_of s" "shared_of (s\<lparr>dirty := b\<rparr>) = shared_of s"
  "shared_of (s\<lparr>records := rows\<rparr>) = shared_of s" "shared_of (s\<lparr>disk_cursors := es\<rparr>) = shared_of s"
  "shared_of (scheduleSaveLocked s) = shared_of s" "shared_of (enforceCapLocked s) = shared_of s"
  "shared_of (snd (appendCursorLocked i e s)) = shared_of s"
  "shared_of (snd (writeRuntimeSnapshotLocked i d s)) = shared_of s"
  by (simp_all add: shared_of_def put_record_def scheduleSaveLocked_def enforceCapLocked_def Let_def
      appendCursorLocked_def writeRuntimeSnapshotLocked_def)

lemma save_shared [simp]: "shared_of (saveLocked i s) = shared_of s" "shared_of (flush_timer i s) = shared_of s"
  "shared_of (Flush i s) = shared_of s"
  by (simp_all add: saveLocked_def writeLocked_def flush_timer_def Flush_def)

lemma Ack_shared: "shared_of (snd (Ack i dev sid n read s)) = shared_of s"
  by (simp add: Ack_def ensureLocked_def Let_def appendCursorLocked_def)

lemma ensure_fold_shared: "shared_of (fold (\<lambda>sid s. snd (ensureLocked i sid s)) sids s) = shared_of s"
  by (induction sids arbitrary: s) (simp_all add: ensureLocked_def)

lemma runtime_step_shared:
  "runtime_step s t \<Longrightarrow> shared_of t = shared_of s \<or> (\<exists>sid. shared_of t = shared_of (s\<lparr>sharedReads := AList.delete sid (sharedReads s)\<rparr>))"
proof (induction rule: runtime_step.induct)
  case (rt_ack s i dev sid n read)
  show ?case by (simp add: Ack_shared)
next
  case (rt_remove s i sid)
  show ?case by (auto simp: Remove_def shared_of_def [of "_\<lparr>sharedReads := _\<rparr>"])
next
  case (rt_snapshot s i dev sids)
  show ?case by (simp add: Snapshot_def Let_def ensure_fold_shared)
next
  case (rt_wait s i sid iid)
  show ?case by (auto simp: WaitForInteraction_def Let_def split: option.splits)
next
  case (rt_resolve s i sid iid)
  show ?case by (auto simp: ResolveInteraction_def Let_def split: option.splits)
next
  case (rt_restore s m i sid rid pr)
  show ?case by (auto simp: RestoreUnconfirmedStop_def Let_def split: option.splits)
qed (auto simp: Update_def UpdateQueueLength_def Progress_def Ensure_def Recover_def RecoverAllStale_def
    ReconcileHistoryActivity_def ensureLocked_def Let_def)

section \<open>The shared operations\<close>

lemma write_true:
  assumes "writeRuntimeSnapshotLocked i True s = (True, t)" and "has_path s"
  shows "disk_of t = (written_marks True (records s), Some (records s), Some (records s))"
  using assms by (auto simp: writeRuntimeSnapshotLocked_def disk_of_def split: if_splits)

lemma persist_records [simp]: "records (snd (persistReadBoundaryLocked i r n s)) = records s"
  by (simp add: persistReadBoundaryLocked_def syncSnapshotFile_def Let_def)

lemma persist_shared [simp]: "shared_of (snd (persistReadBoundaryLocked i r n s)) = shared_of s"
  by (simp add: persistReadBoundaryLocked_def syncSnapshotFile_def Let_def) (simp add: shared_of_def)

lemma sync_marks:
  assumes "marks_ok s"
  shows "marks_ok (s\<lparr>disk_synced := disk_snapshot s,
                     persistedRecords := map_option (\<lambda>m. m\<lparr>p_durable := True\<rparr>) \<circ> persistedRecords s\<rparr>)"
  using assms by (auto simp: marks_ok_def mark_ok_def lookup_def)

lemma follows_records: "records t = records s \<Longrightarrow> follows s t"
  using lookup_records [of s t] by (auto simp: follows_def)

lemma persist_marks:
  assumes "marks_ok s"
  shows "marks_ok (snd (persistReadBoundaryLocked i r n s))"
proof -
  have "marks_ok (snd (writeRuntimeSnapshotLocked i True s))"
    using marks_step [OF assms follows_records write_disk [OF refl]] by simp
  with assms sync_marks [OF assms] show ?thesis
    by (simp add: persistReadBoundaryLocked_def syncSnapshotFile_def Let_def)
qed

text \<open>A boundary that was persisted is in the file and survives the loss of power.\<close>

lemma persist_ok:
  assumes "marks_ok s" and "lookup sid s = Some r" and "r_SessionID r = sid" and "ReadEpoch r \<noteq> []"
    and "n \<le> Revision r" and "has_path s" and "persistReadBoundaryLocked i r n s = (True, t)"
  shows "on_disk (disk_snapshot t) sid (ReadEpoch r) n \<and> on_disk (disk_synced t) sid (ReadEpoch r) n"
proof (cases "p_epoch (mark_of sid s) = ReadEpoch r \<and> n \<le> p_revision (mark_of sid s)")
  case True
  then obtain m where m: "persistedRecords s sid = Some m" "mark_of sid s = m"
    using assms(4) by (auto simp: mark_of_def zero_mark_def split: option.splits)
  with True assms(1,2) have "mark_ok s sid r m" by (simp add: marks_ok_def)
  then show ?thesis
    using True m assms(3,6,7)
    by (auto simp: persistReadBoundaryLocked_def syncSnapshotFile_def Let_def mark_ok_def on_disk_def
        split: if_splits intro: order_trans)
next
  case False
  with assms have "writeRuntimeSnapshotLocked i True s = (True, t)"
    by (auto simp: persistReadBoundaryLocked_def Let_def)
  from write_true [OF this assms(6)] show ?thesis
    using assms(2,5) by (auto simp: disk_of_def on_disk_def lookup_def)
qed

definition reads_distinct :: "journal \<Rightarrow> bool" where
  "reads_distinct s \<longleftrightarrow> distinct (map fst (sharedReads s))"

definition load_refused :: "journal \<Rightarrow> bool" where
  "load_refused s \<longleftrightarrow> (sharedReadLoadErr s \<longrightarrow> sharedReads s = [] \<and> disk_shared s = SharedUnreadable)"

text \<open>The invariant of the whole store.\<close>

definition durable_inv :: "journal \<Rightarrow> bool" where
  "durable_inv s \<longleftrightarrow> keys_ok s \<and> marks_ok s \<and> reads_ok s \<and> reads_distinct s \<and> load_refused s"

lemma shared_of_eq:
  assumes "shared_of t = shared_of s"
  shows "sharedReads t = sharedReads s" "reads_distinct t = reads_distinct s" "load_refused t = load_refused s"
    "has_path t = has_path s" "disk_shared t = disk_shared s" "sharedReadLoadErr t = sharedReadLoadErr s"
  using assms by (auto simp: shared_of_def reads_distinct_def load_refused_def)

lemma runtime_step_durable:
  assumes "runtime_step s t" and "fresh_epochs s t" and "durable_inv s"
  shows "durable_inv t"
proof -
  have j: "jevolves s t" using assms(1) by (rule runtime_step_evolves)
  have f: "follows s t" using jevolves_follows [OF j _ assms(2)] assms(3) by (simp add: durable_inv_def)
  have m: "marks_ok t" using marks_step [OF _ f runtime_step_disk [OF assms(1)]] assms(3) by (simp add: durable_inv_def)
  have k: "keys_ok t" using j assms(3) by (simp add: jevolves_def durable_inv_def)
  have sub: "reads_distinct t \<and> load_refused t
      \<and> (\<forall>sid read. map_of (sharedReads t) sid = Some read \<longrightarrow> map_of (sharedReads s) sid = Some read)"
    using runtime_step_shared [OF assms(1)] assms(3)
    by (auto simp: shared_of_def durable_inv_def reads_distinct_def load_refused_def distinct_delete
        delete_conv' split: if_splits)
  have "reads_ok t" using reads_step [OF _ f] sub assms(3) by (auto simp: durable_inv_def)
  with m k sub show ?thesis by (simp add: durable_inv_def)
qed

lemma map_of_copy:
  assumes "reads_distinct s"
  shows "map_of (copySharedReadsLocked s) sid =
    (case map_of (sharedReads s) sid of None \<Rightarrow> None
     | Some read \<Rightarrow> if \<exists>r. lookup sid s = Some r \<and> sr_Epoch read = ReadEpoch r then Some read else None)"
proof -
  have "map_of (filter P rows) k = (case map_of rows k of None \<Rightarrow> None | Some v \<Rightarrow> if P (k, v) then Some v else None)"
    if "distinct (map fst rows)" for P k and rows :: "(string \<times> sharedReadRecord) list"
    using that
  proof (induction rows)
    case (Cons a rows)
    then show ?case by (cases a) (auto split: option.splits simp: map_of_eq_None_iff)
  qed simp
  from this [OF assms [unfolded reads_distinct_def]] show ?thesis
    unfolding copySharedReadsLocked_def by (auto split: option.splits)
qed

lemma distinct_copy: "reads_distinct s \<Longrightarrow> distinct (map fst (copySharedReadsLocked s))"
  unfolding copySharedReadsLocked_def reads_distinct_def by (rule distinct_map_filter)

lemma reads_okI:
  "(\<And>sid r read. lookup sid s = Some r \<Longrightarrow> map_of (sharedReads s) sid = Some read
     \<Longrightarrow> sr_Epoch read = ReadEpoch r \<Longrightarrow> sr_Revision read \<le> Revision r) \<Longrightarrow> reads_ok s"
  by (auto simp: reads_ok_def)

lemma inv_transfer:
  assumes "durable_inv s" and "records t = records s" and "marks_ok t" and "shared_of t = shared_of s"
  shows "durable_inv t"
  using assms lookup_records [OF assms(2)] shared_of_eq [OF assms(4)]
  by (simp add: durable_inv_def reads_ok_def keys_ok_def)

lemma marks_shared [simp]:
  "marks_ok (s\<lparr>disk_shared := f\<rparr>) = marks_ok s" "marks_ok (s\<lparr>sharedReads := c\<rparr>) = marks_ok s"
  by (simp_all add: marks_ok_def mark_ok_def lookup_def)

lemma inv_write_shared:
  assumes "durable_inv s" and "writeSharedReadsLocked i cand s = (ok, t)" and "\<not> sharedReadLoadErr s"
    and "distinct (map fst cand)"
    and "\<And>sid r read. lookup sid s = Some r \<Longrightarrow> map_of cand sid = Some read \<Longrightarrow> sr_Epoch read = ReadEpoch r
      \<Longrightarrow> sr_Revision read \<le> Revision r"
  shows "durable_inv t \<and> (ok \<longrightarrow> durable_inv (t\<lparr>sharedReads := cand\<rparr>))"
  using assms
  by (auto simp: writeSharedReadsLocked_def durable_inv_def reads_ok_def keys_ok_def reads_distinct_def
      load_refused_def lookup_def split: if_splits write_result.splits)

text \<open>The shape of an accepted shared read.\<close>

lemma Mark_accepted:
  assumes "MarkSharedRead digest i sid epoch n token s = (Inr (st, True), t)"
  obtains r read read' s1 s2 cand where
    "lookup sid s = Some r" "map_of (sharedReads s) sid = Some read"
    "epoch \<noteq> []" "epoch = ReadEpoch r" "epoch = sr_Epoch read" "n \<noteq> 0" "n \<le> Revision r" "sr_Revision read < n"
    "token = readBoundaryTokenLocked digest r n"
    "persistReadBoundaryLocked i r n s = (True, s1)"
    "read' = read\<lparr>sr_Revision := n, sr_Version := u64_succ (sr_Version read)\<rparr>"
    "cand = AList.update sid read' (copySharedReadsLocked s1)"
    "writeSharedReadsLocked i cand s1 = (True, s2)" "t = s2\<lparr>sharedReads := cand\<rparr>"
    "st = sharedReadState r read'"
  using assms
  by (auto simp: MarkSharedRead_def Let_def not_le split: option.splits if_splits prod.splits bool.splits
      intro!: that [OF _ _ _ _ _ _ _ _ _ _ refl refl])

lemma persist_inv:
  assumes "durable_inv s" and "persistReadBoundaryLocked i r n s = (ok, t)"
  shows "durable_inv t \<and> records t = records s \<and> shared_of t = shared_of s"
  using inv_transfer [OF assms(1), of t] persist_marks [of s i r n] persist_records [of i r n s]
    persist_shared [of i r n s] assms by (simp add: durable_inv_def)

lemma Mark_inv:
  assumes "durable_inv s"
  shows "durable_inv (snd (MarkSharedRead digest i sid epoch n token s))"
proof (cases "lookup sid s")
  case (Some r)
  show ?thesis
  proof (cases "map_of (sharedReads s) sid")
    case read: (Some read)
    obtain ok1 s1 where p: "persistReadBoundaryLocked i r n s = (ok1, s1)" by (cases "persistReadBoundaryLocked i r n s")
    let ?read = "read\<lparr>sr_Revision := n, sr_Version := u64_succ (sr_Version read)\<rparr>"
    let ?cand = "AList.update sid ?read (copySharedReadsLocked s1)"
    obtain ok2 s2 where w: "writeSharedReadsLocked i ?cand s1 = (ok2, s2)" by (cases "writeSharedReadsLocked i ?cand s1")
    have inv1: "durable_inv s1" "records s1 = records s" "shared_of s1 = shared_of s" using persist_inv [OF assms p] by auto
    note l = lookup_records [OF inv1(2)] and sh = shared_of_eq [OF inv1(3)]
    have d1: "reads_distinct s1" "reads_ok s1" using inv1(1) by (simp_all add: durable_inv_def)
    have "durable_inv s2 \<and> (ok2 \<longrightarrow> durable_inv (s2\<lparr>sharedReads := ?cand\<rparr>))" if n: "n \<le> Revision r"
    proof (rule inv_write_shared [OF inv1(1) w])
      show "\<not> sharedReadLoadErr s1"
        using assms read sh by (auto simp: durable_inv_def load_refused_def)
      show "distinct (map fst ?cand)" using distinct_copy [OF d1(1)] by (rule distinct_update)
      show "sr_Revision read' \<le> Revision r'" if "lookup k s1 = Some r'" "map_of ?cand k = Some read'"
        "sr_Epoch read' = ReadEpoch r'" for k r' read'
        using that n Some l d1 by (auto simp: update_conv' map_of_copy reads_ok_def split: if_splits option.splits)
    qed
    with assms inv1 show ?thesis
      using Some read p w by (auto simp: MarkSharedRead_def Let_def split: bool.splits)
  qed (use assms Some in \<open>simp add: MarkSharedRead_def\<close>)
qed (use assms in \<open>simp add: MarkSharedRead_def\<close>)

lemma imported_bound: "imported_read r devs \<le> Revision r"
proof -
  have "fold (\<lambda>d n. if ReadByDevice r d \<le> Revision r \<and> ReadByDevice r d > n then ReadByDevice r d else n) devs n
      \<le> Revision r" if "n \<le> Revision r" for n
    using that by (induction devs arbitrary: n) auto
  then show ?thesis by (simp add: imported_read_def)
qed

definition unmet :: "(string \<Rightarrow> io) \<Rightarrow> journal \<Rightarrow> bool" where
  "unmet ios s \<longleftrightarrow> (\<forall>sid r. lookup sid s = Some r \<longrightarrow> ReadEpoch r = [] \<longrightarrow> io_epoch (ios sid) sid \<notin> known_epochs s sid)"

definition cand_ok :: "journal \<Rightarrow> (string \<times> sharedReadRecord) list \<Rightarrow> bool" where
  "cand_ok s cand \<longleftrightarrow> distinct (map fst cand) \<and> (\<forall>sid r read. lookup sid s = Some r \<longrightarrow> map_of cand sid = Some read
     \<longrightarrow> sr_Epoch read = ReadEpoch r \<longrightarrow> sr_Revision read \<le> Revision r)"

lemma persist_known:
  assumes "lookup sid s = Some r'" and "ReadEpoch r' = []"
  shows "known_epochs (snd (persistReadBoundaryLocked i r n s)) sid \<subseteq> known_epochs s sid"
proof -
  have "sharedReads (snd (persistReadBoundaryLocked i r n s)) = sharedReads s"
    using shared_of_eq(1) persist_shared .
  moreover have "p_epoch ` set_option (persistedRecords (snd (persistReadBoundaryLocked i r n s)) sid)
      \<subseteq> insert [] (p_epoch ` set_option (persistedRecords s sid))"
    using assms by (auto simp: persistReadBoundaryLocked_def syncSnapshotFile_def Let_def
        writeRuntimeSnapshotLocked_def written_marks_def lookup_def split: if_splits)
  ultimately show ?thesis by (auto simp: known_epochs_def)
qed

lemma persist_unmet: "unmet ios s \<Longrightarrow> unmet ios (snd (persistReadBoundaryLocked i r n s))"
  using persist_known lookup_records [OF persist_records] unfolding unmet_def by (metis subsetD)

text \<open>A legacy record without an epoch gets its first one.\<close>

lemma put_epoch_inv:
  assumes "durable_inv s" and "lookup sid s = Some r" and "ReadEpoch r = []" and "e \<notin> known_epochs s sid"
  shows "durable_inv (put_record sid (r\<lparr>ReadEpoch := e\<rparr>) s)"
proof -
  let ?t = "put_record sid (r\<lparr>ReadEpoch := e\<rparr>) s"
  have f: "follows s ?t" using assms(4) by (auto simp: follows_def)
  have "marks_ok ?t" using marks_step [OF _ f] assms(1) disk_step_same by (simp add: durable_inv_def)
  moreover have "reads_ok ?t" using reads_step [OF _ f] assms(1) by (simp add: durable_inv_def)
  moreover have "keys_ok ?t"
    using assms(1,2) by (auto simp: durable_inv_def keys_ok_iff) (simp add: put_record_def distinct_update)
  ultimately show ?thesis
    using assms(1) shared_of_eq [of ?t s] by (simp add: durable_inv_def)
qed

lemma put_epoch_unmet:
  "unmet ios s \<Longrightarrow> e \<noteq> [] \<Longrightarrow> unmet ios (put_record sid (r\<lparr>ReadEpoch := e\<rparr>) s)"
  by (auto simp: unmet_def known_epochs_def)

lemma enroll_inv:
  assumes "durable_inv s" and "unmet ios s" and "cand_ok s cand"
    and "enroll_loop ios sids devs cand changed s = (res, t)"
  shows "durable_inv t \<and> shared_of t = shared_of s \<and> (\<forall>c b. res = Some (c, b) \<longrightarrow> cand_ok t c)"
  using assms
proof (induction ios sids devs cand changed s rule: enroll_loop.induct)
  case (2 ios sid sids devs cand changed s)
  show ?case
  proof (cases "lookup sid s")
    case None
    with "2.prems" "2.IH"(1) show ?thesis by simp
  next
    case (Some r0)
    let ?r = "if ReadEpoch r0 = [] then r0\<lparr>ReadEpoch := io_epoch (ios sid) sid\<rparr> else r0"
    let ?s1 = "if ReadEpoch r0 = [] then put_record sid ?r s else s"
    let ?n = "imported_read ?r devs"
    obtain ok s2 where p: "persistReadBoundaryLocked (ios sid) ?r ?n ?s1 = (ok, s2)"
      by (cases "persistReadBoundaryLocked (ios sid) ?r ?n ?s1")
    have ep: "io_epoch (ios sid) sid \<notin> known_epochs s sid" if "ReadEpoch r0 = []"
      using "2.prems"(2) Some that by (simp add: unmet_def)
    have i1: "durable_inv ?s1" "unmet ios ?s1" "shared_of ?s1 = shared_of s"
      using "2.prems"(1,2) put_epoch_inv [OF _ Some] put_epoch_unmet ep
      by (auto simp: known_epochs_def)
    have i2: "durable_inv s2" "records s2 = records ?s1" "shared_of s2 = shared_of s"
      using persist_inv [OF i1(1) p] i1(3) by auto
    have u2: "unmet ios s2" using persist_unmet [OF i1(2)] p by (metis snd_conv)
    have l: "lookup k s2 = (if k = sid then Some ?r else lookup k s)" for k
      using lookup_records [OF i2(2), of k] Some by auto
    have c: "cand_ok s2 (AList.update sid \<lparr>sr_Epoch = ReadEpoch ?r, sr_Revision = ?n,
        sr_Version = (if ?n > 0 then 1 else 0)\<rparr> cand)"
      using "2.prems"(3) imported_bound [of ?r devs] unfolding cand_ok_def l
      by (auto simp: update_conv' distinct_update)
    show ?thesis
    proof (cases "enrolled cand sid r0 \<or> \<not> ok")
      case True
      with "2.prems" "2.IH"(2) Some p i2 show ?thesis by (auto simp: Let_def split: if_splits)
    next
      case False
      with "2.prems"(4) Some p have "enroll_loop ios sids devs (AList.update sid \<lparr>sr_Epoch = ReadEpoch ?r,
          sr_Revision = ?n, sr_Version = (if ?n > 0 then 1 else 0)\<rparr> cand) True s2 = (res, t)"
        by (simp add: Let_def del: if_split_asm split del: if_split)
      with "2.IH"(3) [OF Some _ refl refl refl p [symmetric] _ i2(1) u2 c] False i2(3) show ?thesis by simp
    qed
  qed
qed auto

lemma ensureShared_inv:
  assumes "durable_inv s" and "unmet ios s"
  shows "durable_inv (snd (ensureSharedReadsLocked ios i sids devs s))"
proof -
  obtain res s1 where e: "enroll_loop ios sids devs (copySharedReadsLocked s) False s = (res, s1)"
    by (cases "enroll_loop ios sids devs (copySharedReadsLocked s) False s")
  have "cand_ok s (copySharedReadsLocked s)"
    using assms(1) distinct_copy [of s]
    by (auto simp: cand_ok_def durable_inv_def map_of_copy reads_ok_def split: option.splits if_splits)
  note x = enroll_inv [OF assms this e]
  have w: "durable_inv s2 \<and> (ok \<longrightarrow> durable_inv (s2\<lparr>sharedReads := cand\<rparr>))"
    if "writeSharedReadsLocked i cand s1 = (ok, s2)" "res = Some (cand, b)" "\<not> sharedReadLoadErr s" for ok s2 cand b
    using inv_write_shared [OF _ that(1)] x that shared_of_eq(6) [of s1 s] by (auto simp: cand_ok_def)
  show ?thesis
  proof (cases res)
    case (Some cb)
    then obtain cand b where r: "res = Some (cand, b)" by (cases cb) auto
    obtain ok s2 where "writeSharedReadsLocked i cand s1 = (ok, s2)" by (cases "writeSharedReadsLocked i cand s1")
    with w [OF this r] r e x assms show ?thesis by (auto simp: ensureSharedReadsLocked_def split: bool.splits)
  qed (use x e assms in \<open>simp add: ensureSharedReadsLocked_def\<close>)
qed

section \<open>The store as a step system\<close>

inductive store_step :: "journal \<Rightarrow> journal \<Rightarrow> bool" where
  st_runtime: "runtime_step s t \<Longrightarrow> fresh_epochs s t \<Longrightarrow> store_step s t"
| st_mark: "store_step s (snd (MarkSharedRead digest i sid epoch n token s))"
| st_shared: "unmet ios s \<Longrightarrow> store_step s (snd (SharedSnapshot ios i dev sids devs s))"
| st_epoch: "fresh_epochs s (snd (SourceEpoch i sid s)) \<Longrightarrow> store_step s (snd (SourceEpoch i sid s))"

lemma SourceEpoch_inv:
  assumes "durable_inv s" and "fresh_epochs s (snd (SourceEpoch i sid s))"
  shows "durable_inv (snd (SourceEpoch i sid s))"
proof (cases "sid = []")
  case False
  let ?t = "put_record sid (ensured i sid s) s"
  obtain ok u where p: "persistReadBoundaryLocked i (ensured i sid s) (Revision (ensured i sid s)) ?t = (ok, u)"
    by (cases "persistReadBoundaryLocked i (ensured i sid s) (Revision (ensured i sid s)) ?t")
  have u: "snd (SourceEpoch i sid s) = u" using False p by (simp add: SourceEpoch_def ensureLocked_def split: bool.splits)
  have ru: "records u = records ?t" using persist_records [of i "ensured i sid s" _ ?t] p by (metis snd_conv)
  have "fresh_epochs s ?t" using assms(2) lookup_records [OF ru] by (simp add: u fresh_epochs_def)
  moreover have "?t = snd (Snapshot i [] [sid] s)" by (simp add: Snapshot_def ensureLocked_def Let_def)
  ultimately have "durable_inv ?t" using runtime_step_durable [OF _ _ assms(1)] rt_snapshot by metis
  from persist_inv [OF this p] show ?thesis by (simp add: u)
qed (use assms in \<open>simp add: SourceEpoch_def\<close>)

lemma store_step_inv: "store_step s t \<Longrightarrow> durable_inv s \<Longrightarrow> durable_inv t"
proof (induction rule: store_step.induct)
  case (st_shared ios s i dev sids devs)
  then show ?case using ensureShared_inv [of s ios i sids devs]
    by (auto simp: SharedSnapshot_def split: prod.splits option.splits)
qed (simp_all add: runtime_step_durable Mark_inv SourceEpoch_inv)

section \<open>Restarting\<close>

lemma heal_epoch [simp]: "ReadEpoch (heal_record r) = ReadEpoch r"
  by (simp add: heal_record_def Let_def)

definition same_ids :: "record_table \<Rightarrow> record_table \<Rightarrow> bool" where
  "same_ids rows rows' \<longleftrightarrow> (\<forall>sid r. map_of rows' sid = Some r \<longrightarrow>
     (\<exists>r0. map_of rows sid = Some r0 \<and> ReadEpoch r = ReadEpoch r0 \<and> Revision r = Revision r0))"

lemma same_ids_trans: "same_ids a b \<Longrightarrow> same_ids b c \<Longrightarrow> same_ids a c"
  unfolding same_ids_def by metis

lemma same_ids_heal: "same_ids rows (map (\<lambda>(k, r). (k, heal_record r)) rows)"
  by (auto simp: same_ids_def map_of_map)

lemma same_ids_cursor: "same_ids rows (apply_cursor e rows)"
  by (auto simp: same_ids_def apply_cursor_def Let_def update_conv' split: option.splits)

lemma same_ids_log: "same_ids rows (fold apply_cursor es rows)"
proof (induction es arbitrary: rows)
  case (Cons e es)
  from same_ids_trans [OF same_ids_cursor Cons] show ?case by simp
qed (simp add: same_ids_def)

lemma map_of_filter_key: "map_of (filter (\<lambda>(k, r). P k) rows) sid = (if P sid then map_of rows sid else None)"
  by (induction rows) auto

lemma cap_lookup: "lookup sid (enforceCapLocked s) = Some r \<Longrightarrow> lookup sid s = Some r"
  by (auto simp: enforceCapLocked_def Let_def lookup_def map_of_filter_key split: if_splits)

lemma load_from:
  assumes "has_path s" and "disk_snapshot s = Some rows" and "lookup sid (load s) = Some r"
  shows "\<exists>r0. map_of rows sid = Some r0 \<and> ReadEpoch r = ReadEpoch r0 \<and> Revision r = Revision r0"
proof -
  have "map_of (fold apply_cursor (disk_cursors s) (map (\<lambda>(k, r). (k, heal_record r)) rows)) sid = Some r"
    using cap_lookup [OF assms(3) [unfolded load_def Let_def]] assms(1,2)
    by (simp add: loadCursorLog_def lookup_def)
  moreover have "same_ids rows (fold apply_cursor (disk_cursors s) (map (\<lambda>(k, r). (k, heal_record r)) rows))"
    by (rule same_ids_trans [OF same_ids_heal same_ids_log])
  ultimately show ?thesis unfolding same_ids_def by blast
qed

lemma load_shared_other:
  "sid \<noteq> fst row \<Longrightarrow> lookup sid (load_shared_row i row s) = lookup sid s
     \<and> map_of (sharedReads (load_shared_row i row s)) sid = map_of (sharedReads s) sid"
  by (auto simp: load_shared_row_def lookup_def put_record_def update_conv' split: prod.splits option.splits)

lemma load_shared_others:
  "sid \<notin> fst ` set rows \<Longrightarrow> lookup sid (fold (load_shared_row i) rows s) = lookup sid s
     \<and> map_of (sharedReads (fold (load_shared_row i) rows s)) sid = map_of (sharedReads s) sid"
  by (induction rows arbitrary: s) (simp_all add: load_shared_other)

lemma load_shared_found:
  assumes "distinct (map fst rows)" and "map_of rows sid = Some read"
  shows "lookup sid (fold (load_shared_row i) rows s) = lookup sid (load_shared_row i (sid, read) s)
    \<and> map_of (sharedReads (fold (load_shared_row i) rows s)) sid
      = map_of (sharedReads (load_shared_row i (sid, read) s)) sid"
  using assms
proof (induction rows arbitrary: s)
  case (Cons row rows)
  show ?case
  proof (cases "fst row = sid")
    case True
    with Cons.prems have "row = (sid, read)" "sid \<notin> fst ` set rows" by (cases row, auto)+
    with load_shared_others [of sid rows i] show ?thesis by simp
  next
    case False
    with Cons have "map_of rows sid = Some read" "distinct (map fst rows)" by (cases row, auto)+
    from Cons.IH [OF this(2,1)] load_shared_other [OF False [symmetric], of i s] show ?thesis
      by (auto simp: load_shared_row_def lookup_def put_record_def update_conv' split: option.splits prod.splits)
  qed
qed simp

text \<open>
  What a restarted process finds: the shared reads, which were synced, and a snapshot that is the one
  of the crashed process or, after a loss of power, the last synced one. The cursor log may have lost
  anything.
\<close>

definition disk_image :: "journal \<Rightarrow> journal \<Rightarrow> bool" where
  "disk_image t u \<longleftrightarrow> has_path u \<and> disk_shared u = disk_shared t \<and> disk_snapshot u \<in> {disk_snapshot t, disk_synced t}"

lemma restart_keeps_row:
  assumes "has_path u" and "on_disk (disk_snapshot u) sid epoch n" and "epoch \<noteq> []"
    and "disk_shared u = SharedRows rows" and "distinct (map fst rows)" and "map_of rows sid = Some read"
    and "sr_Epoch read = epoch" and "sr_Revision read = n" and "lookup sid (New_store j u) = Some r'"
  shows "ReadEpoch r' = epoch \<and> n \<le> Revision r' \<and> map_of (sharedReads (New_store j u)) sid = Some read"
proof -
  let ?u = "u\<lparr>records := [], sharedReads := [], persistedRecords := Map.empty, dirty := False, timer := False,
              sharedReadLoadErr := False\<rparr>"
  have keep: "has_path (load ?u) = has_path u" "disk_shared (load ?u) = disk_shared u"
    by (simp_all add: load_def loadCursorLog_def enforceCapLocked_def Let_def)
  have new: "New_store j u = fold (load_shared_row j) rows (load ?u)"
    using assms(1,4) keep by (simp add: New_store_def loadSharedReads_def)
  note found = load_shared_found [OF assms(5,6), of j "load ?u", folded new]
  from found assms(9) obtain r1 where r1: "lookup sid (load ?u) = Some r1"
    by (auto simp: load_shared_row_def split: option.splits)
  obtain d where d: "disk_snapshot u = Some d" using assms(2) by (auto simp: on_disk_def)
  from load_from [OF _ _ r1, of d] d assms(1,2) have "ReadEpoch r1 = epoch" "n \<le> Revision r1"
    by (auto simp: on_disk_def)
  with found r1 assms(3,7,8,9) show ?thesis by (auto simp: load_shared_row_def update_conv' lookup_def)
qed

text \<open>A process that starts on files all of which have been synced.\<close>

definition synced_disk :: "io \<Rightarrow> journal \<Rightarrow> bool" where
  "synced_disk j d \<longleftrightarrow>
     has_path d \<and> disk_synced d = disk_snapshot d
     \<and> (\<forall>rows. disk_snapshot d = Some rows \<longrightarrow> distinct (map fst rows)
          \<and> (\<forall>(k, r)\<in>set rows. r_SessionID r = k \<and> io_epoch j k \<noteq> ReadEpoch r))
     \<and> (\<forall>rows. disk_shared d = SharedRows rows \<longrightarrow> distinct (map fst rows))
     \<and> (\<forall>k. io_epoch j k \<noteq> [])"

definition rows_ok :: "record_table \<Rightarrow> bool" where
  "rows_ok rows \<longleftrightarrow> distinct (map fst rows) \<and> (\<forall>(k, r)\<in>set rows. r_SessionID r = k)"

lemma rows_ok_iff: "rows_ok rows \<longleftrightarrow> distinct (map fst rows) \<and> (\<forall>k r. map_of rows k = Some r \<longrightarrow> r_SessionID r = k)"
  by (auto simp: rows_ok_def)

lemma heal_ID [simp]: "r_SessionID (heal_record r) = r_SessionID r"
  by (simp add: heal_record_def Let_def)

lemma rows_ok_heal: "rows_ok rows \<Longrightarrow> rows_ok (map (\<lambda>(k, r). (k, heal_record r)) rows)"
  by (auto simp: rows_ok_def comp_def case_prod_unfold)

lemma rows_ok_cursor: "rows_ok rows \<Longrightarrow> rows_ok (apply_cursor e rows)"
  by (auto simp: rows_ok_iff apply_cursor_def Let_def update_conv' distinct_update
      simp del: map_of_eq_Some_iff split: option.splits if_splits)

lemma rows_ok_log: "rows_ok rows \<Longrightarrow> rows_ok (fold apply_cursor es rows)"
  by (induction es arbitrary: rows) (simp_all add: rows_ok_cursor)

lemma cap_keys: "keys_ok s \<Longrightarrow> keys_ok (enforceCapLocked s)"
  by (auto simp: keys_ok_def enforceCapLocked_def Let_def distinct_map_filter)

lemma load_inv:
  assumes "synced_disk j d"
    and u: "u = d\<lparr>records := [], sharedReads := [], persistedRecords := Map.empty, dirty := False,
                 timer := False, sharedReadLoadErr := False\<rparr>"
  shows "durable_inv (load u)" and "shared_of (load u) = ([], disk_shared d, False, True)"
    and "\<And>k. io_epoch j k \<notin> known_epochs (load u) k"
proof -
  show sh: "shared_of (load u) = ([], disk_shared d, False, True)"
    using assms by (simp add: load_def loadCursorLog_def Let_def synced_disk_def) (simp add: shared_of_def)
  have path: "has_path u" "disk_snapshot u = disk_snapshot d" "disk_synced u = disk_snapshot u" "records u = []"
    using assms by (simp_all add: synced_disk_def)
  obtain rows where rows: "rows = (case disk_snapshot u of None \<Rightarrow> [] | Some rows \<Rightarrow> rows)" by simp
  have t: "rows_ok rows" and ep: "\<And>k r. map_of rows k = Some r \<Longrightarrow> io_epoch j k \<noteq> ReadEpoch r"
    using assms(1) path(2) map_of_SomeD rows by (fastforce simp: synced_disk_def rows_ok_def split: option.splits)+
  have load: "load u = enforceCapLocked (u\<lparr>persistedRecords := written_marks True (map (\<lambda>(k, r). (k, heal_record r)) rows),
      records := fold apply_cursor (disk_cursors u) (map (\<lambda>(k, r). (k, heal_record r)) rows)\<rparr>)"
    using path rows by (simp add:  load_def loadCursorLog_def Let_def split: option.splits)
  have disk: "disk_of (load u) = (written_marks True (map (\<lambda>(k, r). (k, heal_record r)) rows), disk_snapshot u, disk_snapshot u)"
    using path(3) by (simp add: load) (simp add: disk_of_def)
  have keys: "keys_ok (load u)"
    unfolding load using rows_ok_log [OF rows_ok_heal [OF t]] by (intro cap_keys) (simp add: keys_ok_def rows_ok_def)
  have from_rows: "disk_snapshot u = Some rows" if "map_of rows k \<noteq> None" for k
    using that rows by (auto split: option.splits)
  have marks: "marks_ok (load u)"
    unfolding marks_ok_def
  proof (intro allI impI)
    fix sid r m assume h: "lookup sid (load u) = Some r" "persistedRecords (load u) sid = Some m" "p_epoch m = ReadEpoch r"
    from h(2) disk obtain r0 where r0: "map_of rows sid = Some r0" "m = \<lparr>p_revision = Revision r0, p_epoch = ReadEpoch r0, p_durable = True\<rparr>"
      by (auto simp: disk_of_def written_marks_def map_of_map)
    then have "disk_snapshot u = Some rows" using from_rows [of sid] by simp
    with load_from [OF path(1) this h(1)] r0 disk show "mark_ok (load u) sid r m"
      by (auto simp: mark_ok_def on_disk_def disk_of_def)
  qed
  show "durable_inv (load u)"
    using keys marks sh by (simp add: durable_inv_def reads_ok_def reads_distinct_def load_refused_def shared_of_def)
  show "io_epoch j k \<notin> known_epochs (load u) k" for k
    using disk sh ep [of k] assms(1)
    by (auto simp: known_epochs_def disk_of_def shared_of_def written_marks_def map_of_map synced_disk_def)
qed

lemma load_row_inv:
  assumes "durable_inv s" and "io_epoch j (fst row) \<notin> known_epochs s (fst row)" and "\<not> sharedReadLoadErr s"
  shows "durable_inv (load_shared_row j row s) \<and> \<not> sharedReadLoadErr (load_shared_row j row s)"
proof -
  obtain sid read where row: "row = (sid, read)" by (cases row)
  have rot: "durable_inv (put_record sid (r\<lparr>ReadEpoch := io_epoch j sid\<rparr>) s)" if "lookup sid s = Some r" for r
  proof -
    let ?t = "put_record sid (r\<lparr>ReadEpoch := io_epoch j sid\<rparr>) s"
    have f: "follows s ?t" using assms(2) row by (auto simp: follows_def)
    have "marks_ok ?t" using marks_step [OF _ f] assms(1) disk_step_same by (simp add: durable_inv_def)
    moreover have "reads_ok ?t" using reads_step [OF _ f] assms(1) by (simp add: durable_inv_def)
    moreover have "keys_ok ?t"
      using assms(1) that by (auto simp: durable_inv_def keys_ok_iff) (simp add: put_record_def distinct_update)
    ultimately show ?thesis using assms(1) shared_of_eq [of ?t s] by (simp add: durable_inv_def)
  qed
  moreover have "durable_inv (s\<lparr>sharedReads := AList.update sid read (sharedReads s)\<rparr>)"
    if "lookup sid s = Some r" "sr_Revision read \<le> Revision r" for r
    using assms(1,3) that
    by (auto simp: durable_inv_def reads_ok_def update_conv' keys_ok_def reads_distinct_def distinct_update
        load_refused_def lookup_def simp del: map_of_eq_Some_iff)
  ultimately show ?thesis
    using assms(1,3) row by (auto simp: load_shared_row_def not_less split: option.splits)
qed

lemma load_row_known: "k \<noteq> fst row \<Longrightarrow> known_epochs (load_shared_row j row s) k = known_epochs s k"
  by (auto simp: load_shared_row_def known_epochs_def update_conv' split: prod.splits option.splits)

lemma load_rows_inv:
  assumes "durable_inv s" and "distinct (map fst rows)" and "\<not> sharedReadLoadErr s"
    and "\<forall>k\<in>fst ` set rows. io_epoch j k \<notin> known_epochs s k"
  shows "durable_inv (fold (load_shared_row j) rows s)"
  using assms
proof (induction rows arbitrary: s)
  case (Cons row rows)
  have "durable_inv (load_shared_row j row s) \<and> \<not> sharedReadLoadErr (load_shared_row j row s)"
    using Cons.prems by (intro load_row_inv) auto
  moreover have "\<forall>k\<in>fst ` set rows. io_epoch j k \<notin> known_epochs (load_shared_row j row s) k"
  proof
    fix k assume k: "k \<in> fst ` set rows"
    have "k \<noteq> fst row" using Cons.prems(2) k by (intro notI) simp
    with load_row_known k Cons.prems(4) show "io_epoch j k \<notin> known_epochs (load_shared_row j row s) k" by auto
  qed
  ultimately show ?case using Cons.IH [of "load_shared_row j row s"] Cons.prems(2) by simp
qed simp

lemma New_store_inv:
  assumes "synced_disk j d"
  shows "durable_inv (New_store j d)"
proof -
  let ?u = "d\<lparr>records := [], sharedReads := [], persistedRecords := Map.empty, dirty := False, timer := False,
              sharedReadLoadErr := False\<rparr>"
  note l = load_inv [OF assms refl]
  have e: "\<not> sharedReadLoadErr (load ?u)" "has_path (load ?u)" "disk_shared (load ?u) = disk_shared d" "sharedReads (load ?u) = []"
    using l(2) by (auto simp: shared_of_def)
  show ?thesis
  proof (cases "disk_shared d")
    case (SharedRows rows)
    then have "distinct (map fst rows)" using assms by (simp add: synced_disk_def)
    from load_rows_inv [OF l(1) this e(1)] l(3) show ?thesis
      using SharedRows e by (simp add: New_store_def loadSharedReads_def)
  next
    case SharedUnreadable
    with l(1) e show ?thesis
      by (simp add: New_store_def loadSharedReads_def durable_inv_def keys_ok_def marks_ok_def mark_ok_def
          reads_ok_def reads_distinct_def load_refused_def lookup_def)
  qed (use l(1) e in \<open>simp add: New_store_def loadSharedReads_def\<close>)
qed

definition store_start :: "journal \<Rightarrow> bool" where
  "store_start s \<longleftrightarrow> (\<exists>path. s = empty_journal path) \<or> (\<exists>j d. s = New_store j d \<and> synced_disk j d)"

lemma store_start_inv: "store_start s \<Longrightarrow> durable_inv s"
proof -
  have "durable_inv (empty_journal path)" for path
    by (simp add: durable_inv_def keys_ok_def marks_ok_def reads_ok_def reads_distinct_def load_refused_def
        lookup_def empty_journal_def)
  then show "store_start s \<Longrightarrow> durable_inv s" using New_store_inv by (auto simp: store_start_def)
qed

interpretation store_sys: step_system store_start store_step durable_inv
  using store_start_inv store_step_inv by unfold_locales blast+


lemma demo_store:
  "store_step\<^sup>*\<^sup>* (empty_journal True) demo_journal" "has_path demo_journal" "store_start (empty_journal True)"
proof -
  have "fresh_epochs (empty_journal True) demo_journal"
    by (auto simp: fresh_epochs_def lookup_def demo_journal_record known_epochs_def empty_journal_def
        demo_record_def new_record_def)
  then show "store_step\<^sup>*\<^sup>* (empty_journal True) demo_journal"
    unfolding demo_journal_def using st_runtime rt_update empty_room by blast
  show "has_path demo_journal"
    using runtime_step_shared [OF rt_update [OF empty_room]] unfolding demo_journal_def
    by (fastforce simp: shared_of_def empty_journal_def)
  show "store_start (empty_journal True)" by (auto simp: store_start_def)
qed

lemma demo_journal_full:
  "demo_journal =
     \<lparr>records = [(''s'', demo_record)], sharedReads = [],
      persistedRecords = written_marks False [(''s'', demo_record)], has_path = True, dirty = False,
      timer = False, sharedReadLoadErr = False, disk_snapshot = Some [(''s'', demo_record)], disk_synced = None,
      disk_cursors = [], disk_shared = SharedMissing\<rparr>"
  by (simp add: demo_journal_def Update_def ensureLocked_def ensured_def lookup_def empty_journal_def
      new_record_def heal_record_def Let_def active_phase_def defaultStageForPhase_def advanced_def
      starts_turn_def max0_def put_record_def enforceCapLocked_def maxSessions_def demo_io_def
      demo_record_def u64_succ_def saveLocked_def writeLocked_def writeRuntimeSnapshotLocked_def)

definition demo_shared :: journal where
  "demo_shared = snd (SharedSnapshot (\<lambda>_. demo_io) demo_io ''phone'' [''s''] [] demo_journal)"

lemma demo_shared_full:
  "demo_shared = demo_journal\<lparr>sharedReads := [(''s'', \<lparr>sr_Epoch = ''e1'', sr_Revision = 0, sr_Version = 0\<rparr>)],
     persistedRecords := written_marks True [(''s'', demo_record)], disk_synced := Some [(''s'', demo_record)],
     disk_shared := SharedRows [(''s'', \<lparr>sr_Epoch = ''e1'', sr_Revision = 0, sr_Version = 0\<rparr>)]\<rparr>"
  by (auto simp: demo_shared_def SharedSnapshot_def ensureSharedReadsLocked_def demo_journal_full lookup_def
      enrolled_def copySharedReadsLocked_def demo_record_def new_record_def imported_read_def Let_def
      persistReadBoundaryLocked_def mark_of_def written_marks_def syncSnapshotFile_def demo_io_def
      writeSharedReadsLocked_def)

lemma demo_shared_reachable: "store_step\<^sup>*\<^sup>* (empty_journal True) demo_shared"
proof -
  have "unmet (\<lambda>_. demo_io) demo_journal"
    by (auto simp: unmet_def lookup_def demo_journal_record demo_record_def new_record_def)
  then have "store_step demo_journal demo_shared" unfolding demo_shared_def by (rule st_shared)
  with demo_store(1) show ?thesis by simp
qed

lemma demo_mark:
  "MarkSharedRead (\<lambda>_. ''d'') demo_io ''s'' ''e1'' 1 ''d'' demo_shared =
     (Inr (sharedReadState demo_record \<lparr>sr_Epoch = ''e1'', sr_Revision = 1, sr_Version = 1\<rparr>, True),
      demo_shared\<lparr>sharedReads := [(''s'', \<lparr>sr_Epoch = ''e1'', sr_Revision = 1, sr_Version = 1\<rparr>)],
        disk_shared := SharedRows [(''s'', \<lparr>sr_Epoch = ''e1'', sr_Revision = 1, sr_Version = 1\<rparr>)]\<rparr>)"
  by (simp add: MarkSharedRead_def demo_shared_full demo_journal_full lookup_def demo_record_def new_record_def
      readBoundaryTokenLocked_def persistReadBoundaryLocked_def mark_of_def written_marks_def
      copySharedReadsLocked_def writeSharedReadsLocked_def demo_io_def u64_succ_def Let_def)

definition demo_power_loss :: "journal \<Rightarrow> journal" where
  "demo_power_loss t = t\<lparr>disk_snapshot := disk_synced t, disk_cursors := []\<rparr>"

lemma demo_fields: "Revision demo_record = 1" "ReadEpoch demo_record = ''e1''"
  by (simp_all add: demo_record_def new_record_def)

lemma heal_demo: "heal_record demo_record = demo_record"
  by (simp add: heal_record_def demo_record_def new_record_def Let_def)


end
