(* ===== verification/Runtime_Restart.thy ===== *)
theory Runtime_Restart
  imports Runtime_Durability
begin

text \<open>
  What a new process finds and does: turns the old one left behind are interrupted once, read
  boundaries are honest and bound to the results they were taken from, and the one gap the cursor log
  leaves after a crash.
\<close>

section \<open>Stale turns\<close>

lemma RecoverAll_records:
  "records (snd (RecoverAllStale i s)) = map (\<lambda>(k, r). (k, interrupt_stale (io_now i) r)) (records s)"
  by (simp add: RecoverAllStale_def Let_def)

text \<open>
  Recovery settles every turn a dead process left behind, and nothing else: afterwards no session
  is in an active phase; a session that was keeps its identity and read epoch and its ledger grows by
  exactly one uncertain entry for the request that was running; every other session is untouched; one
  view per recovered session is reported; and a second recovery changes nothing.
\<close>

theorem recovery_settles_stale_turns:
  assumes t_def: "t = snd (RecoverAllStale i s)"
  shows "(\<forall>sid r. lookup sid t = Some r \<longrightarrow> \<not> active_phase (Phase r))
    \<and> (\<forall>sid. (lookup sid t = None) = (lookup sid s = None))
    \<and> (\<forall>sid r r'. lookup sid s = Some r \<and> lookup sid t = Some r' \<longrightarrow>
        (if active_phase (Phase r)
         then Phase r' = ''interrupted'' \<and> ActiveRequestID r' = [] \<and> QueueLength r' = 0
              \<and> ReadEpoch r' = ReadEpoch r \<and> AckedByDevice r' = AckedByDevice r \<and> ReadByDevice r' = ReadByDevice r
              \<and> (\<exists>e. Terminals r' = Terminals r @ [e] \<and> t_RequestID e = ActiveRequestID r
                   \<and> t_Status e = ''interrupted'' \<and> t_Source e = ''bridge_recovery'' \<and> t_Revision e = Revision r')
         else r' = r))
    \<and> length (fst (RecoverAllStale i s)) = length (filter (\<lambda>(k, r). active_phase (Phase r)) (records s))
    \<and> (\<forall>j. RecoverAllStale j t = ([], t))"
proof -
  have stale: "\<not> active_phase (Phase (interrupt_stale now r))" for now r
    by (simp add: interrupt_stale_def interrupted_def active_phase_def)
  have l: "lookup sid t = map_option (interrupt_stale (io_now i)) (lookup sid s)" for sid
    by (simp add: t_def RecoverAll_lookup)
  have again: "RecoverAllStale j t = ([], t)" for j
  proof -
    have "\<not> active_phase (Phase (snd x))" if "x \<in> set (records t)" for x
      using that stale by (auto simp: t_def RecoverAll_records)
    then have none: "filter (\<lambda>(k, r). active_phase (Phase r)) (records t) = []"
      and same: "map (\<lambda>(k, r). (k, interrupt_stale (io_now j) r)) (records t) = records t"
      by (auto simp: filter_empty_conv interrupt_stale_def intro!: map_idI)
    show ?thesis unfolding RecoverAllStale_def none same by simp
  qed
  have "length (fst (RecoverAllStale i s)) = length (filter (\<lambda>(k, r). active_phase (Phase r)) (records s))"
    by (simp add: RecoverAllStale_def Let_def)
  moreover have "\<not> active_phase (Phase r)" if "lookup sid t = Some r" for sid r
    using that stale by (auto simp: l)
  moreover have "if active_phase (Phase r)
         then Phase r' = ''interrupted'' \<and> ActiveRequestID r' = [] \<and> QueueLength r' = 0
              \<and> ReadEpoch r' = ReadEpoch r \<and> AckedByDevice r' = AckedByDevice r \<and> ReadByDevice r' = ReadByDevice r
              \<and> (\<exists>e. Terminals r' = Terminals r @ [e] \<and> t_RequestID e = ActiveRequestID r
                   \<and> t_Status e = ''interrupted'' \<and> t_Source e = ''bridge_recovery'' \<and> t_Revision e = Revision r')
         else r' = r" if "lookup sid s = Some r" "lookup sid t = Some r'" for sid r r'
    using that by (auto simp: l interrupt_stale_def interrupted_def)
  moreover have "(lookup sid t = None) = (lookup sid s = None)" for sid by (simp add: l)
  ultimately show ?thesis using again by blast
qed

lemma recovery_settles_stale_turns_witness:
  "\<exists>r'. lookup ''s'' (snd (RecoverAllStale demo_io demo_journal)) = Some r' \<and> Phase r' = ''interrupted''"
proof -
  have "active_phase (Phase demo_record)" by (simp add: demo_record_def active_phase_def)
  moreover obtain r' where "lookup ''s'' (snd (RecoverAllStale demo_io demo_journal)) = Some r'"
    using recovery_settles_stale_turns [OF refl, of demo_io demo_journal] demo_lookup by fastforce
  ultimately show ?thesis
    using recovery_settles_stale_turns [OF refl, of demo_io demo_journal] demo_lookup by auto
qed

section \<open>Read boundaries\<close>

text \<open>
  A shared boundary is bound to the results it was taken from: if the digest of boundaries is
  injective, a read that is accepted with a token names the session's current epoch and the very
  terminal result that was newest at or below the boundary when the token was issued, even if the
  journal was restored in between. The accepted boundary is strictly newer than the stored one and
  within the revision, its version is one higher, results above it stay unread, and the boundary of
  another session is kept or dropped as stale, never moved.
\<close>

theorem shared_read_is_bound:
  assumes "inj digest" and "ReadBoundaryToken digest sid epoch n s0 = Inr token" and "lookup sid s0 = Some r0"
    and mark: "MarkSharedRead digest i sid epoch' n' token s = (Inr (st, True), t)"
    and "reads_distinct s"
  shows "\<exists>r read. lookup sid s = Some r \<and> map_of (sharedReads s) sid = Some read
    \<and> epoch' = epoch \<and> ReadEpoch r = epoch \<and> n' = n \<and> read_boundary r n = read_boundary r0 n
    \<and> sr_Revision read < n \<and> n \<le> Revision r
    \<and> st = sharedReadState r \<lparr>sr_Epoch = epoch, sr_Revision = n, sr_Version = u64_succ (sr_Version read)\<rparr>
    \<and> srs_Unread st = unread_above n (Terminals r)
    \<and> records t = records s
    \<and> (\<forall>k. k \<noteq> sid \<longrightarrow> map_of (sharedReads t) k \<in> {map_of (sharedReads s) k, None})"
proof -
  from mark obtain r read read' s1 s2 cand where
    r: "lookup sid s = Some r" "map_of (sharedReads s) sid = Some read" "epoch' = ReadEpoch r" "epoch' = sr_Epoch read"
      "n' \<le> Revision r" "sr_Revision read < n'"
    and tok: "token = readBoundaryTokenLocked digest r n'"
    and p: "persistReadBoundaryLocked i r n' s = (True, s1)"
    and read': "read' = read\<lparr>sr_Revision := n', sr_Version := u64_succ (sr_Version read)\<rparr>"
    and cand: "cand = AList.update sid read' (copySharedReadsLocked s1)"
    and w: "writeSharedReadsLocked i cand s1 = (True, s2)" "t = s2\<lparr>sharedReads := cand\<rparr>"
    and st: "st = sharedReadState r read'"
    by (rule Mark_accepted)
  from assms(2,3) have "token = digest (read_boundary r0 n)" "epoch = ReadEpoch r0"
    by (auto simp: ReadBoundaryToken_def readBoundaryTokenLocked_def split: if_splits)
  with tok assms(1) have eq: "read_boundary r n' = read_boundary r0 n" "epoch = ReadEpoch r0"
    by (auto simp: readBoundaryTokenLocked_def inj_eq)
  then have same: "n' = n" "ReadEpoch r = epoch" by (simp_all add: read_boundary_def Let_def)
  have s1: "records s1 = records s" "sharedReads s1 = sharedReads s" "reads_distinct s1"
    using p persist_records [of i r n' s] shared_of_eq [OF persist_shared, of i r n' s] assms(5) by simp_all
  have rows: "records t = records s" using w s1(1) by (auto simp: writeSharedReadsLocked_def split: if_splits write_result.splits)
  have "map_of (sharedReads t) k \<in> {map_of (sharedReads s) k, None}" if "k \<noteq> sid" for k
    using that s1 by (simp add: w(2) cand update_conv' map_of_copy split: option.splits)
  with r same eq rows st read' show ?thesis by (cases read) (simp add: sharedReadState_def)
qed

text \<open>An injective digest: the fields of a boundary, each preceded by its length in unary.\<close>

definition unary :: "nat \<Rightarrow> string" where
  "unary n = replicate n CHR ''1'' @ ''0''"

definition demo_digest :: "boundary \<Rightarrow> string" where
  "demo_digest b =
     (case b of (ep, n, m, rid, stat, at') \<Rightarrow>
        unary (length ep) @ ep @ unary n @ unary m @ unary (length rid) @ rid @ unary (length stat) @ stat
        @ unary (nat at') @ unary (nat (- at')))"

lemma unary_cancel [simp]: "unary n @ xs = unary m @ ys \<longleftrightarrow> n = m \<and> xs = ys"
  unfolding unary_def by (induction n arbitrary: m; case_tac m) auto

lemma demo_digest_inj: "inj demo_digest"
proof (rule injI)
  fix x y assume h: "demo_digest x = demo_digest y"
  obtain e n m rid st a where x: "x = (e, n, m, rid, st, a)" by (cases x)
  obtain e' n' m' rid' st' a' where y: "y = (e', n', m', rid', st', a')" by (cases y)
  have "unary p @ unary q = unary p' @ unary q' \<longleftrightarrow> p = p' \<and> q = q'" for p q p' q'
    using unary_cancel [of q "[]" q' "[]"] by simp
  moreover have "p = q" if "nat p = nat q" "nat (- p) = nat (- q)" for p q :: int using that by linarith
  ultimately show "x = y" using h by (auto simp: x y demo_digest_def)
qed

lemma shared_read_is_bound_witness:
  "\<exists>r. lookup ''s'' demo_shared = Some r \<and> 1 \<le> Revision r"
proof -
  let ?tok = "demo_digest (read_boundary demo_record 1)"
  have d: "lookup ''s'' demo_shared = Some demo_record"
    by (simp add: demo_shared_full demo_journal_full lookup_def)
  have t: "ReadBoundaryToken demo_digest ''s'' ''e1'' 1 demo_shared = Inr ?tok"
    by (simp add: ReadBoundaryToken_def d demo_fields readBoundaryTokenLocked_def)
  have ne: "?tok \<noteq> []" by (simp add: demo_digest_def read_boundary_def unary_def Let_def)
  have "fst (MarkSharedRead demo_digest demo_io ''s'' ''e1'' 1 ?tok demo_shared) =
      Inr (sharedReadState demo_record \<lparr>sr_Epoch = ''e1'', sr_Revision = 1, sr_Version = 1\<rparr>, True)"
    using ne
    by (simp add: MarkSharedRead_def demo_shared_full demo_journal_full lookup_def demo_fields
        readBoundaryTokenLocked_def persistReadBoundaryLocked_def mark_of_def written_marks_def
        copySharedReadsLocked_def writeSharedReadsLocked_def demo_io_def u64_succ_def Let_def
        demo_record_def new_record_def)
  then obtain u where m: "MarkSharedRead demo_digest demo_io ''s'' ''e1'' 1 ?tok demo_shared =
      (Inr (sharedReadState demo_record \<lparr>sr_Epoch = ''e1'', sr_Revision = 1, sr_Version = 1\<rparr>, True), u)"
    by (metis prod.collapse)
  have "reads_distinct demo_shared" by (simp add: reads_distinct_def demo_shared_full)
  from shared_read_is_bound [OF demo_digest_inj t d m this] show ?thesis by blast
qed

text \<open>
  Boundaries are honest and an unreadable ledger is never overwritten. In every state a running
  process reaches, the shared boundary of a session is within its revision, so any later result counts
  as unread. If the ledger could not be read at start, the file is as it was, every shared read is
  refused, and so is every shared snapshot.
\<close>

theorem shared_boundary_is_honest:
  assumes "store_start s0" and "store_step\<^sup>*\<^sup>* s0 s"
  shows "(\<forall>sid r read. lookup sid s = Some r \<and> map_of (sharedReads s) sid = Some read \<and> sr_Epoch read = ReadEpoch r
      \<longrightarrow> sr_Revision read \<le> Revision r
        \<and> (\<forall>e. t_Status e = ''completed'' \<and> t_Revision e > Revision r
             \<longrightarrow> srs_Unread (sharedReadState (r\<lparr>Terminals := Terminals r @ [e]\<rparr>) read)
                 = Suc (srs_Unread (sharedReadState r read))))
    \<and> (sharedReadLoadErr s \<longrightarrow> disk_shared s = SharedUnreadable
        \<and> (\<forall>digest i sid epoch n token.
             MarkSharedRead digest i sid epoch n token s = (Inl ErrSharedReadUnknownSession, s))
        \<and> (\<forall>ios i dev sids devs. SharedSnapshot ios i dev sids devs s = (Inl ErrSharedReadLoad, s)))"
proof -
  have "durable_inv s" using store_sys.reachable_good [OF assms] .
  then have reads: "reads_ok s" and refused: "load_refused s" by (simp_all add: durable_inv_def)
  have "sr_Revision read \<le> Revision r" if "lookup sid s = Some r" "map_of (sharedReads s) sid = Some read"
    "sr_Epoch read = ReadEpoch r" for sid r read
    using reads that by (simp add: reads_ok_def)
  moreover have "srs_Unread (sharedReadState (r\<lparr>Terminals := Terminals r @ [e]\<rparr>) read) = Suc (srs_Unread (sharedReadState r read))"
    if "t_Status e = ''completed''" "sr_Revision read \<le> Revision r" "Revision r < t_Revision e" for r e read
    using that by (simp add: sharedReadState_def unread_above_def)
  moreover have "MarkSharedRead digest i sid epoch n token s = (Inl ErrSharedReadUnknownSession, s)"
    if "sharedReadLoadErr s" for digest i sid epoch n token
    using that refused by (simp add: load_refused_def MarkSharedRead_def split: option.splits)
  moreover have "SharedSnapshot ios i dev sids devs s = (Inl ErrSharedReadLoad, s)"
    if "sharedReadLoadErr s" for ios i dev sids devs
    using that by (simp add: SharedSnapshot_def ensureSharedReadsLocked_def)
  ultimately show ?thesis using refused by (auto simp: load_refused_def)
qed

lemma shared_boundary_is_honest_witness:
  "\<exists>read. map_of (sharedReads demo_shared) ''s'' = Some read \<and> sr_Revision read \<le> 1"
proof -
  have "lookup ''s'' demo_shared = Some demo_record" "Revision demo_record = 1" "ReadEpoch demo_record = ''e1''"
    by (simp_all add: demo_shared_full demo_journal_full lookup_def demo_record_def new_record_def)
  moreover have "map_of (sharedReads demo_shared) ''s'' = Some \<lparr>sr_Epoch = ''e1'', sr_Revision = 0, sr_Version = 0\<rparr>"
    by (simp add: demo_shared_full)
  ultimately show ?thesis
    using shared_boundary_is_honest [OF demo_store(3) demo_shared_reachable] by fastforce
qed

section \<open>The gap of the cursor log\<close>

text \<open>
  A turn runs, the process reports four stages of it within the flush delay, a phone reads the session,
  and the process dies before the delayed write.
\<close>

definition lost_progress :: journal where
  "lost_progress =
     snd (Ack demo_io ''phone'' ''s'' 0 True
       (snd (Progress demo_io ''s'' ''q1'' ''thinking'' []
         (snd (Progress demo_io ''s'' ''q1'' ''waiting_model'' []
           (snd (Progress demo_io ''s'' ''q1'' ''submitting_turn'' []
             (snd (Progress demo_io ''s'' ''q1'' ''starting_thread'' [] demo_journal)))))))))"

text \<open>The new process settles the old turn, runs the next one and completes it.\<close>

definition next_life :: "journal \<Rightarrow> journal" where
  "next_life s =
     snd (Update demo_io ''s'' ''completed'' ''q2'' 0 ''completed'' []
       (snd (Update demo_io ''s'' ''running'' ''q2'' 0 [] []
         (snd (RecoverAllStale demo_io (New_store demo_io s))))))"

definition demo_progress :: "u64 \<Rightarrow> string \<Rightarrow> Record" where
  "demo_progress n stage = demo_record\<lparr>Revision := n, Stage := stage\<rparr>"

definition progress_journal :: "u64 \<Rightarrow> string \<Rightarrow> bool \<Rightarrow> journal" where
  "progress_journal n stage b = demo_journal\<lparr>records := [(''s'', demo_progress n stage)], dirty := b, timer := b\<rparr>"

lemma demo_progress_step:
  assumes "stageRank stage < stageRank stage'" and "stage \<noteq> []" and "stage' \<noteq> []" and "n < 100"
  shows "snd (Progress demo_io ''s'' ''q1'' stage' [] (progress_journal n stage b)) = progress_journal (Suc n) stage' True"
  using assms
  by (auto simp: Progress_def ensureLocked_def ensured_def lookup_def heal_record_def demo_progress_def demo_record_def
      new_record_def Let_def put_record_def progress_refused_def progressed_def scheduleSaveLocked_def demo_journal_full
      demo_io_def u64_succ_def progress_journal_def)

lemma demo_progress_reachable:
  assumes "runtime_step\<^sup>*\<^sup>* (empty_journal True) (progress_journal n stage b)"
    and "stageRank stage < stageRank stage'" and "stage \<noteq> []" and "stage' \<noteq> []" and "n < 100"
  shows "runtime_step\<^sup>*\<^sup>* (empty_journal True) (progress_journal (Suc n) stage' True)"
proof -
  have "room (progress_journal n stage b)"
    using assms(5) by (simp add: progress_journal_def room_def lookup_def demo_progress_def u64_room_def)
  from rt_progress [OF this, of demo_io "''s''" "''q1''" stage' "[]"] assms show ?thesis
    by (simp add: demo_progress_step)
qed

lemma demo_progress_start: "demo_journal = progress_journal 1 ''preparing'' False"
  by (simp add: progress_journal_def demo_journal_full demo_progress_def demo_record_def)

lemma lost_progress_ack: "lost_progress = snd (Ack demo_io ''phone'' ''s'' 0 True (progress_journal 5 ''thinking'' True))"
  unfolding lost_progress_def demo_progress_start
  by (simp add: demo_progress_step stageRank_def numeral_eq_Suc)

lemma lost_progress_full:
  "lost_progress = demo_journal\<lparr>records := [(''s'', acked ''phone'' 5 True (demo_progress 5 ''thinking''))],
     dirty := True, timer := True,
     disk_cursors := [\<lparr>c_SessionID = ''s'', c_DeviceID = ''phone'', c_Acked = 5, c_Read = 5\<rparr>]\<rparr>"
  unfolding lost_progress_ack progress_journal_def
  by (simp add: Ack_def ensureLocked_def ensured_def lookup_def heal_record_def demo_progress_def demo_record_def
      new_record_def Let_def put_record_def ack_revision_def acked_def raise_cursor_def appendCursorLocked_def
      demo_journal_full demo_io_def)

lemma lost_progress_reachable: "runtime_step\<^sup>*\<^sup>* (empty_journal True) lost_progress"
proof -
  have 1: "runtime_step\<^sup>*\<^sup>* (empty_journal True) (progress_journal 1 ''preparing'' False)"
    using demo_journal_reachable unfolding demo_progress_start .
  have 2: "runtime_step\<^sup>*\<^sup>* (empty_journal True) (progress_journal (Suc 1) ''starting_thread'' True)"
    by (rule demo_progress_reachable [OF 1]) (simp_all add: stageRank_def)
  have 3: "runtime_step\<^sup>*\<^sup>* (empty_journal True) (progress_journal (Suc (Suc 1)) ''submitting_turn'' True)"
    by (rule demo_progress_reachable [OF 2]) (simp_all add: stageRank_def)
  have 4: "runtime_step\<^sup>*\<^sup>* (empty_journal True) (progress_journal (Suc (Suc (Suc 1))) ''waiting_model'' True)"
    by (rule demo_progress_reachable [OF 3]) (simp_all add: stageRank_def)
  have "runtime_step\<^sup>*\<^sup>* (empty_journal True) (progress_journal (Suc (Suc (Suc (Suc 1)))) ''thinking'' True)"
    by (rule demo_progress_reachable [OF 4]) (simp_all add: stageRank_def)
  moreover have "Suc (Suc (Suc (Suc 1))) = 5" by simp
  ultimately show ?thesis unfolding lost_progress_ack using rt_ack by (metis rtranclp.rtrancl_into_rtrancl)
qed

definition acked_start :: Record where
  "acked_start = acked ''phone'' 5 True demo_record"

lemma restarted: "records (New_store demo_io lost_progress) = [(''s'', acked_start)]"
  by (simp add: New_store_def loadSharedReads_def load_def loadCursorLog_def lost_progress_full demo_journal_full
      enforceCapLocked_def maxSessions_def Let_def heal_demo apply_cursor_def acked_start_def acked_def)

lemma next_life_record:
  "\<exists>r. lookup ''s'' (next_life lost_progress) = Some r \<and> ReadByDevice r = (\<lambda>_. 0)(''phone'' := 5)
     \<and> map (\<lambda>e. (t_Revision e, t_RequestID e, t_Status e)) (Terminals r) =
        [(2, ''q1'', ''interrupted''), (4, ''q2'', ''completed'')]"
proof -
  have "records (snd (RecoverAllStale demo_io (New_store demo_io lost_progress))) =
      [(''s'', interrupted 1000 acked_start)]"
    unfolding RecoverAll_records restarted
    by (simp add: interrupt_stale_def acked_start_def acked_def demo_record_def
        active_phase_def demo_io_def)
  then show ?thesis
    unfolding next_life_def
    by (simp add: Update_def ensureLocked_def ensured_def lookup_def interrupted_def acked_start_def acked_def
        raise_cursor_def demo_record_def new_record_def heal_record_def Let_def active_phase_def
        defaultStageForPhase_def advanced_def starts_turn_def max0_def put_record_def enforceCapLocked_def
        maxSessions_def demo_io_def u64_succ_def trim_terminals_def)
qed

text \<open>
  A result can be lost to a device after a crash. A device cursor is written at once, progress is
  written with a delay; if the process dies after a device has read progress that was not yet written,
  the new process loads a cursor that is ahead of the revision and never lowers it. The revisions it
  hands out next count as read on that device: in this history the next turn completes, and the result
  is unread on every other device but not on the phone, which has never seen it.
\<close>

theorem crash_hides_next_result:
  "\<exists>s r. runtime_step\<^sup>*\<^sup>* (empty_journal True) s
     \<and> lookup ''s'' (next_life s) = Some r
     \<and> t_Status (last (Terminals r)) = ''completed'' \<and> t_RequestID (last (Terminals r)) = ''q2''
     \<and> v_Unread (viewLocked r ''phone'') = 0 \<and> v_Unread (viewLocked r ''tablet'') = 1"
proof -
  obtain r where l: "lookup ''s'' (next_life lost_progress) = Some r"
    and c: "ReadByDevice r = (\<lambda>_. 0)(''phone'' := 5)"
    and m: "map (\<lambda>e. (t_Revision e, t_RequestID e, t_Status e)) (Terminals r) =
        [(2, ''q1'', ''interrupted''), (4, ''q2'', ''completed'')]"
    using next_life_record by (elim exE conjE)
  from m obtain a b where "Terminals r = [a, b]" "t_Revision a = 2" "t_RequestID a = ''q1''" "t_Status a = ''interrupted''"
    "t_Revision b = 4" "t_RequestID b = ''q2''" "t_Status b = ''completed''"
    by (cases "Terminals r"; cases "tl (Terminals r)") auto
  with c have "v_Unread (viewLocked r ''phone'') = 0" "v_Unread (viewLocked r ''tablet'') = 1"
    "t_Status (last (Terminals r)) = ''completed''" "t_RequestID (last (Terminals r)) = ''q2''"
    by (simp_all add: viewLocked_def unread_above_def Let_def)
  with l lost_progress_reachable show ?thesis by blast
qed

end
