(* ===== verification/Access_Control.thy ===== *)
theory Access_Control
  imports Bridge_Prelude "HOL-Library.AList"
begin

text \<open>
  Who may use the bridge and what needs an approval: device pairing
  (\<^verbatim>\<open>internal/governance/pairing.go\<close>), permission prompts
  (\<^verbatim>\<open>internal/governance/permission.go\<close>) and the writer of a session
  (\<^verbatim>\<open>internal/governance/session_control.go\<close>).

  The clock and the outcome of every file operation are arguments. A file holds the value that was
  encoded last; \<open>None\<close> is a file that is missing or cannot be decoded.
\<close>

section \<open>Pairing\<close>

record pairedDevice =
  pd_Token :: string
  pd_DeviceID :: string
  pd_PairedAt :: int

record pairingFile =
  pf_Version :: nat
  pf_Devices :: "pairedDevice list"
  pf_PairedToken :: string
  pf_PairedDeviceID :: string
  pf_PairedAt :: int

text \<open>\<open>None\<close> as the end of enrollment is Go's zero time, which is before every other.\<close>

record Pairing =
  pr_path :: bool
  devices :: "(string \<times> pairedDevice) list"
  enrollUntil :: "int option"
  pr_disk :: "pairingFile option"

datatype pairing_error = ErrClaimedByAnother | ErrTokenMismatch | ErrPairingDisk

definition initialEnrollmentDuration :: int where
  "initialEnrollmentDuration = 600000"

definition pairingSchemaVersion :: nat where
  "pairingSchemaVersion = 2"

definition NewPairing :: "int \<Rightarrow> bool \<Rightarrow> pairingFile option \<Rightarrow> Pairing" where
  "NewPairing now path disk =
     (let v2 = (case disk of None \<Rightarrow> []
                | Some f \<Rightarrow> fold (\<lambda>d m. if pd_Token d \<noteq> [] then AList.update (pd_Token d) d m else m)
                             (pf_Devices f) []);
          ds = (case disk of None \<Rightarrow> []
                | Some f \<Rightarrow> if v2 = [] \<and> pf_PairedToken f \<noteq> []
                            then [(pf_PairedToken f, \<lparr>pd_Token = pf_PairedToken f, pd_DeviceID = pf_PairedDeviceID f,
                                                      pd_PairedAt = pf_PairedAt f\<rparr>)]
                            else v2)
      in \<lparr>pr_path = path, devices = ds,
          enrollUntil = (if ds = [] then Some (now + initialEnrollmentDuration) else None), pr_disk = disk\<rparr>)"

definition IsLocked :: "Pairing \<Rightarrow> bool" where
  "IsLocked p \<longleftrightarrow> devices p \<noteq> []"

definition LockedTo :: "string \<Rightarrow> Pairing \<Rightarrow> bool" where
  "LockedTo token p \<longleftrightarrow> token \<noteq> [] \<and> map_of (devices p) token \<noteq> None"

definition MatchesDevice :: "string \<Rightarrow> string \<Rightarrow> Pairing \<Rightarrow> bool" where
  "MatchesDevice token dev p \<longleftrightarrow>
     (case map_of (devices p) token of None \<Rightarrow> False
      | Some d \<Rightarrow> token \<noteq> [] \<and> dev \<noteq> [] \<and> pd_DeviceID d = dev)"

definition DeviceBindings :: "Pairing \<Rightarrow> (string \<times> string) list" where
  "DeviceBindings p = map (\<lambda>(k, d). (pd_Token d, pd_DeviceID d)) (devices p)"

definition OpenEnrollment :: "int \<Rightarrow> int \<Rightarrow> Pairing \<Rightarrow> int \<times> Pairing" where
  "OpenEnrollment now duration p =
     (let e = now + (if duration \<le> 0 then 120000 else duration) in (e, p\<lparr>enrollUntil := Some e\<rparr>))"

definition EnrollmentOpen :: "int \<Rightarrow> Pairing \<Rightarrow> bool" where
  "EnrollmentOpen now p \<longleftrightarrow> (case enrollUntil p of None \<Rightarrow> False | Some e \<Rightarrow> now < e)"

definition closeEnrollmentLocked :: "Pairing \<Rightarrow> Pairing" where
  "closeEnrollmentLocked p = p\<lparr>enrollUntil := None\<rparr>"

definition pairing_saveLocked :: "bool \<Rightarrow> Pairing \<Rightarrow> pairing_error option \<times> Pairing" where
  "pairing_saveLocked ok p =
     (if \<not> pr_path p then (None, p)
      else if \<not> ok then (Some ErrPairingDisk, p)
      else (None, p\<lparr>pr_disk := Some \<lparr>pf_Version = pairingSchemaVersion,
                                     pf_Devices = sort_key pd_Token (map snd (devices p)),
                                     pf_PairedToken = [], pf_PairedDeviceID = [], pf_PairedAt = 0\<rparr>\<rparr>))"

definition Claim :: "int \<Rightarrow> bool \<Rightarrow> string \<Rightarrow> string \<Rightarrow> Pairing \<Rightarrow> pairing_error option \<times> Pairing" where
  "Claim now ok token dev p =
     (if token = [] then (Some ErrTokenMismatch, p)
      else case map_of (devices p) token of
          Some d \<Rightarrow> pairing_saveLocked ok (p\<lparr>devices := AList.update token (d\<lparr>pd_DeviceID := dev\<rparr>) (devices p)\<rparr>)
        | None \<Rightarrow>
            if devices p \<noteq> [] \<and> \<not> EnrollmentOpen now p then (Some ErrClaimedByAnother, p)
            else pairing_saveLocked ok (closeEnrollmentLocked
                   (p\<lparr>devices := AList.update token
                       \<lparr>pd_Token = token, pd_DeviceID = dev, pd_PairedAt = now div 1000\<rparr> (devices p)\<rparr>)))"

text \<open>The last device takes the file with it; whether that worked is not looked at.\<close>

definition Unclaim :: "int \<Rightarrow> bool \<Rightarrow> string \<Rightarrow> Pairing \<Rightarrow> pairing_error option \<times> Pairing" where
  "Unclaim now ok token p =
     (if map_of (devices p) token = None then (Some ErrTokenMismatch, p)
      else let p1 = p\<lparr>devices := AList.delete token (devices p)\<rparr> in
        if devices p1 = []
        then (None, p1\<lparr>enrollUntil := Some (now + initialEnrollmentDuration),
                       pr_disk := (if pr_path p \<and> ok then None else pr_disk p)\<rparr>)
        else pairing_saveLocked ok p1)"

section \<open>Permission prompts\<close>

record permissionDetails =
  pm_sessionID :: string
  pm_action :: string
  pm_expires :: int

datatype permission_event =
    PermissionRequest string string string string string string string int
  | PermissionResult string string string string string

text \<open>
  A buffered channel belongs to one request, so it is named by the request. \<open>publishing\<close> and
  \<open>sending\<close> are the calls of \<^verbatim>\<open>finish\<close> that have left the critical section and not
  yet emitted the result, or emitted it and not yet sent the decision.
\<close>

record PermissionManager =
  pm_mode :: string
  ttl :: int
  waiters :: "string set"
  pm_details :: "string \<rightharpoonup> permissionDetails"
  requester :: "string \<rightharpoonup> string"
  publishing :: "(string \<times> permissionDetails \<times> string) set"
  sending :: "(string \<times> string) set"
  chans :: "string \<rightharpoonup> bool"
  returned :: "string \<rightharpoonup> bool"
  emitted :: "permission_event list"

datatype permission_error = InvalidDecision | NoLongerPending | DeviceMismatch

definition NewPermissionManager :: "string \<Rightarrow> PermissionManager" where
  "NewPermissionManager mode =
     (let m = to_lower (trim_space mode)
      in \<lparr>pm_mode = (if m = [] then ''enforce'' else m), ttl = 60000, waiters = {}, pm_details = Map.empty,
          requester = Map.empty, publishing = {}, sending = {}, chans = Map.empty, returned = Map.empty,
          emitted = []\<rparr>)"

text \<open>
  \<^verbatim>\<open>Request\<close> up to the point where it blocks: \<open>Some\<close> is an answer without a prompt, \<open>None\<close>
  means it waits on the channel of \<open>rid\<close>.
\<close>

definition Request ::
  "int \<Rightarrow> string \<Rightarrow> string \<Rightarrow> string \<Rightarrow> string \<Rightarrow> string \<Rightarrow> string \<Rightarrow> string \<Rightarrow> string \<Rightarrow> PermissionManager
    \<Rightarrow> bool option \<times> PermissionManager" where
  "Request now rid dev action title justification preview0 risk sid m =
     (if pm_mode m = ''off'' then (Some True, m)
      else if pm_mode m = ''warn''
      then (Some True, m\<lparr>emitted := emitted m @
              [PermissionResult [] sid action ''warn_auto_approved'' ''permission mode=warn'']\<rparr>)
      else let preview = (if length preview0 > 500 then take 500 preview0 else preview0);
               deadline = now + ttl m
           in (None, m\<lparr>waiters := insert rid (waiters m), requester := (requester m)(rid \<mapsto> dev),
                       pm_details := (pm_details m)(rid \<mapsto> \<lparr>pm_sessionID = sid, pm_action = action,
                                                              pm_expires = deadline\<rparr>),
                       emitted := emitted m @
                         [PermissionRequest rid sid action title justification preview risk deadline]\<rparr>))"

text \<open>The critical section of \<^verbatim>\<open>finish\<close>.\<close>

definition finish_locked ::
  "int \<Rightarrow> string \<Rightarrow> string \<Rightarrow> string \<Rightarrow> bool \<Rightarrow> PermissionManager
    \<Rightarrow> permission_error option \<times> PermissionManager" where
  "finish_locked now rid decision0 responder timeout m =
     (if rid \<notin> waiters m then (Some NoLongerPending, m)
      else let owner = (case requester m rid of None \<Rightarrow> [] | Some d \<Rightarrow> d) in
        if \<not> timeout \<and> owner \<noteq> [] \<and> responder \<noteq> owner then (Some DeviceMismatch, m)
        else let detail = (case pm_details m rid of None \<Rightarrow> \<lparr>pm_sessionID = [], pm_action = [], pm_expires = 0\<rparr>
                           | Some d \<Rightarrow> d);
                 decision = (if pm_details m rid \<noteq> None \<and> pm_expires detail \<le> now then ''expired'' else decision0)
             in (None, m\<lparr>waiters := waiters m - {rid}, requester := (requester m)(rid := None),
                         pm_details := (pm_details m)(rid := None),
                         publishing := insert (rid, detail, decision) (publishing m)\<rparr>))"

text \<open>The two things \<^verbatim>\<open>finish\<close> does after it has released the lock.\<close>

definition publish_result :: "string \<Rightarrow> permissionDetails \<Rightarrow> string \<Rightarrow> PermissionManager \<Rightarrow> PermissionManager" where
  "publish_result rid detail decision m =
     m\<lparr>publishing := publishing m - {(rid, detail, decision)},
       emitted := emitted m @ [PermissionResult rid (pm_sessionID detail) (pm_action detail) decision []],
       sending := insert (rid, decision) (sending m)\<rparr>"

definition send_decision :: "string \<Rightarrow> string \<Rightarrow> PermissionManager \<Rightarrow> PermissionManager" where
  "send_decision rid decision m =
     m\<lparr>sending := sending m - {(rid, decision)}, chans := (chans m)(rid \<mapsto> (decision = ''approve''))\<rparr>"

text \<open>The blocked \<^verbatim>\<open>Request\<close> receives the decision and returns it.\<close>

definition receive_decision :: "string \<Rightarrow> PermissionManager \<Rightarrow> PermissionManager" where
  "receive_decision rid m =
     (case chans m rid of None \<Rightarrow> m
      | Some b \<Rightarrow> m\<lparr>chans := (chans m)(rid := None), returned := (returned m)(rid \<mapsto> b)\<rparr>)"

definition Resolve ::
  "int \<Rightarrow> string \<Rightarrow> string \<Rightarrow> string \<Rightarrow> PermissionManager \<Rightarrow> permission_error option \<times> PermissionManager" where
  "Resolve now rid decision responder m =
     (if decision \<noteq> ''approve'' \<and> decision \<noteq> ''deny'' then (Some InvalidDecision, m)
      else finish_locked now rid decision responder False m)"

definition expire_request :: "int \<Rightarrow> string \<Rightarrow> PermissionManager \<Rightarrow> PermissionManager" where
  "expire_request now rid m = snd (finish_locked now rid ''expired'' [] True m)"

section \<open>Session control\<close>

record SessionControl =
  sc_SessionID :: string
  sc_ThreadID :: string
  sc_Owner :: string
  sc_State :: string
  sc_UpdatedAt :: int

record SessionControlStore =
  ct_path :: bool
  ct_entries :: "(string \<times> SessionControl) list"
  ct_disk :: "(string \<times> SessionControl) list option"

definition ControlMobile :: string where "ControlMobile = ''mobile''"
definition ControlDesktop :: string where "ControlDesktop = ''desktop''"
definition ControlActive :: string where "ControlActive = ''active''"
definition ControlPending :: string where "ControlPending = ''pending_handoff''"

definition zero_control :: SessionControl where
  "zero_control = \<lparr>sc_SessionID = [], sc_ThreadID = [], sc_Owner = [], sc_State = [], sc_UpdatedAt = 0\<rparr>"

definition control_entry :: "string \<Rightarrow> SessionControlStore \<Rightarrow> SessionControl" where
  "control_entry sid s = (case map_of (ct_entries s) sid of None \<Rightarrow> zero_control | Some e \<Rightarrow> e)"

definition control_saveLocked :: "bool \<Rightarrow> SessionControlStore \<Rightarrow> SessionControlStore" where
  "control_saveLocked ok s = (if ct_path s \<and> ok then s\<lparr>ct_disk := Some (ct_entries s)\<rparr> else s)"

definition put_control :: "bool \<Rightarrow> string \<Rightarrow> SessionControl \<Rightarrow> SessionControlStore \<Rightarrow> SessionControlStore" where
  "put_control ok sid e s = control_saveLocked ok (s\<lparr>ct_entries := AList.update sid e (ct_entries s)\<rparr>)"

definition NewSessionControlStore :: "bool \<Rightarrow> (string \<times> SessionControl) list option \<Rightarrow> SessionControlStore" where
  "NewSessionControlStore path disk =
     \<lparr>ct_path = path, ct_entries = (if path then (case disk of None \<Rightarrow> [] | Some es \<Rightarrow> es) else []), ct_disk = disk\<rparr>"

definition Get_control :: "string \<Rightarrow> SessionControlStore \<Rightarrow> SessionControl" where
  "Get_control sid s =
     (case map_of (ct_entries s) sid of
        Some e \<Rightarrow> e
      | None \<Rightarrow> zero_control\<lparr>sc_SessionID := sid, sc_Owner := ControlMobile, sc_State := ControlActive\<rparr>)"

definition BeginDesktopHandoff ::
  "int \<Rightarrow> bool \<Rightarrow> string \<Rightarrow> string \<Rightarrow> SessionControlStore \<Rightarrow> (SessionControl + SessionControl) \<times> SessionControlStore" where
  "BeginDesktopHandoff now ok sid thread s =
     (if sid = [] \<or> thread = [] then (Inl zero_control, s)
      else let current = control_entry sid s in
        if sc_Owner current = ControlDesktop \<or> sc_State current = ControlPending then (Inl current, s)
        else let e = \<lparr>sc_SessionID = sid, sc_ThreadID = thread, sc_Owner = ControlMobile, sc_State = ControlPending,
                      sc_UpdatedAt = now\<rparr>
             in (Inr e, put_control ok sid e s))"

definition CompleteDesktopHandoff :: "int \<Rightarrow> bool \<Rightarrow> string \<Rightarrow> SessionControlStore \<Rightarrow> SessionControl \<times> SessionControlStore" where
  "CompleteDesktopHandoff now ok sid s =
     (let e = (control_entry sid s)\<lparr>sc_SessionID := sid, sc_Owner := ControlDesktop, sc_State := ControlActive,
                                    sc_UpdatedAt := now\<rparr>
      in (e, put_control ok sid e s))"

definition MarkDesktopOwner ::
  "int \<Rightarrow> bool \<Rightarrow> string \<Rightarrow> string \<Rightarrow> SessionControlStore \<Rightarrow> (SessionControl \<times> bool) \<times> SessionControlStore" where
  "MarkDesktopOwner now ok sid thread s =
     (let current = control_entry sid s in
      if sc_Owner current = ControlDesktop \<and> sc_State current = ControlActive \<and> sc_ThreadID current = thread
      then ((current, False), s)
      else let e = \<lparr>sc_SessionID = sid, sc_ThreadID = thread, sc_Owner = ControlDesktop, sc_State = ControlActive,
                    sc_UpdatedAt = now\<rparr>
           in ((e, True), put_control ok sid e s))"

definition CancelPending :: "int \<Rightarrow> bool \<Rightarrow> string \<Rightarrow> SessionControlStore \<Rightarrow> SessionControl \<times> SessionControlStore" where
  "CancelPending now ok sid s =
     (let e = (control_entry sid s)\<lparr>sc_SessionID := sid, sc_Owner := ControlMobile, sc_State := ControlActive,
                                    sc_UpdatedAt := now\<rparr>
      in (e, put_control ok sid e s))"

definition Reclaim :: "int \<Rightarrow> bool \<Rightarrow> string \<Rightarrow> string \<Rightarrow> SessionControlStore \<Rightarrow> SessionControl \<times> SessionControlStore" where
  "Reclaim now ok sid thread s =
     (let e = \<lparr>sc_SessionID = sid, sc_ThreadID = thread, sc_Owner = ControlMobile, sc_State = ControlActive,
               sc_UpdatedAt = now\<rparr>
      in (e, put_control ok sid e s))"

definition MobileMayWrite :: "string \<Rightarrow> SessionControlStore \<Rightarrow> bool" where
  "MobileMayWrite sid s \<longleftrightarrow>
     sc_Owner (Get_control sid s) \<noteq> ControlDesktop \<and> sc_State (Get_control sid s) \<noteq> ControlPending"

definition List_controls :: "SessionControlStore \<Rightarrow> SessionControl list" where
  "List_controls s = map snd (ct_entries s)"

end
