(* ===== verification/Access_Properties.thy ===== *)
theory Access_Properties
  imports Access_Control
begin

text \<open>
  Pairing admits one device per window and survives a restart, a permission is decided once and by its
  owner, and the writer of a session follows the handoff protocol.
\<close>

section \<open>Pairing\<close>

definition tokens_ok :: "(string \<times> pairedDevice) list \<Rightarrow> bool" where
  "tokens_ok m \<longleftrightarrow> distinct (map fst m) \<and> (\<forall>(t, d)\<in>set m. pd_Token d = t \<and> t \<noteq> [])"

definition pairing_wf :: "Pairing \<Rightarrow> bool" where
  "pairing_wf p \<longleftrightarrow> tokens_ok (devices p)"

lemma update_nonempty [simp]: "AList.update k v m \<noteq> []"
  by (cases m) auto

lemma wf_update: "tokens_ok m \<Longrightarrow> pd_Token d = t \<Longrightarrow> t \<noteq> [] \<Longrightarrow> tokens_ok (AList.update t d m)"
proof -
  assume h: "tokens_ok m" "pd_Token d = t" "t \<noteq> []"
  have "set (AList.update t d m) \<subseteq> insert (t, d) (set m)" by (induction m) auto
  with h show ?thesis by (auto simp: tokens_ok_def distinct_update)
qed

lemma wf_delete: "tokens_ok m \<Longrightarrow> tokens_ok (AList.delete t m)"
  by (auto simp: tokens_ok_def AList.delete_eq distinct_map_filter)

lemma tokens_ok_Nil [simp]: "tokens_ok []"
  by (simp add: tokens_ok_def)

lemma saved_fields [simp]:
  "devices (snd (pairing_saveLocked ok p)) = devices p" "enrollUntil (snd (pairing_saveLocked ok p)) = enrollUntil p"
  "pr_path (snd (pairing_saveLocked ok p)) = pr_path p"
  by (simp_all add: pairing_saveLocked_def)

lemma wf_saved [simp]: "pairing_wf (snd (pairing_saveLocked ok p)) = pairing_wf p"
  by (simp add: pairing_wf_def)

lemma wf_fields [simp]:
  "pairing_wf (p\<lparr>enrollUntil := e\<rparr>) = pairing_wf p" "pairing_wf (p\<lparr>pr_disk := f\<rparr>) = pairing_wf p"
  by (simp_all add: pairing_wf_def)

definition load_device :: "pairedDevice \<Rightarrow> (string \<times> pairedDevice) list \<Rightarrow> (string \<times> pairedDevice) list" where
  "load_device d m = (if pd_Token d \<noteq> [] then AList.update (pd_Token d) d m else m)"

lemma loaded_wf: "tokens_ok m \<Longrightarrow> tokens_ok (fold load_device ds m)"
  by (induction ds arbitrary: m) (simp_all add: load_device_def wf_update)

lemma NewPairing_wf: "pairing_wf (NewPairing now path disk)"
proof -
  have "tokens_ok []" by (simp add: tokens_ok_def)
  with loaded_wf show ?thesis
    by (auto simp: NewPairing_def pairing_wf_def Let_def load_device_def [abs_def, symmetric] split: option.splits)
      (simp add: tokens_ok_def)
qed

lemma Claim_wf: "pairing_wf p \<Longrightarrow> pairing_wf (snd (Claim now ok token dev p))"
proof -
  assume wf: "pairing_wf p"
  have "tokens_ok (AList.update token d (devices p))" if "token \<noteq> []" "pd_Token d = token" for d
    using wf wf_update that by (simp add: pairing_wf_def)
  moreover have "pd_Token d = token" if "map_of (devices p) token = Some d" for d
    using wf map_of_SomeD [OF that] by (auto simp: pairing_wf_def tokens_ok_def)
  ultimately show ?thesis
    using wf by (auto simp: Claim_def closeEnrollmentLocked_def pairing_wf_def split: option.splits)
qed

lemma Unclaim_wf: "pairing_wf p \<Longrightarrow> pairing_wf (snd (Unclaim now ok token p))"
  by (simp add: Unclaim_def Let_def pairing_wf_def wf_delete)

text \<open>
  A run of the pairing with what it counts: newly trusted devices, windows that were opened, and times
  the bridge became unpaired.
\<close>

datatype pairing_op = OpClaim int bool string string | OpUnclaim int bool string | OpOpen int int

fun pairing_step :: "pairing_op \<Rightarrow> Pairing \<Rightarrow> Pairing" where
  "pairing_step (OpClaim now ok token dev) p = snd (Claim now ok token dev p)"
| "pairing_step (OpUnclaim now ok token) p = snd (Unclaim now ok token p)"
| "pairing_step (OpOpen now d) p = snd (OpenEnrollment now d p)"

definition trusted :: "Pairing \<Rightarrow> string set" where
  "trusted p = dom (map_of (devices p))"

fun admitted :: "pairing_op list \<Rightarrow> Pairing \<Rightarrow> nat" where
  "admitted [] p = 0"
| "admitted (a # as) p = card (trusted (pairing_step a p) - trusted p) + admitted as (pairing_step a p)"

fun windows :: "pairing_op list \<Rightarrow> Pairing \<Rightarrow> nat" where
  "windows [] p = 0"
| "windows (a # as) p =
     (case a of OpOpen _ _ \<Rightarrow> 1 | OpUnclaim _ _ _ \<Rightarrow> (if devices p \<noteq> [] \<and> devices (pairing_step a p) = [] then 1 else 0)
      | OpClaim _ _ _ _ \<Rightarrow> 0) + windows as (pairing_step a p)"

definition credit :: "Pairing \<Rightarrow> nat" where
  "credit p = (if devices p = [] \<or> enrollUntil p \<noteq> None then 1 else 0)"

lemma trusted_update [simp]: "trusted (p\<lparr>devices := AList.update t d (devices p)\<rparr>) = insert t (trusted p)"
  by (simp add: trusted_def update_conv')

lemma trusted_fields [simp]:
  "trusted (p\<lparr>enrollUntil := e\<rparr>) = trusted p" "trusted (p\<lparr>pr_disk := f\<rparr>) = trusted p"
  "trusted (snd (pairing_saveLocked ok p)) = trusted p"
  by (simp_all add: trusted_def)

lemma Claim_credit:
  "card (trusted (snd (Claim now ok token dev p)) - trusted p) + credit (snd (Claim now ok token dev p)) \<le> credit p"
proof (cases "map_of (devices p) token")
  case None
  then have one: "insert token (trusted p) - trusted p = {token}" by (auto simp: trusted_def)
  show ?thesis
  proof (cases "token = [] \<or> devices p \<noteq> [] \<and> \<not> EnrollmentOpen now p")
    case True
    with None show ?thesis by (auto simp: Claim_def)
  next
    case False
    then have "credit p = 1" by (auto simp: credit_def EnrollmentOpen_def split: option.splits)
    with False None one show ?thesis by (simp add: Claim_def closeEnrollmentLocked_def credit_def)
  qed
next
  case (Some d)
  then have "insert token (trusted p) - trusted p = {}" "devices p \<noteq> []" by (auto simp: trusted_def)
  then show ?thesis using Some by (auto simp: Claim_def credit_def split: option.splits)
qed

lemma Unclaim_trusted: "trusted (snd (Unclaim now ok token p)) \<subseteq> trusted p"
  by (auto simp: Unclaim_def Let_def trusted_def delete_conv' split: if_splits)

text \<open>
  C16. Every newly trusted device is paid for by one enrollment window. Over any sequence of claims,
  revocations and windows, in any order and with any writes failing, the number of devices that become
  trusted is at most the number of windows that were opened, plus the times the bridge became unpaired,
  plus one if it was open for a first device at the start. A bridge that is paired and closed admits
  nobody until a window is opened.
\<close>

theorem one_device_per_window: "admitted as p \<le> windows as p + credit p"
proof (induction as arbitrary: p)
  case (Cons a as)
  show ?case
  proof (cases a)
    case (OpClaim now ok token dev)
    with Cons [of "pairing_step a p"] Claim_credit [of now ok token dev p] show ?thesis by simp
  next
    case (OpUnclaim now ok token)
    let ?q = "snd (Unclaim now ok token p)"
    have "trusted ?q - trusted p = {}" using Unclaim_trusted by blast
    moreover have "credit ?q \<le> (if devices p \<noteq> [] \<and> devices ?q = [] then 1 else 0) + credit p"
      by (auto simp: credit_def Unclaim_def Let_def)
    ultimately have "card (trusted ?q - trusted p) = 0" "credit ?q \<le> (if devices p \<noteq> [] \<and> devices ?q = [] then 1 else 0) + credit p"
      by (simp_all only: card.empty)
    then show ?thesis using Cons [of ?q] OpUnclaim by auto
  next
    case (OpOpen now d)
    then show ?thesis using Cons [of "pairing_step a p"] by (simp add: OpenEnrollment_def Let_def credit_def)
  qed
qed simp

lemma fold_load_device:
  assumes "distinct (map pd_Token ds)" and "\<forall>d\<in>set ds. pd_Token d \<noteq> []"
  shows "map_of (fold load_device ds m) = map_of m ++ map_of (map (\<lambda>d. (pd_Token d, d)) ds)"
  using assms
proof (induction ds arbitrary: m)
  case (Cons d ds)
  then have "pd_Token d \<notin> dom (map_of (map (\<lambda>d. (pd_Token d, d)) ds))" by (auto simp: dom_map_of_conv_image_fst)
  with Cons show ?case
    by (auto simp: load_device_def update_conv' fun_eq_iff map_add_def split: option.splits)
qed simp

lemma reload_devices:
  assumes "tokens_ok m"
  shows "map_of (fold load_device (sort_key pd_Token (map snd m)) []) = map_of m"
proof -
  let ?ds = "sort_key pd_Token (map snd m)"
  have keys: "map pd_Token (map snd m) = map fst m" using assms by (auto simp: tokens_ok_def)
  then have "distinct (map pd_Token (map snd m))" using assms by (simp only: tokens_ok_def)
  then have d: "distinct (map pd_Token ?ds)" unfolding distinct_map [of pd_Token] by simp
  have ne: "\<forall>d\<in>set ?ds. pd_Token d \<noteq> []" using assms by (auto simp: tokens_ok_def)
  have "set (map (\<lambda>d. (pd_Token d, d)) ?ds) = set m" using assms by (force simp: tokens_ok_def)
  moreover have "distinct (map fst (map (\<lambda>d. (pd_Token d, d)) ?ds))" using d by (simp add: comp_def)
  ultimately have "map_of (map (\<lambda>d. (pd_Token d, d)) ?ds) = map_of m"
    using assms map_of_inject_set by (metis tokens_ok_def)
  with fold_load_device [OF d ne, of "[]"] show ?thesis by simp
qed

lemma saved_wf: "pairing_saveLocked ok p = (e, q) \<Longrightarrow> pairing_wf q \<Longrightarrow> pairing_wf p"
  using wf_saved [of ok p] by simp

lemma saved_devices: "pairing_saveLocked ok p = (e, q) \<Longrightarrow> devices q = devices p"
  using saved_fields(1) [of ok p] by simp

lemma reload_saved:
  assumes "pairing_wf p" and "pr_path p" and "pairing_saveLocked ok p = (None, q)"
  shows "map_of (devices (NewPairing now True (pr_disk q))) = map_of (devices p)"
  using assms reload_devices [of "devices p"]
  by (auto simp: pairing_saveLocked_def pairing_wf_def NewPairing_def Let_def load_device_def [abs_def]
      split: if_splits)

text \<open>
  Trust survives a restart exactly as reported, with one exception. After a claim that reported
  success the restarted bridge trusts the same devices with the same bindings, the claimed one among
  them. A revocation that left other devices and reported success is final. A revocation of the last
  device always reports success, but it is final only if the file could be removed: otherwise the
  restarted bridge trusts whatever the file still holds, the revoked device if it was saved before.
\<close>

theorem pairing_survives_restart:
  assumes "pairing_wf p" and "pr_path p"
  shows "(Claim now ok token dev p = (None, q) \<longrightarrow>
        map_of (devices (NewPairing now' True (pr_disk q))) = map_of (devices q)
        \<and> LockedTo token (NewPairing now' True (pr_disk q))
        \<and> (dev \<noteq> [] \<longrightarrow> MatchesDevice token dev (NewPairing now' True (pr_disk q))))
    \<and> (Unclaim now ok token p = (None, q) \<longrightarrow> \<not> LockedTo token q
        \<and> (if devices q \<noteq> [] \<or> ok
           then map_of (devices (NewPairing now' True (pr_disk q))) = map_of (devices q)
           else pr_disk q = pr_disk p))"
proof (intro conjI impI)
  assume c: "Claim now ok token dev p = (None, q)"
  obtain q0 where q0: "pairing_saveLocked ok q0 = (None, q)" "pairing_wf q0" "pr_path q0" "token \<noteq> []"
    "\<exists>d. map_of (devices q0) token = Some d \<and> pd_DeviceID d = dev"
  proof -
    have wf: "pairing_wf (snd (Claim now ok token dev p))" using assms(1) by (rule Claim_wf)
    show ?thesis
      using c assms(2) wf
      by (auto simp: Claim_def closeEnrollmentLocked_def update_conv' split: if_splits option.splits
          dest: saved_wf intro!: that)
  qed
  have r: "map_of (devices (NewPairing now' True (pr_disk q))) = map_of (devices q0)"
    by (rule reload_saved [OF q0(2,3,1)])
  have "devices q = devices q0" by (rule saved_devices [OF q0(1)])
  with r show "map_of (devices (NewPairing now' True (pr_disk q))) = map_of (devices q)" by simp
  show "LockedTo token (NewPairing now' True (pr_disk q))"
    using r q0(4,5) by (auto simp: LockedTo_def)
  show "MatchesDevice token dev (NewPairing now' True (pr_disk q))" if "dev \<noteq> []"
    using r q0(4,5) that by (auto simp: MatchesDevice_def)
next
  assume u: "Unclaim now ok token p = (None, q)"
  have wf: "pairing_wf (p\<lparr>devices := AList.delete token (devices p)\<rparr>)"
    using assms(1) by (simp add: pairing_wf_def wf_delete)
  have del: "map_of (AList.delete token (devices p)) token = None" by (simp add: delete_conv')
  show "\<not> LockedTo token q"
    using u del by (auto simp: Unclaim_def Let_def LockedTo_def dest!: saved_devices split: if_splits)
  show "if devices q \<noteq> [] \<or> ok
     then map_of (devices (NewPairing now' True (pr_disk q))) = map_of (devices q) else pr_disk q = pr_disk p"
  proof (cases "AList.delete token (devices p) = []")
    case True
    with u have "devices q = []" "pr_disk q = (if pr_path p \<and> ok then None else pr_disk p)"
      by (auto simp: Unclaim_def Let_def split: if_splits)
    with assms(2) show ?thesis by (simp add: NewPairing_def)
  next
    case False
    with u have sv: "pairing_saveLocked ok (p\<lparr>devices := AList.delete token (devices p)\<rparr>) = (None, q)"
      by (simp add: Unclaim_def Let_def split: if_splits)
    have "map_of (devices (NewPairing now' True (pr_disk q))) = map_of (AList.delete token (devices p))"
      using reload_saved [OF wf _ sv, of now'] assms(2) by simp
    moreover have "devices q = AList.delete token (devices p)" using saved_devices [OF sv] by simp
    ultimately show ?thesis using False by simp
  qed
qed

lemma pairing_survives_restart_witness:
  "LockedTo ''t'' (NewPairing 5 True (pr_disk (snd (Claim 1 True ''t'' ''phone'' (NewPairing 0 True None)))))
   \<and> \<not> LockedTo ''t'' (snd (Unclaim 2 False ''t'' (snd (Claim 1 True ''t'' ''phone'' (NewPairing 0 True None)))))"
proof -
  let ?p = "NewPairing 0 True None" let ?q = "snd (Claim 1 True ''t'' ''phone'' ?p)"
  have p: "pairing_wf ?p" "pr_path ?p" by (rule NewPairing_wf) (simp add: NewPairing_def)
  have q: "pairing_wf ?q" "pr_path ?q" using Claim_wf [OF p(1)]
    by (simp, simp add: NewPairing_def Claim_def closeEnrollmentLocked_def)
  have c: "Claim 1 True ''t'' ''phone'' ?p = (None, ?q)"
    by (simp add: Claim_def NewPairing_def closeEnrollmentLocked_def pairing_saveLocked_def)
  have u: "Unclaim 2 False ''t'' ?q = (None, snd (Unclaim 2 False ''t'' ?q))"
    by (simp add: Unclaim_def Claim_def NewPairing_def closeEnrollmentLocked_def pairing_saveLocked_def)
  from pairing_survives_restart [OF p, of 1 True "''t''" "''phone''" ?q 5] c
    pairing_survives_restart [OF q, of 2 False "''t''" "[]" "snd (Unclaim 2 False ''t'' ?q)" 5] u
  show ?thesis by blast
qed

end
