(* ===== verification/Permission_Properties.thy ===== *)
theory Permission_Properties
  imports Access_Control
begin

text \<open>
  The permission prompt as a concurrent protocol: requests that block, responders and timers that
  race for the decision, and the two actions each winner performs outside the lock.
\<close>

section \<open>Runs\<close>

datatype permission_label =
    LRequest int string string string string
  | LResolve int string string string
  | LExpire int string
  | LPublish string
  | LSend string
  | LReceive string

definition requested :: "permission_label list \<Rightarrow> string \<Rightarrow> bool" where
  "requested tr rid \<longleftrightarrow> (\<exists>now dev action sid. LRequest now rid dev action sid \<in> set tr)"

text \<open>
  The identifier of a request is random, so it is one that was not used before. The timer of a request
  fires no earlier than its deadline. The modes without a prompt register nothing and are not part of a
  run.
\<close>

inductive permission_run :: "permission_label list \<Rightarrow> PermissionManager \<Rightarrow> bool" where
  run_start: "permission_run [] (NewPermissionManager mode)"
| run_request: "permission_run tr m \<Longrightarrow> \<not> requested tr rid \<Longrightarrow> pm_mode m \<notin> {''off'', ''warn''} \<Longrightarrow>
    permission_run (tr @ [LRequest now rid dev action sid])
      (snd (Request now rid dev action title justification preview risk sid m))"
| run_resolve: "permission_run tr m \<Longrightarrow>
    permission_run (tr @ [LResolve now rid decision dev]) (snd (Resolve now rid decision dev m))"
| run_expire: "permission_run tr m \<Longrightarrow> \<forall>d. pm_details m rid = Some d \<longrightarrow> pm_expires d \<le> now \<Longrightarrow>
    permission_run (tr @ [LExpire now rid]) (expire_request now rid m)"
| run_publish: "permission_run tr m \<Longrightarrow> (rid, detail, decision) \<in> publishing m \<Longrightarrow>
    permission_run (tr @ [LPublish rid]) (publish_result rid detail decision m)"
| run_send: "permission_run tr m \<Longrightarrow> (rid, decision) \<in> sending m \<Longrightarrow>
    permission_run (tr @ [LSend rid]) (send_decision rid decision m)"
| run_receive: "permission_run tr m \<Longrightarrow> permission_run (tr @ [LReceive rid]) (receive_decision rid m)"

section \<open>The life of a request\<close>

datatype stage = Unknown | Waiting | Publishing permissionDetails string | Sending string | Sent bool | Returned bool

definition in_stage :: "PermissionManager \<Rightarrow> string \<Rightarrow> stage \<Rightarrow> bool" where
  "in_stage m rid st \<longleftrightarrow>
     (rid \<in> waiters m \<longleftrightarrow> st = Waiting)
     \<and> (\<forall>d dec. (rid, d, dec) \<in> publishing m \<longleftrightarrow> st = Publishing d dec)
     \<and> (\<forall>dec. (rid, dec) \<in> sending m \<longleftrightarrow> st = Sending dec)
     \<and> (\<forall>b. chans m rid = Some b \<longleftrightarrow> st = Sent b)
     \<and> (\<forall>b. returned m rid = Some b \<longleftrightarrow> st = Returned b)"

definition results :: "string \<Rightarrow> permission_event list \<Rightarrow> string list" where
  "results rid es = List.map_filter
     (\<lambda>e. case e of PermissionResult r _ _ dec _ \<Rightarrow> if r = rid then Some dec else None | _ \<Rightarrow> None) es"

text \<open>An approval by the device that asked (or by any, when it is unknown) before the deadline.\<close>

definition approved :: "permission_label list \<Rightarrow> string \<Rightarrow> bool" where
  "approved tr rid \<longleftrightarrow>
     (\<exists>start dev action sid now dev'. LRequest start rid dev action sid \<in> set tr
        \<and> LResolve now rid ''approve'' dev' \<in> set tr \<and> (dev = [] \<or> dev' = dev) \<and> now < start + 60000)"

definition waiting_ok :: "permission_label list \<Rightarrow> PermissionManager \<Rightarrow> string \<Rightarrow> bool" where
  "waiting_ok tr m rid \<longleftrightarrow>
     (\<exists>start dev action sid. LRequest start rid dev action sid \<in> set tr \<and> requester m rid = Some dev
        \<and> pm_details m rid = Some \<lparr>pm_sessionID = sid, pm_action = action, pm_expires = start + 60000\<rparr>)"

definition log_ok :: "permission_label list \<Rightarrow> PermissionManager \<Rightarrow> string \<Rightarrow> stage \<Rightarrow> bool" where
  "log_ok tr m rid st =
     (case st of
        Unknown \<Rightarrow> results rid (emitted m) = [] \<and> \<not> requested tr rid
      | Waiting \<Rightarrow> results rid (emitted m) = [] \<and> requested tr rid \<and> waiting_ok tr m rid
      | Publishing d dec \<Rightarrow> results rid (emitted m) = [] \<and> requested tr rid \<and> (dec = ''approve'' \<longrightarrow> approved tr rid)
      | Sending dec \<Rightarrow> results rid (emitted m) = [dec] \<and> requested tr rid \<and> (dec = ''approve'' \<longrightarrow> approved tr rid)
      | Sent b \<Rightarrow> (\<exists>dec. results rid (emitted m) = [dec] \<and> b = (dec = ''approve'')) \<and> requested tr rid \<and> (b \<longrightarrow> approved tr rid)
      | Returned b \<Rightarrow> (\<exists>dec. results rid (emitted m) = [dec] \<and> b = (dec = ''approve'')) \<and> requested tr rid
                       \<and> (b \<longrightarrow> approved tr rid))"

definition permission_inv :: "permission_label list \<Rightarrow> PermissionManager \<Rightarrow> bool" where
  "permission_inv tr m \<longleftrightarrow> ttl m = 60000 \<and> (\<forall>rid. \<exists>st. in_stage m rid st \<and> log_ok tr m rid st)"

lemma results_append: "results rid (es @ es') = results rid es @ results rid es'"
  by (simp add: results_def List.map_filter_def)

lemma results_single [simp]:
  "results rid [PermissionResult r sid action dec reason] = (if r = rid then [dec] else [])"
  "results rid [PermissionRequest r sid action a b c d e] = []"
  by (simp_all add: results_def List.map_filter_def)

lemma requested_append [simp]:
  "requested (tr @ [l]) rid \<longleftrightarrow> requested tr rid \<or> (\<exists>now dev action sid. l = LRequest now rid dev action sid)"
  by (auto simp: requested_def)

lemma approved_mono: "approved tr rid \<Longrightarrow> approved (tr @ ls) rid"
  unfolding approved_def by (metis UnCI set_append)

lemma waiting_ok_mono:
  "waiting_ok tr m rid \<Longrightarrow> requester m' rid = requester m rid \<Longrightarrow> pm_details m' rid = pm_details m rid
    \<Longrightarrow> waiting_ok (tr @ ls) m' rid"
  unfolding waiting_ok_def by auto

text \<open>A step leaves every request alone but one.\<close>

definition agree :: "string \<Rightarrow> PermissionManager \<Rightarrow> PermissionManager \<Rightarrow> bool" where
  "agree rid m m' \<longleftrightarrow>
     (rid \<in> waiters m' \<longleftrightarrow> rid \<in> waiters m) \<and> requester m' rid = requester m rid \<and> pm_details m' rid = pm_details m rid
     \<and> (\<forall>x. (rid, x) \<in> publishing m' \<longleftrightarrow> (rid, x) \<in> publishing m) \<and> (\<forall>x. (rid, x) \<in> sending m' \<longleftrightarrow> (rid, x) \<in> sending m)
     \<and> chans m' rid = chans m rid \<and> returned m' rid = returned m rid
     \<and> results rid (emitted m') = results rid (emitted m)"

lemma agree_stage:
  assumes "agree rid m m'" and "\<not> (\<exists>now dev action sid. l = LRequest now rid dev action sid)"
    and "in_stage m rid st \<and> log_ok tr m rid st"
  shows "in_stage m' rid st \<and> log_ok (tr @ [l]) m' rid st"
  using assms approved_mono [of tr rid "[l]"] waiting_ok_mono [of tr m rid m' "[l]"]
  by (cases st) (auto simp: agree_def in_stage_def log_ok_def)

lemma inv_step:
  assumes "permission_inv tr m" and "ttl m' = ttl m"
    and "\<And>k. k \<noteq> rid \<Longrightarrow> agree k m m'" and "\<And>now k dev action sid. l = LRequest now k dev action sid \<Longrightarrow> k = rid"
    and "\<And>st. in_stage m rid st \<Longrightarrow> log_ok tr m rid st \<Longrightarrow> \<exists>st'. in_stage m' rid st' \<and> log_ok (tr @ [l]) m' rid st'"
  shows "permission_inv (tr @ [l]) m'"
  unfolding permission_inv_def
proof (intro conjI allI)
  show "ttl m' = 60000" using assms(1,2) by (simp add: permission_inv_def)
  fix k
  obtain st where st: "in_stage m k st" "log_ok tr m k st" using assms(1) by (auto simp: permission_inv_def)
  show "\<exists>st. in_stage m' k st \<and> log_ok (tr @ [l]) m' k st"
  proof (cases "k = rid")
    case True
    with st assms(5) show ?thesis by blast
  next
    case False
    have "\<not> (\<exists>now dev action sid. l = LRequest now k dev action sid)" using assms(4) False by blast
    with agree_stage [OF assms(3) [OF False] _ conjI [OF st]] show ?thesis by blast
  qed
qed

lemma inv_log:
  assumes "permission_inv tr m" and "\<And>now k dev action sid. l \<noteq> LRequest now k dev action sid"
  shows "permission_inv (tr @ [l]) m"
proof (rule inv_step [OF assms(1), where rid = "[]"])
  show "\<exists>st'. in_stage m [] st' \<and> log_ok (tr @ [l]) m [] st'" if "in_stage m [] st" "log_ok tr m [] st" for st
    using agree_stage [of "[]" m m l st tr] that assms(2) by (auto simp: agree_def)
qed (use assms(2) in \<open>auto simp: agree_def\<close>)

lemma request_inv:
  assumes "permission_inv tr m" and "\<not> requested tr rid" and "pm_mode m \<notin> {''off'', ''warn''}"
  shows "permission_inv (tr @ [LRequest now rid dev action sid])
    (snd (Request now rid dev action title justification preview risk sid m))"
proof (rule inv_step [OF assms(1), where rid = rid])
  let ?m = "snd (Request now rid dev action title justification preview risk sid m)"
  have ttl: "ttl m = 60000" using assms(1) by (simp add: permission_inv_def)
  show "ttl ?m = ttl m" using assms(3) by (simp add: Request_def Let_def)
  show "agree k m ?m" if "k \<noteq> rid" for k
    using that assms(3) by (simp add: agree_def Request_def Let_def results_append)
  show "\<exists>st'. in_stage ?m rid st' \<and> log_ok (tr @ [LRequest now rid dev action sid]) ?m rid st'"
    if "in_stage m rid st" "log_ok tr m rid st" for st
  proof -
    have "st = Unknown" using that(2) assms(2) by (cases st) (auto simp: log_ok_def)
    with that have "in_stage ?m rid Waiting" "results rid (emitted ?m) = []"
      using assms(3) by (auto simp: in_stage_def log_ok_def Request_def Let_def results_append)
    moreover have "waiting_ok (tr @ [LRequest now rid dev action sid]) ?m rid"
      using assms(3) ttl by (auto simp: waiting_ok_def Request_def Let_def)
    ultimately show ?thesis by (intro exI [of _ Waiting]) (auto simp: log_ok_def)
  qed
qed simp

text \<open>A call of \<^verbatim>\<open>finish\<close> that wins the race.\<close>

lemma finish_inv:
  assumes inv: "permission_inv tr m" and l: "\<And>now k dev action sid. l \<noteq> LRequest now k dev action sid"
    and ok: "\<And>start dev action sid. LRequest start rid dev action sid \<in> set tr \<Longrightarrow> decision = ''approve''
       \<Longrightarrow> now < start + 60000 \<Longrightarrow> timeout \<or> dev = [] \<or> responder = dev \<Longrightarrow> approved (tr @ [l]) rid"
  shows "permission_inv (tr @ [l]) (snd (finish_locked now rid decision responder timeout m))"
proof (rule inv_step [OF inv, where rid = rid])
  let ?m = "snd (finish_locked now rid decision responder timeout m)"
  show "ttl ?m = ttl m" by (simp add: finish_locked_def Let_def)
  show "agree k m ?m" if "k \<noteq> rid" for k using that by (simp add: agree_def finish_locked_def Let_def)
  show "\<exists>st'. in_stage ?m rid st' \<and> log_ok (tr @ [l]) ?m rid st'" if st: "in_stage m rid st" "log_ok tr m rid st" for st
  proof (cases "?m = m")
    case True
    then have "agree rid m ?m" by (simp add: agree_def)
    with agree_stage [OF this _ conjI [OF st]] l show ?thesis by blast
  next
    case False
    then have w: "rid \<in> waiters m" by (rule contrapos_np) (simp add: finish_locked_def)
    with st have "st = Waiting" by (simp add: in_stage_def)
    with st(2) obtain start dev action sid where r: "LRequest start rid dev action sid \<in> set tr" "requester m rid = Some dev"
      "pm_details m rid = Some \<lparr>pm_sessionID = sid, pm_action = action, pm_expires = start + 60000\<rparr>"
      "results rid (emitted m) = []" "requested tr rid"
      by (auto simp: log_ok_def waiting_ok_def)
    let ?d = "\<lparr>pm_sessionID = sid, pm_action = action, pm_expires = start + 60000\<rparr>"
    let ?dec = "if start + 60000 \<le> now then ''expired'' else decision"
    have own: "timeout \<or> dev = [] \<or> responder = dev" using False by (rule contrapos_np) (simp add: finish_locked_def w r(2))
    have "in_stage ?m rid (Publishing ?d ?dec)" "results rid (emitted ?m) = []"
      using st(1) \<open>st = Waiting\<close> w r own by (auto simp: in_stage_def finish_locked_def)
    moreover have "approved (tr @ [l]) rid" if "?dec = ''approve''" using ok [OF r(1)] own that by (auto split: if_splits)
    ultimately show ?thesis using r(5) by (intro exI [of _ "Publishing ?d ?dec"]) (auto simp: log_ok_def)
  qed
qed (use l in blast)

lemma resolve_inv:
  assumes "permission_inv tr m"
  shows "permission_inv (tr @ [LResolve now rid decision dev]) (snd (Resolve now rid decision dev m))"
proof (cases "decision = ''approve'' \<or> decision = ''deny''")
  case True
  have "permission_inv (tr @ [LResolve now rid decision dev]) (snd (finish_locked now rid decision dev False m))"
    by (rule finish_inv [OF assms]) (auto simp: approved_def)
  with True show ?thesis by (auto simp: Resolve_def)
next
  case False
  have "permission_inv (tr @ [LResolve now rid decision dev]) m" by (rule inv_log [OF assms]) simp
  with False show ?thesis by (simp add: Resolve_def)
qed

lemma expire_inv:
  assumes "permission_inv tr m"
  shows "permission_inv (tr @ [LExpire now rid]) (expire_request now rid m)"
  unfolding expire_request_def by (rule finish_inv [OF assms]) auto

lemma publish_inv:
  assumes "permission_inv tr m" and "(rid, detail, decision) \<in> publishing m"
  shows "permission_inv (tr @ [LPublish rid]) (publish_result rid detail decision m)"
proof (rule inv_step [OF assms(1), where rid = rid])
  let ?m = "publish_result rid detail decision m"
  show "ttl ?m = ttl m" by (simp add: publish_result_def)
  show "agree k m ?m" if "k \<noteq> rid" for k using that by (simp add: agree_def publish_result_def results_append)
  show "\<exists>st'. in_stage ?m rid st' \<and> log_ok (tr @ [LPublish rid]) ?m rid st'" if st: "in_stage m rid st" "log_ok tr m rid st" for st
  proof -
    have "st = Publishing detail decision" using st(1) assms(2) by (simp add: in_stage_def)
    with st show ?thesis
      by (intro exI [of _ "Sending decision"])
        (auto simp: in_stage_def log_ok_def publish_result_def results_append approved_mono)
  qed
qed simp

lemma send_inv:
  assumes "permission_inv tr m" and "(rid, decision) \<in> sending m"
  shows "permission_inv (tr @ [LSend rid]) (send_decision rid decision m)"
proof (rule inv_step [OF assms(1), where rid = rid])
  let ?m = "send_decision rid decision m"
  show "ttl ?m = ttl m" by (simp add: send_decision_def)
  show "agree k m ?m" if "k \<noteq> rid" for k using that by (simp add: agree_def send_decision_def)
  show "\<exists>st'. in_stage ?m rid st' \<and> log_ok (tr @ [LSend rid]) ?m rid st'" if st: "in_stage m rid st" "log_ok tr m rid st" for st
  proof -
    have "st = Sending decision" using st(1) assms(2) by (simp add: in_stage_def)
    with st show ?thesis
      by (intro exI [of _ "Sent (decision = ''approve'')"])
        (auto simp: in_stage_def log_ok_def send_decision_def approved_mono)
  qed
qed simp

lemma receive_inv:
  assumes "permission_inv tr m"
  shows "permission_inv (tr @ [LReceive rid]) (receive_decision rid m)"
proof (rule inv_step [OF assms, where rid = rid])
  let ?m = "receive_decision rid m"
  show "ttl ?m = ttl m" by (simp add: receive_decision_def split: option.splits)
  show "agree k m ?m" if "k \<noteq> rid" for k using that by (simp add: agree_def receive_decision_def split: option.splits)
  show "\<exists>st'. in_stage ?m rid st' \<and> log_ok (tr @ [LReceive rid]) ?m rid st'" if st: "in_stage m rid st" "log_ok tr m rid st" for st
  proof (cases "chans m rid")
    case None
    then have "agree rid m ?m" by (simp add: agree_def receive_decision_def)
    with agree_stage [OF this _ conjI [OF st]] show ?thesis by blast
  next
    case (Some b)
    with st(1) have "st = Sent b" unfolding in_stage_def by blast
    with st Some show ?thesis
      by (intro exI [of _ "Returned b"]) (auto simp: in_stage_def log_ok_def receive_decision_def approved_mono)
  qed
qed simp

lemma permission_run_inv: "permission_run tr m \<Longrightarrow> permission_inv tr m"
proof (induction rule: permission_run.induct)
  case (run_start mode)
  have "in_stage (NewPermissionManager mode) rid Unknown \<and> log_ok [] (NewPermissionManager mode) rid Unknown" for rid
    by (simp add: in_stage_def log_ok_def NewPermissionManager_def requested_def results_def List.map_filter_def Let_def)
  moreover have "ttl (NewPermissionManager mode) = 60000" by (simp add: NewPermissionManager_def Let_def)
  ultimately show ?case unfolding permission_inv_def by blast
qed (simp_all add: request_inv resolve_inv expire_inv publish_inv send_inv receive_inv)

lemma waiting_returns:
  assumes run: "permission_run tr m" and "rid \<in> waiters m"
  shows "\<exists>ls m'. permission_run (tr @ ls) m' \<and> returned m' rid = Some False"
proof -
  obtain st where st: "in_stage m rid st" "log_ok tr m rid st"
    using permission_run_inv [OF run] by (auto simp: permission_inv_def)
  then have "st = Waiting" using assms(2) by (simp add: in_stage_def)
  with st(2) obtain d where d: "pm_details m rid = Some d" by (auto simp: log_ok_def waiting_ok_def)
  let ?m1 = "expire_request (pm_expires d) rid m"
  have e: "permission_run (tr @ [LExpire (pm_expires d) rid]) ?m1" using run d by (intro run_expire) auto
  have "(rid, d, ''expired'') \<in> publishing ?m1"
    using d assms(2) by (simp add: expire_request_def finish_locked_def Let_def)
  note p = run_publish [OF e this]
  have "(rid, ''expired'') \<in> sending (publish_result rid d ''expired'' ?m1)" by (simp add: publish_result_def)
  note r = run_receive [OF run_send [OF p this], of rid]
  then show ?thesis
    by (intro exI [of _ "[LExpire (pm_expires d) rid, LPublish rid, LSend rid, LReceive rid]"] exI conjI)
      (simp, simp add: receive_decision_def send_decision_def)
qed



end
