(* ===== verification/Control_Properties.thy ===== *)
theory Control_Properties
  imports Access_Control
begin

text \<open>
  The writer of a session: the store of session controls refines a machine with three states per
  session.
\<close>

section \<open>The abstract machine\<close>

datatype writer = MobileWrites | HandoffPending | DesktopWrites

datatype control_op =
    OBegin int bool string string
  | OComplete int bool string
  | OMark int bool string string
  | OCancel int bool string
  | OReclaim int bool string string

fun writer_spec :: "control_op \<Rightarrow> (string \<Rightarrow> writer) \<Rightarrow> string \<Rightarrow> writer" where
  "writer_spec (OBegin now ok sid thread) w =
     (if sid \<noteq> [] \<and> thread \<noteq> [] \<and> w sid = MobileWrites then w(sid := HandoffPending) else w)"
| "writer_spec (OComplete now ok sid) w = w(sid := DesktopWrites)"
| "writer_spec (OMark now ok sid thread) w = w(sid := DesktopWrites)"
| "writer_spec (OCancel now ok sid) w = w(sid := MobileWrites)"
| "writer_spec (OReclaim now ok sid thread) w = w(sid := MobileWrites)"

fun control_run :: "control_op \<Rightarrow> SessionControlStore \<Rightarrow> SessionControlStore" where
  "control_run (OBegin now ok sid thread) s = snd (BeginDesktopHandoff now ok sid thread s)"
| "control_run (OComplete now ok sid) s = snd (CompleteDesktopHandoff now ok sid s)"
| "control_run (OMark now ok sid thread) s = snd (MarkDesktopOwner now ok sid thread s)"
| "control_run (OCancel now ok sid) s = snd (CancelPending now ok sid s)"
| "control_run (OReclaim now ok sid thread) s = snd (Reclaim now ok sid thread s)"

fun op_saved :: "control_op \<Rightarrow> bool" where
  "op_saved (OBegin now ok sid thread) = ok"
| "op_saved (OComplete now ok sid) = ok"
| "op_saved (OMark now ok sid thread) = ok"
| "op_saved (OCancel now ok sid) = ok"
| "op_saved (OReclaim now ok sid thread) = ok"

definition writer_of :: "SessionControl \<Rightarrow> writer" where
  "writer_of e = (if sc_Owner e = ControlDesktop then DesktopWrites
                  else if sc_State e = ControlPending then HandoffPending else MobileWrites)"

definition writers :: "SessionControlStore \<Rightarrow> string \<Rightarrow> writer" where
  "writers s sid = writer_of (Get_control sid s)"

section \<open>Refinement\<close>

lemmas control_consts = ControlMobile_def ControlDesktop_def ControlActive_def ControlPending_def

lemma put_entries [simp]:
  "ct_entries (put_control ok sid e s) = AList.update sid e (ct_entries s)"
  "ct_path (put_control ok sid e s) = ct_path s"
  "ct_disk (put_control ok sid e s) =
     (if ct_path s \<and> ok then Some (AList.update sid e (ct_entries s)) else ct_disk s)"
  by (simp_all add: put_control_def control_saveLocked_def)

lemma control_Get_put [simp]: "Get_control k (put_control ok sid e s) = (if k = sid then e else Get_control k s)"
  by (simp add: Get_control_def update_conv')

lemma writers_put [simp]: "writers (put_control ok sid e s) = (writers s)(sid := writer_of e)"
  by (auto simp: writers_def)

lemma writers_entry: "writers s sid = writer_of (control_entry sid s)"
  by (auto simp: writers_def Get_control_def control_entry_def zero_control_def writer_of_def control_consts
      split: option.splits)

lemma writer_of_simps [simp]:
  "writer_of \<lparr>sc_SessionID = a, sc_ThreadID = b, sc_Owner = ControlMobile, sc_State = ControlPending, sc_UpdatedAt = c\<rparr> = HandoffPending"
  "writer_of \<lparr>sc_SessionID = a, sc_ThreadID = b, sc_Owner = ControlMobile, sc_State = ControlActive, sc_UpdatedAt = c\<rparr> = MobileWrites"
  "writer_of \<lparr>sc_SessionID = a, sc_ThreadID = b, sc_Owner = ControlDesktop, sc_State = ControlActive, sc_UpdatedAt = c\<rparr> = DesktopWrites"
  "writer_of (e\<lparr>sc_SessionID := a, sc_Owner := ControlDesktop, sc_State := ControlActive, sc_UpdatedAt := c\<rparr>) = DesktopWrites"
  "writer_of (e\<lparr>sc_SessionID := a, sc_Owner := ControlMobile, sc_State := ControlActive, sc_UpdatedAt := c\<rparr>) = MobileWrites"
  by (simp_all add: writer_of_def control_consts)

lemma control_simulates: "writers (control_run a s) = writer_spec a (writers s)"
proof (cases a)
  case (OBegin now ok sid thread)
  have "writers s sid = MobileWrites \<longleftrightarrow>
      \<not> (sc_Owner (control_entry sid s) = ControlDesktop \<or> sc_State (control_entry sid s) = ControlPending)"
    by (simp add: writers_entry writer_of_def)
  with OBegin show ?thesis by (simp add: BeginDesktopHandoff_def Let_def)
next
  case (OMark now ok sid thread)
  have "writers s sid = DesktopWrites" if "sc_Owner (control_entry sid s) = ControlDesktop"
    using that by (simp add: writers_entry writer_of_def)
  with OMark show ?thesis by (auto simp: MarkDesktopOwner_def Let_def)
qed (simp_all add: CompleteDesktopHandoff_def CancelPending_def Reclaim_def Let_def)

interpretation control: refinement writers control_run writer_spec
  by unfold_locales (rule control_simulates)

definition on_file :: "SessionControlStore \<Rightarrow> bool" where
  "on_file s \<longleftrightarrow> ct_path s \<and> ct_entries s = (case ct_disk s of None \<Rightarrow> [] | Some es \<Rightarrow> es)"

lemma on_file_run: "on_file s \<Longrightarrow> op_saved a \<Longrightarrow> on_file (control_run a s)"
  by (cases a)
    (auto simp: on_file_def BeginDesktopHandoff_def CompleteDesktopHandoff_def MarkDesktopOwner_def
      CancelPending_def Reclaim_def Let_def)

lemma on_file_runs: "on_file s \<Longrightarrow> \<forall>a\<in>set as. op_saved a \<Longrightarrow> on_file (fold control_run as s)"
  by (induction as arbitrary: s) (simp_all add: on_file_run)

lemma on_file_restart: "on_file s \<Longrightarrow> writers (NewSessionControlStore True (ct_disk s)) = writers s"
  by (auto simp: on_file_def writers_def Get_control_def NewSessionControlStore_def)



end
