(* ===== verification/Goal_State.thy ===== *)
theory Goal_State
  imports Offline_Buffer "HOL-Library.AList"
begin

text \<open>
  The durable snapshot of session goals (\<^verbatim>\<open>internal/governance/goals.go\<close>), fed by the goal
  events of the wire protocol. Whether a write works is an argument; a file that cannot be decoded is
  \<open>None\<close>.
\<close>

section \<open>The store\<close>

record goalRecord =
  gr_Goal :: "goal option"
  gr_Revision :: u64

record goalStateFile =
  gf_Revision :: u64
  gf_Items :: "(string \<times> goalRecord) list"

record GoalStateStore =
  gs_path :: bool
  gs_revision :: u64
  gs_items :: "(string \<times> goalRecord) list"
  gs_disk :: "goalStateFile option"

definition NewGoalStateStore :: "bool \<Rightarrow> goalStateFile option \<Rightarrow> GoalStateStore" where
  "NewGoalStateStore path disk =
     (case disk of
        Some f \<Rightarrow> if path then \<lparr>gs_path = path, gs_revision = gf_Revision f, gs_items = gf_Items f, gs_disk = disk\<rparr>
                  else \<lparr>gs_path = path, gs_revision = 0, gs_items = [], gs_disk = disk\<rparr>
      | None \<Rightarrow> \<lparr>gs_path = path, gs_revision = 0, gs_items = [], gs_disk = disk\<rparr>)"

definition goal_persistLocked :: "bool \<Rightarrow> GoalStateStore \<Rightarrow> GoalStateStore" where
  "goal_persistLocked ok s =
     (if gs_path s \<and> ok then s\<lparr>gs_disk := Some \<lparr>gf_Revision = gs_revision s, gf_Items = gs_items s\<rparr>\<rparr> else s)"

text \<open>The goal event's session and the state it asks for.\<close>

definition goal_event :: "event \<Rightarrow> (string \<times> goal option) option" where
  "goal_event e = (case e of GoalUpdate sid g \<Rightarrow> Some (sid, Some g) | GoalCleared sid \<Rightarrow> Some (sid, None) | _ \<Rightarrow> None)"

definition goal_ignored :: "goal option \<Rightarrow> goal option \<Rightarrow> bool" where
  "goal_ignored current next \<longleftrightarrow>
     (case (current, next) of (Some g, Some h) \<Rightarrow> g_UpdatedAt g > g_UpdatedAt h | _ \<Rightarrow> False) \<or> current = next"

definition Apply :: "bool \<Rightarrow> event \<Rightarrow> GoalStateStore \<Rightarrow> bool \<times> GoalStateStore" where
  "Apply ok e s =
     (case goal_event e of
        None \<Rightarrow> (False, s)
      | Some (sid, next) \<Rightarrow>
          if sid = [] then (False, s)
          else if (case map_of (gs_items s) sid of None \<Rightarrow> False | Some r \<Rightarrow> goal_ignored (gr_Goal r) next)
          then (False, s)
          else let rev' = u64_succ (gs_revision s)
               in (True, goal_persistLocked ok (s\<lparr>gs_revision := rev',
                     gs_items := AList.update sid \<lparr>gr_Goal = next, gr_Revision = rev'\<rparr> (gs_items s)\<rparr>)))"

definition Snapshot_goals :: "GoalStateStore \<Rightarrow> u64 \<times> (string \<times> goal option \<times> u64) list" where
  "Snapshot_goals s =
     (gs_revision s,
      map (\<lambda>sid. case map_of (gs_items s) sid of
             Some r \<Rightarrow> (sid, gr_Goal r, gr_Revision r) | None \<Rightarrow> (sid, None, 0)) (sort (map fst (gs_items s))))"

end
