(* ===== verification/Goal_Properties.thy ===== *)
theory Goal_Properties
  imports Goal_State
begin

text \<open>
  The goal snapshot equals, session by session, what the events of that session alone lead to.
\<close>

section \<open>The reference\<close>

definition goal_next :: "goal option \<Rightarrow> goal option option \<Rightarrow> goal option option" where
  "goal_next next current =
     (case current of None \<Rightarrow> Some next | Some c \<Rightarrow> if goal_ignored c next then current else Some next)"

definition events_of :: "string \<Rightarrow> event list \<Rightarrow> goal option list" where
  "events_of sid es = List.map_filter (\<lambda>e. case goal_event e of Some (k, next) \<Rightarrow> if k = sid then Some next else None | None \<Rightarrow> None) es"

definition goal_entry :: "string \<Rightarrow> GoalStateStore \<Rightarrow> goal option option" where
  "goal_entry sid s = map_option gr_Goal (map_of (gs_items s) sid)"

definition apply_all :: "(bool \<times> event) list \<Rightarrow> GoalStateStore \<Rightarrow> GoalStateStore" where
  "apply_all es s = fold (\<lambda>(ok, e) s. snd (Apply ok e s)) es s"

definition goals_wf :: "GoalStateStore \<Rightarrow> bool" where
  "goals_wf s \<longleftrightarrow> distinct (map fst (gs_items s)) \<and> (\<forall>(k, r)\<in>set (gs_items s). k \<noteq> [] \<and> gr_Revision r \<le> gs_revision s)
     \<and> inj_on (gr_Revision \<circ> snd) (set (gs_items s))"

lemma persist_fields [simp]:
  "gs_items (goal_persistLocked ok s) = gs_items s" "gs_revision (goal_persistLocked ok s) = gs_revision s"
  "gs_path (goal_persistLocked ok s) = gs_path s"
  by (simp_all add: goal_persistLocked_def)

lemma Apply_entry:
  assumes "sid \<noteq> []"
  shows "goal_entry sid (snd (Apply ok e s)) = fold goal_next (events_of sid [e]) (goal_entry sid s)"
proof -
  have "events_of sid [e] = (case goal_event e of Some (k, next) \<Rightarrow> if k = sid then [next] else [] | None \<Rightarrow> [])"
    by (auto simp: events_of_def List.map_filter_def split: option.splits)
  then show ?thesis
    using assms
    by (auto simp: Apply_def Let_def goal_entry_def goal_next_def update_conv' split: option.splits prod.splits if_splits)
qed

lemma events_of_Cons: "events_of sid (e # es) = events_of sid [e] @ events_of sid es"
  by (simp add: events_of_def List.map_filter_def)

lemma apply_all_entry:
  "sid \<noteq> [] \<Longrightarrow> goal_entry sid (apply_all es s) = fold goal_next (events_of sid (map snd es)) (goal_entry sid s)"
proof (induction es arbitrary: s)
  case (Cons oe es)
  obtain ok e where "oe = (ok, e)" by (cases oe)
  with Cons events_of_Cons [of sid e "map snd es"] show ?case by (simp add: apply_all_def Apply_entry)
qed (simp add: apply_all_def events_of_def List.map_filter_def)

section \<open>Well-formedness\<close>

lemma wf_apply:
  assumes "goals_wf s" and "u64_room (gs_revision s)"
  shows "goals_wf (snd (Apply ok e s)) \<and> gs_revision (snd (Apply ok e s)) = gs_revision s + (if fst (Apply ok e s) then 1 else 0)"
proof (cases "fst (Apply ok e s)")
  case False
  then have "snd (Apply ok e s) = s" by (auto simp: Apply_def Let_def split: option.splits prod.splits if_splits)
  with False assms(1) show ?thesis by simp
next
  case True
  then obtain sid nx where st: "sid \<noteq> []" "snd (Apply ok e s) = goal_persistLocked ok (s\<lparr>gs_revision := Suc (gs_revision s),
      gs_items := AList.update sid \<lparr>gr_Goal = nx, gr_Revision = Suc (gs_revision s)\<rparr> (gs_items s)\<rparr>)"
    using u64_succ_room [OF assms(2)]
    by (auto simp: Apply_def Let_def split: option.splits prod.splits if_splits)
  let ?items = "AList.update sid \<lparr>gr_Goal = nx, gr_Revision = Suc (gs_revision s)\<rparr> (gs_items s)"
  have d: "distinct (map fst ?items)" using assms(1) by (simp add: goals_wf_def distinct_update)
  have mem: "x = (sid, \<lparr>gr_Goal = nx, gr_Revision = Suc (gs_revision s)\<rparr>) \<or> x \<in> set (gs_items s) \<and> fst x \<noteq> sid"
    if "x \<in> set ?items" for x
  proof -
    have "map_of ?items (fst x) = Some (snd x)" using d that by (cases x) simp
    then show ?thesis using map_of_SomeD [of "gs_items s"] by (cases x) (auto simp: update_conv' split: if_splits)
  qed
  have b: "k \<noteq> [] \<and> gr_Revision r \<le> Suc (gs_revision s)" if "(k, r) \<in> set ?items" for k r
    using mem [OF that] assms(1) st(1) by (auto simp: goals_wf_def)
  have "inj_on (gr_Revision \<circ> snd) (set ?items)"
  proof (rule inj_onI)
    fix x y assume x: "x \<in> set ?items" and y: "y \<in> set ?items" and eq: "(gr_Revision \<circ> snd) x = (gr_Revision \<circ> snd) y"
    have "gr_Revision (snd z) \<le> gs_revision s" if "z \<in> set (gs_items s)" for z
      using assms(1) that by (auto simp: goals_wf_def)
    with mem [OF x] mem [OF y] eq show "x = y"
      using assms(1) by (auto simp: goals_wf_def inj_on_def)
  qed
  with st d b True show ?thesis by (auto simp: goals_wf_def)
qed

fun accepted :: "(bool \<times> event) list \<Rightarrow> GoalStateStore \<Rightarrow> nat" where
  "accepted [] s = 0"
| "accepted ((ok, e) # es) s = (if fst (Apply ok e s) then 1 else 0) + accepted es (snd (Apply ok e s))"

lemma wf_apply_all:
  "goals_wf s \<Longrightarrow> gs_revision s + length es < 2 ^ 64 \<Longrightarrow>
     goals_wf (apply_all es s) \<and> gs_revision (apply_all es s) = gs_revision s + accepted es s"
proof (induction es arbitrary: s)
  case (Cons oe es)
  obtain ok e where oe: "oe = (ok, e)" by (cases oe)
  have "u64_room (gs_revision s)" using Cons.prems(2) by (simp add: u64_room_def)
  from wf_apply [OF Cons.prems(1) this, of ok e] Cons.IH [of "snd (Apply ok e s)"] Cons.prems(2) oe show ?case
    by (auto simp: apply_all_def)
qed (simp add: apply_all_def)

definition goals_on_file :: "GoalStateStore \<Rightarrow> bool" where
  "goals_on_file s \<longleftrightarrow> NewGoalStateStore True (gs_disk s) = s"

lemma on_file_apply: "goals_on_file s \<Longrightarrow> goals_on_file (snd (Apply True e s))"
  by (auto simp: goals_on_file_def Apply_def Let_def goal_persistLocked_def NewGoalStateStore_def
      split: option.splits prod.splits)

lemma on_file_apply_all: "goals_on_file s \<Longrightarrow> \<forall>(ok, e)\<in>set es. ok \<Longrightarrow> goals_on_file (apply_all es s)"
  by (induction es arbitrary: s) (auto simp: apply_all_def on_file_apply)

text \<open>
  C19. The goal snapshot is what the events say. After any sequence of events the entry of a session is
  the one its own events lead to, each applied unless it is older than or equal to the state it meets;
  events of other sessions and other kinds of events do not matter. The store's revision counts the
  changes, every entry has a revision of its own within it, the snapshot lists every session once, in
  order, and if the writes worked a restarted bridge has the same store.
\<close>

theorem goals_follow_their_events:
  assumes "goals_wf s" and "gs_revision s + length es < 2 ^ 64" and t: "t = apply_all es s"
  shows "(\<forall>sid. sid \<noteq> [] \<longrightarrow> goal_entry sid t = fold goal_next (events_of sid (map snd es)) (goal_entry sid s))
    \<and> goals_wf t \<and> fst (Snapshot_goals t) = gs_revision s + accepted es s
    \<and> map fst (snd (Snapshot_goals t)) = sorted_list_of_set (fst ` set (gs_items t))
    \<and> (\<forall>(sid, g, n)\<in>set (snd (Snapshot_goals t)). goal_entry sid t = Some g \<and> n \<le> fst (Snapshot_goals t))
    \<and> (goals_on_file s \<and> (\<forall>(ok, e)\<in>set es. ok) \<longrightarrow> NewGoalStateStore True (gs_disk t) = t)"
proof -
  have wf: "goals_wf t" "gs_revision t = gs_revision s + accepted es s" using wf_apply_all [OF assms(1,2)] by (simp_all add: t)
  have d: "distinct (map fst (gs_items t))" using wf(1) by (simp add: goals_wf_def)
  have "map fst (snd (Snapshot_goals t)) = sort (map fst (gs_items t))"
    by (auto simp: Snapshot_goals_def intro!: map_idI split: option.splits)
  then have ids: "map fst (snd (Snapshot_goals t)) = sorted_list_of_set (fst ` set (gs_items t))"
    using d sorted_list_of_set_sort_remdups [of "map fst (gs_items t)"] by (simp add: distinct_remdups_id)
  have rows: "goal_entry sid t = Some g \<and> n \<le> gs_revision t" if "(sid, g, n) \<in> set (snd (Snapshot_goals t))" for sid g n
  proof -
    from that obtain r where r: "map_of (gs_items t) sid = Some r" "g = gr_Goal r" "n = gr_Revision r"
      by (auto simp: Snapshot_goals_def dom_map_of_conv_image_fst [symmetric] split: option.splits)
    with map_of_SomeD [OF r(1)] wf(1) show ?thesis by (auto simp: goal_entry_def goals_wf_def)
  qed
  have restart: "NewGoalStateStore True (gs_disk t) = t" if "goals_on_file s" "\<forall>(ok, e)\<in>set es. ok"
    using on_file_apply_all [OF that] by (simp add: t goals_on_file_def)
  have fs: "fst (Snapshot_goals t) = gs_revision t" by (simp add: Snapshot_goals_def)
  have entries: "goal_entry sid t = fold goal_next (events_of sid (map snd es)) (goal_entry sid s)" if "sid \<noteq> []" for sid
    using apply_all_entry [OF that] by (simp add: t)
  have all_rows: "\<forall>(sid, g, n)\<in>set (snd (Snapshot_goals t)). goal_entry sid t = Some g \<and> n \<le> fst (Snapshot_goals t)"
    using rows fs by auto
  show ?thesis unfolding fs [symmetric] using wf fs ids all_rows restart entries by auto
qed

definition demo_goal :: "int \<Rightarrow> goal" where
  "demo_goal n = \<lparr>g_ThreadID = ''t'', g_Objective = [], g_Status = [], g_TokenBudget = None, g_TokensUsed = 0,
     g_TimeUsedSeconds = 0, g_CreatedAt = 0, g_UpdatedAt = n\<rparr>"

lemma goals_follow_their_events_witness:
  "goal_entry ''a'' (apply_all [(True, GoalUpdate ''a'' (demo_goal 2)), (True, GoalUpdate ''a'' (demo_goal 1))]
     (NewGoalStateStore True None)) = Some (Some (demo_goal 2))"
proof -
  let ?s = "NewGoalStateStore True None"
  have "goals_wf ?s" by (simp add: goals_wf_def NewGoalStateStore_def)
  from goals_follow_their_events [OF this _ refl, of "[(True, GoalUpdate ''a'' (demo_goal 2)), (True, GoalUpdate ''a'' (demo_goal 1))]"]
  show ?thesis
    by (simp add: NewGoalStateStore_def events_of_def List.map_filter_def goal_event_def goal_next_def goal_entry_def
        goal_ignored_def demo_goal_def)
qed

end
