(* ===== verification/Failure_Recovery.thy ===== *)
theory Failure_Recovery
  imports Json_Values
begin

text \<open>
  Diagnosis of executor failures and the decision whether input may be replayed
  (\<^verbatim>\<open>internal/recovery\<close>: \<^verbatim>\<open>classify.go\<close>, \<^verbatim>\<open>policy.go\<close>,
  \<^verbatim>\<open>journal.go\<close>).

  The error info of the executor is a decoded JSON document, \<open>None\<close> when it is not one. The size of
  an encoded journal is an argument of \<^verbatim>\<open>Record\<close>.
\<close>

section \<open>Classification\<close>

datatype Category =
    UnknownFailure | ModelCapacity | TemporaryRateLimit | UsageExhausted | TransportUncertain
  | AuthenticationRequired | PermissionRevoked | PolicyBlocked | OwnershipConflict | ConfigurationError

record Failure =
  f_Category :: Category
  f_Source :: string
  f_UpstreamCode :: string
  f_HTTPStatus :: int

definition category_name :: "Category \<Rightarrow> string" where
  "category_name c =
     (case c of
        UnknownFailure \<Rightarrow> ''unknown'' | ModelCapacity \<Rightarrow> ''model_capacity''
      | TemporaryRateLimit \<Rightarrow> ''temporary_rate_limit'' | UsageExhausted \<Rightarrow> ''usage_exhausted''
      | TransportUncertain \<Rightarrow> ''transport_uncertain'' | AuthenticationRequired \<Rightarrow> ''authentication_required''
      | PermissionRevoked \<Rightarrow> ''application_permission_revoked'' | PolicyBlocked \<Rightarrow> ''policy_blocked''
      | OwnershipConflict \<Rightarrow> ''ownership_conflict'' | ConfigurationError \<Rightarrow> ''tool_or_configuration_error'')"

definition normalizeCode :: "string \<Rightarrow> string" where
  "normalizeCode code = to_lower (filter (\<lambda>c. c \<noteq> CHR ''_'') code)"

definition categoryForCode :: "string \<Rightarrow> Category option" where
  "categoryForCode code =
     (if code \<in> {''serveroverloaded'', ''flexunavailable''} then Some ModelCapacity
      else if code = ''ratelimitexceeded'' then Some TemporaryRateLimit
      else if code \<in> {''usagelimitexceeded'', ''sessionbudgetexceeded''} then Some UsageExhausted
      else if code = ''unauthorized'' then Some AuthenticationRequired
      else if code \<in> {''misalignmentpolicyviolation'', ''cyberpolicy'', ''toomanydenials''} then Some PolicyBlocked
      else if code \<in> {''contextwindowexceeded'', ''badrequest'', ''sandboxerror'', ''threadrollbackfailed''}
      then Some ConfigurationError
      else if code = ''activeturnnotsteerable'' then Some OwnershipConflict
      else if code \<in> {''httpconnectionfailed'', ''responsestreamconnectionfailed'', ''responsestreamdisconnected'',
                       ''responsetoomanyfailedattempts''} then Some TransportUncertain
      else if code \<in> {''internalservererror'', ''other''} then Some UnknownFailure
      else None)"

definition tagged_codes :: "string set" where
  "tagged_codes =
     {''httpconnectionfailed'', ''responsestreamconnectionfailed'', ''responsestreamdisconnected'',
      ''responsetoomanyfailedattempts'', ''activeturnnotsteerable''}"

text \<open>
  Decoding the \<^verbatim>\<open>httpStatusCode\<close> of a variant: field names are matched without regard to
  case, the last one counts, and any that is neither an integer nor null is an error.
\<close>

definition http_status :: "json \<Rightarrow> int option" where
  "http_status v =
     (case v of
        JObj members \<Rightarrow>
          let ms = filter (\<lambda>(k, x). to_lower k = ''httpstatuscode'') members in
          if ms = [] \<or> (\<exists>(k, x)\<in>set ms. to_int64 (Some x) = None) then None
          else (case snd (last ms) of JNull \<Rightarrow> None | x \<Rightarrow> to_int64 (Some x))
      | _ \<Rightarrow> None)"

text \<open>The code of the error info and the HTTP status found with it.\<close>

definition info_code :: "json option \<Rightarrow> string \<times> int" where
  "info_code info =
     (case to_string info of
        Some code \<Rightarrow> (code, 0)
      | None \<Rightarrow>
          (case info of
             Some (JObj members) \<Rightarrow>
               if members \<noteq> [] \<and> (\<forall>(k, x)\<in>set members. k = fst (hd members))
               then let key = fst (last members); value = snd (last members) in
                    if normalizeCode key \<in> tagged_codes
                    then (key, case http_status value of
                                 Some n \<Rightarrow> if 100 \<le> n \<and> n \<le> 599 then n else 0
                               | None \<Rightarrow> 0)
                    else ([], 0)
               else ([], 0)
           | _ \<Rightarrow> ([], 0)))"

definition coded_failure :: "json option \<Rightarrow> Failure" where
  "coded_failure info =
     (case info_code info of (code, status) \<Rightarrow>
        case categoryForCode (normalizeCode code) of
          Some c \<Rightarrow> \<lparr>f_Category = (if status = 401 then AuthenticationRequired else c), f_Source = ''codex_error_info'',
                     f_UpstreamCode = normalizeCode code, f_HTTPStatus = status\<rparr>
        | None \<Rightarrow> \<lparr>f_Category = UnknownFailure, f_Source = ''unknown'', f_UpstreamCode = [], f_HTTPStatus = 0\<rparr>)"

definition ClassifyCodex :: "json option \<Rightarrow> string \<Rightarrow> Failure" where
  "ClassifyCodex info message =
     (let f = coded_failure info; t = to_lower (trim_space message) in
      if t = ''fatal error: application network permission was revoked''
         \<or> t = ''application network permission was revoked''
      then f\<lparr>f_Category := PermissionRevoked, f_Source := ''known_message''\<rparr>
      else if f_Category f = PolicyBlocked then f
      else if contains_text t ''blocked by our safety systems''
      then f\<lparr>f_Category := PolicyBlocked, f_Source := ''known_message''\<rparr>
      else if f_Category f = UnknownFailure \<and> contains_text t ''selected model is at capacity''
      then f\<lparr>f_Category := ModelCapacity, f_Source := ''known_message''\<rparr>
      else f)"

definition ClassifyIngress :: "int \<Rightarrow> string \<Rightarrow> Failure \<times> bool" where
  "ClassifyIngress code message =
     (if code = -32001 \<and> message = ''Server overloaded; retry later.''
      then (\<lparr>f_Category = ModelCapacity, f_Source = ''codex_ingress'', f_UpstreamCode = ''ingress_overloaded'',
             f_HTTPStatus = 0\<rparr>, True)
      else (\<lparr>f_Category = UnknownFailure, f_Source = ''jsonrpc_error'', f_UpstreamCode = [], f_HTTPStatus = 0\<rparr>, False))"

definition ErrorCode :: "Failure \<Rightarrow> string" where
  "ErrorCode f =
     (if f_Category f = PolicyBlocked then ''misalignment_policy_violation''
      else if f_Category f = UnknownFailure then ''turn_error''
      else category_name (f_Category f))"

section \<open>Policy\<close>

text \<open>The empty acceptance counts as unknown, so it is the same constructor.\<close>

datatype Acceptance = AcceptanceUnknown | Accepted | Rejected | OtherAcceptance string

record Context =
  Owned :: bool
  OrdinaryChat :: bool
  cx_Acceptance :: Acceptance
  IngressRejected :: bool
  NativeWillRetry :: "bool option"
  cx_Terminal :: bool

record Decision =
  d_Mode :: string
  d_Action :: string
  d_Reason :: string
  RetryEligible :: bool

definition decision :: "string \<Rightarrow> string \<Rightarrow> bool \<Rightarrow> Decision" where
  "decision action reason eligible =
     \<lparr>d_Mode = ''observe_only'', d_Action = action, d_Reason = reason, RetryEligible = eligible\<rparr>"

definition Decide :: "Failure \<Rightarrow> Context \<Rightarrow> Decision" where
  "Decide f c =
     (if f_Category f \<in> {PermissionRevoked, PolicyBlocked, AuthenticationRequired, UsageExhausted,
                         OwnershipConflict, ConfigurationError}
      then decision ''requires_user'' (category_name (f_Category f)) False
      else if \<not> cx_Terminal c \<and> NativeWillRetry c = Some True
      then decision ''observe_upstream'' ''native_retry_in_progress'' False
      else if \<not> Owned c \<or> \<not> OrdinaryChat c then decision ''requires_user'' ''operation_not_eligible'' False
      else if cx_Acceptance c = AcceptanceUnknown then decision ''reconcile'' ''acceptance_unknown'' False
      else if cx_Acceptance c = Accepted
      then (if \<not> cx_Terminal c then decision ''reconcile'' ''accepted_turn_not_terminal'' False
            else decision ''requires_user'' ''accepted_work_requires_reconciliation'' False)
      else if cx_Acceptance c = Rejected \<and> IngressRejected c \<and> f_Source f = ''codex_ingress''
              \<and> f_Category f = ModelCapacity
      then (if cx_Terminal c \<or> NativeWillRetry c = Some True
            then decision ''reconcile'' ''conflicting_rejection_evidence'' False
            else decision ''observe_only'' ''verified_rejection_scheduler_not_enabled'' True)
      else decision ''requires_user'' ''rejection_contract_not_verified'' False)"

section \<open>Observations\<close>

record Observation =
  ob_At :: int
  ob_SessionID :: string
  ob_RequestID :: string
  ob_ThreadID :: string
  ob_TurnID :: string
  ob_Failure :: Failure
  ob_Context :: Context
  ob_Decision :: Decision

datatype observation_file = ObsMissing | ObsUnreadable | ObsInvalid | ObsRows "Observation list"

datatype record_error = ObsReadFailed | ObsTooLarge | ObsDamaged | ObsExceedsBound | ObsWriteFailed

definition MaxObservations :: nat where
  "MaxObservations = 256"

definition maxJournalBytes :: nat where
  "maxJournalBytes = 512 * 1024"

definition bounded_append :: "Observation list \<Rightarrow> Observation \<Rightarrow> Observation list" where
  "bounded_append rs ob =
     (if length rs \<ge> MaxObservations then keep_newest (MaxObservations - 1) rs else rs) @ [ob]"

definition Record_observation ::
  "(Observation list \<Rightarrow> nat) \<Rightarrow> bool \<Rightarrow> bool \<Rightarrow> Observation \<Rightarrow> observation_file \<Rightarrow> record_error option \<times> observation_file" where
  "Record_observation size_of path write_ok ob d =
     (if \<not> path then (None, d)
      else case (case d of
                   ObsMissing \<Rightarrow> Inr []
                 | ObsUnreadable \<Rightarrow> Inl ObsReadFailed
                 | ObsInvalid \<Rightarrow> Inl ObsDamaged
                 | ObsRows rs \<Rightarrow> if size_of rs > maxJournalBytes then Inl ObsTooLarge else Inr rs) of
          Inl e \<Rightarrow> (Some e, d)
        | Inr rs \<Rightarrow>
            if size_of (bounded_append rs ob) > maxJournalBytes then (Some ObsExceedsBound, d)
            else if \<not> write_ok then (Some ObsWriteFailed, d)
            else (None, ObsRows (bounded_append rs ob)))"

section \<open>Replay needs proof\<close>

text \<open>What the error channel of a running turn reports never counts as an ingress rejection.\<close>

lemma ClassifyCodex_source: "f_Source (ClassifyCodex info message) \<noteq> ''codex_ingress''"
  by (auto simp: ClassifyCodex_def Let_def coded_failure_def split: prod.splits option.splits)

lemma ClassifyIngress_proof:
  "ClassifyIngress code message = (f, True) \<Longrightarrow> code = -32001 \<and> f_Category f = ModelCapacity \<and> f_Source f = ''codex_ingress''"
  by (auto simp: ClassifyIngress_def split: if_splits)



text \<open>The journal is bounded, keeps the newest observations, and is left alone by every failure.\<close>

lemma Record_bounded:
  assumes "Record_observation size_of path ok ob d = (r, d')" and "\<forall>rs. d = ObsRows rs \<longrightarrow> length rs \<le> MaxObservations"
  shows "(\<forall>rs. d' = ObsRows rs \<longrightarrow> length rs \<le> MaxObservations) \<and> (r \<noteq> None \<longrightarrow> d' = d)
    \<and> (r = None \<and> path \<longrightarrow> (\<exists>rs rs'. d' = ObsRows (rs @ [ob]) \<and> (d = ObsRows rs' \<or> d = ObsMissing \<and> rs' = []) \<and> suffix rs rs'))"
proof -
  have l: "length (bounded_append rs ob) \<le> MaxObservations" for rs
    by (simp add: bounded_append_def length_keep_newest MaxObservations_def)
  have "\<exists>rs0. bounded_append rs ob = rs0 @ [ob] \<and> suffix rs0 rs" for rs
    by (auto simp: bounded_append_def suffix_keep_newest)
  moreover have "bounded_append [] ob = [ob]" by (simp add: bounded_append_def MaxObservations_def)
  moreover have "1 \<le> MaxObservations" by (simp add: MaxObservations_def)
  ultimately show ?thesis using l assms
    by (auto simp: Record_observation_def split: if_splits observation_file.splits)
qed

end
