(* ===== verification/Task_Journal.thy ===== *)
theory Task_Journal
  imports Bridge_Prelude "HOL-Library.AList"
begin

text \<open>
  The intent, outbox and change journal of the task interface
  (\<^verbatim>\<open>internal/taskapi/journal.go\<close>), which the owner of a database attaches to its own
  transactions.

  A table is the list of its rows in insertion order, or an association list when it has a primary key;
  an automatic sequence number is one more than the last one ever used, as SQLite's
  \<^verbatim>\<open>AUTOINCREMENT\<close> gives it. A statement that violates a key or that the database refuses is
  \<open>SqlError\<close>. Rows that tie in an \<^verbatim>\<open>ORDER BY\<close> keep their insertion order. Encoded
  watermarks and rows are opaque texts.
\<close>

section \<open>Tables\<close>

record APIError =
  er_Code :: string
  er_Acceptance :: string
  er_Action :: string

definition Failure_of :: "string \<Rightarrow> string \<Rightarrow> string \<Rightarrow> APIError" where
  "Failure_of code acceptance action = \<lparr>er_Code = code, er_Acceptance = acceptance, er_Action = action\<rparr>"

datatype api_error = Api APIError | SqlError

record IntentRecord =
  i_Key :: string
  i_Hash :: string
  i_ReceiptID :: string
  i_TaskID :: string
  i_NativeID :: string
  i_SessionID :: string
  i_RequestID :: string
  i_ScopeID :: string
  i_Generation :: u64
  i_Path :: string
  i_Metadata :: "string option"
  i_CreatedAt :: int

definition Expired :: "IntentRecord \<Rightarrow> bool" where
  "Expired r \<longleftrightarrow> i_Metadata r = None"

record Change =
  ch_Sequence :: nat
  ch_SessionID :: string
  ch_RequestID :: string
  ch_Kind :: string
  ch_At :: int

record freeze_row =
  fz_id :: string
  fz_scope :: string
  fz_generation :: u64
  fz_filter :: string
  fz_expires :: int
  fz_watermarks :: string
  fz_rows :: string

record task_journal =
  tj_intents :: "IntentRecord list"
  tj_outbox :: "(string \<times> string \<times> int) list"
  tj_changes :: "Change list"
  tj_seq :: nat
  tj_revisions :: "string \<times> string \<Rightarrow> nat"
  tj_floor :: nat
  tj_outcomes :: "(string \<times> APIError option) list"
  tj_freezes :: "freeze_row list"

definition empty_task_journal :: task_journal where
  "empty_task_journal =
     \<lparr>tj_intents = [], tj_outbox = [], tj_changes = [], tj_seq = 0, tj_revisions = (\<lambda>_. 0), tj_floor = 0,
      tj_outcomes = [], tj_freezes = []\<rparr>"

text \<open>What a claim uses of an authorized command; the key is that of its namespace and idempotency key.\<close>

record AuthorizedCommand =
  ac_Key :: string
  ac_IntentHash :: string
  ac_ScopeID :: string
  ac_Generation :: u64
  ac_Path :: string
  ac_Operation :: string

section \<open>Changes\<close>

definition ChangeTx :: "int \<Rightarrow> string \<Rightarrow> string \<Rightarrow> string \<Rightarrow> task_journal \<Rightarrow> task_journal" where
  "ChangeTx now sid rid kind j =
     (let n = Suc (tj_seq j);
          j1 = j\<lparr>tj_seq := n, tj_changes := tj_changes j @
                  [\<lparr>ch_Sequence = n, ch_SessionID = sid, ch_RequestID = rid, ch_Kind = kind, ch_At = now\<rparr>]\<rparr>
      in if rid \<noteq> [] then j1\<lparr>tj_revisions := (tj_revisions j)((sid, rid) := max (tj_revisions j (sid, rid)) n)\<rparr>
         else j1)"

definition sql_limit :: "int \<Rightarrow> 'a list \<Rightarrow> 'a list" where
  "sql_limit n xs = (if n < 0 then xs else take (nat n) xs)"

definition Changes_after :: "nat \<Rightarrow> int \<Rightarrow> task_journal \<Rightarrow> (APIError + Change list) \<times> nat" where
  "Changes_after after limit j =
     (if after < tj_floor j then (Inl (Failure_of ''cursor_expired'' ''known_none'' ''refresh_snapshot''), tj_floor j)
      else (Inr (sql_limit limit (sort_key ch_Sequence (filter (\<lambda>c. after < ch_Sequence c) (tj_changes j)))), tj_floor j))"

definition max_seq :: "Change list \<Rightarrow> nat" where
  "max_seq cs = foldr (\<lambda>c m. max (ch_Sequence c) m) cs 0"

definition Watermark :: "task_journal \<Rightarrow> nat" where
  "Watermark j = max (max_seq (tj_changes j)) (tj_floor j)"

section \<open>Intents\<close>

definition find_intent :: "string \<Rightarrow> task_journal \<Rightarrow> IntentRecord option" where
  "find_intent key j = find (\<lambda>r. i_Key r = key) (tj_intents j)"

definition ClaimTx ::
  "int \<Rightarrow> AuthorizedCommand \<Rightarrow> IntentRecord \<Rightarrow> task_journal \<Rightarrow> (api_error + IntentRecord \<times> bool) \<times> task_journal" where
  "ClaimTx now c r j =
     (case find_intent (ac_Key c) j of
        Some previous \<Rightarrow>
          if i_Hash previous \<noteq> ac_IntentHash c
          then (Inl (Api (Failure_of ''idempotency_conflict'' ''known_receipt'' ''lookup_original'')), j)
          else if Expired previous
          then (Inl (Api (Failure_of ''key_expired'' ''known_receipt'' ''lookup_original'')), j)
          else (Inr (previous, False), j)
      | None \<Rightarrow>
          let r' = r\<lparr>i_Key := ac_Key c, i_Hash := ac_IntentHash c, i_ScopeID := ac_ScopeID c,
                     i_Generation := ac_Generation c, i_Path := ac_Path c, i_CreatedAt := now\<rparr> in
          if (\<exists>p\<in>set (tj_intents j). i_ReceiptID p = i_ReceiptID r') \<or> map_of (tj_outbox j) (ac_Key c) \<noteq> None
          then (Inl SqlError, j)
          else (Inr (r', True),
                ChangeTx now (i_SessionID r') (i_RequestID r') ''intent_prepared''
                  (j\<lparr>tj_intents := tj_intents j @ [r'], tj_outbox := tj_outbox j @ [(ac_Key c, ''prepared'', now)]\<rparr>)))"

definition not_found :: APIError where
  "not_found = Failure_of ''not_found'' ''known_none'' ''lookup_original''"

definition Lookup_intent :: "string \<Rightarrow> task_journal \<Rightarrow> APIError + IntentRecord" where
  "Lookup_intent key j =
     (case find_intent key j of
        None \<Rightarrow> Inl not_found
      | Some r \<Rightarrow> if Expired r then Inl (Failure_of ''key_expired'' ''known_receipt'' ''lookup_original'') else Inr r)"

definition first_or_missing :: "IntentRecord list \<Rightarrow> APIError + IntentRecord" where
  "first_or_missing rs = (case rs of [] \<Rightarrow> Inl not_found | r # _ \<Rightarrow> Inr r)"

definition Task :: "string \<Rightarrow> u64 \<Rightarrow> string \<Rightarrow> task_journal \<Rightarrow> APIError + IntentRecord" where
  "Task scope gen tid j =
     first_or_missing (sort_key i_CreatedAt
       (filter (\<lambda>r. i_ScopeID r = scope \<and> i_Generation r = gen \<and> i_TaskID r = tid) (tj_intents j)))"

definition FindTask :: "string \<Rightarrow> task_journal \<Rightarrow> APIError + IntentRecord" where
  "FindTask tid j = first_or_missing (sort_key i_CreatedAt (filter (\<lambda>r. i_TaskID r = tid) (tj_intents j)))"

definition Receipt :: "string \<Rightarrow> u64 \<Rightarrow> string \<Rightarrow> task_journal \<Rightarrow> APIError + IntentRecord" where
  "Receipt scope gen rid j =
     first_or_missing (filter (\<lambda>r. i_ScopeID r = scope \<and> i_Generation r = gen \<and> i_ReceiptID r = rid) (tj_intents j))"

fun first_per_task :: "string list \<Rightarrow> IntentRecord list \<Rightarrow> IntentRecord list" where
  "first_per_task seen [] = []"
| "first_per_task seen (r # rs) =
     (if \<not> Expired r \<and> i_TaskID r \<notin> set seen then r # first_per_task (i_TaskID r # seen) rs
      else first_per_task seen rs)"

definition by_task :: "IntentRecord list \<Rightarrow> IntentRecord list" where
  "by_task rs = sort_key i_TaskID (sort_key i_CreatedAt rs)"

definition List_intents :: "string \<Rightarrow> u64 \<Rightarrow> task_journal \<Rightarrow> IntentRecord list" where
  "List_intents scope gen j =
     first_per_task [] (by_task (filter (\<lambda>r. i_ScopeID r = scope \<and> i_Generation r = gen) (tj_intents j)))"

definition All_intents :: "task_journal \<Rightarrow> IntentRecord list" where
  "All_intents j = first_per_task [] (by_task (filter (\<lambda>r. i_Metadata r \<noteq> None) (tj_intents j)))"

definition Pending_intents :: "task_journal \<Rightarrow> IntentRecord list" where
  "Pending_intents j =
     sort_key i_CreatedAt (filter (\<lambda>r. \<exists>st at'. (i_Key r, st, at') \<in> set (tj_outbox j) \<and> st \<in> {''prepared'', ''queued''})
       (tj_intents j))"

definition TaskCommands :: "string \<Rightarrow> task_journal \<Rightarrow> IntentRecord list" where
  "TaskCommands tid j = sort_key i_CreatedAt (filter (\<lambda>r. i_TaskID r = tid) (tj_intents j))"

definition OriginalCommandForRequest :: "string \<Rightarrow> string \<Rightarrow> task_journal \<Rightarrow> IntentRecord option" where
  "OriginalCommandForRequest sid rid j = find (\<lambda>r. i_SessionID r = sid \<and> i_RequestID r = rid) (tj_intents j)"

section \<open>Outbox and outcomes\<close>

definition set_outbox :: "int \<Rightarrow> string \<Rightarrow> string \<Rightarrow> task_journal \<Rightarrow> task_journal" where
  "set_outbox now key st j =
     j\<lparr>tj_outbox := map (\<lambda>(k, x). if k = key then (k, st, now) else (k, x)) (tj_outbox j)\<rparr>"

definition Outbox :: "int \<Rightarrow> string \<Rightarrow> string \<Rightarrow> task_journal \<Rightarrow> task_journal" where
  "Outbox now key st j = set_outbox now key st j"

definition OutboxState :: "string \<Rightarrow> task_journal \<Rightarrow> string option" where
  "OutboxState key j = map_option fst (map_of (tj_outbox j) key)"

definition SaveOutcomeTx :: "int \<Rightarrow> string \<Rightarrow> APIError option \<Rightarrow> task_journal \<Rightarrow> task_journal" where
  "SaveOutcomeTx now key failure j =
     set_outbox now key ''resolved''
       (if map_of (tj_outcomes j) key = None then j\<lparr>tj_outcomes := tj_outcomes j @ [(key, failure)]\<rparr> else j)"

definition Outcome :: "string \<Rightarrow> task_journal \<Rightarrow> APIError option option" where
  "Outcome key j = map_of (tj_outcomes j) key"

section \<open>Frozen pages\<close>

definition Freeze_page :: "freeze_row \<Rightarrow> task_journal \<Rightarrow> api_error option \<times> task_journal" where
  "Freeze_page f j =
     (if \<exists>g\<in>set (tj_freezes j). fz_id g = fz_id f then (Some SqlError, j)
      else (None, j\<lparr>tj_freezes := tj_freezes j @ [f]\<rparr>))"

definition FreezeChecked :: "freeze_row \<Rightarrow> nat \<Rightarrow> task_journal \<Rightarrow> api_error option \<times> task_journal" where
  "FreezeChecked f expected j =
     (if Watermark j \<noteq> expected then (Some (Api (Failure_of ''busy'' ''known_none'' ''wait'')), j) else Freeze_page f j)"

definition Frozen :: "int \<Rightarrow> string \<Rightarrow> string \<Rightarrow> u64 \<Rightarrow> string \<Rightarrow> string \<Rightarrow> task_journal \<Rightarrow> APIError + string" where
  "Frozen now fid scope gen filt watermarks j =
     (case find (\<lambda>g. fz_id g = fid \<and> fz_scope g = scope \<and> fz_generation g = gen \<and> fz_filter g = filt
                     \<and> now < fz_expires g) (tj_freezes j) of
        None \<Rightarrow> Inl (Failure_of ''cursor_expired'' ''known_none'' ''refresh_snapshot'')
      | Some g \<Rightarrow> if fz_watermarks g \<noteq> watermarks
                  then Inl (Failure_of ''cursor_expired'' ''known_none'' ''refresh_snapshot'') else Inr (fz_rows g))"

section \<open>Retention\<close>

definition day_ms :: int where
  "day_ms = 24 * 60 * 60 * 1000"

definition prune_floor :: "int \<Rightarrow> task_journal \<Rightarrow> nat" where
  "prune_floor now j =
     max_seq (filter (\<lambda>c. ch_At c < now - 30 * day_ms \<or> int (ch_Sequence c) \<le> int (max_seq (tj_changes j)) - 100000)
       (tj_changes j))"

definition expires_body :: "int \<Rightarrow> task_journal \<Rightarrow> IntentRecord \<Rightarrow> bool" where
  "expires_body now j r \<longleftrightarrow>
     i_Metadata r \<noteq> None \<and> i_CreatedAt r < now - 90 * day_ms \<and> (\<exists>at'. (i_Key r, ''resolved'', at') \<in> set (tj_outbox j))"

definition Prune :: "int \<Rightarrow> task_journal \<Rightarrow> task_journal" where
  "Prune now j =
     (let fl = prune_floor now j;
          j1 = j\<lparr>tj_changes := filter (\<lambda>c. fl < ch_Sequence c) (tj_changes j), tj_floor := max (tj_floor j) fl\<rparr>;
          expired = filter (expires_body now j1) (tj_intents j1);
          j2 = j1\<lparr>tj_intents := map (\<lambda>r. if expires_body now j1 r then r\<lparr>i_Metadata := None\<rparr> else r) (tj_intents j1)\<rparr>;
          j3 = (if expired \<noteq> []
                then let k = ChangeTx now [] [] ''receipt_expired'' j2
                     in k\<lparr>tj_floor := max (tj_floor k) (max_seq (tj_changes k))\<rparr>
                else j2)
      in j3\<lparr>tj_freezes := filter (\<lambda>g. now < fz_expires g) (tj_freezes j3)\<rparr>)"

end
