(* ===== verification/Journal_Properties.thy ===== *)
theory Journal_Properties
  imports Task_Journal
begin

text \<open>
  The change journal against the full history of changes: a cursor that is not refused sees every
  change after it.
\<close>

section \<open>Histories\<close>

inductive journal_op :: "task_journal \<Rightarrow> task_journal \<Rightarrow> bool" where
  op_change: "journal_op j (ChangeTx now sid rid kind j)"
| op_claim: "journal_op j (snd (ClaimTx now c r j))"
| op_outbox: "journal_op j (Outbox now key st j)"
| op_outcome: "journal_op j (SaveOutcomeTx now key failure j)"
| op_freeze: "journal_op j (snd (Freeze_page f j))"
| op_checked: "journal_op j (snd (FreezeChecked f expected j))"
| op_prune: "journal_op j (Prune now j)"

definition new_changes :: "task_journal \<Rightarrow> task_journal \<Rightarrow> Change list" where
  "new_changes j j' = filter (\<lambda>c. tj_seq j < ch_Sequence c) (tj_changes j')"

inductive journal_run :: "Change list \<Rightarrow> task_journal \<Rightarrow> bool" where
  jr_start: "journal_run [] empty_task_journal"
| jr_op: "journal_run h j \<Longrightarrow> journal_op j j' \<Longrightarrow> journal_run (h @ new_changes j j') j'"

definition latest :: "Change list \<Rightarrow> string \<times> string \<Rightarrow> nat" where
  "latest h k = max_seq (filter (\<lambda>c. (ch_SessionID c, ch_RequestID c) = k \<and> ch_RequestID c \<noteq> []) h)"

text \<open>The history numbers its changes one after the other; the table is what lies above a cut.\<close>

definition journal_inv :: "Change list \<Rightarrow> task_journal \<Rightarrow> bool" where
  "journal_inv h j \<longleftrightarrow>
     map ch_Sequence h = [1..<Suc (tj_seq j)]
     \<and> (\<exists>p. p \<le> tj_floor j \<and> tj_changes j = filter (\<lambda>c. p < ch_Sequence c) h)
     \<and> tj_floor j \<le> tj_seq j
     \<and> (\<forall>k. tj_revisions j k = latest h k)"

lemma max_seq_simps [simp]: "max_seq [] = 0" "max_seq (c # cs) = max (ch_Sequence c) (max_seq cs)"
  by (simp_all add: max_seq_def)

lemma max_seq_append [simp]: "max_seq (xs @ ys) = max (max_seq xs) (max_seq ys)"
  by (induction xs) auto

lemma max_seq_le: "c \<in> set cs \<Longrightarrow> ch_Sequence c \<le> max_seq cs"
  by (induction cs) auto

lemma max_seq_least: "(\<And>c. c \<in> set cs \<Longrightarrow> ch_Sequence c \<le> n) \<Longrightarrow> max_seq cs \<le> n"
  by (induction cs) auto

lemma history_bound: "journal_inv h j \<Longrightarrow> c \<in> set h \<Longrightarrow> 1 \<le> ch_Sequence c \<and> ch_Sequence c \<le> tj_seq j"
proof -
  assume inv: "journal_inv h j" and c: "c \<in> set h"
  then have "ch_Sequence c \<in> set (map ch_Sequence h)" by simp
  with inv show ?thesis by (auto simp: journal_inv_def)
qed

section \<open>One change\<close>

lemma ChangeTx_fields [simp]:
  "tj_seq (ChangeTx now sid rid kind j) = Suc (tj_seq j)"
  "tj_floor (ChangeTx now sid rid kind j) = tj_floor j"
  "tj_intents (ChangeTx now sid rid kind j) = tj_intents j"
  "tj_outbox (ChangeTx now sid rid kind j) = tj_outbox j"
  "tj_changes (ChangeTx now sid rid kind j) = tj_changes j @
     [\<lparr>ch_Sequence = Suc (tj_seq j), ch_SessionID = sid, ch_RequestID = rid, ch_Kind = kind, ch_At = now\<rparr>]"
  by (simp_all add: ChangeTx_def Let_def)

lemma inv_change:
  assumes "journal_inv h j"
  shows "journal_inv (h @ [\<lparr>ch_Sequence = Suc (tj_seq j), ch_SessionID = sid, ch_RequestID = rid, ch_Kind = kind, ch_At = now\<rparr>])
    (ChangeTx now sid rid kind j)"
proof -
  obtain p where p: "p \<le> tj_floor j" "tj_changes j = filter (\<lambda>c. p < ch_Sequence c) h" and fl: "tj_floor j \<le> tj_seq j"
    using assms by (auto simp: journal_inv_def)
  have "latest h k \<le> tj_seq j" for k
    unfolding latest_def using history_bound [OF assms] by (intro max_seq_least) auto
  then have "tj_revisions (ChangeTx now sid rid kind j) k =
      latest (h @ [\<lparr>ch_Sequence = Suc (tj_seq j), ch_SessionID = sid, ch_RequestID = rid, ch_Kind = kind, ch_At = now\<rparr>]) k" for k
    using assms by (cases k) (auto simp: journal_inv_def ChangeTx_def Let_def latest_def)
  with assms p fl show ?thesis
    by (auto simp: journal_inv_def intro!: exI [of _ p])
qed

lemma new_change:
  assumes "journal_inv h j" and "tj_seq j' = tj_seq j" and "set (tj_changes j') \<subseteq> set (tj_changes j)"
  shows "new_changes j (ChangeTx now sid rid kind j') =
    [\<lparr>ch_Sequence = Suc (tj_seq j), ch_SessionID = sid, ch_RequestID = rid, ch_Kind = kind, ch_At = now\<rparr>]"
proof -
  have "\<not> tj_seq j < ch_Sequence c" if "c \<in> set (tj_changes j')" for c
    using that assms(1,3) history_bound [OF assms(1), of c] by (auto simp: journal_inv_def)
  then have "filter (\<lambda>c. tj_seq j < ch_Sequence c) (tj_changes j') = []" by (simp add: filter_empty_conv)
  with assms(2) show ?thesis by (simp add: new_changes_def)
qed

lemma no_new:
  assumes "journal_inv h j" and "set (tj_changes j') \<subseteq> set (tj_changes j)"
  shows "new_changes j j' = []"
proof -
  have "\<not> tj_seq j < ch_Sequence c" if "c \<in> set (tj_changes j')" for c
    using that assms history_bound [OF assms(1), of c] by (auto simp: journal_inv_def)
  then show ?thesis by (simp add: new_changes_def filter_empty_conv)
qed

lemma inv_fields:
  "journal_inv h j \<Longrightarrow> tj_changes j' = tj_changes j \<Longrightarrow> tj_seq j' = tj_seq j \<Longrightarrow> tj_floor j' = tj_floor j
    \<Longrightarrow> tj_revisions j' = tj_revisions j \<Longrightarrow> journal_inv h j'"
  by (auto simp: journal_inv_def)

section \<open>Pruning\<close>

definition cut :: "int \<Rightarrow> task_journal \<Rightarrow> task_journal" where
  "cut now j = j\<lparr>tj_changes := filter (\<lambda>c. prune_floor now j < ch_Sequence c) (tj_changes j),
                 tj_floor := max (tj_floor j) (prune_floor now j)\<rparr>"

lemma inv_cut: "journal_inv h j \<Longrightarrow> journal_inv h (cut now j)"
proof -
  assume inv: "journal_inv h j"
  then obtain p where p: "p \<le> tj_floor j" "tj_changes j = filter (\<lambda>c. p < ch_Sequence c) h" "tj_floor j \<le> tj_seq j"
    by (auto simp: journal_inv_def)
  have "prune_floor now j \<le> tj_seq j"
    unfolding prune_floor_def using history_bound [OF inv] p(2) by (intro max_seq_least) auto
  moreover have "filter (\<lambda>c. prune_floor now j < ch_Sequence c) (tj_changes j) =
      filter (\<lambda>c. max p (prune_floor now j) < ch_Sequence c) h"
    by (simp add: p(2))
  ultimately show ?thesis
    using inv p by (auto simp: journal_inv_def cut_def intro!: exI [of _ "max p (prune_floor now j)"])
qed

text \<open>The rest of a pruning run: bodies expire, which raises the floor to the change that says so.\<close>

definition expire_bodies :: "int \<Rightarrow> task_journal \<Rightarrow> task_journal" where
  "expire_bodies now j = j\<lparr>tj_intents := map (\<lambda>r. if expires_body now j r then r\<lparr>i_Metadata := None\<rparr> else r) (tj_intents j)\<rparr>"

definition raise_floor :: "task_journal \<Rightarrow> task_journal" where
  "raise_floor j = j\<lparr>tj_floor := max (tj_floor j) (max_seq (tj_changes j))\<rparr>"

lemma Prune_eq:
  "Prune now j =
     (let j2 = expire_bodies now (cut now j);
          j3 = (if filter (expires_body now (cut now j)) (tj_intents (cut now j)) \<noteq> []
                then raise_floor (ChangeTx now [] [] ''receipt_expired'' j2) else j2)
      in j3\<lparr>tj_freezes := filter (\<lambda>g. now < fz_expires g) (tj_freezes j3)\<rparr>)"
  by (simp add: Prune_def cut_def expire_bodies_def raise_floor_def Let_def)

lemma inv_raise: "journal_inv h j \<Longrightarrow> journal_inv h (raise_floor j)"
proof -
  assume inv: "journal_inv h j"
  then obtain p where p: "p \<le> tj_floor j" "tj_changes j = filter (\<lambda>c. p < ch_Sequence c) h" by (auto simp: journal_inv_def)
  have "max_seq (tj_changes j) \<le> tj_seq j"
    unfolding p(2) using history_bound [OF inv] by (intro max_seq_least) auto
  moreover have "p \<le> max (tj_floor j) (max_seq (tj_changes j))" using p(1) by simp
  ultimately show ?thesis using inv p(2) unfolding journal_inv_def raise_floor_def by auto
qed

lemma inv_prune: "journal_inv h j \<Longrightarrow> journal_inv (h @ new_changes j (Prune now j)) (Prune now j)"
proof -
  assume inv: "journal_inv h j"
  let ?k = "expire_bodies now (cut now j)"
  have k: "journal_inv h ?k" using inv_fields [OF inv_cut [OF inv, of now]] by (simp add: expire_bodies_def)
  have sub: "tj_seq ?k = tj_seq j" "set (tj_changes ?k) \<subseteq> set (tj_changes j)" by (auto simp: expire_bodies_def cut_def)
  let ?c = "\<lparr>ch_Sequence = Suc (tj_seq j), ch_SessionID = [], ch_RequestID = [], ch_Kind = ''receipt_expired'', ch_At = now\<rparr>"
  show ?thesis
  proof (cases "filter (expires_body now (cut now j)) (tj_intents (cut now j)) = []")
    case True
    then have f: "tj_changes (Prune now j) = tj_changes ?k" "tj_seq (Prune now j) = tj_seq ?k"
      "tj_floor (Prune now j) = tj_floor ?k" "tj_revisions (Prune now j) = tj_revisions ?k"
      by (simp_all add: Prune_eq Let_def)
    from no_new [OF inv, of "Prune now j"] inv_fields [OF k f] sub(2) f(1) show ?thesis by simp
  next
    case False
    let ?m = "raise_floor (ChangeTx now [] [] ''receipt_expired'' ?k)"
    from False have f: "tj_changes (Prune now j) = tj_changes ?m" "tj_seq (Prune now j) = tj_seq ?m"
      "tj_floor (Prune now j) = tj_floor ?m" "tj_revisions (Prune now j) = tj_revisions ?m"
      by (simp_all add: Prune_eq Let_def)
    have "new_changes j (Prune now j) = new_changes j (ChangeTx now [] [] ''receipt_expired'' ?k)"
      using f(1) by (simp add: new_changes_def raise_floor_def)
    then have n: "new_changes j (Prune now j) = [?c]" using new_change [OF inv sub] by simp
    have "journal_inv (h @ [?c]) ?m"
      using inv_raise [OF inv_change [OF k, of "[]" "[]" "''receipt_expired''" now]] sub(1) by simp
    from inv_fields [OF this f] n show ?thesis by simp
  qed
qed

lemma ClaimTx_cases:
  obtains (old) "snd (ClaimTx now c r j) = j"
    | (new) k where "snd (ClaimTx now c r j) = ChangeTx now (i_SessionID r) (i_RequestID r) ''intent_prepared'' k"
        "tj_changes k = tj_changes j" "tj_seq k = tj_seq j" "tj_floor k = tj_floor j" "tj_revisions k = tj_revisions j"
proof (cases "find_intent (ac_Key c) j = None
    \<and> \<not> ((\<exists>p\<in>set (tj_intents j). i_ReceiptID p = i_ReceiptID r) \<or> map_of (tj_outbox j) (ac_Key c) \<noteq> None)")
  case True
  then have "snd (ClaimTx now c r j) = ChangeTx now (i_SessionID r) (i_RequestID r) ''intent_prepared''
      (j\<lparr>tj_intents := tj_intents j @ [r\<lparr>i_Key := ac_Key c, i_Hash := ac_IntentHash c, i_ScopeID := ac_ScopeID c,
            i_Generation := ac_Generation c, i_Path := ac_Path c, i_CreatedAt := now\<rparr>],
         tj_outbox := tj_outbox j @ [(ac_Key c, ''prepared'', now)]\<rparr>)"
    by (simp add: ClaimTx_def Let_def)
  then show ?thesis by (rule new) simp_all
next
  case False
  then have "snd (ClaimTx now c r j) = j" by (auto simp: ClaimTx_def Let_def split: option.splits)
  then show ?thesis by (rule old)
qed

lemma inv_op: "journal_op j j' \<Longrightarrow> journal_inv h j \<Longrightarrow> journal_inv (h @ new_changes j j') j'"
proof (induction rule: journal_op.induct)
  case (op_change j now sid rid kind)
  then show ?case using inv_change [of h j] new_change [of h j j] by simp
next
  case (op_claim j now c r)
  show ?case
  proof (cases rule: ClaimTx_cases [of now c r j])
    case old
    with op_claim no_new [of h j j] show ?thesis by simp
  next
    case (new k)
    have "journal_inv h k" using inv_fields [OF op_claim new(2-5)] .
    from inv_change [OF this] new_change [OF op_claim new(3)] new show ?thesis by simp
  qed
next
  case (op_checked j f expected)
  then show ?case
    using no_new [of h j] inv_fields [of h j]
    by (auto simp: FreezeChecked_def Freeze_page_def)
qed (use no_new inv_fields inv_prune in \<open>auto simp: Outbox_def set_outbox_def SaveOutcomeTx_def Freeze_page_def\<close>)

lemma run_inv: "journal_run h j \<Longrightarrow> journal_inv h j"
proof (induction rule: journal_run.induct)
  case jr_start
  show ?case by (simp add: journal_inv_def empty_task_journal_def latest_def)
qed (simp add: inv_op)

section \<open>Cursors\<close>

lemma sorted_history: "journal_inv h j \<Longrightarrow> sorted (map ch_Sequence (filter P h))"
proof -
  assume "journal_inv h j"
  then have "map ch_Sequence h = [1..<Suc (tj_seq j)]" by (simp only: journal_inv_def)
  then have "sorted (map ch_Sequence h)" by (simp only: sorted_upt)
  then show ?thesis by (rule sorted_filter)
qed

lemma Watermark_seq: "journal_inv h j \<Longrightarrow> Watermark j = tj_seq j"
proof -
  assume inv: "journal_inv h j"
  then obtain p where p: "p \<le> tj_floor j" "tj_changes j = filter (\<lambda>c. p < ch_Sequence c) h" "tj_floor j \<le> tj_seq j"
    by (auto simp: journal_inv_def)
  have le: "max_seq (tj_changes j) \<le> tj_seq j"
    unfolding p(2) using history_bound [OF inv] by (intro max_seq_least) auto
  show ?thesis
  proof (cases "tj_seq j \<le> p")
    case True
    with p le show ?thesis by (simp add: Watermark_def)
  next
    case False
    then have "tj_seq j \<in> set (map ch_Sequence h)" using inv by (auto simp: journal_inv_def)
    then obtain c where "c \<in> set h" "ch_Sequence c = tj_seq j" by auto
    with False have "tj_seq j \<le> max_seq (tj_changes j)" unfolding p(2) using max_seq_le [of c] by fastforce
    with p le show ?thesis by (simp add: Watermark_def)
  qed
qed

lemma run_changes:
  assumes "journal_run h j"
  shows "Changes_after n limit j =
      (if n < tj_floor j then Inl (Failure_of ''cursor_expired'' ''known_none'' ''refresh_snapshot'')
       else Inr (sql_limit limit (filter (\<lambda>c. n < ch_Sequence c) h)), tj_floor j)"
proof -
  have inv: "journal_inv h j" using assms by (rule run_inv)
  then obtain p where p: "p \<le> tj_floor j" "tj_changes j = filter (\<lambda>c. p < ch_Sequence c) h"
    by (auto simp: journal_inv_def)
  have "sort_key ch_Sequence (filter (\<lambda>c. n < ch_Sequence c) (tj_changes j)) = filter (\<lambda>c. n < ch_Sequence c) h"
    if "\<not> n < tj_floor j"
  proof -
    have "filter (\<lambda>c. n < ch_Sequence c) (tj_changes j) = filter (\<lambda>c. n < ch_Sequence c) h"
      unfolding p(2) filter_filter using that p(1) by (intro filter_cong) auto
    then show ?thesis using sorted_history [OF inv] by (simp add: sorted_sort_id sort_key_id_if_sorted)
  qed
  then show ?thesis by (simp add: Changes_after_def)
qed



end
