(* ===== verification/Base64_Url.thy ===== *)
theory Base64_Url
  imports Bridge_Prelude
begin

text \<open>
  What the task interface uses of \<^verbatim>\<open>encoding/base64\<close> and \<^verbatim>\<open>strings.Split\<close>:
  the unpadded URL alphabet (\<^verbatim>\<open>RawURLEncoding\<close>). The decoder skips line breaks, ignores
  the unused bits of the last character and refuses every other character and a single character left
  over, as Go's does.
\<close>

section \<open>The encoder and the decoder\<close>

definition b64_alphabet :: string where
  "b64_alphabet = ''ABCDEFGHIJKLMNOPQRSTUVWXYZabcdefghijklmnopqrstuvwxyz0123456789-_''"

definition b64_char :: "nat \<Rightarrow> char" where
  "b64_char n = b64_alphabet ! n"

fun index_of :: "char \<Rightarrow> string \<Rightarrow> nat option" where
  "index_of c [] = None"
| "index_of c (x # xs) = (if x = c then Some 0 else map_option Suc (index_of c xs))"

fun b64_groups :: "nat list \<Rightarrow> nat list" where
  "b64_groups [] = []"
| "b64_groups [a] = [a div 4, a mod 4 * 16]"
| "b64_groups [a, b] = [a div 4, a mod 4 * 16 + b div 16, b mod 16 * 4]"
| "b64_groups (a # b # c # bs) =
     a div 4 # (a mod 4 * 16 + b div 16) # (b mod 16 * 4 + c div 64) # (c mod 64) # b64_groups bs"

fun b64_bytes :: "nat list \<Rightarrow> nat list option" where
  "b64_bytes [] = Some []"
| "b64_bytes [x] = None"
| "b64_bytes [x, y] = Some [x * 4 + y div 16]"
| "b64_bytes [x, y, z] = Some [x * 4 + y div 16, y mod 16 * 16 + z div 4]"
| "b64_bytes (x # y # z # w # vs) =
     map_option (\<lambda>bs. (x * 4 + y div 16) # (y mod 16 * 16 + z div 4) # (z mod 4 * 64 + w) # bs) (b64_bytes vs)"

definition raw_url_encode :: "string \<Rightarrow> string" where
  "raw_url_encode s = map b64_char (b64_groups (map of_char s))"

fun all_values :: "string \<Rightarrow> nat list option" where
  "all_values [] = Some []"
| "all_values (c # cs) =
     (case (index_of c b64_alphabet, all_values cs) of (Some v, Some vs) \<Rightarrow> Some (v # vs) | _ \<Rightarrow> None)"

definition raw_url_decode :: "string \<Rightarrow> string option" where
  "raw_url_decode s =
     (case all_values (filter (\<lambda>c. c \<noteq> CHR 0x0A \<and> c \<noteq> CHR 0x0D) s) of
        None \<Rightarrow> None
      | Some vs \<Rightarrow> map_option (map char_of) (b64_bytes vs))"

fun split_at :: "char \<Rightarrow> string \<Rightarrow> string list" where
  "split_at d [] = [[]]"
| "split_at d (c # cs) =
     (if c = d then [] # split_at d cs
      else case split_at d cs of [] \<Rightarrow> [[c]] | p # ps \<Rightarrow> (c # p) # ps)"

section \<open>Round trip\<close>

lemma b64_groups_less: "list_all (\<lambda>b. b < 256) bs \<Longrightarrow> list_all (\<lambda>v. v < 64) (b64_groups bs)"
  by (induction bs rule: b64_groups.induct) auto

lemma b64_bytes_groups: "list_all (\<lambda>b. b < 256) bs \<Longrightarrow> b64_bytes (b64_groups bs) = Some bs"
  by (induction bs rule: b64_groups.induct) auto

lemma index_of_nth: "distinct xs \<Longrightarrow> n < length xs \<Longrightarrow> index_of (xs ! n) xs = Some n"
  by (induction xs arbitrary: n) (auto simp: nth_Cons split: nat.splits)

lemma length_alphabet: "length b64_alphabet = 64" and distinct_alphabet: "distinct b64_alphabet"
  by (simp_all add: b64_alphabet_def)

lemma index_of_b64: "v < 64 \<Longrightarrow> index_of (b64_char v) b64_alphabet = Some v"
  unfolding b64_char_def by (rule index_of_nth) (simp_all add: distinct_alphabet length_alphabet)

lemma b64_char_in: "v < 64 \<Longrightarrow> b64_char v \<in> set b64_alphabet"
  unfolding b64_char_def by (rule nth_mem) (simp add: length_alphabet)

lemma all_values_chars: "list_all (\<lambda>v. v < 64) vs \<Longrightarrow> all_values (map b64_char vs) = Some vs"
  by (induction vs) (auto simp: index_of_b64)

lemma encode_chars: "c \<in> set (raw_url_encode s) \<Longrightarrow> c \<in> set b64_alphabet"
  using b64_groups_less [of "map of_char s"] b64_char_in
  by (auto simp: raw_url_encode_def list_all_iff)

lemma encode_no_newline: "filter (\<lambda>c. c \<noteq> CHR 0x0A \<and> c \<noteq> CHR 0x0D) (raw_url_encode s) = raw_url_encode s"
proof (rule filter_True, rule ballI)
  fix c
  assume "c \<in> set (raw_url_encode s)"
  then have "c \<in> set b64_alphabet" by (rule encode_chars)
  then show "c \<noteq> CHR 0x0A \<and> c \<noteq> CHR 0x0D" by (auto simp: b64_alphabet_def)
qed

lemma encode_no_dot: "CHR ''.'' \<notin> set (raw_url_encode s)"
proof
  assume "CHR ''.'' \<in> set (raw_url_encode s)"
  then have "CHR ''.'' \<in> set b64_alphabet" by (rule encode_chars)
  then show False by (simp add: b64_alphabet_def)
qed

lemma decode_encode [simp]: "raw_url_decode (raw_url_encode s) = Some s"
proof -
  have bytes: "list_all (\<lambda>b. b < 256) (map of_char s :: nat list)" by (simp add: list_all_iff)
  have "all_values (raw_url_encode s) = Some (b64_groups (map of_char s))"
    unfolding raw_url_encode_def by (rule all_values_chars) (rule b64_groups_less [OF bytes])
  then show ?thesis
    using b64_bytes_groups [OF bytes]
    by (simp add: raw_url_decode_def encode_no_newline comp_def)
qed

lemma split_none: "d \<notin> set s \<Longrightarrow> split_at d s = [s]"
  by (induction s) auto

lemma split_once: "d \<notin> set a \<Longrightarrow> d \<notin> set b \<Longrightarrow> split_at d (a @ d # b) = [a, b]"
  by (induction a) (auto simp: split_none)

end
