(* ===== verification/Task_Snapshots.thy ===== *)
theory Task_Snapshots
  imports Journal_Properties Base64_Url Json_Values
begin

text \<open>
  Frozen snapshots, signed cursors and the event feed of the task interface
  (\<^verbatim>\<open>internal/taskapi/cursor.go\<close>, and their source in
  \<^verbatim>\<open>internal/core/task_api_projection.go\<close>).

  The encoders of \<^verbatim>\<open>encoding/json\<close> for cursors, watermarks and rows, and the keyed hash of
  \<^verbatim>\<open>crypto/hmac\<close> under the secret of the process, are the fields of a codec: texts to the
  model; an error that is none of the interface's own is \<open>SqlError\<close>. A call reads the clock several times; \<open>clk n\<close> is its reading number \<open>n\<close>. What the
  hub reads of its other stores during a capture is a \<open>capture_view\<close>, one per attempt.
\<close>

section \<open>Cursors\<close>

record store_mark =
  wm_Store :: string
  wm_Sequence :: nat

record ReadScope =
  rs_Authority :: string
  rs_StableScopeID :: string
  rs_FilterHash :: string
  rs_NamespaceGeneration :: u64

record Freeze =
  fr_ID :: string
  fr_ExpiresAt :: int
  fr_Watermarks :: "store_mark list"

record SnapshotRow =
  sr_Key :: string
  sr_Value :: json

record cursorPayload =
  cp_Kind :: string
  cp_Schema :: string
  cp_Scope :: ReadScope
  cp_Freeze :: Freeze
  cp_After :: string
  cp_Views :: "string list"

record CursorCodec =
  cc_marshal :: "cursorPayload \<Rightarrow> string"
  cc_unmarshal :: "string \<Rightarrow> cursorPayload option"
  cc_mac :: "string \<Rightarrow> string"
  cc_marks :: "store_mark list \<Rightarrow> string"
  cc_rows :: "SnapshotRow list \<Rightarrow> string"
  cc_unrows :: "string \<Rightarrow> SnapshotRow list option"
  cc_schema :: string

definition cursor_expired :: APIError where
  "cursor_expired = Failure_of ''cursor_expired'' ''known_none'' ''refresh_snapshot''"

definition invalid_argument :: APIError where
  "invalid_argument = Failure_of ''invalid_argument'' ''known_none'' ''correct_input''"

definition broken_snapshot :: APIError where
  "broken_snapshot = Failure_of ''unknown_acceptance'' ''unknown'' ''refresh_snapshot''"

definition encode_cursor :: "CursorCodec \<Rightarrow> cursorPayload \<Rightarrow> APIError + string" where
  "encode_cursor k p =
     (let body = raw_url_encode (cc_marshal k p);
          token = body @ ''.'' @ raw_url_encode (cc_mac k body)
      in if 16000 < length token then Inl invalid_argument else Inr token)"

definition decode_cursor :: "CursorCodec \<Rightarrow> int \<Rightarrow> string \<Rightarrow> ReadScope \<Rightarrow> string \<Rightarrow> APIError + cursorPayload" where
  "decode_cursor k now token scope kind =
     (if 16000 < length token then Inl cursor_expired
      else case split_at (CHR ''.'') token of
        [body, sig] \<Rightarrow>
          if raw_url_decode sig \<noteq> Some (cc_mac k body) then Inl cursor_expired
          else (case raw_url_decode body of
             None \<Rightarrow> Inl cursor_expired
           | Some raw \<Rightarrow>
               (case cc_unmarshal k raw of
                  None \<Rightarrow> Inl cursor_expired
                | Some p \<Rightarrow>
                    if cp_Kind p \<noteq> kind \<or> cp_Schema p \<noteq> cc_schema k \<or> cp_Scope p \<noteq> scope
                       \<or> fr_ID (cp_Freeze p) = [] \<or> fr_ExpiresAt (cp_Freeze p) \<le> now
                    then Inl cursor_expired else Inr p))
      | _ \<Rightarrow> Inl cursor_expired)"

definition EventWatermarks :: "CursorCodec \<Rightarrow> int \<Rightarrow> string \<Rightarrow> ReadScope \<Rightarrow> APIError + store_mark list" where
  "EventWatermarks k now token scope =
     (case decode_cursor k now token scope ''events'' of
        Inl e \<Rightarrow> Inl e | Inr p \<Rightarrow> Inr (fr_Watermarks (cp_Freeze p)))"

definition EventsFromWatermarks :: "CursorCodec \<Rightarrow> ReadScope \<Rightarrow> store_mark list \<Rightarrow> int \<Rightarrow> APIError + string" where
  "EventsFromWatermarks k scope marks expires =
     encode_cursor k
       \<lparr>cp_Kind = ''events'', cp_Schema = cc_schema k, cp_Scope = scope,
        cp_Freeze = \<lparr>fr_ID = ''event-stream'', fr_ExpiresAt = expires, fr_Watermarks = marks\<rparr>,
        cp_After = [], cp_Views = []\<rparr>"

section \<open>Pages\<close>

record SnapshotPage =
  pg_SourceRelationCoverage :: string
  pg_Items :: "json list"
  pg_Views :: "string list"
  pg_Watermarks :: "store_mark list"
  pg_EventsCursor :: string
  pg_NextPageCursor :: string
  pg_HasMore :: bool
  pg_Partial :: bool
  pg_Consistency :: string
  pg_FreezeID :: string
  pg_ExpiresAt :: int
  pg_PageOrder :: string

fun unusable_marks :: "string list \<Rightarrow> store_mark list \<Rightarrow> bool" where
  "unusable_marks seen [] = False"
| "unusable_marks seen (w # ws) =
     (wm_Store w = [] \<or> wm_Store w \<in> set seen \<or> unusable_marks (wm_Store w # seen) ws)"

fun ordered_rows :: "string \<Rightarrow> SnapshotRow list \<Rightarrow> string option" where
  "ordered_rows last_key [] = Some last_key"
| "ordered_rows last_key (r # rs) =
     (if sr_Key r = [] \<or> sr_Key r \<le> last_key then None else ordered_rows (sr_Key r) rs)"

definition join_views :: "string list \<Rightarrow> string" where
  "join_views vs = (case vs of [] \<Rightarrow> [] | v # rest \<Rightarrow> v @ concat (map (\<lambda>w. CHR 0x00 # w) rest))"

definition relation_partial :: "string list \<Rightarrow> bool" where
  "relation_partial vs \<longleftrightarrow> ''source_children'' \<in> set vs"

text \<open>One page from a payload that has been captured or decoded.\<close>

definition page_of_payload ::
  "CursorCodec \<Rightarrow> (Freeze \<Rightarrow> string \<Rightarrow> int \<Rightarrow> api_error + SnapshotRow list \<times> bool) \<Rightarrow> int \<Rightarrow> ReadScope \<Rightarrow> int
     \<Rightarrow> cursorPayload \<Rightarrow> api_error + SnapshotPage" where
  "page_of_payload k source_page now scope limit p =
     (let f = cp_Freeze p in
      if fr_ID f = [] \<or> fr_ExpiresAt f \<le> now then Inl (Api cursor_expired)
      else if unusable_marks [] (fr_Watermarks f) then Inl (Api broken_snapshot)
      else case source_page f (cp_After p) limit of
        Inl e \<Rightarrow> Inl e
      | Inr (rows, has_more) \<Rightarrow>
          if limit < int (length rows) \<or> (has_more \<and> rows = []) then Inl (Api broken_snapshot)
          else (case ordered_rows (cp_After p) rows of
             None \<Rightarrow> Inl (Api broken_snapshot)
           | Some last_key \<Rightarrow>
               (case encode_cursor k \<lparr>cp_Kind = ''events'', cp_Schema = cp_Schema p, cp_Scope = scope,
                        cp_Freeze = f, cp_After = [], cp_Views = []\<rparr> of
                  Inl e \<Rightarrow> Inl (Api e)
                | Inr events \<Rightarrow>
                    (case (if has_more then encode_cursor k (p\<lparr>cp_After := last_key\<rparr>) else Inr []) of
                       Inl e \<Rightarrow> Inl (Api e)
                     | Inr next_page \<Rightarrow>
                         Inr \<lparr>pg_SourceRelationCoverage =
                                (if relation_partial (cp_Views p) then ''trusted_relations_only'' else ''not_requested''),
                              pg_Items = map sr_Value rows, pg_Views = cp_Views p, pg_Watermarks = fr_Watermarks f,
                              pg_EventsCursor = events, pg_NextPageCursor = next_page, pg_HasMore = has_more,
                              pg_Partial = relation_partial (cp_Views p),
                              pg_Consistency = ''per_store_snapshot_vector'', pg_FreezeID = fr_ID f,
                              pg_ExpiresAt = fr_ExpiresAt f, pg_PageOrder = ''task_id''\<rparr>))))"

text \<open>
  The state threads through the source: a first page captures, and a capture writes its freeze.
\<close>

definition Page_engine ::
  "CursorCodec \<Rightarrow> ('s \<Rightarrow> (api_error + Freeze) \<times> 's) \<Rightarrow> ('s \<Rightarrow> Freeze \<Rightarrow> string \<Rightarrow> int \<Rightarrow> api_error + SnapshotRow list \<times> bool)
     \<Rightarrow> (nat \<Rightarrow> int) \<Rightarrow> ReadScope \<Rightarrow> string list \<Rightarrow> string \<Rightarrow> int \<Rightarrow> 's \<Rightarrow> (api_error + SnapshotPage) \<times> 's" where
  "Page_engine k capture source_page clk scope views token limit s =
     (if limit < 1 \<or> 100 < limit \<or> rs_Authority scope = [] \<or> rs_StableScopeID scope = [] \<or> rs_FilterHash scope = []
      then (Inl (Api invalid_argument), s)
      else if token = []
      then (case capture s of
              (Inl e, s') \<Rightarrow> (Inl e, s')
            | (Inr f, s') \<Rightarrow>
                (page_of_payload k (source_page s') (clk 1) scope limit
                   \<lparr>cp_Kind = ''snapshot'', cp_Schema = cc_schema k, cp_Scope = scope, cp_Freeze = f,
                    cp_After = [], cp_Views = views\<rparr>, s'))
      else (case decode_cursor k (clk 0) token scope ''snapshot'' of
              Inl e \<Rightarrow> (Inl (Api e), s)
            | Inr p \<Rightarrow>
                if join_views (cp_Views p) \<noteq> join_views views then (Inl (Api cursor_expired), s)
                else (page_of_payload k (source_page s) (clk 1) scope limit p, s)))"

section \<open>The hub as the source\<close>

text \<open>What a capture uses of a projected task.\<close>

record api_task =
  at_task_id :: string
  at_views :: "string list"
  at_target_session :: string
  at_source_session :: string
  at_value :: json

definition selected :: "string list \<Rightarrow> string \<Rightarrow> api_task \<Rightarrow> bool" where
  "selected wanted sid t \<longleftrightarrow>
     (\<exists>actual\<in>set (at_views t). actual \<in> set wanted \<and>
        (sid = [] \<or> (if actual = ''source_children'' \<or> actual = ''manager_arranging''
                     then at_source_session t else at_target_session t) = sid))"

definition snapshot_rows :: "string list \<Rightarrow> string \<Rightarrow> api_task list \<Rightarrow> SnapshotRow list" where
  "snapshot_rows wanted sid ts =
     map (\<lambda>t. \<lparr>sr_Key = at_task_id t, sr_Value = at_value t\<rparr>) (filter (selected wanted sid) ts)"

text \<open>One attempt of a capture: what each read returns, and the ordinary journal when the freeze commits.\<close>

record capture_view =
  cv_before :: "api_error + store_mark list"
  cv_tasks :: "api_error + api_task list"
  cv_after :: "api_error + store_mark list"
  cv_scope :: "api_error + ReadScope"
  cv_id :: string
  cv_now :: int
  cv_journal :: task_journal

definition local_mark :: "store_mark list \<Rightarrow> nat" where
  "local_mark ms = foldl (\<lambda>n m. if wm_Store m = ''ordinary'' then wm_Sequence m else n) 0 ms"

definition freeze_of :: "CursorCodec \<Rightarrow> ReadScope \<Rightarrow> Freeze \<Rightarrow> SnapshotRow list \<Rightarrow> freeze_row" where
  "freeze_of k scope f rows =
     \<lparr>fz_id = fr_ID f, fz_scope = rs_StableScopeID scope, fz_generation = rs_NamespaceGeneration scope,
      fz_filter = rs_FilterHash scope, fz_expires = fr_ExpiresAt f, fz_watermarks = cc_marks k (fr_Watermarks f),
      fz_rows = cc_rows k rows\<rparr>"

fun Capture_attempts ::
  "CursorCodec \<Rightarrow> ReadScope \<Rightarrow> string list \<Rightarrow> string \<Rightarrow> capture_view list \<Rightarrow> task_journal
     \<Rightarrow> (api_error + Freeze) \<times> task_journal" where
  "Capture_attempts k scope wanted sid [] j = (Inl (Api (Failure_of ''busy'' ''known_none'' ''wait'')), j)"
| "Capture_attempts k scope wanted sid (v # vs) j =
     (case (cv_before v, cv_tasks v, cv_after v) of
        (Inl e, _, _) \<Rightarrow> (Inl e, cv_journal v)
      | (Inr before, Inl e, _) \<Rightarrow> (Inl e, cv_journal v)
      | (Inr before, Inr ts, Inl e) \<Rightarrow> (Inl e, cv_journal v)
      | (Inr before, Inr ts, Inr after) \<Rightarrow>
          if cc_marks k before \<noteq> cc_marks k after then Capture_attempts k scope wanted sid vs (cv_journal v)
          else if cv_scope v \<noteq> Inr scope then (Inl (Api cursor_expired), cv_journal v)
          else
            let f = \<lparr>fr_ID = ''sf_'' @ cv_id v, fr_ExpiresAt = cv_now v + 5 * 60 * 1000, fr_Watermarks = before\<rparr>
            in (case FreezeChecked (freeze_of k scope f (snapshot_rows wanted sid ts)) (local_mark before) (cv_journal v) of
                  (Some (Api e), j') \<Rightarrow>
                    if er_Code e = ''busy'' then Capture_attempts k scope wanted sid vs j' else (Inl (Api e), j')
                | (Some e, j') \<Rightarrow> (Inl e, j')
                | (None, j') \<Rightarrow> (Inr f, j')))"

definition Capture ::
  "CursorCodec \<Rightarrow> ReadScope \<Rightarrow> string list \<Rightarrow> string \<Rightarrow> capture_view list \<Rightarrow> task_journal
     \<Rightarrow> (api_error + Freeze) \<times> task_journal" where
  "Capture k scope wanted sid vs j = Capture_attempts k scope wanted sid (take 5 vs) j"

text \<open>The access check of a row is one of the hub; \<open>readable\<close> says which tasks the caller may read.\<close>

definition source_Page ::
  "CursorCodec \<Rightarrow> (string \<Rightarrow> bool) \<Rightarrow> int \<Rightarrow> ReadScope \<Rightarrow> task_journal \<Rightarrow> Freeze \<Rightarrow> string \<Rightarrow> int
     \<Rightarrow> api_error + SnapshotRow list \<times> bool" where
  "source_Page k readable now scope j f after limit =
     (case Frozen now (fr_ID f) (rs_StableScopeID scope) (rs_NamespaceGeneration scope) (rs_FilterHash scope)
             (cc_marks k (fr_Watermarks f)) j of
        Inl e \<Rightarrow> Inl (Api e)
      | Inr data \<Rightarrow>
          (case cc_unrows k data of
             None \<Rightarrow> Inl SqlError
           | Some rows \<Rightarrow>
               let rest = filter (\<lambda>r. after < sr_Key r) rows in
               if \<exists>r\<in>set rest. \<not> readable (sr_Key r) then Inl (Api cursor_expired)
               else Inr (if limit < int (length rest) then take (nat limit) rest else rest, limit < int (length rest))))"

end
