(* ===== verification/Snapshot_Properties.thy ===== *)
theory Snapshot_Properties
  imports Task_Snapshots
begin

text \<open>
  Paging through a frozen snapshot: the contract of a snapshot source as a locale, a client that follows
  page cursors proved against it once, and the hub's source as its instance.
\<close>

section \<open>Cursors\<close>

lemma decode_encode_cursor:
  assumes "encode_cursor k p = Inr token" and "cc_unmarshal k (cc_marshal k p) = Some p"
  shows "decode_cursor k now token scope kind =
    (if cp_Kind p \<noteq> kind \<or> cp_Schema p \<noteq> cc_schema k \<or> cp_Scope p \<noteq> scope
        \<or> fr_ID (cp_Freeze p) = [] \<or> fr_ExpiresAt (cp_Freeze p) \<le> now then Inl cursor_expired else Inr p)"
proof -
  let ?body = "raw_url_encode (cc_marshal k p)"
  have token: "token = ?body @ CHR ''.'' # raw_url_encode (cc_mac k ?body)" "length token \<le> 16000"
    using assms(1) by (auto simp: encode_cursor_def Let_def split: if_splits)
  have "split_at (CHR ''.'') token = [?body, raw_url_encode (cc_mac k ?body)]"
    unfolding token(1) by (rule split_once) (rule encode_no_dot)+
  with token(2) assms(2) show ?thesis by (simp add: decode_cursor_def)
qed

lemma encode_not_empty: "encode_cursor k p = Inr token \<Longrightarrow> token \<noteq> []"
  by (auto simp: encode_cursor_def Let_def split: if_splits)

section \<open>Ordered rows\<close>

abbreviation ascending :: "SnapshotRow list \<Rightarrow> bool" where
  "ascending rows \<equiv> sorted_wrt (\<lambda>r r'. sr_Key r < sr_Key r') rows"

definition after_key :: "string \<Rightarrow> SnapshotRow list \<Rightarrow> SnapshotRow list" where
  "after_key a rows = filter (\<lambda>r. a < sr_Key r) rows"

lemma ordered_rows_last: "ordered_rows a rows = Some l \<Longrightarrow> rows \<noteq> [] \<Longrightarrow> l = sr_Key (last rows)"
  by (induction a rows rule: ordered_rows.induct) (auto split: if_splits)

lemma after_key_split:
  assumes "ascending (ys @ zs)" and "ys \<noteq> []"
  shows "after_key (sr_Key (last ys)) (ys @ zs) = zs"
proof -
  obtain xs y where ys: "ys = xs @ [y]" using assms(2) by (cases ys rule: rev_cases) auto
  have "\<not> sr_Key y < sr_Key r" if "r \<in> set ys" for r using assms(1) that ys by (auto simp: sorted_wrt_append)
  moreover have "sr_Key y < sr_Key r" if "r \<in> set zs" for r using assms(1) that ys by (auto simp: sorted_wrt_append)
  ultimately show ?thesis using ys by (auto simp: after_key_def filter_empty_conv)
qed

lemma after_key_next:
  assumes "ascending rows" and "0 < n" and "n < length (after_key a rows)"
  shows "after_key (sr_Key (last (take n (after_key a rows)))) rows = drop n (after_key a rows)"
proof -
  let ?rest = "after_key a rows"
  let ?l = "sr_Key (last (take n ?rest))"
  have "last (take n ?rest) \<in> set ?rest" using assms(2,3) by (intro in_set_takeD [OF last_in_set]) auto
  then have "a < ?l" by (simp add: after_key_def)
  then have "after_key ?l rows = after_key ?l ?rest"
    unfolding after_key_def filter_filter by (intro filter_cong) auto
  moreover have "after_key ?l (take n ?rest @ drop n ?rest) = drop n ?rest"
  proof (rule after_key_split)
    have "ascending ?rest" using assms(1) unfolding after_key_def by (rule sorted_wrt_filter)
    then show "ascending (take n ?rest @ drop n ?rest)" by simp
    show "take n ?rest \<noteq> []" using assms(2,3) by auto
  qed
  ultimately show ?thesis by simp
qed

section \<open>A client that follows the cursors\<close>

fun follow :: "('c \<Rightarrow> string \<Rightarrow> api_error + SnapshotPage) \<Rightarrow> 'c list \<Rightarrow> string \<Rightarrow> api_error + SnapshotPage list" where
  "follow call [] token = Inr []"
| "follow call (c # cs) token =
     (if token = [] then Inr []
      else case call c token of
        Inl e \<Rightarrow> Inl e
      | Inr p \<Rightarrow> (case follow call cs (pg_NextPageCursor p) of Inl e \<Rightarrow> Inl e | Inr ps \<Rightarrow> Inr (p # ps)))"

definition snapshot_payload :: "CursorCodec \<Rightarrow> ReadScope \<Rightarrow> Freeze \<Rightarrow> string list \<Rightarrow> string \<Rightarrow> cursorPayload" where
  "snapshot_payload k scope f views a =
     \<lparr>cp_Kind = ''snapshot'', cp_Schema = cc_schema k, cp_Scope = scope, cp_Freeze = f, cp_After = a, cp_Views = views\<rparr>"

definition events_payload :: "CursorCodec \<Rightarrow> ReadScope \<Rightarrow> Freeze \<Rightarrow> cursorPayload" where
  "events_payload k scope f =
     \<lparr>cp_Kind = ''events'', cp_Schema = cc_schema k, cp_Scope = scope, cp_Freeze = f, cp_After = [], cp_Views = []\<rparr>"

lemma payload_simps [simp]:
  "cp_Kind (snapshot_payload k scope f views a) = ''snapshot''" "cp_Schema (snapshot_payload k scope f views a) = cc_schema k"
  "cp_Scope (snapshot_payload k scope f views a) = scope" "cp_Freeze (snapshot_payload k scope f views a) = f"
  "cp_After (snapshot_payload k scope f views a) = a" "cp_Views (snapshot_payload k scope f views a) = views"
  "snapshot_payload k scope f views a\<lparr>cp_After := b\<rparr> = snapshot_payload k scope f views b"
  "cp_Kind (events_payload k scope f) = ''events''" "cp_Schema (events_payload k scope f) = cc_schema k"
  "cp_Scope (events_payload k scope f) = scope" "cp_Freeze (events_payload k scope f) = f"
  by (simp_all add: snapshot_payload_def events_payload_def)

text \<open>What a page says of the payload it was made from.\<close>

lemma page_of_payload_ok:
  assumes "page_of_payload k page now scope limit (snapshot_payload k scope f views a) = Inr p"
  obtains rows where "page f a limit = Inr (rows, pg_HasMore p)" "pg_Items p = map sr_Value rows"
    "pg_Watermarks p = fr_Watermarks f" "fr_ID f \<noteq> []" "now < fr_ExpiresAt f"
    "encode_cursor k (events_payload k scope f) = Inr (pg_EventsCursor p)"
    "pg_HasMore p \<longrightarrow> rows \<noteq> [] \<and> encode_cursor k (snapshot_payload k scope f views (sr_Key (last rows))) = Inr (pg_NextPageCursor p)"
    "\<not> pg_HasMore p \<longrightarrow> pg_NextPageCursor p = []"
proof -
  from assms have f: "fr_ID f \<noteq> []" "now < fr_ExpiresAt f"
    by (auto simp: page_of_payload_def Let_def split: if_splits)
  from assms obtain rows m where page: "page f a limit = Inr (rows, m)"
    by (auto simp: page_of_payload_def Let_def split: if_splits sum.splits)
  with assms obtain l where l: "ordered_rows a rows = Some l" and ne: "\<not> (m \<and> rows = [])"
    by (auto simp: page_of_payload_def Let_def split: if_splits option.splits)
  with assms page obtain ev where ev: "encode_cursor k (events_payload k scope f) = Inr ev"
    by (auto simp: page_of_payload_def Let_def events_payload_def split: if_splits sum.splits)
  from assms page l ne ev obtain nxt where
    nxt: "(if m then encode_cursor k (snapshot_payload k scope f views l) else Inr []) = Inr nxt"
    and p: "pg_Items p = map sr_Value rows" "pg_HasMore p = m" "pg_EventsCursor p = ev" "pg_NextPageCursor p = nxt"
      "pg_Watermarks p = fr_Watermarks f"
    by (auto simp: page_of_payload_def Let_def events_payload_def split: if_splits sum.splits)
  show ?thesis
    by (rule that [of rows]) (use page f ev nxt p ne ordered_rows_last [OF l] in \<open>auto split: if_splits\<close>)
qed

locale frozen_source =
  fixes holds :: "'s \<Rightarrow> Freeze \<Rightarrow> SnapshotRow list \<Rightarrow> bool"
    and page :: "'c \<Rightarrow> 's \<Rightarrow> Freeze \<Rightarrow> string \<Rightarrow> int \<Rightarrow> api_error + SnapshotRow list \<times> bool"
  assumes page_law: "page c s f a limit = Inr (rs, m) \<Longrightarrow> 1 \<le> limit \<Longrightarrow>
      \<exists>rows. holds s f rows \<and> rs = take (nat limit) (after_key a rows) \<and> (m \<longleftrightarrow> nat limit < length (after_key a rows))"
begin

lemma one_page:
  assumes "page_of_payload k (page c s) now scope limit (snapshot_payload k scope f views a) = Inr p"
    and "1 \<le> limit" and "\<And>rows'. holds s f rows' \<Longrightarrow> rows' = rows" and "ascending rows"
  shows "pg_Items p = map sr_Value (take (nat limit) (after_key a rows))
    \<and> (pg_HasMore p \<longleftrightarrow> nat limit < length (after_key a rows))
    \<and> encode_cursor k (events_payload k scope f) = Inr (pg_EventsCursor p)
    \<and> (if pg_HasMore p
       then \<exists>b. encode_cursor k (snapshot_payload k scope f views b) = Inr (pg_NextPageCursor p)
                \<and> after_key b rows = drop (nat limit) (after_key a rows)
       else pg_NextPageCursor p = [])"
proof -
  obtain rs where rs: "page c s f a limit = Inr (rs, pg_HasMore p)" "pg_Items p = map sr_Value rs"
    "pg_HasMore p \<longrightarrow> rs \<noteq> [] \<and> encode_cursor k (snapshot_payload k scope f views (sr_Key (last rs))) = Inr (pg_NextPageCursor p)"
    "\<not> pg_HasMore p \<longrightarrow> pg_NextPageCursor p = []"
    "encode_cursor k (events_payload k scope f) = Inr (pg_EventsCursor p)"
    using assms(1) by (elim page_of_payload_ok)
  from page_law [OF rs(1) assms(2)] assms(3)
  have law: "rs = take (nat limit) (after_key a rows)" "pg_HasMore p \<longleftrightarrow> nat limit < length (after_key a rows)" by auto
  have "after_key (sr_Key (last rs)) rows = drop (nat limit) (after_key a rows)" if "pg_HasMore p"
    using after_key_next [OF assms(4), of "nat limit" a] law that assms(2) by simp
  with rs law show ?thesis by auto
qed

lemma follow_rows:
  assumes "follow (\<lambda>c token. fst (Page_engine k (cap c) (page c) (clk c) scope views token limit (st c))) cs token = Inr ps"
    and "\<And>c rows'. c \<in> set cs \<Longrightarrow> holds (st c) f rows' \<Longrightarrow> rows' = rows" and "ascending rows"
    and "\<And>a. cc_unmarshal k (cc_marshal k (snapshot_payload k scope f views a)) = Some (snapshot_payload k scope f views a)"
    and "encode_cursor k (snapshot_payload k scope f views a) = Inr token"
  shows "concat (map pg_Items ps) = map sr_Value (take (length ps * nat limit) (after_key a rows))
    \<and> (ps \<noteq> [] \<longrightarrow> (pg_HasMore (last ps) \<longleftrightarrow> length ps * nat limit < length (after_key a rows)))
    \<and> (\<forall>q\<in>set ps. encode_cursor k (events_payload k scope f) = Inr (pg_EventsCursor q))"
  using assms(1,2,5)
proof (induction cs arbitrary: token a ps)
  case Nil
  then show ?case by simp
next
  case (Cons c cs)
  let ?call = "\<lambda>c token. fst (Page_engine k (cap c) (page c) (clk c) scope views token limit (st c))"
  have "token \<noteq> []" using Cons.prems(3) by (rule encode_not_empty)
  with Cons.prems(1) obtain p where p: "?call c token = Inr p" by (auto split: sum.splits if_splits)
  with Cons.prems(1) \<open>token \<noteq> []\<close> obtain qs where qs: "follow ?call cs (pg_NextPageCursor p) = Inr qs" "ps = p # qs"
    by (auto split: sum.splits if_splits)
  have call: "page_of_payload k (page c (st c)) (clk c 1) scope limit (snapshot_payload k scope f views a) = Inr p"
    and limit: "1 \<le> limit"
    using p \<open>token \<noteq> []\<close> decode_encode_cursor [OF Cons.prems(3) assms(4), of "clk c 0" scope "''snapshot''"]
    by (auto simp: Page_engine_def split: if_splits)
  note one = one_page [OF call limit Cons.prems(2) [OF list.set_intros(1)] assms(3)]
  show ?case
  proof (cases "pg_HasMore p")
    case True
    with one obtain b where b: "encode_cursor k (snapshot_payload k scope f views b) = Inr (pg_NextPageCursor p)"
      "after_key b rows = drop (nat limit) (after_key a rows)" by auto
    have ih: "concat (map pg_Items qs) = map sr_Value (take (length qs * nat limit) (after_key b rows))
      \<and> (qs \<noteq> [] \<longrightarrow> (pg_HasMore (last qs) \<longleftrightarrow> length qs * nat limit < length (after_key b rows)))
      \<and> (\<forall>q\<in>set qs. encode_cursor k (events_payload k scope f) = Inr (pg_EventsCursor q))"
      using Cons.prems(2) by (intro Cons.IH [OF qs(1) _ b(1)]) auto
    with one qs(2) True b(2) show ?thesis by (auto simp: take_add)
  next
    case False
    with one have "pg_NextPageCursor p = []" "length (after_key a rows) \<le> nat limit" by auto
    moreover from this qs(1) have "qs = []" by (cases cs) auto
    ultimately show ?thesis using one qs(2) False by simp
  qed
qed

lemma all_pages:
  assumes first: "page_of_payload k (page c s) now scope limit (snapshot_payload k scope f views []) = Inr p" "1 \<le> limit"
    and rest: "follow (\<lambda>c token. fst (Page_engine k (cap c) (page c) (clk c) scope views token limit (st c))) cs (pg_NextPageCursor p) = Inr ps"
    and only: "\<And>rows'. holds s f rows' \<Longrightarrow> rows' = rows"
      "\<And>c rows'. c \<in> set cs \<Longrightarrow> holds (st c) f rows' \<Longrightarrow> rows' = rows"
    and rows: "ascending rows" "after_key [] rows = rows"
    and json: "\<And>a. cc_unmarshal k (cc_marshal k (snapshot_payload k scope f views a)) = Some (snapshot_payload k scope f views a)"
  shows "concat (map pg_Items (p # ps)) = map sr_Value (take (length (p # ps) * nat limit) rows)
    \<and> (pg_HasMore (last (p # ps)) \<longleftrightarrow> length (p # ps) * nat limit < length rows)
    \<and> (\<forall>q\<in>set (p # ps). encode_cursor k (events_payload k scope f) = Inr (pg_EventsCursor q))"
proof -
  note one = one_page [OF first only(1) rows(1), unfolded rows(2)]
  show ?thesis
  proof (cases "pg_HasMore p")
    case True
    with one obtain b where b: "encode_cursor k (snapshot_payload k scope f views b) = Inr (pg_NextPageCursor p)"
      "after_key b rows = drop (nat limit) rows" by auto
    from follow_rows [OF rest only(2) rows(1) json b(1)] one True b(2) show ?thesis by (auto simp: take_add)
  next
    case False
    with one rest have "ps = []" by (cases cs) auto
    with one show ?thesis by simp
  qed
qed

end

section \<open>The hub's source\<close>

text \<open>The circumstances of one call: its clock, what the caller may read then, and the journal it finds.\<close>

record page_call =
  pc_clk :: "nat \<Rightarrow> int"
  pc_readable :: "string \<Rightarrow> bool"
  pc_journal :: task_journal

definition holds_freeze :: "CursorCodec \<Rightarrow> task_journal \<Rightarrow> Freeze \<Rightarrow> SnapshotRow list \<Rightarrow> bool" where
  "holds_freeze k j f rows \<longleftrightarrow> (\<exists>g\<in>set (tj_freezes j). fz_id g = fr_ID f \<and> cc_unrows k (fz_rows g) = Some rows)"

lemma Frozen_ok: "Frozen now fid scope gen filt wms j = Inr data \<Longrightarrow> \<exists>g\<in>set (tj_freezes j). fz_id g = fid \<and> fz_rows g = data"
  by (auto simp: Frozen_def find_Some_iff split: option.splits if_splits)

lemma take_all_or: "(if limit < int (length xs) then take (nat limit) xs else xs) = take (nat limit) xs"
  by auto

lemma source_Page_law:
  assumes "source_Page k readable now scope j f a limit = Inr (rs, m)" and "1 \<le> limit"
  shows "\<exists>rows. holds_freeze k j f rows \<and> rs = take (nat limit) (after_key a rows)
    \<and> (m \<longleftrightarrow> nat limit < length (after_key a rows))"
proof -
  obtain data where data: "Frozen now (fr_ID f) (rs_StableScopeID scope) (rs_NamespaceGeneration scope)
      (rs_FilterHash scope) (cc_marks k (fr_Watermarks f)) j = Inr data"
    using assms(1) by (auto simp: source_Page_def split: sum.splits)
  with assms(1) obtain rows where rows: "cc_unrows k data = Some rows"
    by (auto simp: source_Page_def split: option.splits)
  from Frozen_ok [OF data] rows have "holds_freeze k j f rows" by (auto simp: holds_freeze_def)
  with assms data rows show ?thesis
    by (intro exI [of _ rows]) (auto simp: source_Page_def Let_def after_key_def take_all_or split: if_splits)
qed

interpretation hub_source: frozen_source "holds_freeze k" "\<lambda>c j. source_Page k (pc_readable c) (pc_clk c 2) scope j"
  for k scope
  by unfold_locales (rule source_Page_law)

definition hub_page ::
  "CursorCodec \<Rightarrow> ReadScope \<Rightarrow> string list \<Rightarrow> string \<Rightarrow> capture_view list \<Rightarrow> int \<Rightarrow> page_call \<Rightarrow> string
     \<Rightarrow> (api_error + SnapshotPage) \<times> task_journal" where
  "hub_page k scope views sid vs limit c token =
     Page_engine k (Capture k scope views sid vs) (\<lambda>j. source_Page k (pc_readable c) (pc_clk c 2) scope j)
       (pc_clk c) scope views token limit (pc_journal c)"

text \<open>A capture that succeeds: the rows and the marks are those of one attempt that nothing disturbed.\<close>

definition captured :: "CursorCodec \<Rightarrow> ReadScope \<Rightarrow> string list \<Rightarrow> string \<Rightarrow> capture_view \<Rightarrow> api_task list \<Rightarrow> Freeze \<Rightarrow> task_journal \<Rightarrow> bool" where
  "captured k scope views sid v ts f j' \<longleftrightarrow>
     cv_before v = Inr (fr_Watermarks f) \<and> cv_tasks v = Inr ts
     \<and> (\<exists>after. cv_after v = Inr after \<and> cc_marks k after = cc_marks k (fr_Watermarks f))
     \<and> cv_scope v = Inr scope \<and> Watermark (cv_journal v) = local_mark (fr_Watermarks f)
     \<and> (\<forall>g\<in>set (tj_freezes (cv_journal v)). fz_id g \<noteq> fr_ID f)
     \<and> j' = (cv_journal v)\<lparr>tj_freezes := tj_freezes (cv_journal v) @ [freeze_of k scope f (snapshot_rows views sid ts)]\<rparr>"

lemma FreezeChecked_ok:
  "FreezeChecked g expected j = (None, j') \<Longrightarrow> Watermark j = expected \<and> (\<forall>h\<in>set (tj_freezes j). fz_id h \<noteq> fz_id g)
    \<and> j' = j\<lparr>tj_freezes := tj_freezes j @ [g]\<rparr>"
  by (auto simp: FreezeChecked_def Freeze_page_def split: if_splits)

lemma Capture_attempts_ok:
  "Capture_attempts k scope views sid vs j = (Inr f, j') \<Longrightarrow> \<exists>v\<in>set vs. \<exists>ts. captured k scope views sid v ts f j'"
proof (induction vs arbitrary: j)
  case Nil
  then show ?case by simp
next
  case (Cons v vs)
  obtain before where before: "cv_before v = Inr before" using Cons.prems by (cases "cv_before v") auto
  obtain ts where ts: "cv_tasks v = Inr ts" using Cons.prems before by (cases "cv_tasks v") auto
  obtain after where after: "cv_after v = Inr after" using Cons.prems before ts by (cases "cv_after v") auto
  let ?f = "\<lparr>fr_ID = ''sf_'' @ cv_id v, fr_ExpiresAt = cv_now v + 5 * 60 * 1000, fr_Watermarks = before\<rparr>"
  let ?g = "freeze_of k scope ?f (snapshot_rows views sid ts)"
  show ?case
  proof (cases "cc_marks k before = cc_marks k after \<and> cv_scope v = Inr scope")
    case False
    with Cons.prems before ts after obtain j0 where "Capture_attempts k scope views sid vs j0 = (Inr f, j')"
      by (auto split: if_splits)
    from Cons.IH [OF this] show ?thesis by auto
  next
    case True
    obtain r j1 where r: "FreezeChecked ?g (local_mark before) (cv_journal v) = (r, j1)" by (cases "FreezeChecked ?g (local_mark before) (cv_journal v)")
    note step = Cons.prems before ts after True r
    show ?thesis
    proof (cases r)
      case None
      with step have "f = ?f" "j' = j1" by auto
      moreover from None r have "FreezeChecked ?g (local_mark before) (cv_journal v) = (None, j1)" by simp
      note FreezeChecked_ok [OF this]
      ultimately have "captured k scope views sid v ts f j'" using before ts after True by (simp add: captured_def freeze_of_def)
      then show ?thesis by auto
    next
      case (Some e)
      with step have "Capture_attempts k scope views sid vs j1 = (Inr f, j')" by (cases e) (auto split: if_splits)
      from Cons.IH [OF this] show ?thesis by auto
    qed
  qed
qed

lemma rows_ascending:
  assumes "sorted_wrt (<) (map at_task_id ts)" and "[] \<notin> set (map at_task_id ts)"
  shows "ascending (snapshot_rows views sid ts) \<and> after_key [] (snapshot_rows views sid ts) = snapshot_rows views sid ts"
proof -
  have "sorted_wrt (\<lambda>t t'. at_task_id t < at_task_id t') (filter (selected views sid) ts)"
    using assms(1) by (intro sorted_wrt_filter) (simp add: sorted_wrt_map)
  then have "ascending (snapshot_rows views sid ts)" by (simp add: snapshot_rows_def sorted_wrt_map)
  moreover have "[] < at_task_id t" if "t \<in> set ts" for t using assms(2) that by (cases "at_task_id t") force+
  ultimately show ?thesis by (auto simp: after_key_def snapshot_rows_def filter_id_conv)
qed

lemma captured_rows:
  assumes "captured k scope views sid v ts f j1" and "cc_unrows k (cc_rows k (snapshot_rows views sid ts)) = Some (snapshot_rows views sid ts)"
    and "\<forall>g\<in>set (tj_freezes j). fz_id g = fr_ID f \<longrightarrow> g \<in> set (tj_freezes j1)" and "holds_freeze k j f rows"
  shows "rows = snapshot_rows views sid ts"
proof -
  obtain g where g: "g \<in> set (tj_freezes j)" "fz_id g = fr_ID f" "cc_unrows k (fz_rows g) = Some rows"
    using assms(4) by (auto simp: holds_freeze_def)
  with assms(3) have "g \<in> set (tj_freezes j1)" by simp
  with assms(1) g(2) have "g = freeze_of k scope f (snapshot_rows views sid ts)" by (auto simp: captured_def)
  with g(3) assms(2) show ?thesis by (simp add: freeze_of_def)
qed

text \<open>
  C21. A client that follows page cursors reads the snapshot it was given, whatever happens meanwhile. The
  first page captures tasks in one attempt that no store disturbed: the marks read before and after the
  tasks are the same, and the journal was still at its mark when the freeze was written. After that,
  however the journal has changed between the calls (only no other freeze takes the same name), the
  pages that are delivered contain the captured tasks of the requested views in order, each exactly
  once, \<open>limit\<close> at a time; a page says there is nothing more exactly when all have been
  delivered; and the event cursor of every page resumes at the marks of the capture.
\<close>

theorem snapshot_pages_are_complete:
  assumes first: "hub_page k scope views sid vs limit c [] = (Inr p, j1)"
    and f_def: "f = \<lparr>fr_ID = pg_FreezeID p, fr_ExpiresAt = pg_ExpiresAt p, fr_Watermarks = pg_Watermarks p\<rparr>"
    and listed: "\<forall>v\<in>set vs. \<forall>ts. cv_tasks v = Inr ts \<longrightarrow>
      sorted_wrt (<) (map at_task_id ts) \<and> [] \<notin> set (map at_task_id ts)
      \<and> cc_unrows k (cc_rows k (snapshot_rows views sid ts)) = Some (snapshot_rows views sid ts)"
    and json: "\<And>a. cc_unmarshal k (cc_marshal k (snapshot_payload k scope f views a)) = Some (snapshot_payload k scope f views a)"
      "cc_unmarshal k (cc_marshal k (events_payload k scope f)) = Some (events_payload k scope f)"
    and later: "\<forall>c\<in>set cs. \<forall>g\<in>set (tj_freezes (pc_journal c)). fz_id g = pg_FreezeID p \<longrightarrow> g \<in> set (tj_freezes j1)"
    and rest: "follow (\<lambda>c token. fst (hub_page k scope views sid vs limit c token)) cs (pg_NextPageCursor p) = Inr ps"
  shows "\<exists>v\<in>set (take 5 vs). \<exists>ts. captured k scope views sid v ts f j1
    \<and> concat (map pg_Items (p # ps)) = map at_value (take (length (p # ps) * nat limit) (filter (selected views sid) ts))
    \<and> (pg_HasMore (last (p # ps)) \<longleftrightarrow> length (p # ps) * nat limit < length (filter (selected views sid) ts))
    \<and> (\<forall>q\<in>set (p # ps). \<forall>now < pg_ExpiresAt p. EventWatermarks k now (pg_EventsCursor q) scope = Inr (pg_Watermarks p))"
proof -
  obtain f' where cap: "Capture k scope views sid vs (pc_journal c) = (Inr f', j1)"
    and page: "page_of_payload k (source_Page k (pc_readable c) (pc_clk c 2) scope j1) (pc_clk c 1) scope limit
      (snapshot_payload k scope f' views []) = Inr p" and limit: "1 \<le> limit"
    using first by (auto simp: hub_page_def Page_engine_def snapshot_payload_def split: if_splits sum.splits prod.splits)
  have f': "f' = f" and fid: "fr_ID f \<noteq> []"
    using page unfolding f_def
    by (auto simp: page_of_payload_def Let_def split: if_splits sum.splits option.splits)
  from Capture_attempts_ok cap obtain v ts where v: "v \<in> set (take 5 vs)" and c: "captured k scope views sid v ts f j1"
    unfolding Capture_def f' by blast
  let ?rows = "snapshot_rows views sid ts"
  from v c listed have ok: "ascending ?rows" "after_key [] ?rows = ?rows" "cc_unrows k (cc_rows k ?rows) = Some ?rows"
    using rows_ascending [of ts] in_set_takeD [of v 5 vs] by (simp_all add: captured_def)
  have only: "rows' = ?rows" if "holds_freeze k j f rows'"
    "\<forall>g\<in>set (tj_freezes j). fz_id g = fr_ID f \<longrightarrow> g \<in> set (tj_freezes j1)" for j rows'
    using captured_rows [OF c ok(3) that(2,1)] .
  have "concat (map pg_Items (p # ps)) = map sr_Value (take (length (p # ps) * nat limit) ?rows)
    \<and> (pg_HasMore (last (p # ps)) \<longleftrightarrow> length (p # ps) * nat limit < length ?rows)
    \<and> (\<forall>q\<in>set (p # ps). encode_cursor k (events_payload k scope f) = Inr (pg_EventsCursor q))"
  proof (rule hub_source.all_pages [OF page [unfolded f'] limit rest [unfolded hub_page_def] _ _ ok(1,2) json(1)])
    show "rows' = ?rows" if "holds_freeze k j1 f rows'" for rows' using only [OF that] by simp
    show "rows' = ?rows" if "c \<in> set cs" "holds_freeze k (pc_journal c) f rows'" for c rows'
      using only [OF that(2)] later that(1) by (simp add: f_def)
  qed
  moreover have "EventWatermarks k now token scope = Inr (pg_Watermarks p)"
    if "encode_cursor k (events_payload k scope f) = Inr token" "now < pg_ExpiresAt p" for now token
    using decode_encode_cursor [OF that(1) json(2), of now scope "''events''"] that(2) fid
    by (simp add: EventWatermarks_def f_def)
  ultimately show ?thesis
    using v c by (intro bexI [of _ v] exI [of _ ts]) (auto simp: snapshot_rows_def take_map)
qed

text \<open>Two tasks, read one at a time, with a change journalled between the pages.\<close>

definition wit_scope :: ReadScope where
  "wit_scope = \<lparr>rs_Authority = ''a'', rs_StableScopeID = ''s'', rs_FilterHash = ''h'', rs_NamespaceGeneration = 1\<rparr>"

definition wit_freeze :: Freeze where
  "wit_freeze = \<lparr>fr_ID = ''sf_1'', fr_ExpiresAt = 300000, fr_Watermarks = [\<lparr>wm_Store = ''ordinary'', wm_Sequence = 0\<rparr>]\<rparr>"

definition wit_task :: "string \<Rightarrow> api_task" where
  "wit_task t = \<lparr>at_task_id = t, at_views = [''mine''], at_target_session = ''x'', at_source_session = ''y'', at_value = JStr t\<rparr>"

definition wit_codec :: CursorCodec where
  "wit_codec =
     \<lparr>cc_marshal = (\<lambda>p. if cp_Kind p = ''events'' then ''E'' else CHR ''S'' # cp_After p),
      cc_unmarshal = (\<lambda>s. case s of [] \<Rightarrow> None
         | c # a \<Rightarrow> Some \<lparr>cp_Kind = (if c = CHR ''E'' then ''events'' else ''snapshot''), cp_Schema = ''v1'', cp_Scope = wit_scope,
                       cp_Freeze = wit_freeze, cp_After = a, cp_Views = (if c = CHR ''E'' then [] else [''mine''])\<rparr>),
      cc_mac = (\<lambda>_. ''m''), cc_marks = (\<lambda>_. ''w''), cc_rows = (\<lambda>_. ''r''),
      cc_unrows = (\<lambda>_. Some (snapshot_rows [''mine''] [] [wit_task ''p'', wit_task ''q''])), cc_schema = ''v1''\<rparr>"

definition wit_view :: capture_view where
  "wit_view =
     \<lparr>cv_before = Inr (fr_Watermarks wit_freeze), cv_tasks = Inr [wit_task ''p'', wit_task ''q''],
      cv_after = Inr (fr_Watermarks wit_freeze), cv_scope = Inr wit_scope, cv_id = ''1'', cv_now = 0,
      cv_journal = empty_task_journal\<rparr>"

definition wit_call :: "task_journal \<Rightarrow> page_call" where
  "wit_call j = \<lparr>pc_clk = (\<lambda>_. 5), pc_readable = (\<lambda>_. True), pc_journal = j\<rparr>"

definition wit_after :: task_journal where
  "wit_after = empty_task_journal\<lparr>tj_freezes := [freeze_of wit_codec wit_scope wit_freeze (snapshot_rows [''mine''] [] [wit_task ''p'', wit_task ''q''])]\<rparr>"

definition wit_page :: SnapshotPage where
  "wit_page =
     \<lparr>pg_SourceRelationCoverage = ''not_requested'', pg_Items = [JStr ''p''], pg_Views = [''mine''],
      pg_Watermarks = fr_Watermarks wit_freeze, pg_EventsCursor = ''RQ.bQ'', pg_NextPageCursor = ''U3A.bQ'', pg_HasMore = True,
      pg_Partial = False, pg_Consistency = ''per_store_snapshot_vector'', pg_FreezeID = ''sf_1'', pg_ExpiresAt = 300000,
      pg_PageOrder = ''task_id''\<rparr>"

lemma wit_tokens:
  "raw_url_encode ''E'' = ''RQ''" "raw_url_encode ''Sp'' = ''U3A''" "raw_url_encode ''m'' = ''bQ''"
  "raw_url_decode ''bQ'' = Some ''m''" "raw_url_decode ''U3A'' = Some ''Sp''"
  by code_simp+

lemmas wit_defs = wit_scope_def wit_freeze_def wit_task_def wit_codec_def wit_view_def wit_call_def wit_after_def

lemma wit_first: "hub_page wit_codec wit_scope [''mine''] [] [wit_view] 1 (wit_call empty_task_journal) [] = (Inr wit_page, wit_after)"
  by (simp add: wit_defs wit_page_def hub_page_def Page_engine_def Capture_def FreezeChecked_def Freeze_page_def
      Watermark_def local_mark_def empty_task_journal_def freeze_of_def page_of_payload_def source_Page_def Frozen_def
      snapshot_rows_def selected_def encode_cursor_def wit_tokens relation_partial_def)

lemma wit_second:
  "follow (\<lambda>c token. fst (hub_page wit_codec wit_scope [''mine''] [] [wit_view] 1 c token))
     [wit_call (ChangeTx 7 ''x'' ''r'' ''queued'' wit_after)] ''U3A.bQ'' =
   Inr [wit_page\<lparr>pg_Items := [JStr ''q''], pg_NextPageCursor := [], pg_HasMore := False\<rparr>]"
  by (simp add: wit_defs wit_page_def hub_page_def Page_engine_def decode_cursor_def page_of_payload_def source_Page_def
      Frozen_def ChangeTx_def empty_task_journal_def freeze_of_def snapshot_rows_def selected_def encode_cursor_def
      wit_tokens relation_partial_def)

lemma wit_listed:
  "\<forall>v\<in>set [wit_view]. \<forall>ts. cv_tasks v = Inr ts \<longrightarrow> sorted_wrt (<) (map at_task_id ts) \<and> [] \<notin> set (map at_task_id ts)
    \<and> cc_unrows wit_codec (cc_rows wit_codec (snapshot_rows [''mine''] [] ts)) = Some (snapshot_rows [''mine''] [] ts)"
  by (auto simp: wit_view_def wit_codec_def wit_task_def)

lemma wit_json:
  "cc_unmarshal wit_codec (cc_marshal wit_codec (snapshot_payload wit_codec wit_scope wit_freeze [''mine''] a)) =
     Some (snapshot_payload wit_codec wit_scope wit_freeze [''mine''] a)"
  "cc_unmarshal wit_codec (cc_marshal wit_codec (events_payload wit_codec wit_scope wit_freeze)) =
     Some (events_payload wit_codec wit_scope wit_freeze)"
  by (simp_all add: wit_codec_def snapshot_payload_def events_payload_def)

lemma wit_later:
  "\<forall>c\<in>set [wit_call (ChangeTx 7 ''x'' ''r'' ''queued'' wit_after)].
     \<forall>g\<in>set (tj_freezes (pc_journal c)). fz_id g = pg_FreezeID wit_page \<longrightarrow> g \<in> set (tj_freezes wit_after)"
  by (simp add: wit_call_def ChangeTx_def wit_after_def)

lemma snapshot_pages_are_complete_witness:
  "\<exists>q. follow (\<lambda>c token. fst (hub_page wit_codec wit_scope [''mine''] [] [wit_view] 1 c token))
     [wit_call (ChangeTx 7 ''x'' ''r'' ''queued'' wit_after)] (pg_NextPageCursor wit_page) = Inr [q]
   \<and> concat (map pg_Items [wit_page, q]) = [JStr ''p'', JStr ''q''] \<and> \<not> pg_HasMore q"
proof -
  let ?q = "wit_page\<lparr>pg_Items := [JStr ''q''], pg_NextPageCursor := [], pg_HasMore := False\<rparr>"
  have f: "wit_freeze = \<lparr>fr_ID = pg_FreezeID wit_page, fr_ExpiresAt = pg_ExpiresAt wit_page, fr_Watermarks = pg_Watermarks wit_page\<rparr>"
    by (simp add: wit_page_def wit_freeze_def)
  have nxt: "pg_NextPageCursor wit_page = ''U3A.bQ''" by (simp add: wit_page_def)
  from snapshot_pages_are_complete [OF wit_first f wit_listed wit_json wit_later wit_second [folded nxt]]
  obtain v ts where "v = wit_view" "captured wit_codec wit_scope [''mine''] [] v ts wit_freeze wit_after"
    "concat (map pg_Items [wit_page, ?q]) = map at_value (take 2 (filter (selected [''mine''] []) ts))"
    by auto
  then have "concat (map pg_Items [wit_page, ?q]) = [JStr ''p'', JStr ''q'']"
    by (auto simp: captured_def wit_view_def wit_task_def selected_def)
  with wit_second nxt show ?thesis by (intro exI [of _ ?q]) simp
qed

end
