(* ===== verification/Task_Events.thy ===== *)
theory Task_Events
  imports Snapshot_Properties
begin

text \<open>
  The event feed of the task interface over the journals of all stores
  (\<^verbatim>\<open>apiJournals\<close>, \<^verbatim>\<open>apiWatermarks\<close> and \<^verbatim>\<open>apiEvents\<close> of
  \<^verbatim>\<open>internal/core\<close>), and what a reader that follows its cursor gets.

  A Go map that is sorted before use is an association list sorted by key. The projected tasks the
  feed may name come with the identities of their commands, in the order the index is filled.
\<close>

section \<open>Stores\<close>

record hub_journals =
  hj_ordinary :: task_journal
  hj_dispatches :: "task_journal option"
  hj_delegations :: "task_journal option"
  hj_work :: "task_journal option"

definition opt_entry :: "string \<Rightarrow> 'a option \<Rightarrow> (string \<times> 'a) list" where
  "opt_entry p x = (case x of None \<Rightarrow> [] | Some j \<Rightarrow> [(p, j)])"

definition apiJournals :: "hub_journals \<Rightarrow> (string \<times> task_journal) list" where
  "apiJournals h =
     [(''ordinary'', hj_ordinary h)] @ opt_entry ''controller'' (hj_dispatches h)
     @ opt_entry ''delegation'' (hj_delegations h) @ opt_entry ''pm_v1'' (hj_work h) @ opt_entry ''pm_v2'' (hj_work h)"

definition feed_journals :: "hub_journals \<Rightarrow> (string \<times> task_journal) list" where
  "feed_journals h = sort_key fst (filter (\<lambda>(p, j). p \<noteq> ''pm_v1'') (apiJournals h))"

definition apiWatermarks :: "hub_journals \<Rightarrow> store_mark list" where
  "apiWatermarks h = map (\<lambda>(p, j). \<lparr>wm_Store = p, wm_Sequence = Watermark j\<rparr>) (feed_journals h)"

section \<open>Events\<close>

record event_task =
  et_ref :: "(string \<times> string) list"
  et_revision :: json

record api_event =
  ev_event_id :: string
  ev_authority :: string
  ev_store_sequence :: store_mark
  ev_task_ref :: "(string \<times> string) list"
  ev_task_revision :: json
  ev_kind :: string
  ev_occurred_at_ms :: int

fun stringID :: "nat \<Rightarrow> string" where
  "stringID n = (if n < 10 then [char_of (48 + n)] else stringID (n div 10) @ [char_of (48 + n mod 10)])"

definition event_kind :: "string \<Rightarrow> string" where
  "event_kind kind =
     (if kind = ''admission'' \<or> kind = ''intent_prepared'' \<or> kind = ''human_source_linked'' then ''admission''
      else if kind = ''final_sealed'' then ''final''
      else if kind = ''human_source_revoked'' then ''scope_revoked''
      else if kind = ''cancelled'' then ''cancel'' else ''execution'')"

definition command_key :: "string \<Rightarrow> string \<Rightarrow> string" where
  "command_key sid rid = sid @ ''/'' @ rid"

definition task_index :: "(event_task \<times> (string \<times> string) list) list \<Rightarrow> string \<Rightarrow> event_task option" where
  "task_index tasks =
     fold (\<lambda>(t, ids) m. fold (\<lambda>(sid, rid) m. m(command_key sid rid \<mapsto> t)) ids m) tasks (\<lambda>_. None)"

definition change_task :: "(string \<Rightarrow> event_task option) \<Rightarrow> Change \<Rightarrow> event_task option" where
  "change_task index c = index (command_key (ch_SessionID c) (ch_RequestID c))"

definition event_of :: "string \<Rightarrow> string \<Rightarrow> event_task \<Rightarrow> Change \<Rightarrow> api_event" where
  "event_of authority path t c =
     \<lparr>ev_event_id = path @ '':'' @ stringID (ch_Sequence c), ev_authority = authority,
      ev_store_sequence = \<lparr>wm_Store = path, wm_Sequence = ch_Sequence c\<rparr>, ev_task_ref = et_ref t,
      ev_task_revision = et_revision t, ev_kind = event_kind (ch_Kind c), ev_occurred_at_ms = ch_At c\<rparr>"

fun scan_store ::
  "string \<Rightarrow> (string \<Rightarrow> event_task option) \<Rightarrow> int \<Rightarrow> string \<Rightarrow> Change list \<Rightarrow> nat \<Rightarrow> api_event list \<Rightarrow> nat
     \<Rightarrow> api_event list \<times> nat \<times> bool" where
  "scan_store authority index limit path [] scanned events pos = (events, pos, False)"
| "scan_store authority index limit path (c # cs) scanned events pos =
     (if limit \<le> int scanned \<or> (change_task index c \<noteq> None \<and> limit \<le> int (length events)) then (events, pos, True)
      else scan_store authority index limit path cs (Suc scanned)
             (case change_task index c of None \<Rightarrow> events | Some t \<Rightarrow> events @ [event_of authority path t c])
             (ch_Sequence c))"

fun scan_stores ::
  "string \<Rightarrow> (string \<Rightarrow> event_task option) \<Rightarrow> int \<Rightarrow> (string \<times> task_journal) list \<Rightarrow> (string \<Rightarrow> nat) \<Rightarrow> api_event list
     \<Rightarrow> APIError + api_event list \<times> store_mark list \<times> (string \<Rightarrow> nat) \<times> bool" where
  "scan_stores authority index limit [] byStore events = Inr (events, [], byStore, False)"
| "scan_stores authority index limit ((path, j) # js) byStore events =
     (case Changes_after (byStore path) (limit + 1) j of
        (Inl e, _) \<Rightarrow> Inl e
      | (Inr changes, fl) \<Rightarrow>
          (case scan_store authority index limit path changes 0 events (byStore path) of
             (events', pos, has_more) \<Rightarrow>
               (case scan_stores authority index limit js (byStore(path := pos)) events' of
                  Inl e \<Rightarrow> Inl e
                | Inr (events'', floors, byStore', has_more') \<Rightarrow>
                    Inr (events'', \<lparr>wm_Store = path, wm_Sequence = fl\<rparr> # floors, byStore', has_more \<or> has_more'))))"

record events_page =
  ep_events :: "api_event list"
  ep_next_cursor :: string
  ep_retention_floor :: "store_mark list"
  ep_has_more :: bool
  ep_partial :: bool

definition marks_map :: "store_mark list \<Rightarrow> string \<Rightarrow> nat" where
  "marks_map ms = fold (\<lambda>m b. b(wm_Store m := wm_Sequence m)) ms (\<lambda>_. 0)"

text \<open>
  \<open>scope\<close> and \<open>tasks\<close> are what the hub's policy and projections return, or their error.
\<close>

definition apiEvents ::
  "CursorCodec \<Rightarrow> (nat \<Rightarrow> int) \<Rightarrow> string \<Rightarrow> api_error + ReadScope \<Rightarrow> api_error + (event_task \<times> (string \<times> string) list) list
     \<Rightarrow> string \<Rightarrow> int \<Rightarrow> hub_journals \<Rightarrow> api_error + events_page" where
  "apiEvents k clk authority scope tasks cursor limit h =
     (case scope of Inl e \<Rightarrow> Inl e
      | Inr sc \<Rightarrow>
        (case (if cursor = [] then Inr [] else EventWatermarks k (clk 0) cursor sc) of
           Inl e \<Rightarrow> Inl (Api e)
         | Inr marks \<Rightarrow>
           (case tasks of Inl e \<Rightarrow> Inl e
            | Inr ts \<Rightarrow>
              (case scan_stores authority (task_index ts) limit (feed_journals h) (marks_map marks) [] of
                 Inl e \<Rightarrow> Inl (Api e)
               | Inr (events, floors, byStore, has_more) \<Rightarrow>
                 (case EventsFromWatermarks k sc
                         (map (\<lambda>(p, j). \<lparr>wm_Store = p, wm_Sequence = byStore p\<rparr>) (feed_journals h))
                         (clk 1 + 30 * day_ms) of
                    Inl e \<Rightarrow> Inl (Api e)
                  | Inr token \<Rightarrow>
                      Inr \<lparr>ep_events = events, ep_next_cursor = token, ep_retention_floor = floors,
                           ep_has_more = has_more, ep_partial = False\<rparr>)))))"

section \<open>One store\<close>

text \<open>The events of a list of changes, and of a stretch of history.\<close>

definition emitted :: "string \<Rightarrow> (string \<Rightarrow> event_task option) \<Rightarrow> string \<Rightarrow> Change list \<Rightarrow> api_event list" where
  "emitted authority index path cs =
     List.map_filter (\<lambda>c. map_option (\<lambda>t. event_of authority path t c) (change_task index c)) cs"

definition events_between ::
  "string \<Rightarrow> (string \<Rightarrow> event_task option) \<Rightarrow> string \<Rightarrow> Change list \<Rightarrow> nat \<Rightarrow> nat \<Rightarrow> api_event list" where
  "events_between authority index path h lo hi =
     emitted authority index path (filter (\<lambda>c. lo < ch_Sequence c \<and> ch_Sequence c \<le> hi) h)"

lemma emitted_simps [simp]:
  "emitted authority index path [] = []"
  "emitted authority index path (c # cs) =
     (case change_task index c of None \<Rightarrow> [] | Some t \<Rightarrow> [event_of authority path t c]) @ emitted authority index path cs"
  by (simp_all add: emitted_def map_filter_simps split: option.splits)

lemma take_upto:
  assumes "sorted_wrt (<) (map f xs)" and "0 < n" and "n \<le> length xs"
  shows "take n xs = filter (\<lambda>x. f x \<le> (f (xs ! (n - 1)) :: nat)) xs"
  using assms
proof (induction xs arbitrary: n)
  case (Cons x xs)
  show ?case
  proof (cases "n = 1")
    case True
    with Cons.prems show ?thesis by (auto simp: filter_empty_conv not_le intro!: sym [of _ "[]"])
  next
    case False
    with Cons.prems(2) obtain m where m: "n = Suc m" "0 < m" by (cases n) auto
    with Cons.IH [of m] Cons.prems show ?thesis by (auto simp: nth_Cons' less_imp_le)
  qed
qed simp

lemma scan_store_prefix:
  assumes "scan_store authority index limit path cs n events pos = (events', pos', m)"
  obtains i where "i \<le> length cs" "events' = events @ emitted authority index path (take i cs)"
    "pos' = (if i = 0 then pos else ch_Sequence (cs ! (i - 1)))" "m \<longleftrightarrow> i < length cs"
    "i = 0 \<and> m \<longrightarrow> limit \<le> int n \<or> limit \<le> int (length events)"
    "int (n + i) \<le> max limit (int n)" "int (length events') \<le> max limit (int (length events))"
  using assms
proof (induction authority index limit path cs n events pos arbitrary: thesis rule: scan_store.induct)
  case (1 authority index limit path scanned events pos)
  from 1(2) show ?case by (intro 1(1) [of 0]) simp_all
next
  case (2 authority index limit path c cs n events pos)
  let ?stop = "limit \<le> int n \<or> (change_task index c \<noteq> None \<and> limit \<le> int (length events))"
  let ?ev = "case change_task index c of None \<Rightarrow> events | Some t \<Rightarrow> events @ [event_of authority path t c]"
  show ?case
  proof (cases ?stop)
    case True
    with 2(3) have "events' = events" "pos' = pos" "m" by simp_all
    with True show ?thesis by (intro 2(2) [of 0]) auto
  next
    case False
    with 2(3) have scan: "scan_store authority index limit path cs (Suc n) ?ev (ch_Sequence c) = (events', pos', m)" by (auto split: if_splits)
    obtain i where i: "i \<le> length cs" "events' = ?ev @ emitted authority index path (take i cs)"
      "pos' = (if i = 0 then ch_Sequence c else ch_Sequence (cs ! (i - 1)))" "m \<longleftrightarrow> i < length cs"
      "int (Suc n + i) \<le> max limit (int (Suc n))" "int (length events') \<le> max limit (int (length ?ev))"
      by (rule 2(1) [OF False _ scan])
    have ev: "?ev = events @ emitted authority index path [c]" by (simp split: option.splits)
    have len: "int (length ?ev) \<le> max limit (int (length events))" using False by (auto split: option.splits)
    show ?thesis
    proof (rule 2(2) [of "Suc i"])
      show "events' = events @ emitted authority index path (take (Suc i) (c # cs))" using i(2) unfolding ev by simp
      show "int (n + Suc i) \<le> max limit (int n)" using i(5) False by auto
      show "int (length events') \<le> max limit (int (length events))" using i(6) len by linarith
    qed (use i(1,3,4) in auto)
  qed
qed

lemma history_ascending: "journal_inv h j \<Longrightarrow> sorted_wrt (<) (map ch_Sequence (filter P h))"
proof -
  assume "journal_inv h j"
  then have "map ch_Sequence h = [1..<Suc (tj_seq j)]" by (simp only: journal_inv_def)
  then have "sorted_wrt (<) (map ch_Sequence h)" by (simp only: sorted_wrt_upt)
  then show ?thesis by (simp add: sorted_wrt_map sorted_wrt_filter)
qed

lemma history_has: "journal_inv h j \<Longrightarrow> 1 \<le> n \<Longrightarrow> n \<le> tj_seq j \<Longrightarrow> \<exists>c\<in>set h. ch_Sequence c = n"
proof -
  assume inv: "journal_inv h j" and n: "1 \<le> n" "n \<le> tj_seq j"
  then have "n \<in> set (map ch_Sequence h)" by (auto simp: journal_inv_def)
  then show ?thesis by auto
qed

lemma store_scan:
  assumes inv: "journal_inv h j" and limit: "1 \<le> limit"
    and scan: "scan_store authority index limit path (sql_limit (limit + 1) (filter (\<lambda>c. lo < ch_Sequence c) h)) 0 events lo = (events', pos, m)"
  shows "lo \<le> pos" "pos \<le> max lo (Watermark j)" "events' = events @ events_between authority index path h lo pos"
    "\<not> m \<longrightarrow> Watermark j \<le> pos" "m \<or> events' \<noteq> events \<longrightarrow> lo < pos \<or> limit \<le> int (length events)"
    "int (length events') \<le> max limit (int (length events))"
proof -
  let ?full = "filter (\<lambda>c. lo < ch_Sequence c) h"
  let ?cs = "take (nat (limit + 1)) ?full"
  have cs: "sql_limit (limit + 1) ?full = ?cs" using limit by (simp add: sql_limit_def)
  obtain i where i: "i \<le> length ?cs" "events' = events @ emitted authority index path (take i ?cs)"
    "pos = (if i = 0 then lo else ch_Sequence (?cs ! (i - 1)))" "m \<longleftrightarrow> i < length ?cs"
    "i = 0 \<and> m \<longrightarrow> limit \<le> int 0 \<or> limit \<le> int (length events)" "int (0 + i) \<le> max limit (int 0)"
    "int (length events') \<le> max limit (int (length events))"
    using scan unfolding cs by (rule scan_store_prefix)
  have small: "i \<le> nat limit" using i(6) limit by simp
  then have tk: "take i ?cs = take i ?full" using limit by (simp add: min_def nat_add_distrib)
  have pos: "take i ?full = filter (\<lambda>c. lo < ch_Sequence c \<and> ch_Sequence c \<le> pos) h \<and> lo < pos \<and> pos \<le> tj_seq j" if "0 < i"
  proof -
    have p: "pos = ch_Sequence (?full ! (i - 1))" using i(1,3) that nth_take [of "i - 1" "nat (limit + 1)" ?full] by auto
    have "?full ! (i - 1) \<in> set ?full" using i(1) that by (intro nth_mem) auto
    then have "lo < pos \<and> pos \<le> tj_seq j" using history_bound [OF inv] unfolding p by auto
    moreover have "take i ?full = filter (\<lambda>c. ch_Sequence c \<le> pos) ?full"
      unfolding p using i(1) that by (intro take_upto history_ascending [OF inv]) auto
    ultimately show ?thesis by (simp add: conj_commute)
  qed
  show "lo \<le> pos" "pos \<le> max lo (Watermark j)" using pos i(3) Watermark_seq [OF inv] by (cases "i = 0"; force)+
  show "events' = events @ events_between authority index path h lo pos"
    using pos i(2,3) tk by (cases "i = 0") (auto simp: events_between_def filter_empty_conv)
  show "m \<or> events' \<noteq> events \<longrightarrow> lo < pos \<or> limit \<le> int (length events)"
    using pos i(2,5) limit by (cases "i = 0") auto
  show "int (length events') \<le> max limit (int (length events))" by (rule i(7))
  show "\<not> m \<longrightarrow> Watermark j \<le> pos"
  proof
    assume "\<not> m"
    then have all: "take i ?full = ?full" using i(1,4) small limit by (auto simp: min_def split: if_splits)
    show "Watermark j \<le> pos"
    proof (cases "Watermark j \<le> lo")
      case False
      then obtain c where c: "c \<in> set ?full" "ch_Sequence c = Watermark j"
        using history_has [OF inv, of "Watermark j"] Watermark_seq [OF inv] by auto
      then have "?full \<noteq> []" by (metis empty_iff empty_set)
      then have "0 < i" using all by (metis gr0I take0)
      with pos all c(1) have "c \<in> set (filter (\<lambda>c. lo < ch_Sequence c \<and> ch_Sequence c \<le> pos) h)" by simp
      then show ?thesis using c(2) by simp
    qed (use \<open>lo \<le> pos\<close> in simp)
  qed
qed

section \<open>All stores\<close>

text \<open>Every journal of the feed is reached from an empty one, with its own complete history.\<close>

definition feed_runs :: "(string \<Rightarrow> Change list) \<Rightarrow> (string \<times> task_journal) list \<Rightarrow> bool" where
  "feed_runs h js \<longleftrightarrow> (\<forall>(p, j)\<in>set js. journal_run (h p) j)"

definition store_followed :: "(string \<Rightarrow> nat) \<Rightarrow> (string \<Rightarrow> nat) \<Rightarrow> bool \<Rightarrow> string \<times> task_journal \<Rightarrow> bool" where
  "store_followed b b' has_more pj \<longleftrightarrow>
     (case pj of (p, j) \<Rightarrow> b p \<le> b' p \<and> b' p \<le> max (b p) (Watermark j) \<and> (\<not> has_more \<longrightarrow> Watermark j \<le> b' p))"

lemma Changes_after_run:
  assumes "journal_run h j" and "Changes_after n limit j = (Inr cs, fl)"
  shows "cs = sql_limit limit (filter (\<lambda>c. n < ch_Sequence c) h)"
  using assms run_changes [OF assms(1), of n limit] by (auto split: if_splits)

lemma scan_stores_ok:
  assumes "scan_stores authority index limit js b events = Inr (events', floors, b', m)"
    and "feed_runs h js" and "distinct (map fst js)" and "1 \<le> limit" and "int (length events) \<le> limit"
  shows "events' = events @ concat (map (\<lambda>(p, j). events_between authority index p (h p) (b p) (b' p)) js)
    \<and> list_all (store_followed b b' m) js \<and> (\<forall>p. p \<notin> fst ` set js \<longrightarrow> b' p = b p)
    \<and> int (length events') \<le> limit \<and> (m \<or> events' \<noteq> events \<longrightarrow> (\<exists>(p, j)\<in>set js. b p < b' p) \<or> limit \<le> int (length events))"
  using assms
proof (induction authority index limit js b events arbitrary: floors m rule: scan_stores.induct)
  case (1 authority index limit b events)
  then show ?case by simp
next
  case (2 authority index limit p j js b events)
  obtain cs fl where cs: "Changes_after (b p) (limit + 1) j = (Inr cs, fl)"
    using 2(2) by (auto split: prod.splits sum.splits)
  obtain ev pos m1 where s: "scan_store authority index limit p cs 0 events (b p) = (ev, pos, m1)"
    by (cases "scan_store authority index limit p cs 0 events (b p)")
  obtain fls m2 where rest: "scan_stores authority index limit js (b(p := pos)) ev = Inr (events', fls, b', m2)" and m: "m = (m1 \<or> m2)"
    using 2(2) cs s by (auto split: sum.splits)
  have run: "journal_run (h p) j" and runs: "feed_runs h js" using 2(3) by (auto simp: feed_runs_def)
  note one = store_scan [OF run_inv [OF run] 2(5) s [unfolded Changes_after_run [OF run cs]]]
  have ih: "events' = ev @ concat (map (\<lambda>(q, j). events_between authority index q (h q) ((b(p := pos)) q) (b' q)) js)
    \<and> list_all (store_followed (b(p := pos)) b' m2) js \<and> (\<forall>q. q \<notin> fst ` set js \<longrightarrow> b' q = (b(p := pos)) q)
    \<and> int (length events') \<le> limit \<and> (m2 \<or> events' \<noteq> ev \<longrightarrow> (\<exists>(q, j)\<in>set js. (b(p := pos)) q < b' q) \<or> limit \<le> int (length ev))"
    by (rule 2(1) [OF cs [symmetric] refl s [symmetric] refl rest runs _ 2(5)]) (use 2(4,6) one(6) in simp_all)
  have new: "p \<notin> fst ` set js" using 2(4) by simp
  with ih have b'p: "b' p = pos" by simp
  have same: "(b(p := pos)) q = b q" if "(q, k) \<in> set js" for q k using new that by force
  have "concat (map (\<lambda>(q, j). events_between authority index q (h q) ((b(p := pos)) q) (b' q)) js) =
      concat (map (\<lambda>(q, j). events_between authority index q (h q) (b q) (b' q)) js)"
    using same by (intro arg_cong [of _ _ concat] map_cong) auto
  then have "events' = events @ concat (map (\<lambda>(q, j). events_between authority index q (h q) (b q) (b' q)) ((p, j) # js))"
    using ih one(3) b'p by simp
  moreover have "list_all (store_followed b b' m) ((p, j) # js)"
  proof -
    have "store_followed b b' m (q, k)" if "(q, k) \<in> set js" for q k
    proof -
      have "store_followed (b(p := pos)) b' m2 (q, k)" using ih that by (simp add: list_all_iff)
      with same [OF that] m show ?thesis by (simp add: store_followed_def del: fun_upd_apply)
    qed
    moreover have "store_followed b b' m (p, j)" using one(1,2,4) b'p m by (simp add: store_followed_def)
    ultimately show ?thesis by (auto simp: list_all_iff)
  qed
  moreover have "m \<or> events' \<noteq> events \<longrightarrow> (\<exists>(q, k)\<in>set ((p, j) # js). b q < b' q) \<or> limit \<le> int (length events)"
  proof (cases "m1 \<or> ev \<noteq> events")
    case True
    with one(5) b'p show ?thesis by auto
  next
    case False
    with ih m have "m \<or> events' \<noteq> events \<longrightarrow> (\<exists>(q, k)\<in>set js. (b(p := pos)) q < b' q) \<or> limit \<le> int (length events)" by blast
    moreover have "(\<exists>(q, k)\<in>set js. (b(p := pos)) q < b' q) = (\<exists>(q, k)\<in>set js. b q < b' q)"
      using same by (intro bex_cong) (auto simp del: fun_upd_apply)
    ultimately show ?thesis by (auto simp del: fun_upd_apply)
  qed
  ultimately show ?case using ih by auto
qed

lemma feed_distinct: "distinct (map fst (feed_journals h))"
proof -
  have "distinct (map fst (filter (\<lambda>(p, j). p \<noteq> ''pm_v1'') (apiJournals h)))"
    by (simp add: apiJournals_def opt_entry_def split: option.splits)
  then show ?thesis by (simp add: feed_journals_def distinct_map)
qed

lemma marks_map_fold:
  "fold (\<lambda>m b. b(wm_Store m := wm_Sequence m)) ms b p =
     (case find_last (\<lambda>m. wm_Store m = p) ms of None \<Rightarrow> b p | Some m \<Rightarrow> wm_Sequence m)"
  by (induction ms arbitrary: b rule: rev_induct) (auto simp: find_last_def)

lemma marks_map_feed:
  "(p, j) \<in> set js \<Longrightarrow> marks_map (map (\<lambda>(p, j). \<lparr>wm_Store = p, wm_Sequence = b p\<rparr>) js) p = b p"
proof -
  assume "(p, j) \<in> set js"
  let ?ms = "map (\<lambda>(p, j). \<lparr>wm_Store = p, wm_Sequence = b p\<rparr>) js"
  have "find_last (\<lambda>m. wm_Store m = p) ?ms \<noteq> None" using \<open>(p, j) \<in> set js\<close> unfolding find_last_None by force
  then obtain m where m: "find_last (\<lambda>m. wm_Store m = p) ?ms = Some m" by auto
  from find_last_Some [OF this] have "wm_Sequence m = b p" by auto
  with m show ?thesis by (simp add: marks_map_def marks_map_fold)
qed

lemma scan_stores_floors:
  "scan_stores authority index limit js b events = Inr (events', floors, b', m) \<Longrightarrow>
    floors = map (\<lambda>(p, j). \<lparr>wm_Store = p, wm_Sequence = tj_floor j\<rparr>) js"
  by (induction authority index limit js b events arbitrary: floors m rule: scan_stores.induct)
    (auto simp: Changes_after_def split: prod.splits sum.splits if_splits)


definition wit_hub :: hub_journals where
  "wit_hub = \<lparr>hj_ordinary = ChangeTx 7 ''x'' ''r'' ''queued'' empty_task_journal, hj_dispatches = None,
              hj_delegations = None, hj_work = None\<rparr>"

definition wit_event_task :: event_task where
  "wit_event_task = \<lparr>et_ref = [(''path'', ''ordinary'')], et_revision = JInt 1\<rparr>"

definition wit_events :: events_page where
  "wit_events =
     \<lparr>ep_events = [\<lparr>ev_event_id = ''ordinary:1'', ev_authority = ''a'',
        ev_store_sequence = \<lparr>wm_Store = ''ordinary'', wm_Sequence = 1\<rparr>, ev_task_ref = [(''path'', ''ordinary'')],
        ev_task_revision = JInt 1, ev_kind = ''execution'', ev_occurred_at_ms = 7\<rparr>],
      ep_next_cursor = ''RQ.bQ'', ep_retention_floor = [\<lparr>wm_Store = ''ordinary'', wm_Sequence = 0\<rparr>],
      ep_has_more = False, ep_partial = False\<rparr>"

lemma wit_feed: "feed_journals wit_hub = [(''ordinary'', ChangeTx 7 ''x'' ''r'' ''queued'' empty_task_journal)]"
  by (simp add: wit_hub_def feed_journals_def apiJournals_def opt_entry_def)

lemma wit_digit: "char_of (49 :: nat) = CHR ''1''"
  by code_simp

lemma wit_answer:
  "apiEvents wit_codec (\<lambda>_. 0) ''a'' (Inr wit_scope) (Inr [(wit_event_task, [(''x'', ''r'')])]) [] 5 wit_hub = Inr wit_events"
  by (simp add: apiEvents_def wit_feed Changes_after_def empty_task_journal_def sql_limit_def marks_map_def task_index_def
      change_task_def command_key_def event_of_def event_kind_def EventsFromWatermarks_def encode_cursor_def wit_codec_def
      wit_tokens wit_events_def wit_event_task_def wit_digit)


end
