(* ===== verification/Message_Queue.thy ===== *)
theory Message_Queue
  imports Journal_Properties
begin

text \<open>
  The durable queue of chat messages (\<^verbatim>\<open>internal/messagequeue\<close>): receipts and payloads, the
  evidence of native execution, sealed results, and the links of older messages to their source.

  One transaction is one update of the state; an operation that returns an error before its commit is
  rolled back and leaves the state as it was. A table whose rows are read in order is a list, one that is
  only looked up by its key a map from session and request. \<open>now\<close> is the clock of the operation.
  The digest of a payload and the decoding of its JSON are fields of \<open>mq_codec\<close>.
\<close>

section \<open>Tables\<close>

datatype mq_state = Queued | Running | Steering | Steered | Cancelled | Completed | Failed | Uncertain

definition state_text :: "mq_state \<Rightarrow> string" where
  "state_text st =
     (case st of Queued \<Rightarrow> ''queued'' | Running \<Rightarrow> ''running'' | Steering \<Rightarrow> ''steering'' | Steered \<Rightarrow> ''steered''
      | Cancelled \<Rightarrow> ''cancelled'' | Completed \<Rightarrow> ''completed'' | Failed \<Rightarrow> ''failed'' | Uncertain \<Rightarrow> ''uncertain'')"

record Entry =
  q_Sequence :: nat
  q_SessionID :: string
  q_RequestID :: string
  q_State :: mq_state
  q_Content :: string
  q_ImageCount :: int
  q_FileNames :: "string list"
  q_Payload :: string
  q_PayloadHash :: string
  q_Message :: string
  q_ActiveRequestID :: string
  q_TurnID :: string
  q_CreatedAt :: int
  q_UpdatedAt :: int

definition entry_key :: "Entry \<Rightarrow> string \<times> string" where
  "entry_key e = (q_SessionID e, q_RequestID e)"

record ProviderEvidence =
  pe_SessionID :: string
  pe_RequestID :: string
  pe_Backend :: string
  pe_ConversationID :: string
  pe_Token :: string
  pe_TokenKind :: string
  pe_MessageID :: string
  pe_Text :: string
  pe_Status :: string

record TaskSeal =
  ts_ID :: string
  ts_SessionID :: string
  ts_RequestID :: string
  ts_Hash :: string
  ts_Text :: string
  ts_Anchor :: string

record admission_row =
  ad_key :: "string \<times> string"
  ad_origin_instance :: string
  ad_origin_session :: string
  ad_metadata :: string

record steer_proof =
  sp_payload_hash :: string
  sp_active_request :: string
  sp_turn :: string

record LegacySourceLink =
  ls_ID :: string
  ls_Source :: string
  ls_TargetSession :: string
  ls_RequestID :: string
  ls_Hash :: string
  ls_Actor :: string
  ls_Generation :: u64
  ls_Revoked :: bool

record message_queue =
  mq_commands :: "Entry list"
  mq_seq :: nat
  mq_revision :: "string \<rightharpoonup> nat"
  mq_rejections :: "string \<times> string \<rightharpoonup> string"
  mq_admissions :: "admission_row list"
  mq_cancel_origins :: "string \<times> string \<rightharpoonup> mq_state"
  mq_acceptance :: "string \<times> string \<rightharpoonup> string \<times> string"
  mq_native_conflicts :: "string \<times> string \<rightharpoonup> string \<times> string"
  mq_conflict_evidence :: "((string \<times> string) \<times> string \<times> string) list"
  mq_provider_conflicts :: "string \<times> string \<Rightarrow> bool"
  mq_provider_evidence :: "string \<times> string \<rightharpoonup> ProviderEvidence"
  mq_steer_proofs :: "string \<times> string \<rightharpoonup> steer_proof"
  mq_seals :: "string \<times> string \<rightharpoonup> TaskSeal"
  mq_links :: "LegacySourceLink list"
  mq_revocations :: "string \<rightharpoonup> string \<times> u64 \<times> int"
  mq_intake_receipts :: "string \<rightharpoonup> string"
  mq_journal :: task_journal

definition empty_queue :: message_queue where
  "empty_queue =
     \<lparr>mq_commands = [], mq_seq = 0, mq_revision = Map.empty, mq_rejections = Map.empty, mq_admissions = [],
      mq_cancel_origins = Map.empty, mq_acceptance = Map.empty, mq_native_conflicts = Map.empty,
      mq_conflict_evidence = [], mq_provider_conflicts = (\<lambda>_. False), mq_provider_evidence = Map.empty,
      mq_steer_proofs = Map.empty, mq_seals = Map.empty, mq_links = [], mq_revocations = Map.empty,
      mq_intake_receipts = Map.empty, mq_journal = empty_task_journal\<rparr>"

datatype mq_error =
    ErrConflict "Entry option" | ErrRejected string | ErrApi api_error | ErrNativeConflict | ErrOther

section \<open>Shared statements\<close>

definition lookup_entry :: "string \<Rightarrow> string \<Rightarrow> message_queue \<Rightarrow> Entry option" where
  "lookup_entry sid rid q = find (\<lambda>e. q_SessionID e = sid \<and> q_RequestID e = rid) (mq_commands q)"

definition change :: "int \<Rightarrow> string \<Rightarrow> string \<Rightarrow> string \<Rightarrow> message_queue \<Rightarrow> message_queue" where
  "change now sid rid kind q = q\<lparr>mq_journal := ChangeTx now sid rid kind (mq_journal q)\<rparr>"

definition bump :: "int \<Rightarrow> string \<Rightarrow> message_queue \<Rightarrow> message_queue" where
  "bump now sid q =
     (let q1 = change now sid [] ''snapshot'' q
      in q1\<lparr>mq_revision := (mq_revision q1)(sid \<mapsto> (case mq_revision q1 sid of None \<Rightarrow> 1 | Some n \<Rightarrow> n + 1))\<rparr>)"

definition Touch :: "int \<Rightarrow> string \<Rightarrow> message_queue \<Rightarrow> message_queue" where
  "Touch now sid q = bump now sid q"

definition update_entry :: "string \<Rightarrow> string \<Rightarrow> (Entry \<Rightarrow> Entry) \<Rightarrow> message_queue \<Rightarrow> message_queue" where
  "update_entry sid rid f q =
     q\<lparr>mq_commands := map (\<lambda>e. if q_SessionID e = sid \<and> q_RequestID e = rid then f e else e) (mq_commands q)\<rparr>"

section \<open>Admission\<close>

definition hex_digest :: "string \<Rightarrow> bool" where
  "hex_digest s \<longleftrightarrow> length s = 64 \<and> list_all (\<lambda>c. c \<in> set ''0123456789abcdefABCDEF'') s"

text \<open>What the queue reads of a payload; \<open>ap_Origin\<close> and \<open>ap_Target\<close> are raw JSON, empty when absent.\<close>

record admission_payload =
  ap_MessagePurpose :: string
  ap_CallbackOnComplete :: "bool option"
  ap_CallbackBinding :: string
  ap_OwnerDevice :: string
  ap_Origin :: string
  ap_Target :: string
  ap_Content :: string

record mq_codec =
  mc_digest :: "string \<Rightarrow> string"
  mc_payload :: "string \<Rightarrow> admission_payload option"
  mc_origin :: "string \<Rightarrow> (string \<times> string) option"
  mc_encode :: "admission_payload \<Rightarrow> string"
  mc_decode :: "string \<Rightarrow> admission_payload option"

definition saveTaskAdmission :: "mq_codec \<Rightarrow> Entry \<Rightarrow> message_queue \<Rightarrow> mq_error + message_queue" where
  "saveTaskAdmission k e q =
     (case mc_payload k (q_Payload e) of
        None \<Rightarrow> Inr q
      | Some raw \<Rightarrow>
          if ap_OwnerDevice raw = [] \<and> ap_Origin raw = [] \<and> ap_MessagePurpose raw = [] then Inr q
          else (case (if ap_Origin raw = [] then Some ([], []) else mc_origin k (ap_Origin raw)) of
             None \<Rightarrow> Inl ErrOther
           | Some (instance_id, session_id) \<Rightarrow>
               if \<exists>a\<in>set (mq_admissions q). ad_key a = entry_key e then Inl ErrOther
               else Inr (q\<lparr>mq_admissions := mq_admissions q @
                    [\<lparr>ad_key = entry_key e, ad_origin_instance = instance_id, ad_origin_session = session_id,
                      ad_metadata = mc_encode k raw\<rparr>]\<rparr>)))"

text \<open>An admission through the task interface; the two flags are the answers of \<^verbatim>\<open>CanCommit\<close>, first
  and last, true when there is none.\<close>

record APIAdmission =
  aa_Command :: AuthorizedCommand
  aa_Record :: IntentRecord
  aa_CanCommit :: "bool \<times> bool"

definition permission_changed :: mq_error where
  "permission_changed = ErrApi (Api (Failure_of ''permission'' ''known_none'' ''refresh_identity''))"

text \<open>The part of an admission after the intent has been claimed.\<close>

definition enqueue_row ::
  "mq_codec \<Rightarrow> int \<Rightarrow> string \<Rightarrow> bool \<Rightarrow> bool \<Rightarrow> Entry \<Rightarrow> message_queue \<Rightarrow> (mq_error + Entry option \<times> bool) \<times> message_queue option" where
  "enqueue_row k now hash intake commit e q =
     (case mq_rejections q (entry_key e) of
        Some reason \<Rightarrow> (Inl (ErrRejected reason), None)
      | None \<Rightarrow>
          (case lookup_entry (q_SessionID e) (q_RequestID e) q of
             Some previous \<Rightarrow>
               if intake \<or> q_PayloadHash previous \<noteq> hash then (Inl (ErrConflict (Some previous)), None)
               else (Inr (Some previous, False), None)
           | None \<Rightarrow>
               let n = Suc (mq_seq q);
                   row = \<lparr>q_Sequence = n, q_SessionID = q_SessionID e, q_RequestID = q_RequestID e, q_State = Queued,
                          q_Content = q_Content e, q_ImageCount = q_ImageCount e, q_FileNames = q_FileNames e,
                          q_Payload = q_Payload e, q_PayloadHash = hash, q_Message = [], q_ActiveRequestID = [],
                          q_TurnID = [], q_CreatedAt = now, q_UpdatedAt = now\<rparr>;
                   q1 = change now (q_SessionID e) (q_RequestID e) ''admission''
                          (q\<lparr>mq_seq := n, mq_commands := mq_commands q @ [row]\<rparr>)
               in (case saveTaskAdmission k e q1 of
                     Inl err \<Rightarrow> (Inl err, None)
                   | Inr q2 \<Rightarrow>
                       if \<not> commit then (Inl permission_changed, None)
                       else (Inr (Some row, True), Some (bump now (q_SessionID e) q2)))))"

definition Enqueue ::
  "mq_codec \<Rightarrow> int \<Rightarrow> APIAdmission option \<Rightarrow> Entry \<Rightarrow> message_queue \<Rightarrow> (mq_error + Entry option \<times> bool) \<times> message_queue" where
  "Enqueue k now api e q =
     (if q_PayloadHash e \<noteq> [] \<and> \<not> hex_digest (q_PayloadHash e) then (Inl (ErrConflict None), q)
      else
        let hash = (if q_PayloadHash e \<noteq> [] then q_PayloadHash e else mc_digest k (q_Payload e));
            run = (\<lambda>intake commit q1.
                     case enqueue_row k now hash intake commit e q1 of
                       (r, None) \<Rightarrow> (r, q) | (r, Some q2) \<Rightarrow> (r, q2))
        in (case api of
              None \<Rightarrow> run False True q
            | Some a \<Rightarrow>
                if \<not> fst (aa_CanCommit a) then (Inl permission_changed, q)
                else (case ClaimTx now (aa_Command a) (aa_Record a) (mq_journal q) of
                   (Inl err, _) \<Rightarrow> (Inl (ErrApi err), q)
                 | (Inr (original, False), _) \<Rightarrow>
                     (Inr (lookup_entry (i_SessionID original) (i_RequestID original) q, False), q)
                 | (Inr (_, True), j) \<Rightarrow>
                     run (ac_Operation (aa_Command a) = ''intake'') (snd (aa_CanCommit a)) (q\<lparr>mq_journal := j\<rparr>))))"

definition Reject :: "string \<Rightarrow> string \<Rightarrow> string \<Rightarrow> message_queue \<Rightarrow> mq_error option \<times> message_queue" where
  "Reject sid rid reason q =
     (if sid = [] \<or> rid = [] then (Some ErrOther, q)
      else case lookup_entry sid rid q of
        Some _ \<Rightarrow> (None, q)
      | None \<Rightarrow>
          (None, q\<lparr>mq_rejections := (if mq_rejections q (sid, rid) = None then (mq_rejections q)((sid, rid) \<mapsto> reason)
                                     else mq_rejections q)\<rparr>))"

section \<open>The state of a message\<close>

definition erases_payload :: "mq_state \<Rightarrow> bool" where
  "erases_payload to \<longleftrightarrow> to = Completed \<or> to = Cancelled \<or> to = Steered \<or> to = Failed"

definition insert_missing :: "'k \<Rightarrow> 'v \<Rightarrow> ('k \<rightharpoonup> 'v) \<Rightarrow> ('k \<rightharpoonup> 'v)" where
  "insert_missing k v m = (if m k = None then m(k \<mapsto> v) else m)"

definition Transition ::
  "int \<Rightarrow> string \<Rightarrow> string \<Rightarrow> mq_state list \<Rightarrow> mq_state \<Rightarrow> string \<Rightarrow> string \<Rightarrow> string \<Rightarrow> bool \<Rightarrow> message_queue
     \<Rightarrow> (mq_error + Entry option \<times> bool) \<times> message_queue" where
  "Transition now sid rid from to message active turn strict q =
     (case lookup_entry sid rid q of
        None \<Rightarrow> (Inr (None, False), q)
      | Some e \<Rightarrow>
          if q_State e \<notin> set from then (Inr (Some e, False), q)
          else if to = Steered \<and> strict \<and> (active = [] \<or> active = rid \<or> turn = [] \<or> mq_steer_proofs q (sid, rid) \<noteq> None)
          then (Inl ErrOther, q)
          else
            let q1 = (if to = Cancelled
                      then q\<lparr>mq_cancel_origins := insert_missing (sid, rid) (q_State e) (mq_cancel_origins q)\<rparr> else q);
                q2 = (if to = Steered \<and> strict
                      then q1\<lparr>mq_steer_proofs := (mq_steer_proofs q1)((sid, rid) \<mapsto>
                             \<lparr>sp_payload_hash = q_PayloadHash e, sp_active_request = active, sp_turn = turn\<rparr>)\<rparr> else q1);
                q3 = update_entry sid rid (\<lambda>e. e\<lparr>q_State := to, q_Message := message, q_ActiveRequestID := active,
                       q_TurnID := turn, q_UpdatedAt := now,
                       q_Payload := (if erases_payload to then [] else q_Payload e)\<rparr>) q2;
                q4 = change now sid rid (state_text to) (bump now sid q3)
            in (Inr (lookup_entry sid rid q4, True), q4))"

definition pending_state :: "mq_state \<Rightarrow> bool" where
  "pending_state st \<longleftrightarrow> st = Queued \<or> st = Running \<or> st = Steering \<or> st = Uncertain"

definition HasUnsettled :: "string \<Rightarrow> message_queue \<Rightarrow> bool" where
  "HasUnsettled sid q \<longleftrightarrow> (\<exists>e\<in>set (mq_commands q). q_SessionID e = sid \<and> pending_state (q_State e))"

definition Snapshot_queue :: "string \<Rightarrow> message_queue \<Rightarrow> nat \<times> Entry list" where
  "Snapshot_queue sid q =
     (let rows = sort_key q_Sequence (filter (\<lambda>e. q_SessionID e = sid) (mq_commands q));
          newest = set (map q_Sequence (keep_newest 100 rows))
      in ((case mq_revision q sid of None \<Rightarrow> 0 | Some n \<Rightarrow> n),
          map (\<lambda>e. e\<lparr>q_Payload := []\<rparr>) (filter (\<lambda>e. pending_state (q_State e) \<or> q_Sequence e \<in> newest) rows)))"

definition Queued_entries :: "message_queue \<Rightarrow> Entry list" where
  "Queued_entries q = sort_key q_Sequence (filter (\<lambda>e. q_State e = Queued) (mq_commands q))"

definition lost_in_flight :: "Entry \<Rightarrow> bool" where
  "lost_in_flight e \<longleftrightarrow> q_State e = Running \<or> q_State e = Steering"

definition restart_message :: string where
  "restart_message = ''Bridge restarted before the result was confirmed; this message will not be sent again automatically''"

definition Recover_queue :: "int \<Rightarrow> message_queue \<Rightarrow> message_queue" where
  "Recover_queue now q =
     fold (\<lambda>e q. bump now (q_SessionID e) (change now (q_SessionID e) (q_RequestID e) ''uncertain'' q))
       (filter lost_in_flight (mq_commands q))
       (q\<lparr>mq_commands := map (\<lambda>e. if lost_in_flight e
             then e\<lparr>q_State := Uncertain, q_Message := restart_message, q_UpdatedAt := now\<rparr> else e) (mq_commands q)\<rparr>)"

definition NativeConflict :: "string \<Rightarrow> string \<Rightarrow> message_queue \<Rightarrow> bool" where
  "NativeConflict sid rid q \<longleftrightarrow> mq_native_conflicts q (sid, rid) \<noteq> None \<or> mq_provider_conflicts q (sid, rid)"

definition cancellable :: "string \<Rightarrow> string \<Rightarrow> string \<Rightarrow> nat option \<Rightarrow> message_queue \<Rightarrow> bool" where
  "cancellable sid rid hash revision q \<longleftrightarrow>
     (\<exists>e\<in>set (mq_commands q). q_SessionID e = sid \<and> q_RequestID e = rid \<and> q_State e = Queued \<and> q_PayloadHash e = hash)
     \<and> (revision = None \<or> mq_revision q sid = revision)
     \<and> mq_acceptance q (sid, rid) = None \<and> \<not> NativeConflict sid rid q"

definition CancelWaitingAPI ::
  "int \<Rightarrow> string \<Rightarrow> string \<Rightarrow> string \<Rightarrow> nat option \<Rightarrow> string \<Rightarrow> message_queue \<Rightarrow> (Entry option \<times> bool) \<times> message_queue" where
  "CancelWaitingAPI now sid rid hash revision outcome q =
     (if \<not> cancellable sid rid hash revision q then ((lookup_entry sid rid q, False), q)
      else
        let q1 = update_entry sid rid (\<lambda>e. if q_State e = Queued \<and> q_PayloadHash e = hash
                   then e\<lparr>q_State := Cancelled, q_UpdatedAt := now, q_Payload := []\<rparr> else e) q;
            q2 = q1\<lparr>mq_cancel_origins := insert_missing (sid, rid) Queued (mq_cancel_origins q1)\<rparr>;
            q3 = change now sid rid ''cancelled'' q2;
            q4 = (if outcome \<noteq> [] then q3\<lparr>mq_journal := SaveOutcomeTx now outcome None (mq_journal q3)\<rparr> else q3);
            q5 = bump now sid q4
        in ((lookup_entry sid rid q5, True), q5))"

definition CancelWaiting :: "int \<Rightarrow> string \<Rightarrow> string \<Rightarrow> string \<Rightarrow> nat option \<Rightarrow> message_queue \<Rightarrow> (Entry option \<times> bool) \<times> message_queue" where
  "CancelWaiting now sid rid hash revision q = CancelWaitingAPI now sid rid hash revision [] q"

definition CancelOrigin :: "string \<Rightarrow> string \<Rightarrow> message_queue \<Rightarrow> mq_state option" where
  "CancelOrigin sid rid q = mq_cancel_origins q (sid, rid)"

end
