(* ===== verification/Message_Evidence.thy ===== *)
theory Message_Evidence
  imports Message_Queue
begin

text \<open>
  The evidence the message queue keeps beside its receipts (\<^verbatim>\<open>task_evidence.go\<close>,
  \<^verbatim>\<open>provider_evidence.go\<close>, \<^verbatim>\<open>steer_proof.go\<close>, \<^verbatim>\<open>task_seals.go\<close>,
  \<^verbatim>\<open>legacy_sources.go\<close>, \<^verbatim>\<open>callback_admissions.go\<close>): which native turn carries a
  message, what a provider said of it, the sealed result, and links to a source.
\<close>

section \<open>Native acceptance\<close>

definition RecordNativeAcceptance :: "int \<Rightarrow> string \<Rightarrow> string \<Rightarrow> string \<Rightarrow> string \<Rightarrow> message_queue \<Rightarrow> mq_error option \<times> message_queue" where
  "RecordNativeAcceptance now sid rid thread turn q =
     (if sid = [] \<or> rid = [] \<or> thread = [] \<or> turn = [] then (Some ErrOther, q)
      else case mq_acceptance q (sid, rid) of
        Some old \<Rightarrow>
          if old = (thread, turn) then (None, q)
          else
            let q1 = q\<lparr>mq_native_conflicts := insert_missing (sid, rid) (thread, turn) (mq_native_conflicts q)\<rparr>
            in if ((sid, rid), thread, turn) \<in> set (mq_conflict_evidence q1) then (Some ErrNativeConflict, q1)
               else (Some ErrNativeConflict, change now sid rid ''native_conflict''
                       (q1\<lparr>mq_conflict_evidence := mq_conflict_evidence q1 @ [((sid, rid), thread, turn)]\<rparr>))
      | None \<Rightarrow>
          (None, change now sid rid ''native_acceptance''
                   (q\<lparr>mq_acceptance := (mq_acceptance q)((sid, rid) \<mapsto> (thread, turn))\<rparr>)))"

definition ExactNativeAcceptance :: "string \<Rightarrow> string \<Rightarrow> message_queue \<Rightarrow> mq_error + (string \<times> string) option" where
  "ExactNativeAcceptance sid rid q =
     (if NativeConflict sid rid q then Inl ErrNativeConflict
      else case mq_acceptance q (sid, rid) of
        None \<Rightarrow> Inr None
      | Some (thread, turn) \<Rightarrow> if thread = [] \<or> turn = [] then Inl ErrOther else Inr (Some (thread, turn)))"

definition NativeAcceptance :: "string \<Rightarrow> string \<Rightarrow> string \<Rightarrow> message_queue \<Rightarrow> string" where
  "NativeAcceptance sid rid thread q =
     (case ExactNativeAcceptance sid rid q of
        Inr (Some (thread', turn)) \<Rightarrow> if thread' = thread then turn else []
      | _ \<Rightarrow> [])"

definition NativeExecution :: "string \<Rightarrow> string \<Rightarrow> message_queue \<Rightarrow> (string \<times> string) option" where
  "NativeExecution sid rid q =
     (if NativeConflict sid rid q then None
      else case mq_acceptance q (sid, rid) of
        None \<Rightarrow> None | Some (thread, turn) \<Rightarrow> if thread \<noteq> [] \<and> turn \<noteq> [] then Some (thread, turn) else None)"

definition OriginEntries :: "string \<Rightarrow> string \<Rightarrow> message_queue \<Rightarrow> Entry list" where
  "OriginEntries instance_id parent q =
     take 100 (rev (sort_key q_Sequence (filter (\<lambda>e. \<exists>a\<in>set (mq_admissions q). ad_key a = entry_key e
        \<and> ad_origin_instance a = instance_id \<and> ad_origin_session a = parent) (mq_commands q))))"

definition TaskAdmission :: "string \<Rightarrow> string \<Rightarrow> message_queue \<Rightarrow> string option" where
  "TaskAdmission sid rid q = map_option ad_metadata (find (\<lambda>a. ad_key a = (sid, rid)) (mq_admissions q))"

section \<open>Provider evidence\<close>

definition evidence_conflict :: "ProviderEvidence \<Rightarrow> ProviderEvidence \<Rightarrow> bool" where
  "evidence_conflict old r \<longleftrightarrow>
     pe_Backend old \<noteq> pe_Backend r \<or> pe_ConversationID old \<noteq> pe_ConversationID r \<or> pe_Token old \<noteq> pe_Token r
     \<or> (pe_Status old \<noteq> [] \<and>
         ((pe_Status r \<noteq> [] \<and> (pe_Status old \<noteq> pe_Status r \<or> pe_Text old \<noteq> pe_Text r))
          \<or> (pe_MessageID r \<noteq> [] \<and> pe_MessageID old \<noteq> pe_MessageID r)))"

definition evidence_known :: "ProviderEvidence \<Rightarrow> ProviderEvidence \<Rightarrow> bool" where
  "evidence_known old r \<longleftrightarrow>
     pe_Status r = [] \<or> (pe_Status old = pe_Status r \<and> pe_MessageID old = pe_MessageID r \<and> pe_Text old = pe_Text r)"

definition RecordProviderEvidence :: "int \<Rightarrow> ProviderEvidence \<Rightarrow> message_queue \<Rightarrow> mq_error option \<times> message_queue" where
  "RecordProviderEvidence now r q =
     (let key = (pe_SessionID r, pe_RequestID r);
          add = (\<lambda>row. change now (pe_SessionID r) (pe_RequestID r) ''provider_evidence''
                         (q\<lparr>mq_provider_evidence := (mq_provider_evidence q)(key \<mapsto> row)\<rparr>))
      in if pe_Backend r \<noteq> ''claude'' \<or> pe_ConversationID r = [] \<or> pe_Token r = [] \<or> pe_TokenKind r \<noteq> ''message_uuid''
         then (Some ErrOther, q)
         else case mq_provider_evidence q key of
           None \<Rightarrow> (None, add r)
         | Some old \<Rightarrow>
             if evidence_conflict old r
             then (Some ErrOther, change now (pe_SessionID r) (pe_RequestID r) ''provider_conflict''
                     (q\<lparr>mq_provider_conflicts := (mq_provider_conflicts q)(key := True)\<rparr>))
             else if evidence_known old r then (None, q)
             else (None, add (old\<lparr>pe_MessageID := pe_MessageID r, pe_Text := pe_Text r, pe_Status := pe_Status r\<rparr>)))"

definition StrictSteerProven :: "Entry \<Rightarrow> message_queue \<Rightarrow> bool" where
  "StrictSteerProven e q \<longleftrightarrow>
     mq_steer_proofs q (entry_key e) =
       Some \<lparr>sp_payload_hash = q_PayloadHash e, sp_active_request = q_ActiveRequestID e, sp_turn = q_TurnID e\<rparr>
     \<and> q_State e = Steered"

section \<open>Sealed results\<close>

definition SealTask :: "mq_codec \<Rightarrow> int \<Rightarrow> TaskSeal \<Rightarrow> message_queue \<Rightarrow> (mq_error + TaskSeal) \<times> message_queue" where
  "SealTask k now seal q =
     (if mc_digest k (ts_Text seal) \<noteq> ts_Hash seal then (Inl ErrOther, q)
      else if NativeConflict (ts_SessionID seal) (ts_RequestID seal) q then (Inl ErrOther, q)
      else case mq_seals q (ts_SessionID seal, ts_RequestID seal) of
        Some stored \<Rightarrow>
          if ts_Hash stored \<noteq> ts_Hash seal \<or> ts_Anchor stored \<noteq> ts_Anchor seal then (Inl ErrOther, q) else (Inr stored, q)
      | None \<Rightarrow>
          (Inr seal, change now (ts_SessionID seal) (ts_RequestID seal) ''final_sealed''
             (q\<lparr>mq_seals := (mq_seals q)((ts_SessionID seal, ts_RequestID seal) \<mapsto> seal)\<rparr>)))"

definition TaskSeal_of :: "string \<Rightarrow> string \<Rightarrow> string \<Rightarrow> message_queue \<Rightarrow> APIError + TaskSeal" where
  "TaskSeal_of sid rid sealid q =
     (case mq_seals q (sid, rid) of
        Some s \<Rightarrow> if sealid = [] \<or> ts_ID s = sealid then Inr s
                  else Inl (Failure_of ''result_not_ready'' ''known_none'' ''wait'')
      | None \<Rightarrow> Inl (Failure_of ''result_not_ready'' ''known_none'' ''wait''))"

definition TaskRevision :: "string \<Rightarrow> string \<Rightarrow> message_queue \<Rightarrow> nat" where
  "TaskRevision sid rid q = tj_revisions (mq_journal q) (sid, rid)"

definition CallbackAdmissions :: "mq_codec \<Rightarrow> message_queue \<Rightarrow> ((string \<times> string) \<times> string \<times> string) list" where
  "CallbackAdmissions k q =
     List.map_filter (\<lambda>a. map_option (\<lambda>m. (ad_key a, ap_OwnerDevice m, ap_CallbackBinding m)) (mc_decode k (ad_metadata a)))
       (take 500 (rev (filter (\<lambda>a. case mc_decode k (ad_metadata a) of None \<Rightarrow> False
                                 | Some m \<Rightarrow> ap_CallbackOnComplete m = Some True) (mq_admissions q))))"

section \<open>Sources of older messages\<close>

definition link_view :: "message_queue \<Rightarrow> LegacySourceLink \<Rightarrow> LegacySourceLink" where
  "link_view q l = l\<lparr>ls_Revoked := mq_revocations q (ls_ID l) \<noteq> None\<rparr>"

definition LegacySourceLinks :: "message_queue \<Rightarrow> LegacySourceLink list" where
  "LegacySourceLinks q = map (link_view q) (take 1001 (mq_links q))"

definition LegacySourceLink_of :: "string \<Rightarrow> message_queue \<Rightarrow> APIError + LegacySourceLink" where
  "LegacySourceLink_of lid q =
     (case find (\<lambda>l. ls_ID l = lid) (mq_links q) of None \<Rightarrow> Inl not_found | Some l \<Rightarrow> Inr (link_view q l))"

definition formal_source :: "message_queue \<Rightarrow> string \<Rightarrow> string \<Rightarrow> IntentRecord \<Rightarrow> bool" where
  "formal_source q sid rid i \<longleftrightarrow>
     i_SessionID i = sid \<and> i_RequestID i = rid \<and> mq_intake_receipts q (i_Key i) = None"

definition HasFormalTaskSource :: "string \<Rightarrow> string \<Rightarrow> message_queue \<Rightarrow> bool" where
  "HasFormalTaskSource sid rid q \<longleftrightarrow> (\<exists>i\<in>set (tj_intents (mq_journal q)). formal_source q sid rid i)"

definition permission_denied :: mq_error where
  "permission_denied = ErrApi (Api (Failure_of ''permission'' ''known_none'' ''request_scope_change''))"

definition stale_revision :: mq_error where
  "stale_revision = ErrApi (Api (Failure_of ''stale_revision'' ''known_none'' ''refresh_identity''))"

definition confirm_error :: "IntentRecord \<Rightarrow> LegacySourceLink \<Rightarrow> nat \<Rightarrow> message_queue \<Rightarrow> mq_error option" where
  "confirm_error out link revision q =
     (let sid = ls_TargetSession link; rid = ls_RequestID link in
      if 1000 \<le> length (mq_links q) then Some (ErrApi (Api (Failure_of ''busy'' ''known_none'' ''read_capabilities'')))
      else if \<exists>i\<in>set (tj_intents (mq_journal q)). formal_source q sid rid i \<and> i_Key i \<noteq> i_Key out then Some permission_denied
      else if mq_revision q sid = None then Some ErrOther
      else if mq_revision q sid \<noteq> Some revision then Some stale_revision
      else if \<not> (\<exists>e. lookup_entry sid rid q = Some e \<and> q_PayloadHash e = ls_Hash link) then Some stale_revision
      else if \<exists>l\<in>set (mq_links q). ls_TargetSession l = sid \<and> ls_RequestID l = rid \<and> mq_revocations q (ls_ID l) = None
      then Some (ErrApi (Api (Failure_of ''idempotency_conflict'' ''known_none'' ''lookup_original'')))
      else if (\<exists>l\<in>set (mq_links q). ls_ID l = ls_ID link) \<or> mq_intake_receipts q (i_Key out) \<noteq> None then Some ErrOther
      else None)"

definition ConfirmLegacySource ::
  "int \<Rightarrow> AuthorizedCommand \<Rightarrow> IntentRecord \<Rightarrow> LegacySourceLink \<Rightarrow> nat \<Rightarrow> message_queue \<Rightarrow> (mq_error + IntentRecord) \<times> message_queue" where
  "ConfirmLegacySource now c record link revision q =
     (case ClaimTx now c record (mq_journal q) of
        (Inl e, _) \<Rightarrow> (Inl (ErrApi e), q)
      | (Inr (existing, False), _) \<Rightarrow> (Inr existing, q)
      | (Inr (out, True), j) \<Rightarrow>
          let q1 = q\<lparr>mq_journal := j\<rparr> in
          (case confirm_error out link revision q1 of
             Some e \<Rightarrow> (Inl e, q)
           | None \<Rightarrow>
               let q2 = q1\<lparr>mq_links := mq_links q1 @ [link],
                           mq_intake_receipts := (mq_intake_receipts q1)(i_Key out \<mapsto> ls_ID link)\<rparr>;
                   q3 = change now (ls_TargetSession link) (ls_RequestID link) ''human_source_linked'' q2
               in (Inr out, q3\<lparr>mq_journal := SaveOutcomeTx now (i_Key out) None (mq_journal q3)\<rparr>)))"

definition RevokeLegacySource ::
  "int \<Rightarrow> AuthorizedCommand \<Rightarrow> IntentRecord \<Rightarrow> LegacySourceLink \<Rightarrow> message_queue \<Rightarrow> (mq_error + IntentRecord) \<times> message_queue" where
  "RevokeLegacySource now c record link q =
     (case ClaimTx now c record (mq_journal q) of
        (Inl e, _) \<Rightarrow> (Inl (ErrApi e), q)
      | (Inr (existing, False), _) \<Rightarrow> (Inr existing, q)
      | (Inr (out, True), j) \<Rightarrow>
          let q1 = q\<lparr>mq_journal := j\<rparr> in
          if ls_Actor link \<noteq> ac_ScopeID c then (Inl permission_denied, q)
          else if mq_intake_receipts q1 (i_Key out) \<noteq> None then (Inl ErrOther, q)
          else
            let fresh = mq_revocations q1 (ls_ID link) = None;
                q2 = q1\<lparr>mq_revocations := insert_missing (ls_ID link) (ac_ScopeID c, ac_Generation c, now) (mq_revocations q1),
                        mq_intake_receipts := (mq_intake_receipts q1)(i_Key out \<mapsto> ls_ID link)\<rparr>;
                q3 = (if fresh then change now (ls_TargetSession link) (ls_RequestID link) ''human_source_revoked'' q2 else q2)
            in (Inr out, q3\<lparr>mq_journal := SaveOutcomeTx now (i_Key out) None (mq_journal q3)\<rparr>))"

end
