(* ===== verification/Message_Properties.thy ===== *)
theory Message_Properties
  imports Message_Evidence
begin

text \<open>
  Histories of the message queue as the hub drives it: every operation of the store, with the state
  changes its callers ask for, interleaved in any order.
\<close>

section \<open>Fields\<close>

lemma change_simps [simp]:
  "mq_commands (change now sid rid kind q) = mq_commands q" "mq_seq (change now sid rid kind q) = mq_seq q"
  "mq_revision (change now sid rid kind q) = mq_revision q" "mq_rejections (change now sid rid kind q) = mq_rejections q"
  "mq_admissions (change now sid rid kind q) = mq_admissions q" "mq_cancel_origins (change now sid rid kind q) = mq_cancel_origins q"
  "mq_acceptance (change now sid rid kind q) = mq_acceptance q" "mq_native_conflicts (change now sid rid kind q) = mq_native_conflicts q"
  "mq_provider_conflicts (change now sid rid kind q) = mq_provider_conflicts q"
  "mq_conflict_evidence (change now sid rid kind q) = mq_conflict_evidence q"
  "mq_provider_evidence (change now sid rid kind q) = mq_provider_evidence q"
  "mq_steer_proofs (change now sid rid kind q) = mq_steer_proofs q" "mq_seals (change now sid rid kind q) = mq_seals q"
  "mq_links (change now sid rid kind q) = mq_links q" "mq_revocations (change now sid rid kind q) = mq_revocations q"
  "mq_journal (change now sid rid kind q) = ChangeTx now sid rid kind (mq_journal q)"
  by (simp_all add: change_def)

lemma bump_simps [simp]:
  "mq_commands (bump now sid q) = mq_commands q" "mq_seq (bump now sid q) = mq_seq q"
  "mq_rejections (bump now sid q) = mq_rejections q" "mq_cancel_origins (bump now sid q) = mq_cancel_origins q"
  "mq_acceptance (bump now sid q) = mq_acceptance q" "mq_native_conflicts (bump now sid q) = mq_native_conflicts q"
  "mq_provider_conflicts (bump now sid q) = mq_provider_conflicts q"
  "mq_conflict_evidence (bump now sid q) = mq_conflict_evidence q"
  "mq_provider_evidence (bump now sid q) = mq_provider_evidence q" "mq_steer_proofs (bump now sid q) = mq_steer_proofs q"
  "mq_seals (bump now sid q) = mq_seals q"
  "mq_journal (bump now sid q) = ChangeTx now sid [] ''snapshot'' (mq_journal q)"
  by (simp_all add: bump_def Let_def)

lemma update_entry_simps [simp]:
  "mq_commands (update_entry sid rid f q) = map (\<lambda>e. if q_SessionID e = sid \<and> q_RequestID e = rid then f e else e) (mq_commands q)"
  "mq_seq (update_entry sid rid f q) = mq_seq q" "mq_rejections (update_entry sid rid f q) = mq_rejections q"
  "mq_cancel_origins (update_entry sid rid f q) = mq_cancel_origins q" "mq_acceptance (update_entry sid rid f q) = mq_acceptance q"
  "mq_native_conflicts (update_entry sid rid f q) = mq_native_conflicts q"
  "mq_provider_conflicts (update_entry sid rid f q) = mq_provider_conflicts q"
  "mq_conflict_evidence (update_entry sid rid f q) = mq_conflict_evidence q"
  "mq_provider_evidence (update_entry sid rid f q) = mq_provider_evidence q"
  "mq_steer_proofs (update_entry sid rid f q) = mq_steer_proofs q" "mq_seals (update_entry sid rid f q) = mq_seals q"
  "mq_journal (update_entry sid rid f q) = mq_journal q"
  by (simp_all add: update_entry_def)

section \<open>Steps\<close>

text \<open>The state changes the hub asks for, one per call of \<open>Transition\<close>.\<close>

definition hub_calls :: "(mq_state list \<times> mq_state) list" where
  "hub_calls =
     [([Queued], Running), ([Queued], Failed), ([Queued], Cancelled), ([Queued], Steering), ([Queued], Uncertain),
      ([Running], Queued), ([Running], Uncertain), ([Running], Completed), ([Running], Failed),
      ([Running, Uncertain], Completed), ([Running, Uncertain], Failed), ([Uncertain], Completed),
      ([Steering], Steered), ([Steering], Queued), ([Steering], Uncertain)]"

inductive mq_step :: "mq_codec \<Rightarrow> message_queue \<Rightarrow> message_queue \<Rightarrow> bool" for k where
  m_enqueue: "mq_step k q (snd (Enqueue k now api e q))"
| m_reject: "mq_step k q (snd (Reject sid rid reason q))"
| m_transition: "(from, to) \<in> set hub_calls \<Longrightarrow> mq_step k q (snd (Transition now sid rid from to message active turn strict q))"
| m_touch: "mq_step k q (Touch now sid q)"
| m_recover: "mq_step k q (Recover_queue now q)"
| m_cancel: "mq_step k q (snd (CancelWaitingAPI now sid rid hash revision outcome q))"
| m_accept: "mq_step k q (snd (RecordNativeAcceptance now sid rid thread turn q))"
| m_provider: "mq_step k q (snd (RecordProviderEvidence now r q))"
| m_seal: "mq_step k q (snd (SealTask k now seal q))"
| m_confirm: "mq_step k q (snd (ConfirmLegacySource now c record link revision q))"
| m_revoke: "mq_step k q (snd (RevokeLegacySource now c record link q))"
| m_journal: "journal_op (mq_journal q) j \<Longrightarrow> mq_step k q (q\<lparr>mq_journal := j\<rparr>)"

text \<open>How one entry may change, and what a step does to the table.\<close>

definition state_edge :: "mq_state \<Rightarrow> mq_state \<Rightarrow> bool" where
  "state_edge a b \<longleftrightarrow> (\<exists>from. (from, b) \<in> set hub_calls \<and> a \<in> set from) \<or> (a = Steering \<and> b = Uncertain)"

definition same_message :: "Entry \<Rightarrow> Entry \<Rightarrow> bool" where
  "same_message e e' \<longleftrightarrow> q_Sequence e' = q_Sequence e \<and> entry_key e' = entry_key e \<and> q_Content e' = q_Content e
     \<and> q_ImageCount e' = q_ImageCount e \<and> q_FileNames e' = q_FileNames e \<and> q_PayloadHash e' = q_PayloadHash e
     \<and> q_CreatedAt e' = q_CreatedAt e"

definition evolves :: "Entry \<Rightarrow> Entry \<Rightarrow> bool" where
  "evolves e e' \<longleftrightarrow> e' = e \<or> (same_message e e' \<and> state_edge (q_State e) (q_State e')
     \<and> q_Payload e' = (if erases_payload (q_State e') then [] else q_Payload e))"

definition table_step :: "message_queue \<Rightarrow> message_queue \<Rightarrow> bool" where
  "table_step q q' \<longleftrightarrow> (\<exists>f new. mq_commands q' = map f (mq_commands q) @ new \<and> (\<forall>e\<in>set (mq_commands q). evolves e (f e))
     \<and> (new = [] \<and> mq_seq q' = mq_seq q
        \<or> (\<exists>e. new = [e] \<and> q_Sequence e = Suc (mq_seq q) \<and> mq_seq q' = Suc (mq_seq q) \<and> q_State e = Queued
             \<and> mq_rejections q (entry_key e) = None \<and> entry_key e \<notin> entry_key ` set (mq_commands q))))"

lemma table_same: "mq_commands q' = mq_commands q \<Longrightarrow> mq_seq q' = mq_seq q \<Longrightarrow> table_step q q'"
  unfolding table_step_def by (intro exI [of _ id] exI [of _ "[]"]) (simp add: evolves_def)

lemma table_map:
  "mq_commands q' = map f (mq_commands q) \<Longrightarrow> mq_seq q' = mq_seq q \<Longrightarrow> (\<And>e. e \<in> set (mq_commands q) \<Longrightarrow> evolves e (f e))
    \<Longrightarrow> table_step q q'"
  unfolding table_step_def by (intro exI [of _ f] exI [of _ "[]"]) simp

lemma lookup_Some: "lookup_entry sid rid q = Some e \<Longrightarrow> e \<in> set (mq_commands q) \<and> entry_key e = (sid, rid)"
  by (auto simp: lookup_entry_def find_Some_iff entry_key_def)

lemma lookup_None: "lookup_entry sid rid q = None \<longleftrightarrow> (sid, rid) \<notin> entry_key ` set (mq_commands q)"
  by (auto simp: lookup_entry_def find_None_iff entry_key_def)

lemma lookup_unique:
  "distinct (map entry_key (mq_commands q)) \<Longrightarrow> e \<in> set (mq_commands q) \<Longrightarrow> lookup_entry (q_SessionID e) (q_RequestID e) q = Some e"
proof -
  assume d: "distinct (map entry_key (mq_commands q))" and e: "e \<in> set (mq_commands q)"
  then obtain e' where e': "lookup_entry (q_SessionID e) (q_RequestID e) q = Some e'"
    using lookup_None [of "q_SessionID e" "q_RequestID e" q] by (force simp: entry_key_def)
  from lookup_Some [OF this] d e have "e' = e" by (auto simp: distinct_map inj_on_def entry_key_def)
  with e' show ?thesis by simp
qed

section \<open>What every step keeps\<close>

definition table_inv :: "message_queue \<Rightarrow> bool" where
  "table_inv q \<longleftrightarrow> distinct (map entry_key (mq_commands q)) \<and> sorted_wrt (<) (map q_Sequence (mq_commands q))
     \<and> (\<forall>e\<in>set (mq_commands q). q_Sequence e \<le> mq_seq q \<and> mq_rejections q (entry_key e) = None
          \<and> (erases_payload (q_State e) \<longrightarrow> q_Payload e = []))"

definition rejections_step :: "message_queue \<Rightarrow> message_queue \<Rightarrow> bool" where
  "rejections_step q q' \<longleftrightarrow> mq_rejections q' = mq_rejections q
     \<or> (mq_commands q' = mq_commands q \<and> mq_rejections q \<subseteq>\<^sub>m mq_rejections q'
        \<and> (\<forall>e\<in>set (mq_commands q). mq_rejections q' (entry_key e) = mq_rejections q (entry_key e)))"

lemma evolves_facts:
  "evolves e e' \<Longrightarrow> same_message e e'"
  "evolves e e' \<Longrightarrow> (erases_payload (q_State e) \<longrightarrow> q_Payload e = []) \<Longrightarrow> erases_payload (q_State e') \<longrightarrow> q_Payload e' = []"
  by (auto simp: evolves_def same_message_def)

lemma table_inv_step:
  assumes inv: "table_inv q" and t: "table_step q q'" and r: "rejections_step q q'"
  shows "table_inv q'"
proof -
  obtain f new where q': "mq_commands q' = map f (mq_commands q) @ new" and f: "\<forall>e\<in>set (mq_commands q). evolves e (f e)"
    and new: "new = [] \<and> mq_seq q' = mq_seq q
        \<or> (\<exists>e. new = [e] \<and> q_Sequence e = Suc (mq_seq q) \<and> mq_seq q' = Suc (mq_seq q) \<and> q_State e = Queued
             \<and> mq_rejections q (entry_key e) = None \<and> entry_key e \<notin> entry_key ` set (mq_commands q))"
    using t by (auto simp: table_step_def)
  have same: "map (entry_key \<circ> f) (mq_commands q) = map entry_key (mq_commands q)"
    "map (q_Sequence \<circ> f) (mq_commands q) = map q_Sequence (mq_commands q)"
    using f evolves_facts(1) by (auto simp: same_message_def)
  have keys: "entry_key (f e) = entry_key e \<and> q_Sequence (f e) = q_Sequence e" if "e \<in> set (mq_commands q)" for e
    using f evolves_facts(1) that by (auto simp: same_message_def)
  have old: "q_Sequence (f e) \<le> mq_seq q' \<and> mq_rejections q' (entry_key (f e)) = None
      \<and> (erases_payload (q_State (f e)) \<longrightarrow> q_Payload (f e) = [])" if e: "e \<in> set (mq_commands q)" for e
  proof -
    from f e have ev: "evolves e (f e)" by simp
    with evolves_facts(1) have "entry_key (f e) = entry_key e" "q_Sequence (f e) = q_Sequence e" by (auto simp: same_message_def)
    moreover have "mq_seq q \<le> mq_seq q'" using new by auto
    ultimately show ?thesis
      using inv e r evolves_facts(2) [OF ev] by (force simp: table_inv_def rejections_step_def)
  qed
  show ?thesis
  proof (cases "new = []")
    case True
    with inv old show ?thesis by (simp add: table_inv_def q' same)
  next
    case False
    with new obtain e where e: "new = [e]" "q_Sequence e = Suc (mq_seq q)" "mq_seq q' = Suc (mq_seq q)" "q_State e = Queued"
      "mq_rejections q (entry_key e) = None" "entry_key e \<notin> entry_key ` set (mq_commands q)" by auto
    have "length (mq_commands q') \<noteq> length (mq_commands q)" using q' e(1) by simp
    then have "mq_rejections q' = mq_rejections q" using r by (auto simp: rejections_step_def)
    moreover have "distinct (map entry_key (mq_commands q'))" "sorted_wrt (<) (map q_Sequence (mq_commands q'))"
      using inv e(2,6) by (auto simp: table_inv_def sorted_wrt_append q' e(1) same image_image keys)
    ultimately show ?thesis
      using old e q' by (auto simp: table_inv_def erases_payload_def)
  qed
qed

text \<open>Later journals, and those in which a change of a request was recorded on the way.\<close>

abbreviation journal_ops :: "task_journal \<Rightarrow> task_journal \<Rightarrow> bool" where
  "journal_ops \<equiv> journal_op\<^sup>*\<^sup>*"

definition marked :: "string \<times> string \<Rightarrow> task_journal \<Rightarrow> task_journal \<Rightarrow> bool" where
  "marked key j j' \<longleftrightarrow> (\<exists>now kind j1. journal_ops j j1 \<and> journal_ops (ChangeTx now (fst key) (snd key) kind j1) j')"

lemma journal_change [simp]: "journal_ops j j' \<Longrightarrow> journal_ops j (ChangeTx now sid rid kind j')"
  by (meson op_change rtranclp.rtrancl_into_rtrancl)

lemma marked_here: "journal_ops j j' \<Longrightarrow> marked (sid, rid) j (ChangeTx now sid rid kind j')"
  by (auto simp: marked_def)

lemma marked_later: "marked key j j' \<Longrightarrow> journal_ops j' j'' \<Longrightarrow> marked key j j''"
  by (meson marked_def rtranclp_trans)

lemma marked_change: "marked key j j' \<Longrightarrow> marked key j (ChangeTx now sid rid kind j')"
  by (erule marked_later) (rule journal_change, simp)

lemma marked_from: "journal_ops j j' \<Longrightarrow> marked key j' j'' \<Longrightarrow> marked key j j''"
  by (meson marked_def rtranclp_trans)

lemma marked_ops: "marked key j j' \<Longrightarrow> journal_ops j j'"
  by (meson journal_change marked_def rtranclp_trans)

text \<open>What readers see of a request.\<close>

definition observed :: "message_queue \<Rightarrow> string \<times> string \<Rightarrow>
    Entry option \<times> (string \<times> string) option \<times> bool \<times> ProviderEvidence option \<times> TaskSeal option" where
  "observed q key = (lookup_entry (fst key) (snd key) q, mq_acceptance q key, NativeConflict (fst key) (snd key) q,
     mq_provider_evidence q key, mq_seals q key)"

definition good_step :: "message_queue \<Rightarrow> message_queue \<Rightarrow> bool" where
  "good_step q q' \<longleftrightarrow> table_step q q' \<and> rejections_step q q'
     \<and> mq_acceptance q \<subseteq>\<^sub>m mq_acceptance q' \<and> mq_native_conflicts q \<subseteq>\<^sub>m mq_native_conflicts q'
     \<and> (\<forall>key. mq_provider_conflicts q key \<longrightarrow> mq_provider_conflicts q' key) \<and> mq_seals q \<subseteq>\<^sub>m mq_seals q'
     \<and> (\<forall>x\<in>set (mq_conflict_evidence q'). x \<in> set (mq_conflict_evidence q) \<or> mq_native_conflicts q' (fst x) \<noteq> None)
     \<and> journal_ops (mq_journal q) (mq_journal q')
     \<and> (\<forall>key. observed q' key \<noteq> observed q key \<longrightarrow> marked key (mq_journal q) (mq_journal q'))"

lemma observed_same:
  "mq_commands q' = mq_commands q \<Longrightarrow> mq_acceptance q' = mq_acceptance q \<Longrightarrow> mq_native_conflicts q' = mq_native_conflicts q
    \<Longrightarrow> mq_provider_conflicts q' = mq_provider_conflicts q \<Longrightarrow> mq_provider_evidence q' = mq_provider_evidence q
    \<Longrightarrow> mq_seals q' = mq_seals q \<Longrightarrow> observed q' = observed q"
  by (rule ext) (simp add: observed_def lookup_entry_def NativeConflict_def)

text \<open>A step that leaves the tables alone, one that only changes evidence, and one that only changes entries.\<close>

lemma good_quiet:
  assumes "mq_commands q' = mq_commands q" "mq_seq q' = mq_seq q" "mq_rejections q' = mq_rejections q"
    "mq_acceptance q' = mq_acceptance q" "mq_native_conflicts q' = mq_native_conflicts q"
    "mq_provider_conflicts q' = mq_provider_conflicts q" "mq_provider_evidence q' = mq_provider_evidence q"
    "mq_seals q' = mq_seals q" "journal_ops (mq_journal q) (mq_journal q')" "mq_conflict_evidence q' = mq_conflict_evidence q"
  shows "good_step q q'"
  using assms observed_same [OF assms(1,4-8)] table_same [OF assms(1,2)] by (simp add: good_step_def rejections_step_def)

lemma good_evidence:
  assumes "mq_commands q' = mq_commands q" "mq_seq q' = mq_seq q" "mq_rejections q' = mq_rejections q"
    and "mq_acceptance q \<subseteq>\<^sub>m mq_acceptance q'" "mq_native_conflicts q \<subseteq>\<^sub>m mq_native_conflicts q'"
    and "\<forall>key. mq_provider_conflicts q key \<longrightarrow> mq_provider_conflicts q' key" "mq_seals q \<subseteq>\<^sub>m mq_seals q'"
    and "marked key (mq_journal q) (mq_journal q')" and "\<And>key'. key' \<noteq> key \<Longrightarrow> observed q' key' = observed q key'"
    and "\<forall>x\<in>set (mq_conflict_evidence q'). x \<in> set (mq_conflict_evidence q) \<or> mq_native_conflicts q' (fst x) \<noteq> None"
  shows "good_step q q'"
proof -
  have "marked key' (mq_journal q) (mq_journal q')" if "observed q' key' \<noteq> observed q key'" for key'
    using assms(8) assms(9) [of key'] that by (cases "key' = key") simp_all
  then show ?thesis
    using assms(1-7,10) marked_ops [OF assms(8)] table_same [OF assms(1,2)] by (simp add: good_step_def rejections_step_def)
qed

lemma good_entries:
  assumes "table_step q q'" "mq_rejections q' = mq_rejections q"
    "mq_acceptance q' = mq_acceptance q" "mq_native_conflicts q' = mq_native_conflicts q"
    "mq_provider_conflicts q' = mq_provider_conflicts q" "mq_provider_evidence q' = mq_provider_evidence q"
    "mq_seals q' = mq_seals q" "journal_ops (mq_journal q) (mq_journal q')"
    and "mq_conflict_evidence q' = mq_conflict_evidence q"
    and "\<And>sid rid. lookup_entry sid rid q' \<noteq> lookup_entry sid rid q \<Longrightarrow> marked (sid, rid) (mq_journal q) (mq_journal q')"
  shows "good_step q q'"
proof -
  have "marked key (mq_journal q) (mq_journal q')" if "observed q' key \<noteq> observed q key" for key
    using that assms(3-7) assms(10) [of "fst key" "snd key"] by (auto simp: observed_def NativeConflict_def)
  with assms show ?thesis by (simp add: good_step_def rejections_step_def)
qed

section \<open>Admission and rejection\<close>

lemma saveTaskAdmission_fields:
  "saveTaskAdmission k e q = Inr q' \<Longrightarrow> mq_commands q' = mq_commands q \<and> mq_seq q' = mq_seq q \<and> mq_rejections q' = mq_rejections q
    \<and> mq_acceptance q' = mq_acceptance q \<and> mq_native_conflicts q' = mq_native_conflicts q
    \<and> mq_provider_conflicts q' = mq_provider_conflicts q \<and> mq_provider_evidence q' = mq_provider_evidence q
    \<and> mq_seals q' = mq_seals q \<and> mq_journal q' = mq_journal q \<and> mq_conflict_evidence q' = mq_conflict_evidence q"
  by (auto simp: saveTaskAdmission_def split: option.splits if_splits)

definition new_entry :: "int \<Rightarrow> string \<Rightarrow> nat \<Rightarrow> Entry \<Rightarrow> Entry" where
  "new_entry now hash n e =
     e\<lparr>q_Sequence := n, q_State := Queued, q_PayloadHash := hash, q_Message := [], q_ActiveRequestID := [], q_TurnID := [],
       q_CreatedAt := now, q_UpdatedAt := now\<rparr>"

lemma new_entry_simps [simp]:
  "q_Sequence (new_entry now hash n e) = n" "q_State (new_entry now hash n e) = Queued" "q_PayloadHash (new_entry now hash n e) = hash"
  "entry_key (new_entry now hash n e) = entry_key e" "q_SessionID (new_entry now hash n e) = q_SessionID e"
  "q_RequestID (new_entry now hash n e) = q_RequestID e"
  by (simp_all add: new_entry_def entry_key_def)

lemma enqueue_row_ok:
  assumes "enqueue_row k now hash intake commit e q = (r, Some q')"
  shows "mq_rejections q (entry_key e) = None" "lookup_entry (q_SessionID e) (q_RequestID e) q = None"
    "r = Inr (Some (new_entry now hash (Suc (mq_seq q)) e), True)"
    "mq_commands q' = mq_commands q @ [new_entry now hash (Suc (mq_seq q)) e]" "mq_seq q' = Suc (mq_seq q)"
    "mq_rejections q' = mq_rejections q" "mq_acceptance q' = mq_acceptance q" "mq_native_conflicts q' = mq_native_conflicts q"
    "mq_provider_conflicts q' = mq_provider_conflicts q" "mq_provider_evidence q' = mq_provider_evidence q"
    "mq_seals q' = mq_seals q"
    "mq_journal q' = ChangeTx now (q_SessionID e) [] ''snapshot''
       (ChangeTx now (q_SessionID e) (q_RequestID e) ''admission'' (mq_journal q))"
    "mq_conflict_evidence q' = mq_conflict_evidence q"
proof -
  let ?row = "new_entry now hash (Suc (mq_seq q)) e"
  let ?q1 = "change now (q_SessionID e) (q_RequestID e) ''admission''
               (q\<lparr>mq_seq := Suc (mq_seq q), mq_commands := mq_commands q @ [?row]\<rparr>)"
  have row: "\<lparr>q_Sequence = Suc (mq_seq q), q_SessionID = q_SessionID e, q_RequestID = q_RequestID e, q_State = Queued,
      q_Content = q_Content e, q_ImageCount = q_ImageCount e, q_FileNames = q_FileNames e,
      q_Payload = q_Payload e, q_PayloadHash = hash, q_Message = [], q_ActiveRequestID = [],
      q_TurnID = [], q_CreatedAt = now, q_UpdatedAt = now\<rparr> = ?row" by (simp add: new_entry_def)
  show none: "mq_rejections q (entry_key e) = None" "lookup_entry (q_SessionID e) (q_RequestID e) q = None"
    using assms by (auto simp: enqueue_row_def split: option.splits if_splits)
  from assms none obtain q2 where save: "saveTaskAdmission k e ?q1 = Inr q2"
    and r: "r = Inr (Some ?row, True)" "q' = bump now (q_SessionID e) q2"
    by (auto simp: enqueue_row_def Let_def row split: sum.splits if_splits)
  from saveTaskAdmission_fields [OF save] r
  show "r = Inr (Some ?row, True)"
    "mq_commands q' = mq_commands q @ [?row]" "mq_seq q' = Suc (mq_seq q)"
    "mq_rejections q' = mq_rejections q" "mq_acceptance q' = mq_acceptance q" "mq_native_conflicts q' = mq_native_conflicts q"
    "mq_provider_conflicts q' = mq_provider_conflicts q" "mq_provider_evidence q' = mq_provider_evidence q"
    "mq_seals q' = mq_seals q"
    "mq_journal q' = ChangeTx now (q_SessionID e) [] ''snapshot''
       (ChangeTx now (q_SessionID e) (q_RequestID e) ''admission'' (mq_journal q))"
    "mq_conflict_evidence q' = mq_conflict_evidence q"
    by simp_all
qed

text \<open>An admission changes nothing, or adds one entry after its intent has been claimed.\<close>

lemma Enqueue_cases:
  obtains (same) "snd (Enqueue k now api e q) = q"
    | (added) j hash intake commit r q' where "journal_ops (mq_journal q) j" "snd (Enqueue k now api e q) = q'"
        "enqueue_row k now hash intake commit e (q\<lparr>mq_journal := j\<rparr>) = (r, Some q')"
proof (cases "q_PayloadHash e \<noteq> [] \<and> \<not> hex_digest (q_PayloadHash e)")
  case True
  then show ?thesis by (intro same) (simp add: Enqueue_def)
next
  case ok: False
  let ?hash = "if q_PayloadHash e \<noteq> [] then q_PayloadHash e else mc_digest k (q_Payload e)"
  show ?thesis
  proof (cases api)
    case None
    obtain r o' where row: "enqueue_row k now ?hash False True e q = (r, o')" by (cases "enqueue_row k now ?hash False True e q")
    with ok None have snd: "snd (Enqueue k now api e q) = (case o' of None \<Rightarrow> q | Some q' \<Rightarrow> q')"
      by (auto simp: Enqueue_def Let_def split: option.splits)
    show ?thesis
    proof (cases o')
      case (Some q')
      show ?thesis by (rule added [of "mq_journal q" q' ?hash False True r]) (use row snd Some in auto)
    qed (use snd same in simp)
  next
    case (Some a)
    obtain c j where claim: "ClaimTx now (aa_Command a) (aa_Record a) (mq_journal q) = (c, j)"
      by (cases "ClaimTx now (aa_Command a) (aa_Record a) (mq_journal q)")
    have j: "journal_ops (mq_journal q) j" using op_claim [of "mq_journal q" now "aa_Command a" "aa_Record a"] claim by auto
    show ?thesis
    proof (cases "fst (aa_CanCommit a) \<and> (\<exists>i. c = Inr (i, True))")
      case True
      let ?in = "ac_Operation (aa_Command a) = ''intake''"
      let ?q = "q\<lparr>mq_journal := j\<rparr>"
      obtain r o' where row: "enqueue_row k now ?hash ?in (snd (aa_CanCommit a)) e ?q = (r, o')"
        by (cases "enqueue_row k now ?hash ?in (snd (aa_CanCommit a)) e ?q")
      with ok Some True claim have snd: "snd (Enqueue k now api e q) = (case o' of None \<Rightarrow> q | Some q' \<Rightarrow> q')"
        by (auto simp: Enqueue_def Let_def split: option.splits)
      show ?thesis
      proof (cases o')
        case (Some q')
        show ?thesis by (rule added [OF j _ row [unfolded Some]]) (use snd Some in simp)
      qed (use snd same in simp)
    next
      case False
      with ok Some claim have "snd (Enqueue k now api e q) = q"
        by (auto simp: Enqueue_def Let_def split: sum.splits prod.splits bool.splits)
      then show ?thesis by (rule same)
    qed
  qed
qed

lemma find_append_case: "find p (xs @ ys) = (case find p xs of None \<Rightarrow> find p ys | Some x \<Rightarrow> Some x)"
  by (induction xs) auto

lemma good_refl [simp]: "good_step q q"
  by (rule good_quiet) simp_all

lemma good_enqueue: "good_step q (snd (Enqueue k now api e q))"
proof (cases rule: Enqueue_cases [of k now api e q])
  case same
  then show ?thesis by simp
next
  case (added j hash intake commit r q')
  note row = enqueue_row_ok [OF added(3), simplified]
  let ?row = "new_entry now hash (Suc (mq_seq q)) e"
  have none: "lookup_entry (q_SessionID e) (q_RequestID e) q = None" using row(2) by (simp add: lookup_entry_def)
  then have fresh: "entry_key e \<notin> entry_key ` set (mq_commands q)" by (simp add: lookup_None entry_key_def)
  have "table_step q q'"
    unfolding table_step_def
    by (intro exI [of _ id] exI [of _ "[?row]"]) (use row fresh in \<open>simp add: evolves_def\<close>)
  moreover have "marked (sid, rid) (mq_journal q) (mq_journal q')" if "lookup_entry sid rid q' \<noteq> lookup_entry sid rid q" for sid rid
  proof -
    from that row(4) have "(sid, rid) = (q_SessionID e, q_RequestID e)"
      by (auto simp: lookup_entry_def find_append_case split: option.splits if_splits)
    then show ?thesis using row(12) added(1) by (auto intro!: marked_change marked_here)
  qed
  ultimately show ?thesis
    unfolding added(2) using row added(1) by (intro good_entries) simp_all
qed

lemma good_reject: "good_step q (snd (Reject sid rid reason q))"
proof (cases "lookup_entry sid rid q")
  case None
  let ?q = "snd (Reject sid rid reason q)"
  have "rejections_step q ?q"
  proof (cases "mq_rejections q (sid, rid)")
    case none: None
    have "entry_key e \<noteq> (sid, rid)" if "e \<in> set (mq_commands q)" for e using None that unfolding lookup_None by force
    then show ?thesis using None none by (auto simp: Reject_def rejections_step_def map_le_def)
  qed (auto simp: Reject_def rejections_step_def None)
  moreover have "good_step q (?q\<lparr>mq_rejections := mq_rejections q\<rparr>)"
    by (rule good_quiet) (auto simp: Reject_def None)
  moreover have "table_step q ?q" by (rule table_same) (auto simp: Reject_def None)
  moreover have "observed ?q = observed q" by (rule observed_same) (auto simp: Reject_def None)
  ultimately show ?thesis by (auto simp: good_step_def)
qed (simp add: Reject_def)

section \<open>Changes of an entry\<close>

lemma lookup_update:
  assumes "\<And>e. q_SessionID (f e) = q_SessionID e \<and> q_RequestID (f e) = q_RequestID e" and "(sid', rid') \<noteq> (sid, rid)"
  shows "find (\<lambda>e. q_SessionID e = sid' \<and> q_RequestID e = rid') (map (\<lambda>e. if q_SessionID e = sid \<and> q_RequestID e = rid then f e else e) es)
       = find (\<lambda>e. q_SessionID e = sid' \<and> q_RequestID e = rid') es"
  using assms by (induction es) auto

lemma the_entry:
  "table_inv q \<Longrightarrow> lookup_entry sid rid q = Some e \<Longrightarrow> e' \<in> set (mq_commands q) \<Longrightarrow> q_SessionID e' = sid \<Longrightarrow> q_RequestID e' = rid \<Longrightarrow> e' = e"
  using lookup_unique [of q e'] by (auto simp: table_inv_def)

lemma good_transition:
  assumes inv: "table_inv q" and call: "(from, to) \<in> set hub_calls"
  shows "good_step q (snd (Transition now sid rid from to message active turn strict q))"
proof (cases "lookup_entry sid rid q")
  case None
  then show ?thesis by (simp add: Transition_def)
next
  case (Some e)
  let ?q = "snd (Transition now sid rid from to message active turn strict q)"
  let ?f = "\<lambda>e. e\<lparr>q_State := to, q_Message := message, q_ActiveRequestID := active, q_TurnID := turn, q_UpdatedAt := now,
      q_Payload := (if erases_payload to then [] else q_Payload e)\<rparr>"
  let ?g = "\<lambda>e. if q_SessionID e = sid \<and> q_RequestID e = rid then ?f e else e"
  show ?thesis
  proof (cases "?q = q")
    case False
    then have st: "q_State e \<in> set from" and nr: "\<not> (to = Steered \<and> strict \<and> (active = [] \<or> active = rid \<or> turn = [] \<or> mq_steer_proofs q (sid, rid) \<noteq> None))"
      using Some by (auto simp: Transition_def split: if_splits)
    have q: "mq_commands ?q = map ?g (mq_commands q)" "mq_seq ?q = mq_seq q" "mq_rejections ?q = mq_rejections q"
      "mq_acceptance ?q = mq_acceptance q" "mq_native_conflicts ?q = mq_native_conflicts q"
      "mq_provider_conflicts ?q = mq_provider_conflicts q" "mq_provider_evidence ?q = mq_provider_evidence q"
      "mq_seals ?q = mq_seals q"
      "mq_journal ?q = ChangeTx now sid rid (state_text to) (ChangeTx now sid [] ''snapshot'' (mq_journal q))"
      "mq_conflict_evidence ?q = mq_conflict_evidence q"
      using st unfolding Transition_def Some option.case if_not_P [OF nr] by (simp_all add: Let_def)
    show ?thesis
    proof (rule good_entries [OF _ q(3-8)])
      show "table_step q ?q"
      proof (rule table_map [OF q(1,2)])
        fix e'
        assume "e' \<in> set (mq_commands q)"
        with the_entry [OF inv Some this] call st show "evolves e' (?g e')"
          by (auto simp: evolves_def same_message_def entry_key_def state_edge_def)
      qed
      show "journal_ops (mq_journal q) (mq_journal ?q)" by (simp add: q(9))
      show "mq_conflict_evidence ?q = mq_conflict_evidence q" by (rule q(10))
      show "marked (sid', rid') (mq_journal q) (mq_journal ?q)" if "lookup_entry sid' rid' ?q \<noteq> lookup_entry sid' rid' q" for sid' rid'
      proof -
        from that have "(sid', rid') = (sid, rid)" using lookup_update [of ?f sid' rid' sid rid] by (auto simp: lookup_entry_def q(1))
        then show ?thesis by (simp add: q(9) marked_here)
      qed
    qed
  qed simp
qed

lemma good_cancel:
  assumes inv: "table_inv q"
  shows "good_step q (snd (CancelWaitingAPI now sid rid hash revision outcome q))"
proof (cases "cancellable sid rid hash revision q")
  case False
  then show ?thesis by (simp add: CancelWaitingAPI_def)
next
  case True
  let ?q = "snd (CancelWaitingAPI now sid rid hash revision outcome q)"
  let ?f = "\<lambda>e. if q_State e = Queued \<and> q_PayloadHash e = hash then e\<lparr>q_State := Cancelled, q_UpdatedAt := now, q_Payload := []\<rparr> else e"
  let ?g = "\<lambda>e. if q_SessionID e = sid \<and> q_RequestID e = rid then ?f e else e"
  have q: "mq_commands ?q = map ?g (mq_commands q)" "mq_seq ?q = mq_seq q" "mq_rejections ?q = mq_rejections q"
    "mq_acceptance ?q = mq_acceptance q" "mq_native_conflicts ?q = mq_native_conflicts q"
    "mq_provider_conflicts ?q = mq_provider_conflicts q" "mq_provider_evidence ?q = mq_provider_evidence q"
    "mq_seals ?q = mq_seals q"
    "mq_journal ?q = ChangeTx now sid [] ''snapshot''
       ((if outcome \<noteq> [] then SaveOutcomeTx now outcome None else id) (ChangeTx now sid rid ''cancelled'' (mq_journal q)))"
    "mq_conflict_evidence ?q = mq_conflict_evidence q"
    by (simp_all add: CancelWaitingAPI_def True Let_def)
  have m: "marked (sid, rid) (mq_journal q) (mq_journal ?q)"
  proof -
    let ?j = "ChangeTx now sid rid ''cancelled'' (mq_journal q)"
    have "journal_ops ?j (SaveOutcomeTx now outcome None ?j)" by (rule r_into_rtranclp) (rule op_outcome)
    moreover have "marked (sid, rid) (mq_journal q) ?j" by (rule marked_here) simp
    ultimately have "marked (sid, rid) (mq_journal q) ((if outcome \<noteq> [] then SaveOutcomeTx now outcome None else id) ?j)"
      by (auto intro: marked_later)
    then show ?thesis unfolding q(9) by (rule marked_change)
  qed
  show ?thesis
  proof (rule good_entries [OF _ q(3-8) marked_ops [OF m] q(10)])
    show "table_step q ?q"
      by (rule table_map [OF q(1,2)])
        (auto simp: evolves_def same_message_def entry_key_def state_edge_def hub_calls_def erases_payload_def)
    show "marked (sid', rid') (mq_journal q) (mq_journal ?q)" if "lookup_entry sid' rid' ?q \<noteq> lookup_entry sid' rid' q" for sid' rid'
    proof -
      have "lookup_entry sid' rid' ?q = lookup_entry sid' rid' q" if "(sid', rid') \<noteq> (sid, rid)"
        unfolding lookup_entry_def q(1) by (rule lookup_update [OF _ that]) simp
      with that m show ?thesis by (cases "(sid', rid') = (sid, rid)") simp_all
    qed
  qed
qed

lemma announce_all:
  fixes now
  defines "R \<equiv> fold (\<lambda>e q. bump now (q_SessionID e) (change now (q_SessionID e) (q_RequestID e) ''uncertain'' q))"
  shows "mq_commands (R es q) = mq_commands q \<and> mq_seq (R es q) = mq_seq q \<and> mq_rejections (R es q) = mq_rejections q
    \<and> mq_acceptance (R es q) = mq_acceptance q \<and> mq_native_conflicts (R es q) = mq_native_conflicts q
    \<and> mq_provider_conflicts (R es q) = mq_provider_conflicts q \<and> mq_provider_evidence (R es q) = mq_provider_evidence q
    \<and> mq_seals (R es q) = mq_seals q \<and> mq_conflict_evidence (R es q) = mq_conflict_evidence q \<and> journal_ops (mq_journal q) (mq_journal (R es q))
    \<and> (\<forall>e\<in>set es. marked (entry_key e) (mq_journal q) (mq_journal (R es q)))"
proof (induction es arbitrary: q)
  case Nil
  show ?case by (simp add: R_def)
next
  case (Cons e es)
  let ?q = "bump now (q_SessionID e) (change now (q_SessionID e) (q_RequestID e) ''uncertain'' q)"
  have R: "R (e # es) q = R es ?q" by (simp add: R_def)
  have m: "marked (entry_key e) (mq_journal q) (mq_journal ?q)"
    by (simp add: entry_key_def) (intro marked_change marked_here rtranclp.rtrancl_refl)
  note ih = Cons.IH [of ?q]
  then have j: "journal_ops (mq_journal ?q) (mq_journal (R es ?q))"
    and later: "\<forall>e\<in>set es. marked (entry_key e) (mq_journal ?q) (mq_journal (R es ?q))" by blast+
  have "marked (entry_key e') (mq_journal q) (mq_journal (R es ?q))" if "e' \<in> set (e # es)" for e'
  proof (cases "e' = e")
    case True
    then show ?thesis using marked_later [OF m j] by simp
  next
    case False
    with that later show ?thesis by (intro marked_from [OF marked_ops [OF m]]) simp_all
  qed
  moreover have "journal_ops (mq_journal q) (mq_journal (R es ?q))" by (rule rtranclp_trans [OF marked_ops [OF m] j])
  ultimately show ?case using ih unfolding R by simp
qed

lemma lookup_map_other:
  "(\<And>e. e \<in> set es \<Longrightarrow> q_SessionID (f e) = q_SessionID e \<and> q_RequestID (f e) = q_RequestID e)
    \<Longrightarrow> find (\<lambda>e. q_SessionID e = sid \<and> q_RequestID e = rid) (map f es) = map_option f (find (\<lambda>e. q_SessionID e = sid \<and> q_RequestID e = rid) es)"
  by (induction es) auto

abbreviation recovered :: "int \<Rightarrow> Entry \<Rightarrow> Entry" where
  "recovered now e \<equiv> (if lost_in_flight e then e\<lparr>q_State := Uncertain, q_Message := restart_message, q_UpdatedAt := now\<rparr> else e)"

lemma Recover_queue_commands [simp]: "mq_commands (Recover_queue now q) = map (recovered now) (mq_commands q)"
  using announce_all [of now "filter lost_in_flight (mq_commands q)"] by (simp add: Recover_queue_def)

lemma lookup_Recover_queue: "lookup_entry sid rid (Recover_queue now q) = map_option (recovered now) (lookup_entry sid rid q)"
  unfolding lookup_entry_def Recover_queue_commands by (rule lookup_map_other) simp

lemma good_recover: "good_step q (Recover_queue now q)"
proof -
  let ?start = "q\<lparr>mq_commands := map (recovered now) (mq_commands q)\<rparr>"
  let ?q = "Recover_queue now q"
  have eq: "Recover_queue now q = fold (\<lambda>e q. bump now (q_SessionID e) (change now (q_SessionID e) (q_RequestID e) ''uncertain'' q))
      (filter lost_in_flight (mq_commands q)) ?start" by (simp add: Recover_queue_def)
  note all = announce_all [where now = now and es = "filter lost_in_flight (mq_commands q)" and q = ?start, unfolded eq [symmetric]]
  show ?thesis
  proof (rule good_entries)
    show "table_step q ?q"
      by (rule table_map [of _ "recovered now"])
        (use all in \<open>auto simp: evolves_def same_message_def entry_key_def state_edge_def hub_calls_def erases_payload_def lost_in_flight_def\<close>)
    show "marked (sid, rid) (mq_journal q) (mq_journal ?q)" if "lookup_entry sid rid ?q \<noteq> lookup_entry sid rid q" for sid rid
    proof -
      from that obtain e where e: "lookup_entry sid rid q = Some e" "lost_in_flight e"
        by (cases "lookup_entry sid rid q") (auto simp: lookup_Recover_queue split: if_splits)
      from lookup_Some [OF e(1)] e(2) all show ?thesis by force
    qed
  qed (use all in simp_all)
qed

section \<open>Evidence\<close>

lemma good_touch: "good_step q (Touch now sid q)"
  by (rule good_quiet) (simp_all add: Touch_def)

definition evidence_inv :: "message_queue \<Rightarrow> bool" where
  "evidence_inv q \<longleftrightarrow> (\<forall>x\<in>set (mq_conflict_evidence q). mq_native_conflicts q (fst x) \<noteq> None)"

lemma good_accept: "evidence_inv q \<Longrightarrow> good_step q (snd (RecordNativeAcceptance now sid rid thread turn q))"
proof (cases "snd (RecordNativeAcceptance now sid rid thread turn q) = q")
  case False
  assume inv: "evidence_inv q"
  let ?q = "snd (RecordNativeAcceptance now sid rid thread turn q)"
  show ?thesis
  proof (cases "mq_acceptance q (sid, rid)")
    case None
    with False have q: "?q = change now sid rid ''native_acceptance'' (q\<lparr>mq_acceptance := (mq_acceptance q)((sid, rid) \<mapsto> (thread, turn))\<rparr>)"
      by (auto simp: RecordNativeAcceptance_def split: if_splits)
    show ?thesis unfolding q
      by (rule good_evidence [of _ _ "(sid, rid)"])
        (use None in \<open>auto simp: map_le_def observed_def lookup_entry_def NativeConflict_def intro!: marked_here\<close>)
  next
    case (Some old)
    let ?q1 = "q\<lparr>mq_native_conflicts := insert_missing (sid, rid) (thread, turn) (mq_native_conflicts q)\<rparr>"
    show ?thesis
    proof (cases "((sid, rid), thread, turn) \<in> set (mq_conflict_evidence q)")
      case True
      with inv have "mq_native_conflicts q (sid, rid) \<noteq> None" by (auto simp: evidence_inv_def)
      then have "?q1 = q" by (auto simp: insert_missing_def)
      with False Some True have False by (auto simp: RecordNativeAcceptance_def Let_def split: if_splits)
      then show ?thesis ..
    next
      case new: False
      with False Some have q: "?q = change now sid rid ''native_conflict''
          (?q1\<lparr>mq_conflict_evidence := mq_conflict_evidence q @ [((sid, rid), thread, turn)]\<rparr>)"
        by (auto simp: RecordNativeAcceptance_def Let_def split: if_splits)
      show ?thesis unfolding q
        by (rule good_evidence [of _ _ "(sid, rid)"])
          (auto simp: map_le_def insert_missing_def observed_def lookup_entry_def NativeConflict_def intro!: marked_here)
    qed
  qed
qed simp

lemma good_provider: "good_step q (snd (RecordProviderEvidence now r q))"
proof -
  let ?q = "snd (RecordProviderEvidence now r q)"
  let ?key = "(pe_SessionID r, pe_RequestID r)"
  have quiet: ?thesis if "?q = q" using that by simp
  have add: ?thesis if "?q = change now (pe_SessionID r) (pe_RequestID r) ''provider_evidence''
      (q\<lparr>mq_provider_evidence := (mq_provider_evidence q)(?key \<mapsto> row)\<rparr>)" for row
    unfolding that by (rule good_evidence [of _ _ ?key])
      (auto simp: observed_def lookup_entry_def NativeConflict_def intro!: marked_here)
  have conflict: ?thesis if "?q = change now (pe_SessionID r) (pe_RequestID r) ''provider_conflict''
      (q\<lparr>mq_provider_conflicts := (mq_provider_conflicts q)(?key := True)\<rparr>)"
    unfolding that by (rule good_evidence [of _ _ ?key])
      (auto simp: observed_def lookup_entry_def NativeConflict_def intro!: marked_here)
  show ?thesis
  proof (cases "pe_Backend r \<noteq> ''claude'' \<or> pe_ConversationID r = [] \<or> pe_Token r = [] \<or> pe_TokenKind r \<noteq> ''message_uuid''")
    case True
    then show ?thesis by (intro quiet) (auto simp: RecordProviderEvidence_def Let_def)
  next
    case valid: False
    show ?thesis
    proof (cases "mq_provider_evidence q ?key")
      case None
      with valid show ?thesis by (intro add [of r]) (simp add: RecordProviderEvidence_def)
    next
      case (Some old)
      consider "evidence_conflict old r" | "\<not> evidence_conflict old r" "evidence_known old r"
        | "\<not> evidence_conflict old r" "\<not> evidence_known old r" by blast
      then show ?thesis
      proof cases
        case 1
        with valid Some show ?thesis by (intro conflict) (simp add: RecordProviderEvidence_def)
      next
        case 2
        with valid Some show ?thesis by (intro quiet) (simp add: RecordProviderEvidence_def)
      next
        case 3
        with valid Some show ?thesis by (intro add) (simp add: RecordProviderEvidence_def)
      qed
    qed
  qed
qed

lemma good_seal: "good_step q (snd (SealTask k now seal q))"
proof -
  let ?q = "snd (SealTask k now seal q)"
  let ?key = "(ts_SessionID seal, ts_RequestID seal)"
  have add: ?thesis if "?q = change now (ts_SessionID seal) (ts_RequestID seal) ''final_sealed'' (q\<lparr>mq_seals := (mq_seals q)(?key \<mapsto> seal)\<rparr>)"
    "mq_seals q ?key = None"
    unfolding that(1) by (rule good_evidence [of _ _ ?key])
      (use that(2) in \<open>auto simp: map_le_def observed_def lookup_entry_def NativeConflict_def intro!: marked_here\<close>)
  show ?thesis
  proof (cases "?q = q")
    case False
    then show ?thesis using add by (auto simp: SealTask_def split: if_splits option.splits)
  qed simp
qed

lemma journal_claim: "ClaimTx now c r j = (x, j') \<Longrightarrow> journal_ops j j'"
  using op_claim [of j now c r] by auto

lemma journal_save: "journal_ops j j' \<Longrightarrow> journal_ops j (SaveOutcomeTx now key failure j')"
  by (meson op_outcome rtranclp.rtrancl_into_rtrancl)

lemma good_confirm: "good_step q (snd (ConfirmLegacySource now c record link revision q))"
proof -
  obtain x j where claim: "ClaimTx now c record (mq_journal q) = (x, j)" by (cases "ClaimTx now c record (mq_journal q)")
  show ?thesis
    by (rule good_quiet)
      (auto simp: ConfirmLegacySource_def claim Let_def intro!: journal_save journal_change journal_claim [OF claim]
        split: sum.splits prod.splits bool.splits option.splits)
qed

lemma good_revoke: "good_step q (snd (RevokeLegacySource now c record link q))"
proof -
  obtain x j where claim: "ClaimTx now c record (mq_journal q) = (x, j)" by (cases "ClaimTx now c record (mq_journal q)")
  show ?thesis
    by (rule good_quiet)
      (auto simp: RevokeLegacySource_def claim Let_def intro!: journal_save journal_change journal_claim [OF claim]
        split: sum.splits prod.splits bool.splits)
qed

lemma step_is_good: "mq_step k q q' \<Longrightarrow> table_inv q \<Longrightarrow> evidence_inv q \<Longrightarrow> good_step q q'"
proof (induction rule: mq_step.induct)
  case (m_journal q j)
  then show ?case by (intro good_quiet) auto
qed (simp_all add: good_enqueue good_reject good_transition good_touch good_recover good_cancel good_accept good_provider
    good_seal good_confirm good_revoke)

end
