(* ===== verification/Message_Guarantees.thy ===== *)
theory Message_Guarantees
  imports Message_Properties
begin

text \<open>
  What the durable message queue promises over any history: a message is accepted once, a rejection is
  final, a message whose fate is unknown is never sent again, a cancellation is atomic, evidence is
  immutable, and every change is in the change journal.
\<close>

section \<open>Histories\<close>

definition mq_inv :: "message_queue \<Rightarrow> bool" where
  "mq_inv q \<longleftrightarrow> table_inv q \<and> evidence_inv q \<and> (\<exists>h. journal_run h (mq_journal q))"

lemma mq_inv_empty: "mq_inv empty_queue"
  unfolding mq_inv_def
  by (intro conjI exI [of _ "[]"]) (simp_all add: table_inv_def evidence_inv_def empty_queue_def jr_start)

lemma journal_run_ops: "journal_ops j j' \<Longrightarrow> journal_run h j \<Longrightarrow> \<exists>h'. journal_run (h @ h') j'"
proof (induction rule: rtranclp_induct)
  case base
  then show ?case by (metis append_Nil2)
next
  case (step j1 j2)
  then obtain h' where "journal_run (h @ h') j1" by blast
  from jr_op [OF this step(2)] show ?case by (metis append.assoc)
qed

lemma mq_inv_step: "mq_step k q q' \<Longrightarrow> mq_inv q \<Longrightarrow> mq_inv q' \<and> good_step q q'"
proof -
  assume step: "mq_step k q q'" and inv: "mq_inv q"
  then have good: "good_step q q'" by (intro step_is_good) (simp_all add: mq_inv_def)
  moreover have "table_inv q'" using table_inv_step inv good by (auto simp: mq_inv_def good_step_def)
  moreover have "evidence_inv q'"
    unfolding evidence_inv_def
  proof
    fix x
    assume x: "x \<in> set (mq_conflict_evidence q')"
    have le: "mq_native_conflicts q \<subseteq>\<^sub>m mq_native_conflicts q'" using good by (simp add: good_step_def)
    from x good consider "x \<in> set (mq_conflict_evidence q)" | "mq_native_conflicts q' (fst x) \<noteq> None" by (auto simp: good_step_def)
    then show "mq_native_conflicts q' (fst x) \<noteq> None"
    proof cases
      case 1
      then have "fst x \<in> dom (mq_native_conflicts q)" using inv unfolding mq_inv_def evidence_inv_def by blast
      with map_le_implies_dom_le [OF le] show ?thesis by blast
    qed
  qed
  moreover have "\<exists>h. journal_run h (mq_journal q')" using inv good journal_run_ops by (fastforce simp: mq_inv_def good_step_def)
  ultimately show ?thesis by (simp add: mq_inv_def)
qed

interpretation mq_sys: step_system "\<lambda>q. q = empty_queue" "mq_step k" mq_inv for k
  by unfold_locales (auto simp: mq_inv_empty dest: mq_inv_step)

text \<open>The entry of a request over a step and over a history.\<close>

lemma lookup_evolves:
  assumes "good_step q q'" and "table_inv q'" and "lookup_entry sid rid q = Some e"
  shows "\<exists>e'. lookup_entry sid rid q' = Some e' \<and> evolves e e'"
proof -
  obtain f new where q': "mq_commands q' = map f (mq_commands q) @ new" and f: "\<forall>e\<in>set (mq_commands q). evolves e (f e)"
    using assms(1) by (auto simp: good_step_def table_step_def)
  have e: "e \<in> set (mq_commands q)" "entry_key e = (sid, rid)" using lookup_Some [OF assms(3)] by auto
  with f have ev: "evolves e (f e)" by simp
  with evolves_facts(1) e(2) have "q_SessionID (f e) = sid" "q_RequestID (f e) = rid" by (auto simp: same_message_def entry_key_def)
  with lookup_unique [of q' "f e"] assms(2) e(1) q' have "lookup_entry sid rid q' = Some (f e)" by (simp add: table_inv_def)
  with ev show ?thesis by blast
qed

lemma run_evolves:
  assumes "mq_inv q" and "(mq_step k)\<^sup>*\<^sup>* q q'" and "lookup_entry sid rid q = Some e"
  shows "\<exists>e'. lookup_entry sid rid q' = Some e' \<and> evolves\<^sup>*\<^sup>* e e'"
  using assms(2)
proof (induction rule: rtranclp_induct)
  case base
  with assms(3) show ?case by auto
next
  case (step q1 q2)
  then obtain e1 where e1: "lookup_entry sid rid q1 = Some e1" "evolves\<^sup>*\<^sup>* e e1" by blast
  have "mq_inv q1" using mq_sys.steps_good [OF step(1) assms(1)] .
  with mq_inv_step [OF step(2)] have "good_step q1 q2" "table_inv q2" by (auto simp: mq_inv_def)
  from lookup_evolves [OF this e1(1)] e1(2) show ?case by (meson rtranclp.rtrancl_into_rtrancl)
qed

lemma evolves_same: "evolves\<^sup>*\<^sup>* e e' \<Longrightarrow> same_message e e'"
  by (induction rule: rtranclp_induct) (auto simp: same_message_def dest!: evolves_facts(1))

text \<open>A settled entry stays as it is; an uncertain one can only be settled.\<close>

lemma settled_final: "evolves e e' \<Longrightarrow> erases_payload (q_State e) \<Longrightarrow> e' = e"
  by (auto simp: evolves_def state_edge_def hub_calls_def erases_payload_def)

lemma uncertain_settles: "evolves e e' \<Longrightarrow> q_State e \<in> {Uncertain, Completed, Failed} \<Longrightarrow> q_State e' \<in> {Uncertain, Completed, Failed}"
  by (auto simp: evolves_def state_edge_def hub_calls_def)

lemma settled_run: "evolves\<^sup>*\<^sup>* e e' \<Longrightarrow> erases_payload (q_State e) \<Longrightarrow> e' = e"
  by (induction rule: rtranclp_induct) (auto dest: settled_final)

lemma uncertain_run: "evolves\<^sup>*\<^sup>* e e' \<Longrightarrow> q_State e \<in> {Uncertain, Completed, Failed} \<Longrightarrow> q_State e' \<in> {Uncertain, Completed, Failed}"
  by (induction rule: rtranclp_induct) (blast dest: uncertain_settles)+

lemma Enqueue_plain:
  assumes "q_PayloadHash m = [] \<or> hex_digest (q_PayloadHash m)"
    and hash: "hash = (if q_PayloadHash m \<noteq> [] then q_PayloadHash m else mc_digest k (q_Payload m))"
  shows "Enqueue k now None m q = (case enqueue_row k now hash False True m q of (r, None) \<Rightarrow> (r, q) | (r, Some q2) \<Rightarrow> (r, q2))"
  using assms by (auto simp: Enqueue_def Let_def)

lemma filter_same_key: "distinct (map f xs) \<Longrightarrow> x \<in> set xs \<Longrightarrow> filter (\<lambda>y. f y = f x) xs = [x]"
  by (induction xs) (auto simp: filter_empty_conv image_iff)

lemma one_entry:
  assumes "table_inv q" and "lookup_entry sid rid q = Some e"
  shows "filter (\<lambda>x. entry_key x = (sid, rid)) (mq_commands q) = [e]"
proof -
  have e: "e \<in> set (mq_commands q)" "entry_key e = (sid, rid)" using lookup_Some [OF assms(2)] by auto
  have "distinct (map entry_key (mq_commands q))" using assms(1) by (simp add: table_inv_def)
  from filter_same_key [OF this e(1)] e(2) show ?thesis by simp
qed

text \<open>
  C23. A message is accepted once. Once a request has an entry, then after any further history it still has
  exactly one, with the same content, digest and place in the queue; sending the request again with the same
  content returns that entry and changes nothing, and sending other content under the same request is
  refused and changes nothing.
\<close>

theorem message_is_accepted_once:
  assumes "(mq_step k)\<^sup>*\<^sup>* empty_queue q" and "(mq_step k)\<^sup>*\<^sup>* q q'" and "lookup_entry sid rid q = Some e"
    and m: "q_SessionID m = sid" "q_RequestID m = rid" "q_PayloadHash m = [] \<or> hex_digest (q_PayloadHash m)"
    and hash: "hash = (if q_PayloadHash m \<noteq> [] then q_PayloadHash m else mc_digest k (q_Payload m))"
  shows "\<exists>e'. filter (\<lambda>x. entry_key x = (sid, rid)) (mq_commands q') = [e'] \<and> same_message e e'
    \<and> Enqueue k now None m q' =
        (if q_PayloadHash e = hash then (Inr (Some e', False), q') else (Inl (ErrConflict (Some e')), q'))"
proof -
  have inv: "mq_inv q" using mq_sys.reachable_good assms(1) by blast
  obtain e' where e': "lookup_entry sid rid q' = Some e'" "same_message e e'"
    using run_evolves [OF inv assms(2,3)] evolves_same by blast
  have inv': "table_inv q'" using mq_sys.steps_good [OF assms(2) inv] by (simp add: mq_inv_def)
  moreover have "mq_rejections q' (entry_key m) = None"
    using lookup_Some [OF e'(1)] inv' m by (auto simp: table_inv_def entry_key_def)
  ultimately show ?thesis
    using one_entry [OF _ e'(1)] e' m Enqueue_plain [OF m(3) hash, of now q']
    by (auto simp: enqueue_row_def same_message_def)
qed

text \<open>
  A rejection is final. A request that was rejected before it had an entry never gets one: in every later
  state it has no entry, keeps its reason, and sending it again is refused with that reason and changes nothing.
\<close>

theorem rejection_is_final:
  assumes "(mq_step k)\<^sup>*\<^sup>* empty_queue q" and "(mq_step k)\<^sup>*\<^sup>* q q'" and rejected: "mq_rejections q (sid, rid) = Some reason"
    and m: "q_SessionID m = sid" "q_RequestID m = rid" "q_PayloadHash m = [] \<or> hex_digest (q_PayloadHash m)"
  shows "lookup_entry sid rid q' = None \<and> mq_rejections q' (sid, rid) = Some reason
    \<and> Enqueue k now None m q' = (Inl (ErrRejected reason), q')"
proof -
  have inv: "mq_inv q" using mq_sys.reachable_good assms(1) by blast
  have keep: "mq_rejections q' (sid, rid) = Some reason"
    using assms(2) rejected
  proof (induction rule: rtranclp_induct)
    case (step q1 q2)
    have "mq_inv q1" by (rule mq_sys.steps_good [OF step(1) inv])
    with mq_inv_step [OF step(2)] have "rejections_step q1 q2" by (simp add: good_step_def)
    with step(3) [OF rejected] show ?case by (auto simp: rejections_step_def map_le_def dom_def)
  qed
  have "table_inv q'" using mq_sys.steps_good [OF assms(2) inv] by (simp add: mq_inv_def)
  with keep lookup_Some [of sid rid q'] have "lookup_entry sid rid q' = None"
    by (cases "lookup_entry sid rid q'") (auto simp: table_inv_def)
  with keep m Enqueue_plain [OF m(3) refl, of k now q'] show ?thesis by (simp add: enqueue_row_def entry_key_def)
qed

text \<open>
  C24. A message whose fate is unknown is never sent again. After a restart no message is left running or
  being steered, and exactly the waiting ones are offered for sending, in their order. A message that was
  running or being steered at the restart, or that became uncertain at any other time, is never waiting or
  running again in any later state: it stays uncertain until it is settled. A settled message never changes
  again and keeps no payload.
\<close>

theorem uncertain_message_is_never_resent:
  assumes "(mq_step k)\<^sup>*\<^sup>* empty_queue q"
  shows "list_all (\<lambda>e. \<not> lost_in_flight e) (mq_commands (Recover_queue now q)) \<and> Queued_entries (Recover_queue now q) = Queued_entries q
    \<and> (\<forall>e\<in>set (mq_commands q). lost_in_flight e \<longrightarrow>
          (\<exists>e'. lookup_entry (q_SessionID e) (q_RequestID e) (Recover_queue now q) = Some e' \<and> q_State e' = Uncertain))
    \<and> (\<forall>sid rid e q'. lookup_entry sid rid q = Some e \<and> (mq_step k)\<^sup>*\<^sup>* q q' \<longrightarrow>
          (\<exists>e'. lookup_entry sid rid q' = Some e'
             \<and> (q_State e = Uncertain \<longrightarrow> q_State e' \<in> {Uncertain, Completed, Failed} \<and> e' \<notin> set (Queued_entries q'))
             \<and> (erases_payload (q_State e) \<longrightarrow> e' = e \<and> q_Payload e = [])))"
proof -
  have inv: "mq_inv q" using mq_sys.reachable_good assms by blast
  have "list_all (\<lambda>e. \<not> lost_in_flight e) (mq_commands (Recover_queue now q))"
    by (auto simp: list_all_iff lost_in_flight_def)
  moreover have "Queued_entries (Recover_queue now q) = Queued_entries q"
  proof -
    have "filter (\<lambda>e. q_State e = Queued) (map (recovered now) es) = filter (\<lambda>e. q_State e = Queued) es" for es
      by (induction es) (auto simp: lost_in_flight_def)
    then show ?thesis by (simp add: Queued_entries_def)
  qed
  moreover have "\<exists>e'. lookup_entry (q_SessionID e) (q_RequestID e) (Recover_queue now q) = Some e' \<and> q_State e' = Uncertain"
    if "e \<in> set (mq_commands q)" "lost_in_flight e" for e
  proof -
    have "lookup_entry (q_SessionID e) (q_RequestID e) q = Some e" using lookup_unique that(1) inv by (simp add: mq_inv_def table_inv_def)
    then show ?thesis using that(2) by (simp add: lookup_Recover_queue)
  qed
  moreover have "\<exists>e'. lookup_entry sid rid q' = Some e'
      \<and> (q_State e = Uncertain \<longrightarrow> q_State e' \<in> {Uncertain, Completed, Failed} \<and> e' \<notin> set (Queued_entries q'))
      \<and> (erases_payload (q_State e) \<longrightarrow> e' = e \<and> q_Payload e = [])"
    if look: "lookup_entry sid rid q = Some e" and run: "(mq_step k)\<^sup>*\<^sup>* q q'" for sid rid e q'
  proof -
    obtain e' where e': "lookup_entry sid rid q' = Some e'" "evolves\<^sup>*\<^sup>* e e'" using run_evolves [OF inv run look] by blast
    have "q_Payload e = []" if "erases_payload (q_State e)"
      using inv lookup_Some [OF look] that by (simp add: mq_inv_def table_inv_def)
    moreover have "q_State e' \<in> {Uncertain, Completed, Failed} \<and> e' \<notin> set (Queued_entries q')" if "q_State e = Uncertain"
    proof -
      have "q_State e' \<in> {Uncertain, Completed, Failed}" by (rule uncertain_run [OF e'(2)]) (simp add: that)
      then show ?thesis by (auto simp: Queued_entries_def)
    qed
    ultimately show ?thesis using e'(1) settled_run [OF e'(2)] by (intro exI [of _ e']) simp
  qed
  ultimately show ?thesis by blast
qed

text \<open>
  A cancellation is atomic. It succeeds exactly when the request waits with that digest, the queue has
  the expected revision and nothing shows that its turn was accepted natively; otherwise nothing changes.
  When it succeeds the message is cancelled, its payload is gone, its outcome is recorded where asked for, and no later
  history changes the entry: it is never sent.
\<close>

theorem cancellation_is_atomic:
  assumes "(mq_step k)\<^sup>*\<^sup>* empty_queue q" and "CancelWaitingAPI now sid rid hash revision outcome q = ((r, done'), q')"
  shows "(done' \<longleftrightarrow> cancellable sid rid hash revision q) \<and> (\<not> done' \<longrightarrow> q' = q)
    \<and> (done' \<longrightarrow> (\<exists>e. r = Some e \<and> q_State e = Cancelled \<and> q_Payload e = []
         \<and> (outcome \<noteq> [] \<longrightarrow> Outcome outcome (mq_journal q') \<noteq> None)
         \<and> (\<forall>q''. (mq_step k)\<^sup>*\<^sup>* q' q'' \<longrightarrow> lookup_entry sid rid q'' = Some e \<and> e \<notin> set (Queued_entries q''))))"
proof -
  have inv: "mq_inv q" using mq_sys.reachable_good assms(1) by blast
  have done': "done' \<longleftrightarrow> cancellable sid rid hash revision q" "\<not> done' \<Longrightarrow> q' = q"
    using assms(2) by (auto simp: CancelWaitingAPI_def Let_def split: if_splits)
  have "\<exists>e. r = Some e \<and> q_State e = Cancelled \<and> q_Payload e = []
      \<and> (outcome \<noteq> [] \<longrightarrow> Outcome outcome (mq_journal q') \<noteq> None)
      \<and> (\<forall>q''. (mq_step k)\<^sup>*\<^sup>* q' q'' \<longrightarrow> lookup_entry sid rid q'' = Some e \<and> e \<notin> set (Queued_entries q''))" if "done'"
  proof -
    have can: "cancellable sid rid hash revision q" using that done' by simp
    then obtain e where e: "e \<in> set (mq_commands q)" "q_SessionID e = sid" "q_RequestID e = rid" "q_State e = Queued" "q_PayloadHash e = hash"
      by (auto simp: cancellable_def)
    let ?e = "e\<lparr>q_State := Cancelled, q_UpdatedAt := now, q_Payload := []\<rparr>"
    have q': "q' = snd (CancelWaitingAPI now sid rid hash revision outcome q)" and r: "r = lookup_entry sid rid q'"
      using assms(2) can by (simp_all add: CancelWaitingAPI_def Let_def) auto
    have inv': "mq_inv q'" unfolding q' using mq_inv_step [OF m_cancel inv] by blast
    have "?e \<in> set (mq_commands q')" using e can by (force simp: q' CancelWaitingAPI_def Let_def)
    with lookup_unique [of q' ?e] inv' e have look: "lookup_entry sid rid q' = Some ?e" by (simp add: mq_inv_def table_inv_def)
    have "lookup_entry sid rid q'' = Some ?e \<and> ?e \<notin> set (Queued_entries q'')" if "(mq_step k)\<^sup>*\<^sup>* q' q''" for q''
      using run_evolves [OF inv' that look] settled_run by (fastforce simp: erases_payload_def Queued_entries_def)
    moreover have "outcome \<noteq> [] \<longrightarrow> Outcome outcome (mq_journal q') \<noteq> None"
      using can by (auto simp: q' CancelWaitingAPI_def Let_def Outcome_def SaveOutcomeTx_def set_outbox_def ChangeTx_def map_add_def split: if_splits)
    ultimately show ?thesis using look r by auto
  qed
  with done' show ?thesis by blast
qed

section \<open>Evidence\<close>

lemma evidence_grows:
  assumes "mq_inv q" and "(mq_step k)\<^sup>*\<^sup>* q q'"
  shows "mq_acceptance q \<subseteq>\<^sub>m mq_acceptance q' \<and> mq_seals q \<subseteq>\<^sub>m mq_seals q'
    \<and> (\<forall>sid rid. NativeConflict sid rid q \<longrightarrow> NativeConflict sid rid q')"
  using assms(2)
proof (induction rule: rtranclp_induct)
  case (step q1 q2)
  have "mq_inv q1" by (rule mq_sys.steps_good [OF step(1) assms(1)])
  with mq_inv_step [OF step(2)] have good: "good_step q1 q2" by blast
  have "NativeConflict sid rid q2" if "NativeConflict sid rid q1" for sid rid
    using good that by (force simp: good_step_def NativeConflict_def map_le_def dom_def)
  with good step(3) show ?case by (auto simp: good_step_def intro: map_le_trans)
qed simp

text \<open>
  C25. Native evidence is immutable. The native turn that was first recorded for a request is never replaced: a
  reader gets that turn or is told that there is a conflict, whatever was recorded later. A conflict is never forgotten;
  while there is one no turn is reported and no result can be sealed. The first sealed result of a request stays its result.
\<close>

theorem native_evidence_is_immutable:
  assumes "(mq_step k)\<^sup>*\<^sup>* empty_queue q" and "(mq_step k)\<^sup>*\<^sup>* q q'"
  shows "(ExactNativeAcceptance sid rid q = Inr (Some t) \<longrightarrow>
            ExactNativeAcceptance sid rid q' \<in> {Inr (Some t), Inl ErrNativeConflict}
            \<and> (\<forall>thread turn. thread \<noteq> [] \<and> turn \<noteq> [] \<and> (thread, turn) \<noteq> t \<and> sid \<noteq> [] \<and> rid \<noteq> [] \<longrightarrow>
                 NativeConflict sid rid (snd (RecordNativeAcceptance now sid rid thread turn q'))))
    \<and> (NativeConflict sid rid q \<longrightarrow> ExactNativeAcceptance sid rid q' = Inl ErrNativeConflict \<and> NativeExecution sid rid q' = None
         \<and> (ts_SessionID seal = sid \<and> ts_RequestID seal = rid \<longrightarrow> SealTask k now seal q' = (Inl ErrOther, q')))
    \<and> (mq_seals q (sid, rid) = Some s \<longrightarrow> TaskSeal_of sid rid [] q' = Inr s)"
proof -
  have inv: "mq_inv q" using mq_sys.reachable_good assms(1) by blast
  note grows = evidence_grows [OF inv assms(2)]
  have "mq_acceptance q' (sid, rid) = Some t" if "mq_acceptance q (sid, rid) = Some t"
    using grows that by (force simp: map_le_def dom_def)
  moreover have "mq_seals q' (sid, rid) = Some s" if "mq_seals q (sid, rid) = Some s"
    using grows that by (force simp: map_le_def dom_def)
  moreover have conflict: "NativeConflict sid rid q'" if "NativeConflict sid rid q" using grows that by blast
  moreover have "NativeConflict sid rid (snd (RecordNativeAcceptance now sid rid thread turn q'))"
    if "mq_acceptance q' (sid, rid) = Some t" "thread \<noteq> []" "turn \<noteq> []" "(thread, turn) \<noteq> t" "sid \<noteq> []" "rid \<noteq> []" for thread turn
    using that by (auto simp: RecordNativeAcceptance_def Let_def NativeConflict_def insert_missing_def)
  ultimately show ?thesis
    by (auto simp: ExactNativeAcceptance_def NativeExecution_def SealTask_def TaskSeal_of_def split: if_splits option.splits prod.splits)
qed

section \<open>The change journal\<close>

lemma run_length: "journal_run h j \<Longrightarrow> length h = tj_seq j"
  using run_inv [of h j] unfolding journal_inv_def by (metis diff_Suc_1 length_map length_upt)

lemma latest_le: "c \<in> set h \<Longrightarrow> ch_RequestID c \<noteq> [] \<Longrightarrow> ch_Sequence c \<le> latest h (ch_SessionID c, ch_RequestID c)"
  unfolding latest_def by (intro max_seq_le) simp

lemma marked_run:
  assumes run: "journal_run h j" and m: "marked (sid, rid) j j'" and rid: "rid \<noteq> []"
  shows "\<exists>h'. journal_run (h @ h') j' \<and> (\<exists>c\<in>set h'. tj_seq j < ch_Sequence c \<and> ch_SessionID c = sid \<and> ch_RequestID c = rid)
    \<and> tj_revisions j (sid, rid) < tj_revisions j' (sid, rid)"
proof -
  obtain now kind j1 where j1: "journal_ops j j1" "journal_ops (ChangeTx now sid rid kind j1) j'" using m by (auto simp: marked_def)
  obtain h1 where h1: "journal_run (h @ h1) j1" using journal_run_ops [OF j1(1) run] by blast
  let ?c = "\<lparr>ch_Sequence = Suc (tj_seq j1), ch_SessionID = sid, ch_RequestID = rid, ch_Kind = kind, ch_At = now\<rparr>"
  have "journal_run ((h @ h1) @ [?c]) (ChangeTx now sid rid kind j1)"
    using jr_op [OF h1 op_change [of j1 now sid rid kind]] new_change [OF run_inv [OF h1], of j1] by simp
  from journal_run_ops [OF j1(2) this] obtain h2 where h2: "journal_run (((h @ h1) @ [?c]) @ h2) j'" by blast
  have seq: "tj_seq j \<le> tj_seq j1" using run_length [OF run] run_length [OF h1] by simp
  have "tj_revisions j (sid, rid) \<le> tj_seq j"
    using run_inv [OF run] history_bound [OF run_inv [OF run]] by (auto simp: journal_inv_def latest_def intro!: max_seq_least)
  moreover have "Suc (tj_seq j1) \<le> tj_revisions j' (sid, rid)"
    using run_inv [OF h2] latest_le [of ?c "((h @ h1) @ [?c]) @ h2"] rid by (simp add: journal_inv_def)
  ultimately have "tj_revisions j (sid, rid) < tj_revisions j' (sid, rid)" using seq by linarith
  moreover have "tj_seq j < ch_Sequence ?c" using seq by simp
  ultimately show ?thesis using h2 by (intro exI [of _ "h1 @ [?c] @ h2"]) auto
qed

text \<open>
  No change of a message is silent. Whenever a step changes what readers see of a request (its entry, its native
  turn, a conflict, what the provider said, its sealed result), the same step raises the task revision of the request and puts a
  change of this request into the change journal, after everything that was there: a reader that follows its cursor
  will see it.
\<close>

theorem queue_changes_are_announced:
  assumes "(mq_step k)\<^sup>*\<^sup>* empty_queue q" and "mq_step k q q'" and "observed q' (sid, rid) \<noteq> observed q (sid, rid)" and "rid \<noteq> []"
  shows "TaskRevision sid rid q < TaskRevision sid rid q'
    \<and> (\<exists>h. journal_run h (mq_journal q')
         \<and> (\<exists>c\<in>set h. Watermark (mq_journal q) < ch_Sequence c \<and> ch_SessionID c = sid \<and> ch_RequestID c = rid))"
proof -
  have inv: "mq_inv q" using mq_sys.reachable_good assms(1) by blast
  then obtain h where h: "journal_run h (mq_journal q)" by (auto simp: mq_inv_def)
  have "marked (sid, rid) (mq_journal q) (mq_journal q')"
    using mq_inv_step [OF assms(2) inv] assms(3) by (simp add: good_step_def)
  from marked_run [OF h this assms(4)] Watermark_seq [OF run_inv [OF h]] show ?thesis
    unfolding TaskRevision_def by (metis Un_iff set_append)
qed

section \<open>A repeated report\<close>

text \<open>
  The same terminal report without its message identifier is not taken for a conflict and erases the stored
  identifier; the original report, repeated after it, then counts as a conflict and the request is quarantined.
\<close>

theorem repeated_report_is_quarantined:
  assumes "mq_provider_evidence q (pe_SessionID r, pe_RequestID r) = Some r" and "pe_Backend r = ''claude''"
    and "pe_ConversationID r \<noteq> []" "pe_Token r \<noteq> []" "pe_TokenKind r = ''message_uuid''" "pe_Status r \<noteq> []" "pe_MessageID r \<noteq> []"
    and q1: "RecordProviderEvidence now (r\<lparr>pe_MessageID := []\<rparr>) q = (e, q1)"
  shows "e = None \<and> fst (RecordProviderEvidence now r q1) \<noteq> None
    \<and> NativeConflict (pe_SessionID r) (pe_RequestID r) (snd (RecordProviderEvidence now r q1))"
proof -
  have "e = None" "mq_provider_evidence q1 (pe_SessionID r, pe_RequestID r) = Some (r\<lparr>pe_MessageID := []\<rparr>)"
    using assms by (auto simp: RecordProviderEvidence_def Let_def evidence_conflict_def evidence_known_def)
  with assms(2-7) show ?thesis
    by (simp add: RecordProviderEvidence_def Let_def evidence_conflict_def NativeConflict_def)
qed

section \<open>Examples\<close>

definition wit_mq :: mq_codec where
  "wit_mq = \<lparr>mc_digest = (\<lambda>s. s), mc_payload = (\<lambda>_. None), mc_origin = (\<lambda>_. None), mc_encode = (\<lambda>_. []), mc_decode = (\<lambda>_. None)\<rparr>"

definition wit_message :: Entry where
  "wit_message =
     \<lparr>q_Sequence = 0, q_SessionID = ''s'', q_RequestID = ''r'', q_State = Queued, q_Content = ''hi'', q_ImageCount = 0,
      q_FileNames = [], q_Payload = ''p'', q_PayloadHash = [], q_Message = [], q_ActiveRequestID = [], q_TurnID = [],
      q_CreatedAt = 0, q_UpdatedAt = 0\<rparr>"

definition wit_queue :: message_queue where
  "wit_queue = snd (Enqueue wit_mq 1 None wit_message empty_queue)"

lemma wit_run: "(mq_step wit_mq)\<^sup>*\<^sup>* empty_queue wit_queue"
  unfolding wit_queue_def by (rule r_into_rtranclp) (rule m_enqueue)

lemma wit_entry: "lookup_entry ''s'' ''r'' wit_queue = Some (new_entry 1 ''p'' 1 wit_message)"
  by (simp add: wit_queue_def Enqueue_def enqueue_row_def saveTaskAdmission_def wit_mq_def wit_message_def empty_queue_def
      lookup_entry_def entry_key_def new_entry_def Let_def)

lemma message_is_accepted_once_witness:
  "\<exists>e. Enqueue wit_mq 9 None wit_message wit_queue = (Inr (Some e, False), wit_queue) \<and> q_Content e = ''hi''"
proof -
  have m: "q_SessionID wit_message = ''s''" "q_RequestID wit_message = ''r''"
    "q_PayloadHash wit_message = [] \<or> hex_digest (q_PayloadHash wit_message)"
    "''p'' = (if q_PayloadHash wit_message \<noteq> [] then q_PayloadHash wit_message else mc_digest wit_mq (q_Payload wit_message))"
    by (simp_all add: wit_message_def wit_mq_def)
  obtain e where "same_message (new_entry 1 ''p'' 1 wit_message) e" "Enqueue wit_mq 9 None wit_message wit_queue = (Inr (Some e, False), wit_queue)"
    using message_is_accepted_once [OF wit_run rtranclp.rtrancl_refl wit_entry m, of 9] by auto
  then show ?thesis by (auto simp: same_message_def new_entry_def wit_message_def)
qed

lemma rejection_is_final_witness:
  "Enqueue wit_mq 9 None wit_message (snd (Reject ''s'' ''r'' ''no'' empty_queue)) =
     (Inl (ErrRejected ''no''), snd (Reject ''s'' ''r'' ''no'' empty_queue))"
proof -
  let ?q = "snd (Reject ''s'' ''r'' ''no'' empty_queue)"
  have run: "(mq_step wit_mq)\<^sup>*\<^sup>* empty_queue ?q" by (rule r_into_rtranclp) (rule m_reject)
  have "mq_rejections ?q (''s'', ''r'') = Some ''no''" by (simp add: Reject_def empty_queue_def lookup_entry_def)
  from rejection_is_final [OF run rtranclp.rtrancl_refl this, of wit_message 9] show ?thesis by (simp add: wit_message_def)
qed

lemma uncertain_message_is_never_resent_witness:
  "Queued_entries (Recover_queue 5 wit_queue) = Queued_entries wit_queue \<and> Queued_entries wit_queue \<noteq> []"
proof -
  have "new_entry 1 ''p'' 1 wit_message \<in> set (Queued_entries wit_queue)"
    using lookup_Some [OF wit_entry] by (simp add: Queued_entries_def)
  then show ?thesis using uncertain_message_is_never_resent [OF wit_run, of 5] by force
qed

lemma cancellation_is_atomic_witness:
  "\<exists>e q'. CancelWaitingAPI 3 ''s'' ''r'' ''p'' None [] wit_queue = ((Some e, True), q') \<and> q_State e = Cancelled \<and> q_Payload e = []"
proof -
  obtain r d q' where c: "CancelWaitingAPI 3 ''s'' ''r'' ''p'' None [] wit_queue = ((r, d), q')"
    by (metis prod.exhaust_sel)
  have "new_entry 1 ''p'' 1 wit_message \<in> set (mq_commands wit_queue)" using lookup_Some [OF wit_entry] by simp
  then have "cancellable ''s'' ''r'' ''p'' None wit_queue"
    unfolding cancellable_def
    by (intro conjI bexI [of _ "new_entry 1 ''p'' 1 wit_message"])
      (auto simp: wit_message_def wit_queue_def Enqueue_def enqueue_row_def saveTaskAdmission_def wit_mq_def empty_queue_def
        lookup_entry_def entry_key_def NativeConflict_def Let_def)
  with cancellation_is_atomic [OF wit_run c] c show ?thesis by auto
qed

lemma native_evidence_is_immutable_witness:
  "ExactNativeAcceptance ''s'' ''r'' (snd (RecordNativeAcceptance 2 ''s'' ''r'' ''t'' ''u'' empty_queue)) = Inr (Some (''t'', ''u''))
   \<and> NativeConflict ''s'' ''r'' (snd (RecordNativeAcceptance 3 ''s'' ''r'' ''t'' ''v'' (snd (RecordNativeAcceptance 2 ''s'' ''r'' ''t'' ''u'' empty_queue))))"
proof -
  let ?q = "snd (RecordNativeAcceptance 2 ''s'' ''r'' ''t'' ''u'' empty_queue)"
  have run: "(mq_step wit_mq)\<^sup>*\<^sup>* empty_queue ?q" by (rule r_into_rtranclp) (rule m_accept)
  have "ExactNativeAcceptance ''s'' ''r'' ?q = Inr (Some (''t'', ''u''))"
    by (simp add: RecordNativeAcceptance_def ExactNativeAcceptance_def NativeConflict_def empty_queue_def)
  with native_evidence_is_immutable [OF run rtranclp.rtrancl_refl, of "''s''" "''r''" "(''t'', ''u'')" 3] show ?thesis by auto
qed

lemma queue_changes_are_announced_witness:
  "TaskRevision ''s'' ''r'' empty_queue < TaskRevision ''s'' ''r'' wit_queue"
proof -
  have step: "mq_step wit_mq empty_queue wit_queue" unfolding wit_queue_def by (rule m_enqueue)
  have "observed wit_queue (''s'', ''r'') \<noteq> observed empty_queue (''s'', ''r'')"
    by (simp add: observed_def wit_entry) (simp add: lookup_entry_def empty_queue_def)
  from queue_changes_are_announced [OF rtranclp.rtrancl_refl step this] show ?thesis by simp
qed

end
