(* ===== verification/Session_Identity.thy ===== *)
theory Session_Identity
  imports Base64_Url
begin

text \<open>
  Session keys (\<^verbatim>\<open>internal/identity/sessionkey.go\<close>): the name of a session together with the
  instance that owns it, as one string. The file also models what the keys use of
  \<^verbatim>\<open>net/url\<close> and \<^verbatim>\<open>strings.ReplaceAll\<close>. The theorem is the round trip.
\<close>

section \<open>Percent encoding\<close>

text \<open>\<^verbatim>\<open>url.QueryEscape\<close>: a space becomes a plus sign, every byte that is not unreserved a triple.\<close>

definition upperhex :: string where
  "upperhex = ''0123456789ABCDEF''"

definition unreserved :: "char \<Rightarrow> bool" where
  "unreserved c \<longleftrightarrow> c \<in> set ''ABCDEFGHIJKLMNOPQRSTUVWXYZabcdefghijklmnopqrstuvwxyz0123456789-_.~''"

definition percent :: "char \<Rightarrow> string" where
  "percent c = [CHR ''%'', upperhex ! (of_char c div 16), upperhex ! (of_char c mod 16)]"

definition query_escape :: "string \<Rightarrow> string" where
  "query_escape s =
     concat (map (\<lambda>c. if unreserved c then [c] else if c = CHR '' '' then ''+'' else percent c) s)"

text \<open>
  \<^verbatim>\<open>url.QueryUnescape\<close>: a percent sign needs two hexadecimal digits of either case.
\<close>

definition unhex :: "char \<Rightarrow> nat option" where
  "unhex c =
     (case index_of c upperhex of
        Some n \<Rightarrow> Some n
      | None \<Rightarrow> map_option ((+) 10) (index_of c ''abcdef''))"

fun query_unescape :: "string \<Rightarrow> string option" where
  "query_unescape [] = Some []"
| "query_unescape (c # s) =
     (if c = CHR ''%'' then
        (case s of
           h # l # t \<Rightarrow>
             (case (unhex h, unhex l) of
                (Some a, Some b) \<Rightarrow> map_option ((#) (char_of (16 * a + b))) (query_unescape t)
              | _ \<Rightarrow> None)
         | _ \<Rightarrow> None)
      else map_option ((#) (if c = CHR ''+'' then CHR '' '' else c)) (query_unescape s))"

text \<open>\<^verbatim>\<open>strings.ReplaceAll\<close> for a pattern that is not empty: occurrences from the left, without overlap.\<close>

fun replace_all :: "string \<Rightarrow> string \<Rightarrow> string \<Rightarrow> string" where
  "replace_all old new [] = []"
| "replace_all old new (c # s) =
     (if old \<noteq> [] \<and> has_prefix (c # s) old then new @ replace_all old new (drop (length old - 1) s)
      else c # replace_all old new s)"

section \<open>Keys\<close>

record SessionIdentity =
  AuthorityInstanceID :: string
  si_SessionID :: string

definition sessionKeyPrefix :: string where
  "sessionKeyPrefix = ''sk1:''"

definition escapeComponent :: "string \<Rightarrow> string" where
  "escapeComponent value =
     replace_all ''%7E'' ''~'' (replace_all ''+'' ''%20'' (query_escape value))"

definition MakeSessionKey :: "string \<Rightarrow> string \<Rightarrow> string option" where
  "MakeSessionKey authority sid =
     (let a = trim_space authority; s = trim_space sid in
      if a = [] \<or> s = [] then None
      else Some (sessionKeyPrefix @ escapeComponent a @ '':'' @ escapeComponent s))"

definition ParseSessionKey :: "string \<Rightarrow> SessionIdentity option" where
  "ParseSessionKey value =
     (if \<not> has_prefix value sessionKeyPrefix then None
      else let encoded = drop (length sessionKeyPrefix) value in
      case index_of (CHR '':'') encoded of
        None \<Rightarrow> None
      | Some separator \<Rightarrow>
          if separator = 0 \<or> separator = length encoded - 1 then None
          else case query_unescape (take separator encoded) of
            None \<Rightarrow> None
          | Some authority \<Rightarrow>
              (case query_unescape (drop (separator + 1) encoded) of
                 None \<Rightarrow> None
               | Some sid \<Rightarrow>
                   let a = trim_space authority; s = trim_space sid in
                   if a = [] \<or> s = [] then None
                   else Some \<lparr>AuthorityInstanceID = a, si_SessionID = s\<rparr>))"

definition WireSessionID :: "string \<Rightarrow> string" where
  "WireSessionID value =
     (case ParseSessionKey value of Some identity \<Rightarrow> si_SessionID identity | None \<Rightarrow> value)"

section \<open>Decoding undoes encoding\<close>

definition component_byte :: "char \<Rightarrow> string" where
  "component_byte c = (if unreserved c then [c] else percent c)"

lemma upperhex_props:
  "n < 16 \<Longrightarrow> index_of (upperhex ! n) upperhex = Some n"
  "n < 16 \<Longrightarrow> upperhex ! n \<in> set upperhex"
proof -
  have "length upperhex = 16" "distinct upperhex" by (simp_all add: upperhex_def)
  then show "n < 16 \<Longrightarrow> index_of (upperhex ! n) upperhex = Some n"
    and "n < 16 \<Longrightarrow> upperhex ! n \<in> set upperhex"
    using index_of_nth nth_mem by fastforce+
qed

lemma of_char_byte [simp]: "(of_char c :: nat) < 256"
  using nat_of_char_less_256 by simp

lemma percent_nibbles [simp]: "(of_char c :: nat) div 16 < 16" "(of_char c :: nat) mod 16 < 16"
  by (simp_all add: div_less_iff_less_mult)

lemma percent_parts:
  "percent c = [CHR ''%'', upperhex ! (of_char c div 16), upperhex ! (of_char c mod 16)]"
  "upperhex ! (of_char c div 16) \<in> set upperhex" "upperhex ! (of_char c mod 16) \<in> set upperhex"
  by (simp_all add: percent_def upperhex_props(2))

lemma special_not_hex [simp]:
  "CHR ''%'' \<notin> set upperhex" "CHR ''+'' \<notin> set upperhex" "CHR '':'' \<notin> set upperhex"
  by (simp_all add: upperhex_def)

lemma special_not_unreserved [simp]:
  "\<not> unreserved (CHR ''%'')" "\<not> unreserved (CHR ''+'')" "\<not> unreserved (CHR '':'')"
  "\<not> unreserved (CHR '' '')" "unreserved (CHR ''~'')"
  by (simp_all add: unreserved_def)

lemma replace_single: "replace_all [d] new s = concat (map (\<lambda>c. if c = d then new else [c]) s)"
  by (induction s) (simp_all add: has_prefix_def)

lemma query_plus: "replace_all ''+'' ''%20'' (query_escape s) = concat (map component_byte s)"
proof (induction s)
  case (Cons c s)
  have "percent (CHR '' '') = ''%20''" by (simp add: percent_def upperhex_def)
  moreover have "unreserved c \<Longrightarrow> c \<noteq> CHR ''+''" using special_not_unreserved(2) by blast
  moreover have "upperhex ! (of_char c div 16) \<noteq> CHR ''+''" "upperhex ! (of_char c mod 16) \<noteq> CHR ''+''"
    using percent_parts(2,3) [of c] special_not_hex(2) by metis+
  ultimately show ?case
    using Cons by (auto simp: replace_single query_escape_def component_byte_def percent_def)
qed (simp add: query_escape_def)

lemma percent_tilde: "percent c = ''%7E'' \<Longrightarrow> c = CHR ''~''"
proof -
  assume p: "percent c = ''%7E''"
  have "index_of (upperhex ! (of_char c div 16)) upperhex = Some (of_char c div 16)"
    "index_of (upperhex ! (of_char c mod 16)) upperhex = Some (of_char c mod 16)"
    by (simp_all add: upperhex_props(1))
  with p have "(of_char c :: nat) div 16 = 7" "(of_char c :: nat) mod 16 = 14"
    by (simp_all add: percent_def upperhex_def)
  then have "(of_char c :: nat) = 126" by presburger
  also have "\<dots> = of_char (CHR ''~'')" by simp
  finally show ?thesis by (simp only: of_char_eq_iff)
qed

lemma component_tilde: "replace_all ''%7E'' ''~'' (concat (map component_byte s)) = concat (map component_byte s)"
proof (induction s)
  case (Cons c s)
  show ?case
  proof (cases "unreserved c")
    case True
    then have "c \<noteq> CHR ''%''" by auto
    with True Cons show ?thesis by (simp add: component_byte_def has_prefix_def)
  next
    case False
    then have "percent c \<noteq> ''%7E''" using percent_tilde special_not_unreserved(5) by blast
    moreover have "upperhex ! (of_char c div 16) \<noteq> CHR ''%''" "upperhex ! (of_char c mod 16) \<noteq> CHR ''%''"
      using percent_parts(2,3) [of c] special_not_hex(1) by metis+
    ultimately show ?thesis
      using False Cons by (simp add: component_byte_def has_prefix_def percent_def)
  qed
qed simp

lemma escapeComponent_bytes: "escapeComponent s = concat (map component_byte s)"
  by (simp add: escapeComponent_def query_plus component_tilde)

lemma unescape_component [simp]: "query_unescape (escapeComponent s) = Some s"
  unfolding escapeComponent_bytes
proof (induction s)
  case (Cons c s)
  show ?case
  proof (cases "unreserved c")
    case True
    then have "c \<noteq> CHR ''%''" "c \<noteq> CHR ''+''" by auto
    with True Cons show ?thesis by (simp add: component_byte_def)
  next
    case False
    then show ?thesis
      using Cons by (simp add: component_byte_def percent_def unhex_def upperhex_props(1))
  qed
qed simp

lemma component_no_colon: "CHR '':'' \<notin> set (escapeComponent s)"
proof -
  have "CHR '':'' \<notin> set (component_byte c)" for c
  proof (cases "unreserved c")
    case False
    have "CHR '':'' \<noteq> upperhex ! (of_char c div 16)" "CHR '':'' \<noteq> upperhex ! (of_char c mod 16)"
      using percent_parts(2,3) [of c] special_not_hex(3) by metis+
    with False show ?thesis by (simp add: component_byte_def percent_def)
  qed (auto simp: component_byte_def)
  then show ?thesis by (simp add: escapeComponent_bytes)
qed

lemma escapeComponent_Nil [simp]: "escapeComponent s = [] \<longleftrightarrow> s = []"
  by (cases s) (simp_all add: escapeComponent_bytes component_byte_def percent_def)

lemma index_of_append: "d \<notin> set a \<Longrightarrow> index_of d (a @ d # b) = Some (length a)"
  by (induction a) auto

section \<open>The round trip\<close>

text \<open>
  A key names its session. An identity with an empty part has no key; every other identity has one,
  parsing it gives the trimmed parts back, and two identities with different parts never share a key.
\<close>

theorem session_key_round_trip:
  "(MakeSessionKey a s = None \<longleftrightarrow> trim_space a = [] \<or> trim_space s = [])
   \<and> (MakeSessionKey a s = Some k \<longrightarrow>
       ParseSessionKey k = Some \<lparr>AuthorityInstanceID = trim_space a, si_SessionID = trim_space s\<rparr>
       \<and> WireSessionID k = trim_space s
       \<and> (MakeSessionKey a' s' = Some k \<longrightarrow> trim_space a' = trim_space a \<and> trim_space s' = trim_space s))"
proof -
  have parse: "ParseSessionKey k = Some \<lparr>AuthorityInstanceID = trim_space a, si_SessionID = trim_space s\<rparr>"
    if "MakeSessionKey a s = Some k" for a s k
  proof -
    let ?a = "escapeComponent (trim_space a)" and ?s = "escapeComponent (trim_space s)"
    from that have k: "k = sessionKeyPrefix @ ?a @ CHR '':'' # ?s" and ne: "trim_space a \<noteq> []" "trim_space s \<noteq> []"
      by (auto simp: MakeSessionKey_def Let_def split: if_splits)
    have "index_of (CHR '':'') (?a @ CHR '':'' # ?s) = Some (length ?a)"
      by (rule index_of_append, rule component_no_colon)
    with ne show ?thesis
      by (simp add: k ParseSessionKey_def has_prefix_def)
  qed
  have none: "MakeSessionKey a s = None \<longleftrightarrow> trim_space a = [] \<or> trim_space s = []"
    by (simp add: MakeSessionKey_def Let_def)
  show ?thesis
    using none parse [of a s k] parse [of a' s' k] by (auto simp: WireSessionID_def)
qed

text \<open>Two instances that own a session of the same name have different keys.\<close>

theorem session_key_round_trip_witness:
  "\<exists>k l. MakeSessionKey '' wu:la '' ''same/1'' = Some k \<and> MakeSessionKey ''morrie'' ''same/1'' = Some l
     \<and> WireSessionID k = ''same/1'' \<and> k \<noteq> l"
proof -
  have t: "trim_space '' wu:la '' = ''wu:la''" "trim_space ''same/1'' = ''same/1''" "trim_space ''morrie'' = ''morrie''"
    by (simp_all add: trim_eval bit_Suc_0_iff)
  obtain k where k: "MakeSessionKey '' wu:la '' ''same/1'' = Some k" by (simp add: MakeSessionKey_def t)
  obtain l where l: "MakeSessionKey ''morrie'' ''same/1'' = Some l" by (simp add: MakeSessionKey_def t)
  from session_key_round_trip [of "'' wu:la ''" "''same/1''" k "''morrie''" "''same/1''"] k l
  show ?thesis by (auto simp: t)
qed

end
