(* ===== verification/Session_Dispatch.thy ===== *)
theory Session_Dispatch
  imports Journal_Properties Json_Values
begin

text \<open>
  Cross-session dispatch (\<^verbatim>\<open>internal/sessiondispatch\<close>): what a controller session may reach,
  and the durable receipt of every instruction it sends to another session.

  A row of \<^verbatim>\<open>session_dispatches\<close> is its columns and the record its payload decodes to; a
  payload is what was encoded, with the fields that \<^verbatim>\<open>json_set\<close> replaces. One transaction is
  one update of the state. The theorems are in \<open>Dispatch_Properties\<close>.
\<close>

section \<open>Grants\<close>

record DispatchGrant =
  g_Enabled :: bool
  g_Local :: bool
  g_Instances :: "string list"
  g_Sessions :: "string list"
  g_Steer :: bool
  g_Revision :: u64

definition AllowsInstance :: "DispatchGrant \<Rightarrow> string \<Rightarrow> string \<Rightarrow> bool" where
  "AllowsInstance g local instance_id \<longleftrightarrow>
     g_Enabled g \<and> (instance_id = local \<and> g_Local g \<or> instance_id \<in> set (g_Instances g))"

definition Allows :: "DispatchGrant \<Rightarrow> string \<Rightarrow> string \<Rightarrow> string \<Rightarrow> bool" where
  "Allows g local instance_id session \<longleftrightarrow>
     g_Enabled g
     \<and> (instance_id = local \<and> g_Local g \<or> instance_id \<in> set (g_Instances g))
     \<and> (g_Sessions g = [] \<or> instance_id @ '':'' @ session \<in> set (g_Sessions g))"

section \<open>Receipts\<close>

record DispatchRecord =
  d_ParentExecutionRequestID :: string
  d_ParentConfigRevision :: u64
  d_ParentConfigKnown :: bool
  d_ParentThreadID :: string
  d_ID :: string
  d_ParentID :: string
  d_OriginRequestID :: string
  d_TurnID :: string
  d_ToolCallID :: string
  d_VoiceID :: string
  d_InstanceID :: string
  d_SessionID :: string
  d_ThreadID :: string
  d_ConfigRevision :: u64
  d_RequestID :: string
  d_ExecutionRequestID :: string
  d_ExecutionTurnID :: string
  d_Mode :: string
  d_Content :: string
  d_IntentHash :: string
  d_State :: string
  d_Error :: string
  d_Result :: string
  d_DeliveryState :: string
  d_DeliveryError :: string
  d_CreatedAt :: int
  d_UpdatedAt :: int
  d_TerminalAt :: int

record dispatch_row =
  dr_id :: string
  dr_parent :: string
  dr_origin :: string
  dr_call :: string
  dr_hash :: string
  dr_state :: string
  dr_payload :: DispatchRecord

record dispatch_store =
  ds_grants :: "string \<rightharpoonup> DispatchGrant"
  ds_rows :: "dispatch_row list"
  ds_journal :: task_journal

datatype dispatch_error =
    DispatchIdentityInvalid | ControllerPendingLimit | GrantRevisionConflict | AmbiguousExecution
  | DispatchApi api_error

definition empty_dispatches :: dispatch_store where
  "empty_dispatches = \<lparr>ds_grants = Map.empty, ds_rows = [], ds_journal = empty_task_journal\<rparr>"

definition terminal_states :: "string set" where
  "terminal_states = {''completed'', ''failed'', ''cancelled'', ''rejected''}"

definition pending_states :: "string set" where
  "pending_states =
     {''prepared'', ''pending'', ''accepted'', ''queued'', ''running'', ''steering'', ''steered'', ''uncertain''}"

section \<open>Operations on grants\<close>

definition no_grant :: DispatchGrant where
  "no_grant = \<lparr>g_Enabled = False, g_Local = False, g_Instances = [], g_Sessions = [], g_Steer = False, g_Revision = 0\<rparr>"

definition Grant_of :: "string \<Rightarrow> dispatch_store \<Rightarrow> DispatchGrant" where
  "Grant_of parent s = (case ds_grants s parent of None \<Rightarrow> no_grant | Some g \<Rightarrow> g)"

definition SetGrant ::
  "string \<Rightarrow> DispatchGrant \<Rightarrow> u64 \<Rightarrow> dispatch_store \<Rightarrow> (dispatch_error + DispatchGrant) \<times> dispatch_store" where
  "SetGrant parent g expected s =
     (let revision = (case ds_grants s parent of None \<Rightarrow> 0 | Some old \<Rightarrow> g_Revision old) in
      if revision \<noteq> expected then (Inl GrantRevisionConflict, s)
      else let g' = g\<lparr>g_Revision := u64_succ revision\<rparr>
           in (Inr g', s\<lparr>ds_grants := (ds_grants s)(parent \<mapsto> g')\<rparr>))"

section \<open>Operations on receipts\<close>

definition dispatch_Get :: "string \<Rightarrow> dispatch_store \<Rightarrow> DispatchRecord option" where
  "dispatch_Get did s = map_option dr_payload (find (\<lambda>w. dr_id w = did) (ds_rows s))"

definition row_by_origin :: "string \<Rightarrow> string \<Rightarrow> string \<Rightarrow> dispatch_store \<Rightarrow> dispatch_row option" where
  "row_by_origin parent request call s =
     find (\<lambda>w. dr_parent w = parent \<and> dr_origin w = request \<and> dr_call w = call) (ds_rows s)"

definition ByOrigin :: "string \<Rightarrow> string \<Rightarrow> string \<Rightarrow> dispatch_store \<Rightarrow> DispatchRecord option" where
  "ByOrigin parent request call s =
     (case row_by_origin parent request call s of None \<Rightarrow> None | Some w \<Rightarrow> dispatch_Get (dr_id w) s)"

definition pending_count :: "string \<Rightarrow> dispatch_store \<Rightarrow> nat" where
  "pending_count parent s = length (filter (\<lambda>w. dr_parent w = parent \<and> dr_state w \<in> pending_states) (ds_rows s))"

definition dispatch_row_of :: "DispatchRecord \<Rightarrow> dispatch_row" where
  "dispatch_row_of r =
     \<lparr>dr_id = d_ID r, dr_parent = d_ParentID r, dr_origin = d_OriginRequestID r, dr_call = d_ToolCallID r,
      dr_hash = d_IntentHash r, dr_state = d_State r, dr_payload = r\<rparr>"

text \<open>A row that the primary key or the unique origin refuses.\<close>

definition row_conflict :: "DispatchRecord \<Rightarrow> dispatch_store \<Rightarrow> bool" where
  "row_conflict r s \<longleftrightarrow>
     (\<exists>w\<in>set (ds_rows s). dr_id w = d_ID r
        \<or> dr_parent w = d_ParentID r \<and> dr_origin w = d_OriginRequestID r \<and> dr_call w = d_ToolCallID r)"

definition Create_dispatch ::
  "int \<Rightarrow> DispatchRecord \<Rightarrow> dispatch_store \<Rightarrow> (dispatch_error + bool) \<times> dispatch_store" where
  "Create_dispatch now r s =
     (if d_ID r = [] \<or> d_ParentID r = [] \<or> d_RequestID r = [] \<or> d_IntentHash r = []
      then (Inl DispatchIdentityInvalid, s)
      else if row_by_origin (d_ParentID r) (d_OriginRequestID r) (d_ToolCallID r) s \<noteq> None then (Inr False, s)
      else if 8 \<le> pending_count (d_ParentID r) s then (Inl ControllerPendingLimit, s)
      else let r' = r\<lparr>d_CreatedAt := now, d_UpdatedAt := now,
                      d_State := (if d_State r = [] then ''prepared'' else d_State r),
                      d_DeliveryState := (if d_DeliveryState r = [] then ''pending'' else d_DeliveryState r)\<rparr> in
           if row_conflict r' s then (Inr False, s)
           else (Inr True, s\<lparr>ds_rows := ds_rows s @ [dispatch_row_of r']\<rparr>))"

definition Put_matches :: "DispatchRecord \<Rightarrow> dispatch_row \<Rightarrow> bool" where
  "Put_matches r w \<longleftrightarrow>
     dr_id w = d_ID r \<and> dr_parent w = d_ParentID r \<and> dr_hash w = d_IntentHash r
     \<and> (dr_state w \<notin> terminal_states \<or> dr_state w = d_State r)"

definition Put_payload :: "DispatchRecord \<Rightarrow> DispatchRecord \<Rightarrow> DispatchRecord" where
  "Put_payload r old =
     (let p = (if d_Result old \<noteq> [] \<and> d_Result r = [] then r\<lparr>d_Result := d_Result old\<rparr> else r)
      in p\<lparr>d_TerminalAt := (if d_TerminalAt old \<noteq> 0 then d_TerminalAt old else d_TerminalAt r)\<rparr>)"

definition Put :: "int \<Rightarrow> DispatchRecord \<Rightarrow> dispatch_store \<Rightarrow> dispatch_store" where
  "Put now r s =
     (let r1 = r\<lparr>d_UpdatedAt := now\<rparr>;
          r2 = (if d_State r1 \<in> terminal_states \<and> d_TerminalAt r1 = 0 then r1\<lparr>d_TerminalAt := now\<rparr> else r1)
      in s\<lparr>ds_rows := map (\<lambda>w. if Put_matches r2 w
                              then w\<lparr>dr_state := d_State r2, dr_payload := Put_payload r2 (dr_payload w)\<rparr> else w)
                         (ds_rows s)\<rparr>)"

text \<open>A text that is too long is cut, and cut further as long as it is not valid UTF-8.\<close>

function cut_to_valid :: "string \<Rightarrow> string" where
  "cut_to_valid text = (if utf8_valid text then text else cut_to_valid (butlast text))"
  by pat_completeness auto
termination
proof (relation "measure length")
  fix body assume "\<not> utf8_valid body"
  then have "body \<noteq> []" by (auto simp: utf8_valid.simps)
  then show "(butlast body, body) \<in> measure length" by simp
qed simp

declare cut_to_valid.simps [simp del]

definition seal_text :: "string \<Rightarrow> string" where
  "seal_text text = (if 256 * 1024 < length text then cut_to_valid (take (256 * 1024) text) else text)"

definition SealResult :: "int \<Rightarrow> string \<Rightarrow> string \<Rightarrow> string \<Rightarrow> dispatch_store \<Rightarrow> dispatch_store" where
  "SealResult now session request text s =
     s\<lparr>ds_rows := map (\<lambda>w. if d_SessionID (dr_payload w) = session \<and> d_RequestID (dr_payload w) = request
                           then w\<lparr>dr_payload := (dr_payload w)\<lparr>d_Result := seal_text text, d_UpdatedAt := now\<rparr>\<rparr> else w)
                      (ds_rows s)\<rparr>"

definition List_dispatches :: "string \<Rightarrow> dispatch_store \<Rightarrow> DispatchRecord list" where
  "List_dispatches parent s =
     take 100 (map dr_payload (rev (filter (\<lambda>w. dr_parent w = parent) (ds_rows s))))"

definition Pending_dispatches :: "dispatch_store \<Rightarrow> DispatchRecord list" where
  "Pending_dispatches s =
     take 200 (sort_key d_UpdatedAt (map dr_payload
       (filter (\<lambda>w. dr_state w \<in> pending_states \<or> d_DeliveryState (dr_payload w) \<in> {''pending'', ''queued''}) (ds_rows s))))"

definition HasTargetReceipt :: "string \<Rightarrow> string \<Rightarrow> string \<Rightarrow> dispatch_store \<Rightarrow> bool" where
  "HasTargetReceipt instance_id session request s \<longleftrightarrow>
     (\<exists>w\<in>set (ds_rows s). d_InstanceID (dr_payload w) = instance_id \<and> d_SessionID (dr_payload w) = session
        \<and> d_RequestID (dr_payload w) = request)"

text \<open>An execution identifier that is empty is absent from the payload and matches nothing.\<close>

definition ByExecution :: "string \<Rightarrow> string \<Rightarrow> dispatch_store \<Rightarrow> dispatch_error + DispatchRecord option" where
  "ByExecution session request s =
     (case filter (\<lambda>w. d_SessionID (dr_payload w) = session
                     \<and> (d_RequestID (dr_payload w) = request
                        \<or> d_ExecutionRequestID (dr_payload w) \<noteq> [] \<and> d_ExecutionRequestID (dr_payload w) = request)) (ds_rows s) of
        [] \<Rightarrow> Inr None
      | [w] \<Rightarrow> Inr (Some (dr_payload w))
      | _ \<Rightarrow> Inl AmbiguousExecution)"

section \<open>Admission through the task interface\<close>

text \<open>
  The claim of the intent, the receipt and its change are one transaction: an error at any point undoes
  all of it.
\<close>

definition CreateAPI ::
  "int \<Rightarrow> AuthorizedCommand \<Rightarrow> IntentRecord \<Rightarrow> DispatchRecord \<Rightarrow> dispatch_store
   \<Rightarrow> (dispatch_error + IntentRecord \<times> bool) \<times> dispatch_store" where
  "CreateAPI now c intent r s =
     (case ClaimTx now c intent (ds_journal s) of
        (Inl e, _) \<Rightarrow> (Inl (DispatchApi e), s)
      | (Inr (previous, False), _) \<Rightarrow> (Inr (previous, False), s)
      | (Inr (claimed, True), j) \<Rightarrow>
          if 8 \<le> pending_count (d_ParentID r) s
          then (Inl (DispatchApi (Api (Failure_of ''busy'' ''known_none'' ''wait''))), s)
          else let r' = r\<lparr>d_CreatedAt := now, d_UpdatedAt := now, d_State := ''prepared'', d_DeliveryState := ''pending''\<rparr> in
               if row_conflict r' s then (Inl (DispatchApi SqlError), s)
               else (Inr (claimed, True),
                     s\<lparr>ds_rows := ds_rows s @ [dispatch_row_of r'],
                       ds_journal := ChangeTx now (d_SessionID r) (d_RequestID r) ''admission'' j\<rparr>))"

end
