(* ===== verification/Dispatch_Properties.thy ===== *)
theory Dispatch_Properties
  imports Session_Dispatch
begin

text \<open>
  What the dispatch receipts promise over any history: an instruction has one receipt, its outcome is
  final and its result is not lost to an older report, a controller has at most eight instructions that
  are not settled, and an admission through the task interface is atomic.
\<close>

section \<open>Histories\<close>

text \<open>
  \<open>P\<close> restricts the states that are written and \<open>Q\<close> the results that are sealed; the caller of the
  store decides both.
\<close>

inductive dispatch_step :: "(string \<Rightarrow> bool) \<Rightarrow> (string \<Rightarrow> bool) \<Rightarrow> dispatch_store \<Rightarrow> dispatch_store \<Rightarrow> bool" for P Q where
  st_grant: "dispatch_step P Q s (snd (SetGrant parent g expected s))"
| st_create: "d_State r = [] \<or> P (d_State r) \<Longrightarrow> dispatch_step P Q s (snd (Create_dispatch now r s))"
| st_put: "P (d_State r) \<Longrightarrow> dispatch_step P Q s (Put now r s)"
| st_seal: "Q (seal_text txt) \<Longrightarrow> dispatch_step P Q s (SealResult now session request txt s)"
| st_api: "dispatch_step P Q s (snd (CreateAPI now c intent r s))"
| st_journal: "journal_op (ds_journal s) j \<Longrightarrow> dispatch_step P Q s (s\<lparr>ds_journal := j\<rparr>)"

definition row_origin :: "dispatch_row \<Rightarrow> string \<times> string \<times> string" where
  "row_origin w = (dr_parent w, dr_origin w, dr_call w)"

definition row_ok :: "dispatch_row \<Rightarrow> bool" where
  "row_ok w \<longleftrightarrow>
     d_ID (dr_payload w) = dr_id w \<and> d_ParentID (dr_payload w) = dr_parent w
     \<and> d_IntentHash (dr_payload w) = dr_hash w \<and> d_State (dr_payload w) = dr_state w"

definition dispatch_inv :: "dispatch_store \<Rightarrow> bool" where
  "dispatch_inv s \<longleftrightarrow>
     distinct (map dr_id (ds_rows s)) \<and> distinct (map row_origin (ds_rows s)) \<and> (\<forall>w\<in>set (ds_rows s). row_ok w)"

text \<open>How a row may change in one step.\<close>

definition row_evolves :: "(string \<Rightarrow> bool) \<Rightarrow> (string \<Rightarrow> bool) \<Rightarrow> dispatch_row \<Rightarrow> dispatch_row \<Rightarrow> bool" where
  "row_evolves P Q w w' \<longleftrightarrow>
     dr_id w' = dr_id w \<and> row_origin w' = row_origin w \<and> dr_hash w' = dr_hash w
     \<and> (dr_state w \<in> terminal_states \<longrightarrow> dr_state w' = dr_state w)
     \<and> (dr_state w' = dr_state w \<or> P (dr_state w'))
     \<and> (d_TerminalAt (dr_payload w) \<noteq> 0 \<longrightarrow> d_TerminalAt (dr_payload w') = d_TerminalAt (dr_payload w))
     \<and> (d_Result (dr_payload w) \<noteq> [] \<longrightarrow> d_Result (dr_payload w') \<noteq> [] \<or> Q [])
     \<and> (row_ok w \<longrightarrow> row_ok w')"

definition fresh_row :: "dispatch_store \<Rightarrow> dispatch_row \<Rightarrow> bool" where
  "fresh_row s w \<longleftrightarrow>
     dr_id w \<notin> dr_id ` set (ds_rows s) \<and> row_origin w \<notin> row_origin ` set (ds_rows s)
     \<and> row_ok w \<and> pending_count (dr_parent w) s < 8"

definition table_change :: "(string \<Rightarrow> bool) \<Rightarrow> (string \<Rightarrow> bool) \<Rightarrow> dispatch_store \<Rightarrow> dispatch_store \<Rightarrow> bool" where
  "table_change P Q s s' \<longleftrightarrow>
     (\<exists>f. ds_rows s' = map f (ds_rows s) \<and> (\<forall>w. row_evolves P Q w (f w)))
     \<or> (\<exists>w. ds_rows s' = ds_rows s @ [w] \<and> fresh_row s w \<and> (P (dr_state w) \<or> dr_state w = ''prepared''))"

section \<open>Every step is such a change\<close>

lemma row_evolves_refl [simp]: "row_evolves P Q w w"
  by (simp add: row_evolves_def)

lemma mapped_rows:
  "ds_rows s' = map f (ds_rows s) \<Longrightarrow> (\<And>w. row_evolves P Q w (f w)) \<Longrightarrow> table_change P Q s s'"
  unfolding table_change_def by blast

lemma same_rows: "ds_rows s' = ds_rows s \<Longrightarrow> table_change P Q s s'"
  by (rule mapped_rows [of _ "\<lambda>w. w"]) simp_all

lemma added_row:
  "ds_rows s' = ds_rows s @ [w] \<Longrightarrow> fresh_row s w \<Longrightarrow> P (dr_state w) \<or> dr_state w = ''prepared'' \<Longrightarrow> table_change P Q s s'"
  unfolding table_change_def by blast

lemma put_evolves:
  assumes "P (d_State r)" and "Put_matches r w"
  shows "row_evolves P Q w (w\<lparr>dr_state := d_State r, dr_payload := Put_payload r (dr_payload w)\<rparr>)"
  using assms by (auto simp: row_evolves_def row_origin_def row_ok_def Put_matches_def Put_payload_def Let_def)

lemma put_change:
  assumes "P (d_State r)"
  shows "table_change P Q s (Put now r s)"
proof -
  define r2 where "r2 = (if d_State r \<in> terminal_states \<and> d_TerminalAt r = 0
      then r\<lparr>d_UpdatedAt := now, d_TerminalAt := now\<rparr> else r\<lparr>d_UpdatedAt := now\<rparr>)"
  have p: "P (d_State r2)" using assms by (simp add: r2_def)
  have "ds_rows (Put now r s) = map (\<lambda>w. if Put_matches r2 w
      then w\<lparr>dr_state := d_State r2, dr_payload := Put_payload r2 (dr_payload w)\<rparr> else w) (ds_rows s)"
    by (simp add: Put_def Let_def r2_def)
  then show ?thesis by (rule mapped_rows) (simp add: put_evolves p)
qed

lemma seal_change:
  assumes "Q (seal_text txt)"
  shows "table_change P Q s (SealResult now session request txt s)"
proof -
  let ?f = "\<lambda>w. if d_SessionID (dr_payload w) = session \<and> d_RequestID (dr_payload w) = request
      then w\<lparr>dr_payload := (dr_payload w)\<lparr>d_Result := seal_text txt, d_UpdatedAt := now\<rparr>\<rparr> else w"
  have "ds_rows (SealResult now session request txt s) = map ?f (ds_rows s)" by (simp add: SealResult_def)
  then show ?thesis
    by (rule mapped_rows) (use assms in \<open>auto simp: row_evolves_def row_origin_def row_ok_def\<close>)
qed

lemma new_row_fresh:
  assumes "\<not> row_conflict r s" and "pending_count (d_ParentID r) s < 8"
  shows "fresh_row s (dispatch_row_of r)"
  using assms by (fastforce simp: fresh_row_def row_conflict_def dispatch_row_of_def row_origin_def row_ok_def)

lemma create_result:
  assumes "snd (Create_dispatch now r s) \<noteq> s \<or> fst (Create_dispatch now r s) = Inr True"
  defines "r' \<equiv> r\<lparr>d_CreatedAt := now, d_UpdatedAt := now,
                   d_State := (if d_State r = [] then ''prepared'' else d_State r),
                   d_DeliveryState := (if d_DeliveryState r = [] then ''pending'' else d_DeliveryState r)\<rparr>"
  shows "Create_dispatch now r s = (Inr True, s\<lparr>ds_rows := ds_rows s @ [dispatch_row_of r']\<rparr>)" "fresh_row s (dispatch_row_of r')"
proof -
  from assms show "Create_dispatch now r s = (Inr True, s\<lparr>ds_rows := ds_rows s @ [dispatch_row_of r']\<rparr>)"
    unfolding Create_dispatch_def Let_def by (auto split: if_splits)
  from assms have "\<not> row_conflict r' s" "pending_count (d_ParentID r') s < 8"
    unfolding Create_dispatch_def Let_def by (auto split: if_splits)
  then show "fresh_row s (dispatch_row_of r')" by (rule new_row_fresh)
qed

lemma create_change:
  assumes "d_State r = [] \<or> P (d_State r)"
  shows "table_change P Q s (snd (Create_dispatch now r s))"
proof (cases "snd (Create_dispatch now r s) = s")
  case False
  then have ne: "snd (Create_dispatch now r s) \<noteq> s \<or> fst (Create_dispatch now r s) = Inr True" by blast
  show ?thesis
    by (rule added_row [OF _ create_result(2) [OF ne]]) (use create_result(1) [OF ne] assms in \<open>auto simp: dispatch_row_of_def\<close>)
qed (simp add: same_rows)

lemma api_result:
  assumes "snd (CreateAPI now c intent r s) \<noteq> s \<or> fst (CreateAPI now c intent r s) = Inr (claimed, True)"
  defines "r' \<equiv> r\<lparr>d_CreatedAt := now, d_UpdatedAt := now, d_State := ''prepared'', d_DeliveryState := ''pending''\<rparr>"
  obtains intent' j where "ClaimTx now c intent (ds_journal s) = (Inr (intent', True), j)"
    "CreateAPI now c intent r s =
       (Inr (intent', True), s\<lparr>ds_rows := ds_rows s @ [dispatch_row_of r'],
          ds_journal := ChangeTx now (d_SessionID r) (d_RequestID r) ''admission'' j\<rparr>)"
    "fresh_row s (dispatch_row_of r')"
proof -
  obtain intent' j where c: "ClaimTx now c intent (ds_journal s) = (Inr (intent', True), j)"
    using assms(1) unfolding CreateAPI_def by (auto split: prod.splits sum.splits bool.splits)
  then have guard: "pending_count (d_ParentID r) s < 8" "\<not> row_conflict r' s"
    using assms unfolding CreateAPI_def by (auto split: if_splits simp: Let_def)
  have "fresh_row s (dispatch_row_of r')" by (rule new_row_fresh) (use guard r'_def in auto)
  moreover have "CreateAPI now c intent r s =
       (Inr (intent', True), s\<lparr>ds_rows := ds_rows s @ [dispatch_row_of r'],
          ds_journal := ChangeTx now (d_SessionID r) (d_RequestID r) ''admission'' j\<rparr>)"
    using c guard unfolding CreateAPI_def r'_def by (simp add: Let_def)
  ultimately show ?thesis using c that by blast
qed

lemma api_change: "table_change P Q s (snd (CreateAPI now c intent r s))"
proof (cases "snd (CreateAPI now c intent r s) = s")
  case False
  then obtain w where "ds_rows (snd (CreateAPI now c intent r s)) = ds_rows s @ [w]" "fresh_row s w" "dr_state w = ''prepared''"
    by (rule_tac api_result [of now c intent r s]) (auto simp: dispatch_row_of_def)
  then show ?thesis unfolding table_change_def by blast
qed (simp add: same_rows)

lemma step_change: "dispatch_step P Q s s' \<Longrightarrow> table_change P Q s s'"
proof (induction rule: dispatch_step.induct)
  case (st_grant s parent g expected)
  show ?case by (rule same_rows) (simp add: SetGrant_def Let_def)
qed (simp_all add: put_change seal_change create_change api_change same_rows)


section \<open>Invariants\<close>

lemma row_evolves_trans: "row_evolves P Q u v \<Longrightarrow> row_evolves P Q v w \<Longrightarrow> row_evolves P Q u w"
  unfolding row_evolves_def by (elim conjE, intro conjI) metis+

lemma inv_change_table: "table_change P Q s s' \<Longrightarrow> dispatch_inv s \<Longrightarrow> dispatch_inv s'"
proof -
  assume "table_change P Q s s'" and inv: "dispatch_inv s"
  then consider (mapped) f where "ds_rows s' = map f (ds_rows s)" "\<And>w. row_evolves P Q w (f w)"
    | (added) w where "ds_rows s' = ds_rows s @ [w]" "fresh_row s w" unfolding table_change_def by blast
  then show "dispatch_inv s'"
  proof cases
    case mapped
    then have "dr_id \<circ> f = dr_id" "row_origin \<circ> f = row_origin" "\<And>w. row_ok w \<Longrightarrow> row_ok (f w)"
      by (auto simp: fun_eq_iff row_evolves_def)
    with inv mapped(1) show ?thesis by (auto simp: dispatch_inv_def)
  next
    case added
    with inv show ?thesis by (auto simp: dispatch_inv_def fresh_row_def)
  qed
qed

lemma dispatch_inv_empty: "dispatch_inv empty_dispatches"
  by (simp add: dispatch_inv_def empty_dispatches_def)

interpretation dispatch_sys: step_system "\<lambda>s. s = empty_dispatches" "dispatch_step P Q" dispatch_inv for P Q
  by unfold_locales (auto simp: dispatch_inv_empty dest: step_change inv_change_table)

text \<open>The limit holds when only the states of the protocol are written.\<close>

definition protocol_state :: "string \<Rightarrow> bool" where
  "protocol_state st \<longleftrightarrow> st \<in> terminal_states \<union> pending_states"

definition limit_inv :: "dispatch_store \<Rightarrow> bool" where
  "limit_inv s \<longleftrightarrow> (\<forall>w\<in>set (ds_rows s). protocol_state (dr_state w)) \<and> (\<forall>p. pending_count p s \<le> 8)"

lemma filter_map_le: "(\<And>x. R (f x) \<Longrightarrow> x \<in> set xs \<Longrightarrow> R x) \<Longrightarrow> length (filter R (map f xs)) \<le> length (filter R xs)"
  by (induction xs) (auto simp: le_SucI)

lemma terminal_not_pending: "st \<in> pending_states \<Longrightarrow> st \<notin> terminal_states"
  by (auto simp: pending_states_def terminal_states_def)

lemma limit_change: "table_change protocol_state Q s s' \<Longrightarrow> limit_inv s \<Longrightarrow> limit_inv s'"
proof -
  assume "table_change protocol_state Q s s'" and inv: "limit_inv s"
  then consider (mapped) f where "ds_rows s' = map f (ds_rows s)" "\<And>w. row_evolves protocol_state Q w (f w)"
    | (added) w where "ds_rows s' = ds_rows s @ [w]" "fresh_row s w" "protocol_state (dr_state w) \<or> dr_state w = ''prepared''"
    unfolding table_change_def by blast
  then show "limit_inv s'"
  proof cases
    case mapped
    have pending_before: "dr_parent w = p \<and> dr_state w \<in> pending_states"
      if "dr_parent (f w) = p \<and> dr_state (f w) \<in> pending_states" "w \<in> set (ds_rows s)" for w p
    proof -
      have "row_evolves protocol_state Q w (f w)" by (rule mapped(2))
      then have "dr_parent w = p" "dr_state w \<in> terminal_states \<longrightarrow> dr_state (f w) = dr_state w"
        using that(1) by (auto simp: row_evolves_def row_origin_def)
      moreover have "protocol_state (dr_state w)" using inv that(2) by (simp add: limit_inv_def)
      ultimately show ?thesis using that(1) terminal_not_pending by (auto simp: protocol_state_def)
    qed
    have "pending_count p s' \<le> pending_count p s" for p
      unfolding pending_count_def mapped(1) by (rule filter_map_le) (rule pending_before)
    moreover have "protocol_state (dr_state (f w))" if "w \<in> set (ds_rows s)" for w
      using mapped(2) [of w] inv that by (auto simp: row_evolves_def limit_inv_def)
    ultimately show ?thesis using inv mapped(1) by (fastforce simp: limit_inv_def intro: order_trans)
  next
    case added
    have "pending_count p s' \<le> 8" for p
      using added(1,2) inv by (auto simp: pending_count_def fresh_row_def limit_inv_def)
    then show ?thesis
      using added inv by (auto simp: limit_inv_def protocol_state_def pending_states_def)
  qed
qed

interpretation limit_sys: step_system "\<lambda>s. s = empty_dispatches" "dispatch_step protocol_state Q" limit_inv for Q
  by unfold_locales
    (simp add: limit_inv_def empty_dispatches_def pending_count_def, meson step_change limit_change)


section \<open>A receipt over a history\<close>

lemma change_row: "table_change P Q s s' \<Longrightarrow> w \<in> set (ds_rows s) \<Longrightarrow> \<exists>w'\<in>set (ds_rows s'). row_evolves P Q w w'"
  unfolding table_change_def by fastforce

lemma row_run:
  "(dispatch_step P Q)\<^sup>*\<^sup>* s s' \<Longrightarrow> w \<in> set (ds_rows s) \<Longrightarrow> \<exists>w'\<in>set (ds_rows s'). row_evolves P Q w w'"
proof (induction rule: rtranclp_induct)
  case base
  then show ?case using row_evolves_refl by blast
next
  case (step t u)
  then obtain v where "v \<in> set (ds_rows t)" "row_evolves P Q w v" by blast
  with change_row [OF step_change [OF step(2)]] row_evolves_trans show ?case by blast
qed

lemma find_unique: "distinct (map f xs) \<Longrightarrow> x \<in> set xs \<Longrightarrow> find (\<lambda>y. f y = f x) xs = Some x"
  by (induction xs) (auto simp: image_iff)

lemma get_row: "dispatch_inv s \<Longrightarrow> w \<in> set (ds_rows s) \<Longrightarrow> dispatch_Get (dr_id w) s = Some (dr_payload w)"
  by (simp add: dispatch_Get_def dispatch_inv_def find_unique)

lemma origin_row: "dispatch_inv s \<Longrightarrow> w \<in> set (ds_rows s) \<Longrightarrow> row_by_origin (dr_parent w) (dr_origin w) (dr_call w) s = Some w"
  using find_unique [of row_origin "ds_rows s" w] by (simp add: row_by_origin_def dispatch_inv_def row_origin_def)

lemma one_row: "distinct (map f xs) \<Longrightarrow> x \<in> set xs \<Longrightarrow> length (filter (\<lambda>y. f y = f x) xs) = 1"
  by (induction xs) (auto simp: filter_empty_conv image_iff)

lemma got_row: "dispatch_Get did s = Some r \<Longrightarrow> \<exists>w\<in>set (ds_rows s). dr_id w = did \<and> dr_payload w = r"
  by (auto simp: dispatch_Get_def find_Some_iff)

lemma created_row:
  assumes "Create_dispatch now r s = (Inr True, s1)"
  shows "\<exists>w\<in>set (ds_rows s1). dr_id w = d_ID r \<and> row_origin w = (d_ParentID r, d_OriginRequestID r, d_ToolCallID r)
           \<and> dr_hash w = d_IntentHash r"
proof -
  have made: "snd (Create_dispatch now r s) \<noteq> s \<or> fst (Create_dispatch now r s) = Inr True" using assms by simp
  note c = create_result(1) [OF made]
  have "s1 = snd (Create_dispatch now r s)" using assms by simp
  also note c
  finally show ?thesis by (simp add: dispatch_row_of_def row_origin_def)
qed

lemma claimed_intent:
  assumes "ClaimTx now c intent j0 = (Inr (claimed, True), j)"
  shows "find_intent (ac_Key c) j = Some claimed" "OutboxState (ac_Key c) j = Some ''prepared''"
    "i_Hash claimed = ac_IntentHash c" "i_Metadata claimed = i_Metadata intent"
proof -
  from assms have none: "find_intent (ac_Key c) j0 = None" "map_of (tj_outbox j0) (ac_Key c) = None"
    by (auto simp: ClaimTx_def Let_def simp del: not_None_eq split: option.splits if_splits)
  with assms have j: "j = ChangeTx now (i_SessionID claimed) (i_RequestID claimed) ''intent_prepared''
      (j0\<lparr>tj_intents := tj_intents j0 @ [claimed], tj_outbox := tj_outbox j0 @ [(ac_Key c, ''prepared'', now)]\<rparr>)"
    and c: "claimed = intent\<lparr>i_Key := ac_Key c, i_Hash := ac_IntentHash c, i_ScopeID := ac_ScopeID c,
                     i_Generation := ac_Generation c, i_Path := ac_Path c, i_CreatedAt := now\<rparr>"
    by (auto simp: ClaimTx_def Let_def split: if_splits)
  show "i_Hash claimed = ac_IntentHash c" "i_Metadata claimed = i_Metadata intent" by (simp_all add: c)
  show "OutboxState (ac_Key c) j = Some ''prepared''"
    using none(2) by (simp add: j OutboxState_def ChangeTx_def Let_def map_add_def)
  have "find (\<lambda>r. i_Key r = ac_Key c) (xs @ [claimed]) = Some claimed"
    if "find (\<lambda>r. i_Key r = ac_Key c) xs = None" for xs
    using that by (induction xs) (auto simp: c split: if_splits)
  then show "find_intent (ac_Key c) j = Some claimed"
    using none(1) by (simp add: j find_intent_def ChangeTx_def Let_def)
qed

lemma cut_to_valid_longest:
  "prefix (cut_to_valid t) t \<and> utf8_valid (cut_to_valid t)
   \<and> (\<forall>p. prefix p t \<and> utf8_valid p \<longrightarrow> length p \<le> length (cut_to_valid t))"
proof (induction t rule: cut_to_valid.induct)
  case (1 t)
  show ?case
  proof (cases "utf8_valid t")
    case True
    then show ?thesis by (simp add: cut_to_valid.simps [of t] prefix_length_le)
  next
    case False
    have "prefix p (butlast t)" if "prefix p t" "utf8_valid p" for p
      using that False by (metis append_butlast_last_id append_Nil2 butlast.simps(1) prefix_Nil prefix_snoc)
    with 1 [OF False] show ?thesis
      unfolding cut_to_valid.simps [of t] using False
      by (auto intro: prefix_order.trans prefixeq_butlast)
  qed
qed

section \<open>Guarantees\<close>


text \<open>
  An instruction is dispatched once. After a dispatch was created, in any later state its tool call finds
  exactly this receipt, and creating a dispatch for the same call, with whatever content, changes nothing
  and says so.
\<close>

theorem dispatch_is_created_once:
  assumes "(dispatch_step P Q)\<^sup>*\<^sup>* empty_dispatches s" and "Create_dispatch now r s = (Inr True, s1)"
    and "(dispatch_step P Q)\<^sup>*\<^sup>* s1 s'" and "d_State r = [] \<or> P (d_State r)"
  shows "(\<exists>r'. ByOrigin (d_ParentID r) (d_OriginRequestID r) (d_ToolCallID r) s' = Some r'
              \<and> d_ID r' = d_ID r \<and> d_IntentHash r' = d_IntentHash r)
      \<and> length (filter (\<lambda>w. row_origin w = (d_ParentID r, d_OriginRequestID r, d_ToolCallID r)) (ds_rows s')) = 1
      \<and> (\<forall>r2. d_ParentID r2 = d_ParentID r \<and> d_OriginRequestID r2 = d_OriginRequestID r \<and> d_ToolCallID r2 = d_ToolCallID r
              \<and> d_ID r2 \<noteq> [] \<and> d_RequestID r2 \<noteq> [] \<and> d_IntentHash r2 \<noteq> []
              \<longrightarrow> Create_dispatch now2 r2 s' = (Inr False, s'))"
proof -
  let ?k = "(d_ParentID r, d_OriginRequestID r, d_ToolCallID r)"
  obtain w where w: "w \<in> set (ds_rows s1)" "dr_id w = d_ID r" "row_origin w = ?k" "dr_hash w = d_IntentHash r"
    using created_row [OF assms(2)] by blast
  have "dispatch_step P Q s s1" using st_create [of r P Q s now] assms(2,4) by simp
  with assms(1,3) have "(dispatch_step P Q)\<^sup>*\<^sup>* empty_dispatches s'" by (meson rtranclp.rtrancl_into_rtrancl rtranclp_trans)
  then have inv: "dispatch_inv s'" using dispatch_sys.reachable_good by blast
  obtain w' where w': "w' \<in> set (ds_rows s')" "row_evolves P Q w w'" using row_run [OF assms(3) w(1)] by blast
  then have e: "dr_id w' = d_ID r" "row_origin w' = ?k" "dr_hash w' = d_IntentHash r" using w by (simp_all add: row_evolves_def)
  then have o: "row_by_origin (d_ParentID r) (d_OriginRequestID r) (d_ToolCallID r) s' = Some w'"
    using origin_row [OF inv w'(1)] by (simp add: row_origin_def)
  have ok: "row_ok w'" using inv w'(1) by (simp add: dispatch_inv_def)
  have "length (filter (\<lambda>v. row_origin v = row_origin w') (ds_rows s')) = 1"
    using inv w'(1) by (intro one_row) (simp_all add: dispatch_inv_def)
  moreover have "ByOrigin (d_ParentID r) (d_OriginRequestID r) (d_ToolCallID r) s' = Some (dr_payload w')"
    using o get_row [OF inv w'(1)] by (simp add: ByOrigin_def)
  moreover have "Create_dispatch now2 r2 s' = (Inr False, s')"
    if "d_ParentID r2 = d_ParentID r" "d_OriginRequestID r2 = d_OriginRequestID r" "d_ToolCallID r2 = d_ToolCallID r"
      "d_ID r2 \<noteq> []" "d_RequestID r2 \<noteq> []" "d_IntentHash r2 \<noteq> []" for r2
    using that o assms(2) unfolding Create_dispatch_def by (auto simp: Let_def split: if_splits)
  ultimately show ?thesis using e ok by (simp add: row_ok_def)
qed

text \<open>
  A controller never has more than eight unsettled dispatches, whichever way they were admitted, as long
  as only the states of the protocol are written.
\<close>

theorem dispatches_are_limited:
  assumes "(dispatch_step protocol_state Q)\<^sup>*\<^sup>* empty_dispatches s"
  shows "pending_count parent s \<le> 8"
  using limit_sys.reachable_good [OF _ assms] by (simp add: limit_inv_def)


text \<open>
  An admission through the task interface is atomic: it either creates the intent, its outbox row and the
  receipt together, or changes nothing. The same command sent again gets the original intent and
  dispatches nothing.
\<close>

theorem api_dispatch_is_atomic:
  "(case CreateAPI now c intent r s of
      (Inr (claimed, True), s') \<Rightarrow>
        find_intent (ac_Key c) (ds_journal s') = Some claimed
        \<and> OutboxState (ac_Key c) (ds_journal s') = Some ''prepared''
        \<and> (\<exists>w. ds_rows s' = ds_rows s @ [w] \<and> dr_id w = d_ID r \<and> dr_state w = ''prepared'')
        \<and> (i_Metadata intent \<noteq> None \<longrightarrow> CreateAPI now2 c intent2 r2 s' = (Inr (claimed, False), s'))
    | (_, s') \<Rightarrow> s' = s)"
proof (cases "snd (CreateAPI now c intent r s) = s \<and> (\<forall>x. fst (CreateAPI now c intent r s) \<noteq> Inr (x, True))")
  case True
  then show ?thesis by (auto split: prod.splits sum.splits bool.splits)
next
  case False
  then obtain x where "snd (CreateAPI now c intent r s) \<noteq> s \<or> fst (CreateAPI now c intent r s) = Inr (x, True)" by blast
  then obtain claimed j where claim: "ClaimTx now c intent (ds_journal s) = (Inr (claimed, True), j)"
    and api: "CreateAPI now c intent r s =
       (Inr (claimed, True), s\<lparr>ds_rows := ds_rows s @ [dispatch_row_of (r\<lparr>d_CreatedAt := now, d_UpdatedAt := now,
            d_State := ''prepared'', d_DeliveryState := ''pending''\<rparr>)],
          ds_journal := ChangeTx now (d_SessionID r) (d_RequestID r) ''admission'' j\<rparr>)"
    by (rule api_result)
  have kept: "find_intent k (ChangeTx now a b x j) = find_intent k j" "OutboxState k (ChangeTx now a b x j) = OutboxState k j"
    for a b x k by (simp_all add: find_intent_def OutboxState_def ChangeTx_def Let_def)
  have found: "find_intent (ac_Key c) j = Some claimed" "OutboxState (ac_Key c) j = Some ''prepared''"
    "i_Hash claimed = ac_IntentHash c" "i_Metadata claimed = i_Metadata intent"
    using claim by (rule claimed_intent)+
  have "ClaimTx now2 c intent2 (ChangeTx now a b x j) = (Inr (claimed, False), ChangeTx now a b x j)"
    if "i_Metadata intent \<noteq> None" for a b x
    using found that by (simp add: ClaimTx_def kept Expired_def)
  then show ?thesis using found by (simp add: api kept dispatch_row_of_def CreateAPI_def [of now2])
qed

text \<open>
  A sealed result is the longest part of the text that is valid UTF-8 and fits, when it is too long, and
  the text itself otherwise.
\<close>

theorem sealed_text_is_longest:
  "length (seal_text t) \<le> 256 * 1024 \<and> prefix (seal_text t) t
   \<and> (length t \<le> 256 * 1024 \<longrightarrow> seal_text t = t)
   \<and> (256 * 1024 < length t \<longrightarrow> utf8_valid (seal_text t)
       \<and> (\<forall>p. prefix p t \<and> utf8_valid p \<and> length p \<le> 256 * 1024 \<longrightarrow> length p \<le> length (seal_text t)))"
proof -
  have cut: "prefix (cut_to_valid t) t \<and> utf8_valid (cut_to_valid t)
      \<and> (\<forall>p. prefix p t \<and> utf8_valid p \<longrightarrow> length p \<le> length (cut_to_valid t))" for t
    by (rule cut_to_valid_longest)
  let ?u = "take (256 * 1024) t"
  have "prefix p ?u" if "prefix p t" "length p \<le> 256 * 1024" for p
    using that by (metis prefix_length_prefix take_is_prefix length_take min.boundedI prefix_length_le)
  moreover have "length (cut_to_valid ?u) \<le> 256 * 1024"
    using cut [of ?u] prefix_length_le by fastforce
  ultimately show ?thesis
    using cut [of ?u] unfolding seal_text_def by (auto intro: prefix_order.trans take_is_prefix)
qed


section \<open>A concrete dispatch\<close>

text \<open>A dispatch is created, completes with a result, and then an older report arrives.\<close>

definition demo_dispatch :: DispatchRecord where
  "demo_dispatch =
     \<lparr>d_ParentExecutionRequestID = ''turn'', d_ParentConfigRevision = 1, d_ParentConfigKnown = True, d_ParentThreadID = ''th'',
      d_ID = ''job'', d_ParentID = ''parent'', d_OriginRequestID = ''turn'', d_TurnID = ''t'', d_ToolCallID = ''call'',
      d_VoiceID = [], d_InstanceID = ''local'', d_SessionID = ''target'', d_ThreadID = ''th2'', d_ConfigRevision = 1,
      d_RequestID = ''request'', d_ExecutionRequestID = [], d_ExecutionTurnID = [], d_Mode = ''queue'', d_Content = ''do'',
      d_IntentHash = ''hash'', d_State = ''prepared'', d_Error = [], d_Result = [], d_DeliveryState = [],
      d_DeliveryError = [], d_CreatedAt = 0, d_UpdatedAt = 0, d_TerminalAt = 0\<rparr>"

definition demo_created :: dispatch_store where
  "demo_created = snd (Create_dispatch 5 demo_dispatch empty_dispatches)"

definition demo_completed :: dispatch_store where
  "demo_completed = Put 9 (demo_dispatch\<lparr>d_State := ''completed'', d_Result := ''final''\<rparr>) demo_created"

lemmas demo_eval = demo_created_def demo_completed_def demo_dispatch_def Create_dispatch_def Put_def Put_matches_def
  Put_payload_def dispatch_row_of_def row_by_origin_def row_conflict_def pending_count_def empty_dispatches_def Let_def
  terminal_states_def pending_states_def dispatch_Get_def ByOrigin_def

lemma demo_states:
  "d_State demo_dispatch = [] \<or> protocol_state (d_State demo_dispatch)"
  "protocol_state (d_State (demo_dispatch\<lparr>d_State := ''completed'', d_Result := ''final''\<rparr>))"
  "protocol_state (d_State (demo_dispatch\<lparr>d_State := ''running''\<rparr>))"
  by (simp_all add: demo_dispatch_def protocol_state_def terminal_states_def pending_states_def)

lemma demo_steps:
  "dispatch_step protocol_state Q empty_dispatches demo_created"
  "dispatch_step protocol_state Q demo_created demo_completed"
  "dispatch_step protocol_state Q demo_completed (Put 12 (demo_dispatch\<lparr>d_State := ''running''\<rparr>) demo_completed)"
  unfolding demo_created_def demo_completed_def
  by (rule st_create, rule demo_states, rule st_put, rule demo_states, rule st_put, rule demo_states)

lemma demo_runs:
  "(dispatch_step protocol_state Q)\<^sup>*\<^sup>* empty_dispatches demo_created"
  "(dispatch_step protocol_state Q)\<^sup>*\<^sup>* empty_dispatches demo_completed"
  "(dispatch_step protocol_state Q)\<^sup>*\<^sup>* demo_created demo_completed"
  "(dispatch_step protocol_state Q)\<^sup>*\<^sup>* demo_completed (Put 12 (demo_dispatch\<lparr>d_State := ''running''\<rparr>) demo_completed)"
  by (meson demo_steps(1,2) r_into_rtranclp rtranclp_trans)+ (rule r_into_rtranclp, rule demo_steps)


theorem dispatch_is_created_once_witness:
  "\<exists>r'. ByOrigin ''parent'' ''turn'' ''call'' demo_completed = Some r' \<and> d_ID r' = ''job''
     \<and> Create_dispatch 20 (demo_dispatch\<lparr>d_ID := ''other''\<rparr>) demo_completed = (Inr False, demo_completed)"
proof -
  have made: "Create_dispatch 5 demo_dispatch empty_dispatches = (Inr True, demo_created)" by (simp add: demo_eval)
  from dispatch_is_created_once [OF rtranclp.rtrancl_refl made demo_runs(3) demo_states(1), of 20] show ?thesis
    by (auto simp: demo_dispatch_def)
qed

theorem dispatches_are_limited_witness: "pending_count ''parent'' demo_created \<le> 8 \<and> pending_count ''parent'' demo_created = 1"
  using dispatches_are_limited [OF demo_runs(1), of "''parent''"] by (simp add: demo_eval)

theorem api_dispatch_is_atomic_witness:
  "\<exists>claimed s'. CreateAPI 7 \<lparr>ac_Key = ''k'', ac_IntentHash = ''h'', ac_ScopeID = ''s'', ac_Generation = 1, ac_Path = ''p'', ac_Operation = ''o''\<rparr>
      \<lparr>i_Key = [], i_Hash = [], i_ReceiptID = ''rc'', i_TaskID = ''t'', i_NativeID = ''n'', i_SessionID = ''target'', i_RequestID = ''request'',
       i_ScopeID = [], i_Generation = 0, i_Path = [], i_Metadata = Some ''m'', i_CreatedAt = 0\<rparr> demo_dispatch empty_dispatches
     = (Inr (claimed, True), s') \<and> OutboxState ''k'' (ds_journal s') = Some ''prepared''"
proof -
  let ?c = "\<lparr>ac_Key = ''k'', ac_IntentHash = ''h'', ac_ScopeID = ''s'', ac_Generation = 1, ac_Path = ''p'', ac_Operation = ''o''\<rparr>"
  let ?i = "\<lparr>i_Key = [], i_Hash = [], i_ReceiptID = ''rc'', i_TaskID = ''t'', i_NativeID = ''n'', i_SessionID = ''target'', i_RequestID = ''request'',
       i_ScopeID = [], i_Generation = 0, i_Path = [], i_Metadata = Some ''m'', i_CreatedAt = 0\<rparr>"
  obtain claimed s' where e: "CreateAPI 7 ?c ?i demo_dispatch empty_dispatches = (Inr (claimed, True), s')"
    by (simp add: CreateAPI_def ClaimTx_def find_intent_def empty_task_journal_def demo_eval)
  from api_dispatch_is_atomic [where now = 7 and c = ?c and intent = ?i and r = demo_dispatch and s = empty_dispatches] e show ?thesis by simp
qed

end
