(* ===== verification/Task_Callbacks.thy ===== *)
theory Task_Callbacks
  imports Bridge_Prelude "HOL-Library.Char_ord" "HOL-Library.List_Lexorder"
begin

text \<open>
  Task report calls (\<^verbatim>\<open>internal/callbacks\<close>): a device asks to be called when a task has a
  result; the sealed report becomes an invitation, which the device presents, claims and answers. The
  mutations the hub runs in the store (\<^verbatim>\<open>internal/core/task_callback.go\<close>,
  \<^verbatim>\<open>task_callback_voice.go\<close>) are modelled in \<open>Callback_Mutations\<close>.

  The three tables are lists and maps; one \<open>Mutate\<close> is one transaction under the mutex of the store. The
  SHA-256 digests of an identifier and of a delivery are the fields of \<open>cb_hash\<close>. The record that comes
  back beside an error is left out. Display texts are their UTF-8 bytes.
\<close>

section \<open>Records\<close>

record Recipient =
  rp_Device :: string
  rp_Binding :: string
  rp_Name :: string
  rp_Inventory :: string

record Report =
  rt_ExecutionRequest :: string
  rt_SourceKind :: string
  rt_SourceID :: string
  rt_SourceRevision :: u64
  rt_ID :: string
  rt_Hash :: string
  rt_Text :: string
  rt_Status :: string
  rt_At :: int
  rt_Thread :: string
  rt_Turn :: string

record Invitation =
  iv_ClaimedAt :: int
  iv_Manual :: bool
  iv_AudioObserved :: bool
  iv_ContentVerified :: bool
  iv_ContentMismatch :: bool
  iv_ID :: string
  iv_Generation :: u64
  iv_State :: string
  iv_Issued :: int
  iv_Expires :: int
  iv_Claim :: string
  iv_Voice :: string
  iv_ReportOperation :: string
  iv_Reason :: string
  iv_PresentedAt :: int

record CallbackRecord =
  cb_RequesterBinding :: string
  cb_ID :: string
  cb_Revision :: u64
  cb_Authority :: string
  cb_Session :: string
  cb_Request :: string
  cb_Name :: string
  cb_Thread :: string
  cb_Epoch :: string
  cb_Config :: u64
  cb_Origin :: string
  cb_Requester :: string
  cb_Recipient :: Recipient
  cb_Enabled :: bool
  cb_Failures :: bool
  cb_State :: string
  cb_Report :: "Report option"
  cb_Invite :: "Invitation option"
  cb_Updated :: int

definition no_recipient :: Recipient where
  "no_recipient = \<lparr>rp_Device = [], rp_Binding = [], rp_Name = [], rp_Inventory = []\<rparr>"

definition no_callback :: CallbackRecord where
  "no_callback =
     \<lparr>cb_RequesterBinding = [], cb_ID = [], cb_Revision = 0, cb_Authority = [], cb_Session = [], cb_Request = [],
      cb_Name = [], cb_Thread = [], cb_Epoch = [], cb_Config = 0, cb_Origin = [], cb_Requester = [],
      cb_Recipient = no_recipient, cb_Enabled = False, cb_Failures = False, cb_State = [], cb_Report = None,
      cb_Invite = None, cb_Updated = 0\<rparr>"

datatype cb_error =
    CbConflict | CbOperation | CbUnavailable | InvalidPage | TaskNotFound | NotAnInstruction | ChildTask
  | SourceChanged | ThreadChanged | AlreadyAnswered | ResultNotReady | SourceStale | SourceBusy | CallExpired
  | VoiceUnverified | ReportAlreadyRequested | ResultChanged | UnsupportedAction | ClaimRevoked
  | ConfigurationChanged | NilInvitation

record callback_row =
  cw_id :: string
  cw_session :: string
  cw_request :: string
  cw_record :: CallbackRecord

record callback_store =
  cs_rows :: "callback_row list"
  cs_operations :: "string \<rightharpoonup> string \<times> CallbackRecord"
  cs_history :: "string \<rightharpoonup> string"

definition empty_callbacks :: callback_store where
  "empty_callbacks = \<lparr>cs_rows = [], cs_operations = Map.empty, cs_history = Map.empty\<rparr>"

definition AnyRevision :: u64 where
  "AnyRevision = 2 ^ 64 - 1"

text \<open>
  A record on disk carries both bindings beside it. A record without the requester's binding is one that
  was written before the field existed; its requester is taken to be the recipient when both are the same
  device.
\<close>

definition decode_callback :: "CallbackRecord \<Rightarrow> CallbackRecord" where
  "decode_callback d =
     (if cb_RequesterBinding d = [] \<and> cb_Requester d = rp_Device (cb_Recipient d)
      then d\<lparr>cb_RequesterBinding := rp_Binding (cb_Recipient d)\<rparr> else d)"

section \<open>Invitations\<close>

definition Terminal_invitation :: "string \<Rightarrow> bool" where
  "Terminal_invitation st \<longleftrightarrow>
     st \<in> {''declined'', ''missed'', ''expired'', ''revoked'', ''ended'', ''failed'', ''busy_deferred'', ''unsupported''}"

record delivery =
  dl_Authority :: string
  dl_Session :: string
  dl_Epoch :: string
  dl_Config :: u64
  dl_Thread :: string
  dl_Execution :: string
  dl_Turn :: string
  dl_Hash :: string
  dl_SourceKind :: string
  dl_SourceID :: string
  dl_SourceRevision :: u64
  dl_Device :: string
  dl_Binding :: string

record cb_hash =
  hash_id :: "string list \<Rightarrow> string"
  hash_delivery :: "delivery \<Rightarrow> string"

definition NewInvitation :: "cb_hash \<Rightarrow> int \<Rightarrow> string \<Rightarrow> CallbackRecord \<Rightarrow> CallbackRecord" where
  "NewInvitation h now operation r =
     (let g = (case cb_Invite r of None \<Rightarrow> 1 | Some i \<Rightarrow> u64_succ (iv_Generation i)) in
      r\<lparr>cb_Invite := Some \<lparr>iv_ClaimedAt = 0, iv_Manual = False, iv_AudioObserved = False, iv_ContentVerified = False,
          iv_ContentMismatch = False, iv_ID = hash_id h [cb_ID r, operation], iv_Generation = g,
          iv_State = ''delivery_pending'', iv_Issued = now, iv_Expires = now + 60000, iv_Claim = [], iv_Voice = [],
          iv_ReportOperation = [], iv_Reason = [], iv_PresentedAt = 0\<rparr>,
        cb_State := ''invitation_pending''\<rparr>)"

definition Claim_invitation ::
  "string \<Rightarrow> string \<Rightarrow> string \<Rightarrow> string \<Rightarrow> int \<Rightarrow> CallbackRecord \<Rightarrow> cb_error + CallbackRecord" where
  "Claim_invitation device binding invitation operation now r =
     (case (cb_Invite r, cb_Report r) of
        (Some i, Some _) \<Rightarrow>
          if \<not> cb_Enabled r \<or> rp_Device (cb_Recipient r) \<noteq> device \<or> rp_Binding (cb_Recipient r) \<noteq> binding
             \<or> iv_ID i \<noteq> invitation then Inl CbUnavailable
          else if iv_State i \<noteq> ''delivery_pending'' \<and> iv_State i \<noteq> ''ringing'' then Inl CbUnavailable
          else if iv_Expires i \<le> now \<or> Terminal_invitation (iv_State i) \<or> iv_Claim i \<noteq> [] then Inl CbUnavailable
          else Inr (r\<lparr>cb_Invite := Some (i\<lparr>iv_Claim := operation, iv_ClaimedAt := now, iv_State := ''claimed''\<rparr>),
                      cb_State := ''connecting''\<rparr>)
      | _ \<Rightarrow> Inl CbUnavailable)"

definition reported_states :: "string set" where
  "reported_states =
     {''connected'', ''report_requested'', ''report_started'', ''report_dispatched'', ''report_audio_observed'',
      ''report_finished'', ''report_text_verified'', ''report_output_unverified'', ''report_delivery_unknown'',
      ''report_delivery_mismatch''}"

definition Cancel_callback :: "CallbackRecord \<Rightarrow> CallbackRecord" where
  "Cancel_callback r =
     r\<lparr>cb_Enabled := False, cb_State := ''disabled'',
       cb_Invite := map_option (\<lambda>i. if iv_State i \<in> reported_states then i else i\<lparr>iv_State := ''revoked''\<rparr>) (cb_Invite r)\<rparr>"

section \<open>Delivery groups\<close>

definition reason_attempted :: string where
  "reason_attempted = utf8 [230, 173, 164, 231, 181, 144, 230, 158, 156, 229, 183, 178, 231, 153, 188, 229, 135,
     186, 229, 140, 175, 229, 160, 177, 239, 188, 140, 232, 171, 139, 230, 152, 142, 231, 162, 186, 233, 129,
     184, 230, 147, 135, 231, 143, 190, 229, 156, 168, 228, 190, 134, 233, 155, 187, 229, 140, 175, 229, 160,
     177, 230, 137, 141, 233, 135, 141, 230, 146, 173]"

definition reason_grouped :: string where
  "reason_grouped = utf8 [230, 173, 164, 229, 159, 183, 232, 161, 140, 231, 154, 132, 229, 140, 175, 229, 160,
     177, 229, 183, 178, 229, 144, 136, 228, 189, 181, 239, 188, 140, 229, 144, 140, 228, 184, 128, 232, 163,
     157, 231, 189, 174, 228, 184, 141, 233, 135, 141, 232, 164, 135, 228, 190, 134, 233, 155, 187]"

definition reason_no_notifications :: string where
  "reason_no_notifications = utf8 [230, 137, 139, 230, 169, 159, 233, 128, 154, 231, 159, 165, 230, 156, 170,
     233, 150, 139, 229, 149, 159, 239, 188, 140, 232, 171, 139, 229, 156, 168, 231, 179, 187, 231, 181, 177,
     232, 168, 173, 229, 174, 154, 229, 133, 129, 232, 168, 177, 228, 187, 187, 229, 139, 153, 229, 140, 175,
     229, 160, 177, 228, 190, 134, 233, 155, 187]"

definition reason_source_changed :: string where
  "reason_source_changed = utf8 [228, 190, 134, 230, 186, 144, 230, 136, 150, 230, 142, 165, 230, 148, 182, 232,
     163, 157, 231, 189, 174, 229, 183, 178, 232, 174, 138, 230, 155, 180, 239, 188, 140, 232, 171, 139, 233,
     135, 141, 230, 150, 176, 232, 168, 173, 229, 174, 154, 229, 140, 175, 229, 160, 177]"

definition reason_mismatch :: string where
  "reason_mismatch = utf8 [232, 170, 158, 233, 159, 179, 229, 133, 167, 229, 174, 185, 232, 136, 135, 229, 176,
     129, 229, 173, 152, 231, 181, 144, 230, 158, 156, 228, 184, 141, 231, 172, 166, 239, 188, 140, 232, 171,
     139, 228, 187, 165, 230, 150, 135, 229, 173, 151, 229, 160, 177, 229, 145, 138, 231, 130, 186, 230, 186,
     150, 239, 188, 155, 228, 184, 141, 230, 156, 131, 232, 135, 170, 229, 139, 149, 233, 135, 141, 230, 146,
     173]"

definition reason_readback :: string where
  "reason_readback = utf8 [232, 170, 158, 233, 159, 179, 229, 133, 167, 229, 174, 185, 230, 156, 170, 229, 174,
     140, 229, 133, 168, 230, 160, 184, 229, 176, 141, 239, 188, 140, 232, 171, 139, 228, 187, 165, 230, 150,
     135, 229, 173, 151, 231, 181, 144, 230, 158, 156, 231, 130, 186, 230, 186, 150, 239, 188, 155, 228, 184,
     141, 230, 156, 131, 232, 135, 170, 229, 139, 149, 233, 135, 141, 230, 146, 173]"

definition delivery_of :: "CallbackRecord \<Rightarrow> Report \<Rightarrow> delivery" where
  "delivery_of r p =
     \<lparr>dl_Authority = cb_Authority r, dl_Session = cb_Session r, dl_Epoch = cb_Epoch r, dl_Config = cb_Config r,
      dl_Thread = cb_Thread r, dl_Execution = (if rt_ExecutionRequest p = [] then cb_Request r else rt_ExecutionRequest p),
      dl_Turn = rt_Turn p, dl_Hash = rt_Hash p, dl_SourceKind = rt_SourceKind p, dl_SourceID = rt_SourceID p,
      dl_SourceRevision = rt_SourceRevision p, dl_Device = rp_Device (cb_Recipient r), dl_Binding = rp_Binding (cb_Recipient r)\<rparr>"

definition deliveryKey :: "cb_hash \<Rightarrow> CallbackRecord \<Rightarrow> string" where
  "deliveryKey h r = (case cb_Report r of None \<Rightarrow> [] | Some p \<Rightarrow> hash_delivery h (delivery_of r p))"

definition SameDelivery :: "cb_hash \<Rightarrow> CallbackRecord \<Rightarrow> CallbackRecord \<Rightarrow> bool" where
  "SameDelivery h a b \<longleftrightarrow> cb_Report a \<noteq> None \<and> cb_Report b \<noteq> None \<and> deliveryKey h a = deliveryKey h b"

definition attempt_evidence :: "Invitation \<Rightarrow> bool" where
  "attempt_evidence i \<longleftrightarrow> 0 < iv_PresentedAt i \<or> iv_Claim i \<noteq> [] \<or> iv_State i = ''declined''"

definition HoldsDelivery :: "CallbackRecord \<Rightarrow> bool" where
  "HoldsDelivery r =
     (case cb_Invite r of
        None \<Rightarrow> False
      | Some i \<Rightarrow> iv_State i \<noteq> ''group_waiting''
                  \<and> (attempt_evidence i \<or> cb_Enabled r \<and> \<not> Terminal_invitation (iv_State i)))"

definition GroupBlocked :: "cb_hash \<Rightarrow> CallbackRecord \<Rightarrow> CallbackRecord list \<Rightarrow> bool" where
  "GroupBlocked h r peers \<longleftrightarrow> (\<exists>p\<in>set peers. cb_ID p \<noteq> cb_ID r \<and> SameDelivery h r p \<and> HoldsDelivery p)"

definition group_waiting :: "string \<Rightarrow> CallbackRecord \<Rightarrow> CallbackRecord" where
  "group_waiting reason r =
     r\<lparr>cb_Invite := map_option (\<lambda>i. i\<lparr>iv_State := ''group_waiting'', iv_Reason := reason\<rparr>) (cb_Invite r),
       cb_State := ''report_grouped''\<rparr>"

definition groupAutomaticInvitation ::
  "cb_hash \<Rightarrow> callback_store \<Rightarrow> CallbackRecord \<Rightarrow> CallbackRecord \<times> (string \<rightharpoonup> string)" where
  "groupAutomaticInvitation h s r =
     (case (cb_Invite r, cb_Report r) of
        (Some i, Some _) \<Rightarrow>
          (let key = deliveryKey h r;
               history = (if attempt_evidence i \<and> cs_history s key = None then (cs_history s)(key \<mapsto> iv_ID i) else cs_history s)
           in if iv_Manual i \<or> iv_State i \<noteq> ''delivery_pending'' \<or> \<not> cb_Enabled r then (r, history)
              else if history key \<noteq> None then (group_waiting reason_attempted r, history)
              else if \<exists>w\<in>set (cs_rows s). cw_session w = cb_Session r \<and> cw_id w \<noteq> cb_ID r
                        \<and> SameDelivery h r (decode_callback (cw_record w)) \<and> HoldsDelivery (decode_callback (cw_record w))
              then (group_waiting reason_grouped r, history)
              else (r, history))
      | _ \<Rightarrow> (r, cs_history s))"

definition DeliveryAttempted :: "cb_hash \<Rightarrow> CallbackRecord \<Rightarrow> callback_store \<Rightarrow> bool" where
  "DeliveryAttempted h r s \<longleftrightarrow> cs_history s (deliveryKey h r) \<noteq> None"

section \<open>The store\<close>

definition Operation_of :: "string \<Rightarrow> callback_store \<Rightarrow> (CallbackRecord \<times> string) option" where
  "Operation_of op s = map_option (\<lambda>(fp, b). (decode_callback b, fp)) (cs_operations s op)"

definition callback_Get :: "string \<Rightarrow> callback_store \<Rightarrow> CallbackRecord option" where
  "callback_Get cid s = map_option (\<lambda>w. decode_callback (cw_record w)) (find (\<lambda>w. cw_id w = cid) (cs_rows s))"

definition List_callbacks :: "callback_store \<Rightarrow> CallbackRecord list" where
  "List_callbacks s = map (\<lambda>w. decode_callback (cw_record w)) (sort_key cw_id (cs_rows s))"

text \<open>One page holds the active invitations after a cursor, without the reports; the cursor of the next page is the last identifier.\<close>

definition active_row :: "string \<Rightarrow> string \<Rightarrow> int \<Rightarrow> callback_row \<Rightarrow> bool" where
  "active_row device binding now w \<longleftrightarrow>
     (let r = cw_record w in
      cb_Enabled r \<and> rp_Device (cb_Recipient r) = device \<and> rp_Binding (cb_Recipient r) = binding
      \<and> (case cb_Invite r of
            None \<Rightarrow> False
          | Some i \<Rightarrow> iv_State i \<in> {''delivery_pending'', ''ringing''} \<and> now < iv_Expires i))"

definition without_report :: "CallbackRecord \<Rightarrow> CallbackRecord" where
  "without_report r = r\<lparr>cb_Report := None\<rparr>"

definition ActiveInvitationPage ::
  "string \<Rightarrow> string \<Rightarrow> string \<Rightarrow> int \<Rightarrow> int \<Rightarrow> callback_store \<Rightarrow> cb_error + CallbackRecord list \<times> string" where
  "ActiveInvitationPage device binding after limit now s =
     (if device = [] \<or> binding = [] \<or> 200 < length after \<or> limit < 1 \<or> 64 < limit then Inl InvalidPage
      else let rows = take (nat (limit + 1))
                        (sort_key cw_id (filter (\<lambda>w. after < cw_id w \<and> active_row device binding now w) (cs_rows s)));
               out = map (\<lambda>w. decode_callback (without_report (cw_record w))) (take (nat limit) rows)
           in if nat limit < length rows then Inr (out, cb_ID (last out)) else Inr (out, []))"

type_synonym cb_fn = "CallbackRecord \<Rightarrow> bool \<Rightarrow> cb_error + CallbackRecord"

definition put_row :: "string \<Rightarrow> CallbackRecord \<Rightarrow> callback_row list \<Rightarrow> callback_row list" where
  "put_row cid r rows =
     (if \<exists>w\<in>set rows. cw_id w = cid then map (\<lambda>w. if cw_id w = cid then w\<lparr>cw_record := r\<rparr> else w) rows
      else rows @ [\<lparr>cw_id = cid, cw_session = cb_Session r, cw_request = cb_Request r, cw_record = r\<rparr>])"

definition Mutate ::
  "cb_hash \<Rightarrow> int \<Rightarrow> string \<Rightarrow> string \<Rightarrow> string \<Rightarrow> u64 \<Rightarrow> cb_fn \<Rightarrow> callback_store
   \<Rightarrow> (cb_error + CallbackRecord) \<times> callback_store" where
  "Mutate h now op fingerprint cid expected f s =
     (case cs_operations s op of
        Some (oldFP, b) \<Rightarrow> (if oldFP \<noteq> fingerprint then Inl CbOperation else Inr (decode_callback b), s)
      | None \<Rightarrow>
          let exists = callback_Get cid s \<noteq> None;
              r0 = (case callback_Get cid s of None \<Rightarrow> no_callback | Some r \<Rightarrow> r) in
          if expected \<noteq> AnyRevision \<and> cb_Revision r0 \<noteq> expected then (Inl CbConflict, s)
          else case f r0 exists of
            Inl e \<Rightarrow> (Inl e, s)
          | Inr r1 \<Rightarrow>
              let (r2, history) = groupAutomaticInvitation h s (r1\<lparr>cb_ID := cid\<rparr>);
                  r3 = r2\<lparr>cb_Revision := u64_succ (cb_Revision r2), cb_Updated := now\<rparr>
              in (Inr r3, \<lparr>cs_rows = put_row cid r3 (cs_rows s), cs_operations = (cs_operations s)(op \<mapsto> (fingerprint, r3)),
                           cs_history = history\<rparr>))"

end
