(* ===== verification/Callback_Mutations.thy ===== *)
theory Callback_Mutations
  imports Task_Callbacks
begin

text \<open>
  The mutations that the hub runs in the callback store (\<^verbatim>\<open>internal/core/task_callback.go\<close>,
  \<^verbatim>\<open>task_callback_voice.go\<close>), each as the function it passes to \<open>Mutate\<close>, and the step relation
  they generate. What a mutation reads outside of the record (the session, the device that asks, the
  clock, the task behind a request) is an argument.
\<close>

section \<open>The client's actions\<close>

record callbackInput =
  in_Operation :: string
  in_Action :: string
  in_Enabled :: bool
  in_Failures :: bool
  in_Invitation :: string
  in_Voice :: string
  in_Request :: string

text \<open>
  \<open>ce_task\<close> is what the task behind the request says: not found, or whether it is a work item, the
  purpose of its message, whether it has an origin, and the device that owns it.
\<close>

record cb_env =
  ce_now :: int
  ce_authority :: string
  ce_session :: string
  ce_epoch :: string
  ce_resume :: string
  ce_config :: u64
  ce_name :: string
  ce_quiet :: bool
  ce_owner :: string
  ce_binding :: string
  ce_target :: Recipient
  ce_task :: "(bool \<times> string \<times> bool \<times> string) option"
  ce_current :: "CallbackRecord \<Rightarrow> bool"
  ce_voice_owned :: bool

definition new_callback :: "cb_env \<Rightarrow> callbackInput \<Rightarrow> cb_error + CallbackRecord" where
  "new_callback e x =
     (case ce_task e of
        None \<Rightarrow> Inl TaskNotFound
      | Some (workFound, purpose, has_origin, ownerDevice) \<Rightarrow>
          if \<not> workFound \<and> purpose \<noteq> ''instruction'' then Inl NotAnInstruction
          else if has_origin then Inl ChildTask
          else Inr (no_callback\<lparr>cb_Authority := ce_authority e, cb_Session := ce_session e, cb_Request := in_Request x,
                     cb_Epoch := ce_epoch e, cb_Thread := ce_resume e, cb_Config := ce_config e, cb_Origin := ownerDevice,
                     cb_Name := ce_name e, cb_State := ''disabled''\<rparr>))"

definition arm_callback :: "cb_hash \<Rightarrow> cb_env \<Rightarrow> callbackInput \<Rightarrow> CallbackRecord \<Rightarrow> CallbackRecord" where
  "arm_callback h e x r =
     (let r1 = r\<lparr>cb_Invite := map_option (\<lambda>i. if Terminal_invitation (iv_State i) then i else i\<lparr>iv_State := ''revoked''\<rparr>) (cb_Invite r),
                 cb_Enabled := True, cb_Thread := ce_resume e, cb_Config := ce_config e, cb_Failures := in_Failures x,
                 cb_Requester := ce_owner e, cb_RequesterBinding := ce_binding e, cb_Recipient := ce_target e,
                 cb_State := ''armed''\<rparr>
      in if cb_Report r1 = None then r1
         else let r2 = NewInvitation h (ce_now e) (in_Operation x) r1
              in r2\<lparr>cb_Invite := map_option (\<lambda>i. i\<lparr>iv_Manual := (in_Action x = ''request_now'')\<rparr>) (cb_Invite r2)\<rparr>)"

definition answered :: "CallbackRecord \<Rightarrow> bool" where
  "answered r \<longleftrightarrow> (case cb_Invite r of None \<Rightarrow> False | Some i \<Rightarrow> iv_Claim i \<noteq> [] \<and> \<not> Terminal_invitation (iv_State i))"

definition set_callback :: "cb_hash \<Rightarrow> cb_env \<Rightarrow> callbackInput \<Rightarrow> CallbackRecord \<Rightarrow> cb_error + CallbackRecord" where
  "set_callback h e x r =
     (let asks = in_Action x = ''request_now'' \<or> in_Enabled x in
      if asks \<and> cb_Thread r \<noteq> [] \<and> cb_Thread r \<noteq> ce_resume e then Inl ThreadChanged
      else if asks \<and> answered r then Inl AlreadyAnswered
      else if in_Action x = ''set'' \<and> \<not> in_Enabled x then Inr (Cancel_callback r)
      else if in_Action x = ''request_now'' \<and> cb_Report r = None then Inl ResultNotReady
      else if in_Action x = ''request_now'' \<and> \<not> ce_current e r then Inl SourceStale
      else Inr (arm_callback h e x r))"

definition claim_callback :: "cb_env \<Rightarrow> callbackInput \<Rightarrow> CallbackRecord \<Rightarrow> cb_error + CallbackRecord" where
  "claim_callback e x r =
     (if \<not> ce_current e r then Inl SourceStale
      else if ce_resume e \<noteq> cb_Thread r \<or> ce_config e \<noteq> cb_Config r \<or> \<not> ce_quiet e then Inl SourceBusy
      else Claim_invitation (ce_owner e) (ce_binding e) (in_Invitation x) (in_Operation x) (ce_now e) r)"

text \<open>What the device reports before it has answered.\<close>

definition ring_action :: "cb_env \<Rightarrow> string \<Rightarrow> CallbackRecord \<Rightarrow> Invitation \<Rightarrow> cb_error + CallbackRecord" where
  "ring_action e action r i =
     (if iv_Claim i \<noteq> [] then Inl CbUnavailable
      else if action = ''presented''
      then Inr (r\<lparr>cb_Invite := Some (i\<lparr>iv_State := ''ringing'', iv_PresentedAt := ce_now e\<rparr>)\<rparr>)
      else Inr (r\<lparr>cb_Invite := Some (if action = ''decline'' then i\<lparr>iv_State := ''declined''\<rparr>
                    else if action = ''missed'' then i\<lparr>iv_State := ''missed''\<rparr>
                    else if action = ''unavailable'' then i\<lparr>iv_State := ''failed'', iv_Reason := reason_no_notifications\<rparr>
                    else i\<lparr>iv_State := ''busy_deferred''\<rparr>),
                  cb_State := ''report_pending''\<rparr>))"

text \<open>What it reports during the call.\<close>

definition audio_action :: "CallbackRecord \<Rightarrow> Invitation \<Rightarrow> CallbackRecord" where
  "audio_action r i =
     (let j = i\<lparr>iv_AudioObserved := True\<rparr>;
          r1 = (if iv_ContentVerified j
                then r\<lparr>cb_Invite := Some (j\<lparr>iv_State := ''report_audio_observed''\<rparr>), cb_State := ''report_audio_observed''\<rparr>
                else if cb_State r \<noteq> ''report_delivery_mismatch''
                then r\<lparr>cb_Invite := Some (j\<lparr>iv_State := ''report_output_unverified''\<rparr>), cb_State := ''report_output_unverified''\<rparr>
                else r\<lparr>cb_Invite := Some j\<rparr>)
      in if cb_Enabled r1 then r1 else r1\<lparr>cb_State := ''disabled''\<rparr>)"

definition voice_action :: "cb_env \<Rightarrow> callbackInput \<Rightarrow> CallbackRecord \<Rightarrow> Invitation \<Rightarrow> cb_error + CallbackRecord" where
  "voice_action e x r i0 =
     (if \<not> ce_voice_owned e \<or> iv_Claim i0 = [] then Inl VoiceUnverified
      else if iv_Voice i0 \<noteq> [] \<and> iv_Voice i0 \<noteq> in_Voice x then Inl CbUnavailable
      else
        let i = i0\<lparr>iv_Voice := in_Voice x\<rparr>; a = in_Action x in
        if a = ''connected'' then Inr (r\<lparr>cb_Invite := Some (i\<lparr>iv_State := ''connected''\<rparr>), cb_State := ''connected''\<rparr>)
        else if a = ''report'' then
          (if iv_ReportOperation i \<noteq> [] then Inl ReportAlreadyRequested
           else case cb_Report r of
               None \<Rightarrow> Inl ResultChanged
             | Some p \<Rightarrow> if rt_Thread p \<noteq> ce_resume e then Inl ResultChanged
                 else Inr (r\<lparr>cb_Invite := Some (i\<lparr>iv_ReportOperation := in_Operation x, iv_State := ''report_requested''\<rparr>),
                             cb_State := ''report_requested''\<rparr>))
        else if a = ''audio_observed'' then
          (if iv_ReportOperation i = [] then Inl CbUnavailable else Inr (audio_action r i))
        else if a = ''report_finished'' then
          (if iv_ReportOperation i = [] \<or> \<not> iv_ContentVerified i \<or> \<not> iv_AudioObserved i then Inl CbUnavailable
           else Inr (r\<lparr>cb_Invite := Some (i\<lparr>iv_State := ''report_finished''\<rparr>), cb_State := ''report_finished''\<rparr>))
        else Inr (r\<lparr>cb_Invite := Some (i\<lparr>iv_State := ''ended''\<rparr>), cb_State := ''report_pending''\<rparr>))"

definition ring_actions :: "string set" where
  "ring_actions = {''presented'', ''decline'', ''missed'', ''busy'', ''unavailable''}"

definition voice_actions :: "string set" where
  "voice_actions = {''connected'', ''report'', ''report_finished'', ''audio_observed'', ''ended''}"

definition device_action :: "cb_env \<Rightarrow> callbackInput \<Rightarrow> CallbackRecord \<Rightarrow> cb_error + CallbackRecord" where
  "device_action e x r =
     (case cb_Invite r of
        None \<Rightarrow> Inl CbUnavailable
      | Some i \<Rightarrow>
          if rp_Device (cb_Recipient r) \<noteq> ce_owner e \<or> rp_Binding (cb_Recipient r) \<noteq> ce_binding e \<or> iv_ID i \<noteq> in_Invitation x
          then Inl CbUnavailable
          else if Terminal_invitation (iv_State i) then Inl CbUnavailable
          else if iv_Expires i \<le> ce_now e \<and> iv_Claim i = [] then Inl CallExpired
          else if in_Action x \<in> ring_actions then ring_action e (in_Action x) r i
          else voice_action e x r i)"

definition client_fn :: "cb_hash \<Rightarrow> cb_env \<Rightarrow> callbackInput \<Rightarrow> cb_fn" where
  "client_fn h e x r0 exists =
     (case (if exists then Inr r0 else new_callback e x) of
        Inl err \<Rightarrow> Inl err
      | Inr r \<Rightarrow>
          if cb_Session r \<noteq> ce_session e \<or> cb_Epoch r \<noteq> ce_epoch e then Inl SourceChanged
          else if in_Action x \<in> {''set'', ''request_now''} then set_callback h e x r
          else if in_Action x = ''cancel'' then Inr (Cancel_callback r)
          else if in_Action x = ''claim'' then claim_callback e x r
          else if in_Action x \<in> ring_actions \<union> voice_actions then device_action e x r
          else Inl UnsupportedAction)"

definition free_revision_actions :: "string set" where
  "free_revision_actions = {''claim''} \<union> ring_actions \<union> voice_actions"

section \<open>The hub's own mutations\<close>

text \<open>Sealing the report of a finished task; \<open>work\<close> is the work item behind it.\<close>

definition seal_fn ::
  "cb_hash \<Rightarrow> cb_env \<Rightarrow> string \<Rightarrow> string \<Rightarrow> string \<Rightarrow> string \<Rightarrow> string \<Rightarrow> (string \<times> u64) option \<Rightarrow> cb_fn" where
  "seal_fn h e executionRequest turn hash txt status work r exists =
     (if \<not> cb_Enabled r \<or> cb_Report r \<noteq> None then Inl CbUnavailable
      else if cb_Thread r \<noteq> [] \<and> cb_Thread r \<noteq> ce_resume e then Inl ThreadChanged
      else if cb_Config r \<noteq> ce_config e then Inl ConfigurationChanged
      else
        let p = \<lparr>rt_ExecutionRequest = executionRequest,
                 rt_SourceKind = (if work = None then [] else ''workitem''),
                 rt_SourceID = (case work of None \<Rightarrow> [] | Some (item, _) \<Rightarrow> item),
                 rt_SourceRevision = (case work of None \<Rightarrow> 0 | Some (_, n) \<Rightarrow> n),
                 rt_ID = hash_id h [cb_ID r, turn, hash], rt_Hash = hash, rt_Text = txt, rt_Status = status,
                 rt_At = ce_now e, rt_Thread = ce_resume e, rt_Turn = turn\<rparr>
        in Inr (NewInvitation h (ce_now e) (''sealed_'' @ hash) (r\<lparr>cb_Thread := ce_resume e, cb_Report := Some p\<rparr>)))"

definition promote_fn :: "string \<Rightarrow> int \<Rightarrow> cb_fn" where
  "promote_fn invitation now r exists =
     (case cb_Invite r of
        None \<Rightarrow> Inl CbUnavailable
      | Some i \<Rightarrow>
          if \<not> cb_Enabled r \<or> iv_ID i \<noteq> invitation \<or> iv_State i \<noteq> ''group_waiting'' then Inl CbUnavailable
          else Inr (r\<lparr>cb_Invite := Some (i\<lparr>iv_State := ''delivery_pending'', iv_Reason := [], iv_Expires := now + 60000\<rparr>),
                      cb_State := ''invitation_pending''\<rparr>))"

text \<open>Go panics on the missing invitation; the revision the hub passes rules this out.\<close>

definition expire_fn :: cb_fn where
  "expire_fn r exists =
     (case cb_Invite r of
        None \<Rightarrow> Inl NilInvitation
      | Some i \<Rightarrow> Inr (r\<lparr>cb_Invite := Some (i\<lparr>iv_State := ''expired''\<rparr>), cb_State := ''report_pending''\<rparr>))"

definition revoke_fn :: "string \<Rightarrow> cb_fn" where
  "revoke_fn invitation r exists =
     (case cb_Invite r of
        None \<Rightarrow> Inl CbUnavailable
      | Some i \<Rightarrow>
          if iv_ID i \<noteq> invitation \<or> iv_Claim i \<noteq> [] then Inl CbUnavailable
          else Inr (r\<lparr>cb_Invite := Some (i\<lparr>iv_State := ''revoked'', iv_Reason := reason_source_changed\<rparr>),
                      cb_State := ''report_pending''\<rparr>))"

definition admit_fn :: "cb_env \<Rightarrow> string \<Rightarrow> string \<Rightarrow> cb_fn" where
  "admit_fn e request ownerDevice r exists =
     Inr (no_callback\<lparr>cb_Authority := ce_authority e, cb_Session := ce_session e, cb_Request := request, cb_Epoch := ce_epoch e,
            cb_Thread := ce_resume e, cb_Config := ce_config e, cb_Origin := ownerDevice, cb_Requester := ce_owner e,
            cb_RequesterBinding := ce_binding e, cb_Recipient := ce_target e, cb_Name := ce_name e, cb_Enabled := True,
            cb_State := ''armed''\<rparr>)"

definition bind_fn :: "cb_env \<Rightarrow> string \<Rightarrow> string \<Rightarrow> string \<Rightarrow> cb_fn" where
  "bind_fn e invitation claim voice r exists =
     (case cb_Invite r of
        None \<Rightarrow> Inl ClaimRevoked
      | Some i \<Rightarrow>
          if \<not> exists \<or> \<not> cb_Enabled r \<or> iv_State i \<noteq> ''claimed'' \<or> iv_ID i \<noteq> invitation \<or> iv_Claim i \<noteq> claim
             \<or> rp_Device (cb_Recipient r) \<noteq> ce_owner e \<or> rp_Binding (cb_Recipient r) \<noteq> ce_binding e
             \<or> cb_Session r \<noteq> ce_session e \<or> cb_Epoch r \<noteq> ce_epoch e \<or> cb_Thread r \<noteq> ce_resume e \<or> cb_Config r \<noteq> ce_config e
             \<or> \<not> ce_quiet e
          then Inl ClaimRevoked
          else Inr (r\<lparr>cb_Invite := Some (i\<lparr>iv_Voice := voice, iv_State := ''connecting''\<rparr>), cb_State := ''connecting''\<rparr>))"

definition speech_fn :: "string \<Rightarrow> string \<Rightarrow> bool \<Rightarrow> cb_fn" where
  "speech_fn invitation operation failed r exists =
     (case cb_Invite r of
        None \<Rightarrow> Inl CbUnavailable
      | Some i \<Rightarrow>
          if iv_ID i \<noteq> invitation \<or> iv_ReportOperation i \<noteq> operation \<or> Terminal_invitation (iv_State i) then Inl CbUnavailable
          else if \<not> iv_ContentVerified i \<and> \<not> iv_AudioObserved i \<and> cb_State r \<noteq> ''report_delivery_mismatch''
          then (let st = (if failed then ''report_delivery_unknown'' else ''report_dispatched'')
                in Inr (r\<lparr>cb_Invite := Some (i\<lparr>iv_State := st\<rparr>), cb_State := st\<rparr>))
          else Inr r)"

text \<open>The verdict on what was spoken, from the live transcript or from reading it back.\<close>

definition verdict :: "bool \<Rightarrow> string \<Rightarrow> CallbackRecord \<Rightarrow> Invitation \<Rightarrow> CallbackRecord" where
  "verdict verified reason r i =
     (let st = (if verified then (if iv_AudioObserved i then ''report_audio_observed'' else ''report_text_verified'')
                else ''report_delivery_mismatch'');
          i1 = i\<lparr>iv_ContentVerified := verified, iv_ContentMismatch := \<not> verified,
                 iv_Reason := (if verified then iv_Reason i else reason)\<rparr>;
          i2 = (if Terminal_invitation (iv_State i1) then i1 else i1\<lparr>iv_State := st\<rparr>)
      in r\<lparr>cb_Invite := Some i2, cb_State := (if cb_Enabled r then st else ''disabled'')\<rparr>)"

definition transcript_fn :: "string \<Rightarrow> string \<Rightarrow> bool \<Rightarrow> cb_fn" where
  "transcript_fn invitation voice verified r exists =
     (case cb_Invite r of
        None \<Rightarrow> Inl CbUnavailable
      | Some i \<Rightarrow>
          if iv_ID i \<noteq> invitation \<or> iv_Voice i \<noteq> voice \<or> iv_ContentVerified i \<or> iv_ContentMismatch i then Inl CbUnavailable
          else Inr (verdict verified reason_mismatch r i))"

definition readback_fn :: "string \<Rightarrow> string \<Rightarrow> string \<Rightarrow> bool \<Rightarrow> cb_fn" where
  "readback_fn invitation voice hash verified r exists =
     (case (cb_Invite r, cb_Report r) of
        (Some i, Some p) \<Rightarrow>
          if iv_ID i \<noteq> invitation \<or> iv_Voice i \<noteq> voice \<or> rt_Hash p \<noteq> hash \<or> iv_ContentVerified i \<or> iv_ContentMismatch i
          then Inl CbUnavailable
          else Inr (verdict verified reason_readback r i)
      | _ \<Rightarrow> Inl CbUnavailable)"

definition outcome_fn :: "string \<Rightarrow> string \<Rightarrow> string \<Rightarrow> string \<Rightarrow> cb_fn" where
  "outcome_fn invitation voice outcome reason r exists =
     (case cb_Invite r of
        None \<Rightarrow> Inl CbUnavailable
      | Some i \<Rightarrow>
          if iv_ID i \<noteq> invitation \<or> iv_Voice i \<noteq> voice then Inl CbUnavailable
          else Inr (r\<lparr>cb_Invite := Some (i\<lparr>iv_State := outcome, iv_Reason := reason\<rparr>),
                      cb_State := (if \<not> cb_Enabled r then ''disabled''
                                   else if cb_State r \<noteq> ''report_audio_observed'' \<and> cb_State r \<noteq> ''report_delivery_mismatch''
                                   then (if iv_ContentVerified i then ''report_text_verified'' else ''report_pending'')
                                   else cb_State r)\<rparr>))"

text \<open>What a device is shown of a record.\<close>

definition callbackView :: "CallbackRecord \<Rightarrow> CallbackRecord" where
  "callbackView r =
     (case cb_Invite r of
        None \<Rightarrow> r
      | Some i \<Rightarrow>
          if cb_State r \<in> {''report_audio_observed'', ''report_finished''} \<and> (\<not> iv_ContentVerified i \<or> \<not> iv_AudioObserved i)
          then r\<lparr>cb_State := ''report_output_unverified''\<rparr> else r)"

end
