(* ===== verification/Callback_Properties.thy ===== *)
theory Callback_Properties
  imports Callback_Mutations
begin

text \<open>
  What task report calls promise in every history of the hub's mutations: a delivery has one automatic
  call, an attempt is never repeated automatically, an operation takes effect once, a report is sealed
  once and an invitation is claimed once.
\<close>

section \<open>Histories\<close>

inductive hub_fn :: "cb_hash \<Rightarrow> u64 \<Rightarrow> cb_fn \<Rightarrow> bool" for h where
  hf_client: "in_Action x \<in> free_revision_actions \<longrightarrow> n = AnyRevision \<Longrightarrow> hub_fn h n (client_fn h e x)"
| hf_seal: "hub_fn h n (seal_fn h e req turn hash txt status work)"
| hf_promote: "hub_fn h n (promote_fn invitation now)"
| hf_expire: "hub_fn h n expire_fn"
| hf_revoke: "hub_fn h AnyRevision (revoke_fn invitation)"
| hf_admit: "hub_fn h 0 (admit_fn e req dev)"
| hf_bind: "hub_fn h AnyRevision (bind_fn e invitation claim voice)"
| hf_speech: "hub_fn h AnyRevision (speech_fn invitation operation failed)"
| hf_transcript: "hub_fn h AnyRevision (transcript_fn invitation voice verified)"
| hf_readback: "hub_fn h AnyRevision (readback_fn invitation voice hash verified)"
| hf_outcome: "outcome \<in> {''ended'', ''failed''} \<Longrightarrow> hub_fn h AnyRevision (outcome_fn invitation voice outcome reason)"

text \<open>No counter is at the point where it would wrap.\<close>

definition cb_room :: "string \<Rightarrow> callback_store \<Rightarrow> bool" where
  "cb_room cid s \<longleftrightarrow>
     (\<forall>r. callback_Get cid s = Some r \<longrightarrow>
        u64_room (cb_Revision r) \<and> (\<forall>i. cb_Invite r = Some i \<longrightarrow> u64_room (iv_Generation i)))"

inductive cb_step :: "cb_hash \<Rightarrow> callback_store \<Rightarrow> callback_store \<Rightarrow> bool" for h where
  cbs: "hub_fn h n f \<Longrightarrow> cb_room cid s \<Longrightarrow> cb_step h s (snd (Mutate h now op fp cid n f s))"

section \<open>How a record changes\<close>

definition invite_evolves :: "Invitation \<Rightarrow> Invitation \<Rightarrow> bool" where
  "invite_evolves i i' \<longleftrightarrow>
     iv_Generation i' = u64_succ (iv_Generation i)
     \<or> iv_Generation i' = iv_Generation i \<and> iv_ID i' = iv_ID i \<and> (iv_Claim i \<noteq> [] \<longrightarrow> iv_Claim i' = iv_Claim i)"

definition cb_evolves :: "CallbackRecord \<Rightarrow> CallbackRecord \<Rightarrow> bool" where
  "cb_evolves r r' \<longleftrightarrow>
     cb_Session r' = cb_Session r \<and> cb_Revision r' = cb_Revision r
     \<and> (\<forall>p. cb_Report r = Some p \<longrightarrow> cb_Report r' = Some p)
     \<and> (\<forall>i. cb_Invite r = Some i \<longrightarrow> (\<exists>i'. cb_Invite r' = Some i' \<and> invite_evolves i i'))"

lemma invite_refl [simp]: "invite_evolves i i"
  by (simp add: invite_evolves_def)

lemma same_invite:
  "iv_Generation i' = iv_Generation i \<Longrightarrow> iv_ID i' = iv_ID i \<Longrightarrow> iv_Claim i' = iv_Claim i \<Longrightarrow> invite_evolves i i'"
  by (simp add: invite_evolves_def)

lemma evolves_update:
  assumes "cb_Invite r = Some i" and "invite_evolves i i'"
  shows "cb_evolves r (r\<lparr>cb_Invite := Some i'\<rparr>)" "cb_evolves r (r\<lparr>cb_Invite := Some i', cb_State := st\<rparr>)"
  using assms by (simp_all add: cb_evolves_def)

lemma cb_evolves_refl [simp]: "cb_evolves r r"
  by (simp add: cb_evolves_def)

lemma evolves_cancel: "cb_evolves r (Cancel_callback r)"
  by (auto simp: cb_evolves_def Cancel_callback_def invite_evolves_def)

lemma evolves_arm: "cb_evolves r (arm_callback h e x r)"
proof (cases "cb_Report r")
  case None
  then show ?thesis by (auto simp: arm_callback_def Let_def cb_evolves_def intro: same_invite)
next
  case (Some p)
  then show ?thesis
    by (cases "cb_Invite r") (simp_all add: arm_callback_def Let_def NewInvitation_def cb_evolves_def invite_evolves_def)
qed

lemma evolves_set: "set_callback h e x r = Inr r' \<Longrightarrow> cb_evolves r r'"
  by (auto simp: set_callback_def Let_def evolves_cancel evolves_arm split: if_splits)

lemma evolves_claim: "claim_callback e x r = Inr r' \<Longrightarrow> cb_evolves r r'"
  by (auto simp: claim_callback_def Claim_invitation_def intro!: evolves_update simp: invite_evolves_def
      split: if_splits option.splits)

lemma evolves_ring: "ring_action e a r i = Inr r' \<Longrightarrow> cb_Invite r = Some i \<Longrightarrow> cb_evolves r r'"
  by (auto simp: ring_action_def intro!: evolves_update intro: same_invite split: if_splits)

lemma evolves_audio:
  assumes "cb_Invite r = Some i" and "invite_evolves i j"
  shows "cb_evolves r (audio_action r j)"
proof -
  have "invite_evolves i (j\<lparr>iv_AudioObserved := True\<rparr>)" "invite_evolves i (j\<lparr>iv_AudioObserved := True, iv_State := st\<rparr>)" for st
    using assms(2) by (simp_all add: invite_evolves_def)
  with assms(1) show ?thesis by (simp add: audio_action_def Let_def evolves_update)
qed

lemma evolves_voice: "voice_action e x r i = Inr r' \<Longrightarrow> cb_Invite r = Some i \<Longrightarrow> cb_evolves r r'"
  unfolding voice_action_def Let_def
  by (auto intro!: evolves_audio evolves_update intro: same_invite split: if_splits option.splits)

lemma evolves_device: "device_action e x r = Inr r' \<Longrightarrow> cb_evolves r r'"
  by (auto simp: device_action_def evolves_ring evolves_voice split: if_splits option.splits)

lemma evolves_client: "client_fn h e x r True = Inr r' \<Longrightarrow> cb_evolves r r'"
  by (auto simp: client_fn_def evolves_set evolves_cancel evolves_claim evolves_device split: if_splits)

lemma evolves_seal: "seal_fn h e req turn hash txt status work r ex = Inr r' \<Longrightarrow> cb_evolves r r'"
  by (auto simp: seal_fn_def Let_def NewInvitation_def cb_evolves_def invite_evolves_def split: if_splits)

lemma evolves_verdict:
  assumes "cb_Invite r = Some i"
  shows "cb_evolves r (verdict verified reason r i)"
  unfolding verdict_def Let_def by (rule evolves_update [OF assms], rule same_invite) simp_all

lemma evolves_small:
  "promote_fn invitation now r ex = Inr r' \<Longrightarrow> cb_evolves r r'"
  "expire_fn r ex = Inr r' \<Longrightarrow> cb_evolves r r'"
  "revoke_fn invitation r ex = Inr r' \<Longrightarrow> cb_evolves r r'"
  "bind_fn e invitation claim voice r ex = Inr r' \<Longrightarrow> cb_evolves r r'"
  "outcome_fn invitation voice outcome reason r ex = Inr r' \<Longrightarrow> cb_evolves r r'"
  unfolding promote_fn_def expire_fn_def revoke_fn_def bind_fn_def outcome_fn_def
  by (auto intro!: evolves_update intro: same_invite split: option.splits if_splits)

lemma evolves_spoken:
  "speech_fn invitation operation failed r ex = Inr r' \<Longrightarrow> cb_evolves r r'"
  "transcript_fn invitation voice verified r ex = Inr r' \<Longrightarrow> cb_evolves r r'"
  "readback_fn invitation voice hash verified r ex = Inr r' \<Longrightarrow> cb_evolves r r'"
  unfolding speech_fn_def transcript_fn_def readback_fn_def Let_def
  by (auto intro!: evolves_update evolves_verdict intro: same_invite split: option.splits if_splits)

lemma fn_evolves:
  assumes "hub_fn h n f" and "f r True = Inr r'" and "cb_Revision r \<noteq> 0" and "n = AnyRevision \<or> cb_Revision r = n"
  shows "cb_evolves r r'"
  using assms
proof (induction rule: hub_fn.induct)
  case (hf_admit e req dev)
  then show ?case by (simp add: AnyRevision_def)
qed (simp_all add: evolves_client evolves_seal evolves_small evolves_spoken)


section \<open>One transaction\<close>

lemma decode_fields [simp]:
  "cb_Session (decode_callback r) = cb_Session r" "cb_Revision (decode_callback r) = cb_Revision r"
  "cb_Report (decode_callback r) = cb_Report r" "cb_Invite (decode_callback r) = cb_Invite r"
  "cb_Enabled (decode_callback r) = cb_Enabled r" "cb_ID (decode_callback r) = cb_ID r"
  "deliveryKey h (decode_callback r) = deliveryKey h r" "HoldsDelivery (decode_callback r) = HoldsDelivery r"
  "SameDelivery h a (decode_callback r) = SameDelivery h a r"
  by (simp_all add: decode_callback_def deliveryKey_def delivery_of_def HoldsDelivery_def SameDelivery_def split: option.split)

definition current_callback :: "string \<Rightarrow> callback_store \<Rightarrow> CallbackRecord" where
  "current_callback cid s = (case callback_Get cid s of None \<Rightarrow> no_callback | Some r \<Rightarrow> r)"

lemma Mutate_cases:
  obtains (kept) "snd (Mutate h now op fp cid n f s) = s"
  | (commit) r1 r2 history r3 where "cs_operations s op = None"
      "n = AnyRevision \<or> cb_Revision (current_callback cid s) = n"
      "f (current_callback cid s) (callback_Get cid s \<noteq> None) = Inr r1"
      "groupAutomaticInvitation h s (r1\<lparr>cb_ID := cid\<rparr>) = (r2, history)"
      "r3 = r2\<lparr>cb_Revision := u64_succ (cb_Revision r2), cb_Updated := now\<rparr>"
      "Mutate h now op fp cid n f s = (Inr r3, \<lparr>cs_rows = put_row cid r3 (cs_rows s),
          cs_operations = (cs_operations s)(op \<mapsto> (fp, r3)), cs_history = history\<rparr>)"
proof (cases "cs_operations s op")
  case (Some x)
  then show ?thesis by (intro kept) (cases x, simp add: Mutate_def)
next
  case None
  show ?thesis
  proof (cases "n = AnyRevision \<or> cb_Revision (current_callback cid s) = n")
    case False
    then show ?thesis using None by (intro kept) (simp add: Mutate_def current_callback_def)
  next
    case True
    show ?thesis
    proof (cases "f (current_callback cid s) (callback_Get cid s \<noteq> None)")
      case (Inl e)
      then show ?thesis using None True
        by (intro kept) (simp add: Mutate_def current_callback_def Let_def del: not_None_eq)
    next
      case (Inr r1)
      obtain r2 history where g: "groupAutomaticInvitation h s (r1\<lparr>cb_ID := cid\<rparr>) = (r2, history)" by fastforce
      with Inr None True show ?thesis
        by (intro commit [OF None True Inr g refl]) (simp add: Mutate_def current_callback_def Let_def del: not_None_eq)
    qed
  qed
qed

definition auto_pending :: "CallbackRecord \<Rightarrow> bool" where
  "auto_pending r \<longleftrightarrow>
     cb_Enabled r \<and> (\<exists>i. cb_Invite r = Some i \<and> \<not> iv_Manual i \<and> iv_State i = ''delivery_pending'')"

definition attempted :: "CallbackRecord \<Rightarrow> bool" where
  "attempted r \<longleftrightarrow> cb_Report r \<noteq> None \<and> (\<exists>i. cb_Invite r = Some i \<and> attempt_evidence i)"

lemma auto_holds: "auto_pending r \<Longrightarrow> HoldsDelivery r"
  by (auto simp: auto_pending_def HoldsDelivery_def Terminal_invitation_def)

lemma group_waiting_fields [simp]:
  "cb_Session (group_waiting x r) = cb_Session r" "cb_Revision (group_waiting x r) = cb_Revision r"
  "cb_Report (group_waiting x r) = cb_Report r" "cb_ID (group_waiting x r) = cb_ID r"
  "deliveryKey h (group_waiting x r) = deliveryKey h r" "\<not> auto_pending (group_waiting x r)"
  by (auto simp: group_waiting_def deliveryKey_def delivery_of_def auto_pending_def split: option.split)

lemma group_same:
  assumes "groupAutomaticInvitation h s r = (r2, history)"
  shows "r2 = r \<or> (\<exists>x. r2 = group_waiting x r)" and "cs_history s \<subseteq>\<^sub>m history"
  using assms by (auto simp: groupAutomaticInvitation_def Let_def map_le_def split: option.splits if_splits)

lemma group_checked:
  assumes "groupAutomaticInvitation h s r = (r2, history)" and "auto_pending r2" and "cb_Report r2 \<noteq> None"
  shows "r2 = r" and "history (deliveryKey h r) = None"
    and "w \<in> set (cs_rows s) \<Longrightarrow> cw_session w = cb_Session r \<Longrightarrow> cw_id w \<noteq> cb_ID r
         \<Longrightarrow> SameDelivery h r (cw_record w) \<Longrightarrow> \<not> HoldsDelivery (cw_record w)"
proof -
  show same: "r2 = r" using group_same(1) [OF assms(1)] assms(2) by auto
  then obtain i p where i: "cb_Invite r = Some i" "cb_Report r = Some p" "\<not> iv_Manual i" "iv_State i = ''delivery_pending''" "cb_Enabled r"
    using assms(2,3) by (auto simp: auto_pending_def)
  have ne: "group_waiting x r \<noteq> r" for x using assms(2) same group_waiting_fields(6) by metis
  show "history (deliveryKey h r) = None"
    using assms(1) i same ne unfolding groupAutomaticInvitation_def Let_def
    by (simp split: if_splits)
  show "w \<in> set (cs_rows s) \<Longrightarrow> cw_session w = cb_Session r \<Longrightarrow> cw_id w \<noteq> cb_ID r
         \<Longrightarrow> SameDelivery h r (cw_record w) \<Longrightarrow> \<not> HoldsDelivery (cw_record w)"
    using assms(1) i same ne unfolding groupAutomaticInvitation_def Let_def
    by (simp split: if_splits) blast
qed

lemma group_attempted:
  assumes "groupAutomaticInvitation h s r = (r2, history)" and "attempted r2"
  shows "history (deliveryKey h r) \<noteq> None"
proof -
  have "attempted r"
    using group_same(1) [OF assms(1)] assms(2)
    by (auto simp: attempted_def group_waiting_def attempt_evidence_def)
  then obtain i p where "cb_Invite r = Some i" "cb_Report r = Some p" "attempt_evidence i" by (auto simp: attempted_def)
  with assms(1) show ?thesis by (auto simp: groupAutomaticInvitation_def Let_def split: if_splits)
qed


section \<open>The invariant\<close>

definition cb_inv :: "cb_hash \<Rightarrow> callback_store \<Rightarrow> bool" where
  "cb_inv h s \<longleftrightarrow>
     distinct (map cw_id (cs_rows s))
     \<and> (\<forall>w\<in>set (cs_rows s). cb_ID (cw_record w) = cw_id w \<and> cw_session w = cb_Session (cw_record w)
          \<and> cb_Revision (cw_record w) \<noteq> 0
          \<and> (attempted (cw_record w) \<longrightarrow> cs_history s (deliveryKey h (cw_record w)) \<noteq> None))
     \<and> (\<forall>v\<in>set (cs_rows s). \<forall>w\<in>set (cs_rows s). cw_id v \<noteq> cw_id w \<longrightarrow>
          \<not> (auto_pending (cw_record v) \<and> auto_pending (cw_record w) \<and> SameDelivery h (cw_record v) (cw_record w)))"

lemma put_row_ids: "distinct (map cw_id rows) \<Longrightarrow> distinct (map cw_id (put_row cid r rows))"
proof -
  assume d: "distinct (map cw_id rows)"
  have e: "map cw_id (map (\<lambda>w. if cw_id w = cid then w\<lparr>cw_record := r\<rparr> else w) rows) = map cw_id rows"
    by (induction rows) auto
  show ?thesis
  proof (cases "\<exists>w\<in>set rows. cw_id w = cid")
    case True
    then show ?thesis by (simp only: put_row_def if_True e d)
  next
    case False
    then show ?thesis using d by (auto simp: put_row_def)
  qed
qed

lemma put_row_cases:
  assumes "w \<in> set (put_row cid r rows)"
  obtains (other) "cw_id w \<noteq> cid" "w \<in> set rows"
  | (new) "cw_id w = cid" "cw_record w = r" "cw_session w = cb_Session r" "\<forall>v\<in>set rows. cw_id v \<noteq> cid"
  | (old) v where "cw_id w = cid" "cw_record w = r" "v \<in> set rows" "cw_id v = cid" "cw_session w = cw_session v"
  using assms by (force simp: put_row_def split: if_splits)

lemma get_found:
  "distinct (map cw_id (cs_rows s)) \<Longrightarrow> w \<in> set (cs_rows s) \<Longrightarrow> callback_Get (cw_id w) s = Some (decode_callback (cw_record w))"
proof -
  have "distinct (map cw_id rows) \<Longrightarrow> w \<in> set rows \<Longrightarrow> find (\<lambda>v. cw_id v = cw_id w) rows = Some w" for rows
    by (induction rows) (auto simp: image_iff)
  then show "distinct (map cw_id (cs_rows s)) \<Longrightarrow> w \<in> set (cs_rows s) \<Longrightarrow> ?thesis" by (simp add: callback_Get_def)
qed

lemma got_callback: "callback_Get cid s = Some r \<Longrightarrow> \<exists>w\<in>set (cs_rows s). cw_id w = cid \<and> r = decode_callback (cw_record w)"
  by (auto simp: callback_Get_def find_Some_iff)

lemma get_none: "callback_Get cid s = None \<Longrightarrow> w \<in> set (cs_rows s) \<Longrightarrow> cw_id w \<noteq> cid"
  by (auto simp: callback_Get_def find_None_iff)

lemma put_row_found:
  assumes "distinct (map cw_id rows)"
  shows "map_option (\<lambda>w. decode_callback (cw_record w)) (find (\<lambda>w. cw_id w = cid) (put_row cid r rows)) = Some (decode_callback r)"
proof -
  have "\<exists>w\<in>set (put_row cid r rows). cw_id w = cid \<and> cw_record w = r"
  proof (cases "\<exists>w\<in>set rows. cw_id w = cid")
    case True
    then obtain w where "w \<in> set rows" "cw_id w = cid" by blast
    then show ?thesis by (intro bexI [of _ "w\<lparr>cw_record := r\<rparr>"]) (auto simp: put_row_def image_iff intro!: bexI [of _ w])
  qed (simp add: put_row_def)
  then obtain w where w: "w \<in> set (put_row cid r rows)" "cw_id w = cid" "cw_record w = r" by blast
  have "callback_Get (cw_id w) \<lparr>cs_rows = put_row cid r rows, cs_operations = Map.empty, cs_history = Map.empty\<rparr> = Some (decode_callback r)"
    using get_found [of "\<lparr>cs_rows = put_row cid r rows, cs_operations = Map.empty, cs_history = Map.empty\<rparr>" w] w put_row_ids [OF assms] by simp
  then show ?thesis using w(2) by (simp add: callback_Get_def)
qed

lemma client_new: "client_fn h e x r0 False = Inr r' \<Longrightarrow> \<exists>r. new_callback e x = Inr r \<and> client_fn h e x r True = Inr r'"
  by (cases "new_callback e x") (simp_all add: client_fn_def)

lemma fn_new:
  assumes "hub_fn h n f" and "f no_callback False = Inr r'"
  shows "cb_Revision r' = 0"
  using assms
proof (induction rule: hub_fn.induct)
  case (hf_client x n e)
  then obtain r where r: "new_callback e x = Inr r" "client_fn h e x r True = Inr r'" using client_new by blast
  then have "cb_Revision r = 0" by (auto simp: new_callback_def no_callback_def split: option.splits if_splits prod.splits)
  with evolves_client [OF r(2)] show ?case by (simp add: cb_evolves_def)
qed (auto simp: seal_fn_def promote_fn_def expire_fn_def revoke_fn_def admit_fn_def bind_fn_def speech_fn_def transcript_fn_def
      readback_fn_def outcome_fn_def no_callback_def split: if_splits)

text \<open>What a commit writes, compared with the record it started from.\<close>

lemma commit_record:
  assumes inv: "cb_inv h s" and fn: "hub_fn h n f" and room: "cb_room cid s"
    and rev: "n = AnyRevision \<or> cb_Revision (current_callback cid s) = n"
    and f: "f (current_callback cid s) (callback_Get cid s \<noteq> None) = Inr r1"
    and g: "groupAutomaticInvitation h s (r1\<lparr>cb_ID := cid\<rparr>) = (r2, history)"
    and r3: "r3 = r2\<lparr>cb_Revision := u64_succ (cb_Revision r2), cb_Updated := now\<rparr>"
  shows "cb_ID r3 = cid" "cb_Session r3 = cb_Session r1" "cb_Revision r3 \<noteq> 0"
    and "callback_Get cid s = Some r \<Longrightarrow> cb_evolves r r1 \<and> cb_Revision r3 = Suc (cb_Revision r)"
proof -
  have r2: "r2 = r1\<lparr>cb_ID := cid\<rparr> \<or> (\<exists>x. r2 = group_waiting x (r1\<lparr>cb_ID := cid\<rparr>))" using group_same(1) [OF g] .
  then show "cb_ID r3 = cid" "cb_Session r3 = cb_Session r1" using r3 by auto
  have rv: "cb_Revision r2 = cb_Revision r1" using r2 by auto
  have some: "cb_evolves r r1 \<and> cb_Revision r3 = Suc (cb_Revision r) \<and> cb_Revision r3 \<noteq> 0" if "callback_Get cid s = Some r" for r
  proof -
    obtain w where "w \<in> set (cs_rows s)" "r = decode_callback (cw_record w)" using got_callback [OF \<open>callback_Get cid s = Some r\<close>] by blast
    then have "cb_Revision r \<noteq> 0" using inv by (simp add: cb_inv_def)
    then have e: "cb_evolves r r1" using fn_evolves [OF fn, of r r1] f rev that by (simp add: current_callback_def)
    have "u64_room (cb_Revision r)" using room that by (simp add: cb_room_def)
    then have "u64_succ (cb_Revision r) = Suc (cb_Revision r)" by (rule u64_succ_room)
    then show ?thesis using e r3 rv by (simp add: cb_evolves_def)
  qed
  then show "callback_Get cid s = Some r \<Longrightarrow> cb_evolves r r1 \<and> cb_Revision r3 = Suc (cb_Revision r)" by blast
  show "cb_Revision r3 \<noteq> 0"
  proof (cases "callback_Get cid s")
    case None
    then have "cb_Revision r1 = 0" using f fn_new [OF fn, of r1] by (simp add: current_callback_def)
    then show ?thesis using r3 rv by (simp add: u64_succ_def)
  qed (use some in blast)
qed


text \<open>A digest of a delivery determines its session, as a collision-free one does.\<close>

definition session_in_key :: "cb_hash \<Rightarrow> bool" where
  "session_in_key h \<longleftrightarrow> (\<forall>a b. hash_delivery h a = hash_delivery h b \<longrightarrow> dl_Session a = dl_Session b)"

lemma same_delivery_session: "session_in_key h \<Longrightarrow> SameDelivery h a b \<Longrightarrow> cb_Session a = cb_Session b"
  by (fastforce simp: session_in_key_def SameDelivery_def deliveryKey_def delivery_of_def)

lemma same_delivery_sym: "SameDelivery h a b \<longleftrightarrow> SameDelivery h b a"
  by (auto simp: SameDelivery_def)

definition row_fits :: "cb_hash \<Rightarrow> (string \<rightharpoonup> string) \<Rightarrow> callback_row \<Rightarrow> bool" where
  "row_fits h history w \<longleftrightarrow>
     cb_ID (cw_record w) = cw_id w \<and> cw_session w = cb_Session (cw_record w) \<and> cb_Revision (cw_record w) \<noteq> 0
     \<and> (attempted (cw_record w) \<longrightarrow> history (deliveryKey h (cw_record w)) \<noteq> None)"

definition one_call :: "cb_hash \<Rightarrow> callback_row list \<Rightarrow> bool" where
  "one_call h rows \<longleftrightarrow>
     (\<forall>v\<in>set rows. \<forall>w\<in>set rows. cw_id v \<noteq> cw_id w \<longrightarrow>
        \<not> (auto_pending (cw_record v) \<and> auto_pending (cw_record w) \<and> SameDelivery h (cw_record v) (cw_record w)))"

lemma cb_inv_parts:
  "cb_inv h s \<longleftrightarrow> distinct (map cw_id (cs_rows s)) \<and> (\<forall>w\<in>set (cs_rows s). row_fits h (cs_history s) w) \<and> one_call h (cs_rows s)"
  by (simp add: cb_inv_def row_fits_def one_call_def)

text \<open>The fields a commit adds after grouping do not matter to the group.\<close>

lemma stamped [simp]:
  "auto_pending (r\<lparr>cb_Revision := n, cb_Updated := t\<rparr>) = auto_pending r"
  "attempted (r\<lparr>cb_Revision := n, cb_Updated := t\<rparr>) = attempted r"
  "deliveryKey h (r\<lparr>cb_Revision := n, cb_Updated := t\<rparr>) = deliveryKey h r"
  "SameDelivery h (r\<lparr>cb_Revision := n, cb_Updated := t\<rparr>) = SameDelivery h r"
  by (simp_all add: auto_pending_def attempted_def deliveryKey_def delivery_of_def SameDelivery_def fun_eq_iff split: option.split)

lemma other_row: "w \<in> set (put_row cid r rows) \<Longrightarrow> cw_id w = cid \<and> cw_record w = r \<or> cw_id w \<noteq> cid \<and> w \<in> set rows"
  by (erule put_row_cases) simp_all

lemma one_call_put:
  assumes "one_call h rows"
    and fresh: "\<And>w. w \<in> set rows \<Longrightarrow> cw_id w \<noteq> cid \<Longrightarrow> auto_pending r \<Longrightarrow> auto_pending (cw_record w) \<Longrightarrow> \<not> SameDelivery h r (cw_record w)"
  shows "one_call h (put_row cid r rows)"
  unfolding one_call_def
proof (intro ballI impI)
  fix v w
  assume "v \<in> set (put_row cid r rows)" "w \<in> set (put_row cid r rows)" and ne: "cw_id v \<noteq> cw_id w"
  then consider "cw_record v = r" "cw_id w \<noteq> cid" "w \<in> set rows" | "cw_record w = r" "cw_id v \<noteq> cid" "v \<in> set rows"
    | "v \<in> set rows" "w \<in> set rows" by (metis other_row)
  then show "\<not> (auto_pending (cw_record v) \<and> auto_pending (cw_record w) \<and> SameDelivery h (cw_record v) (cw_record w))"
  proof cases
    case 1
    then show ?thesis using fresh by blast
  next
    case 2
    then show ?thesis using fresh [of v] same_delivery_sym [of h r] by blast
  next
    case 3
    then show ?thesis using assms(1) ne unfolding one_call_def by blast
  qed
qed

lemma cb_inv_step: "cb_step h s s' \<Longrightarrow> session_in_key h \<Longrightarrow> cb_inv h s \<Longrightarrow> cb_inv h s'"
proof (induction rule: cb_step.induct)
  case (cbs n f cid s now op fp)
  show ?case
  proof (cases rule: Mutate_cases [of h now op fp cid n f s])
    case kept
    then show ?thesis using cbs by simp
  next
    case (commit r1 r2 history r3)
    note rec = commit_record [OF cbs(4,1,2) commit(2-5)]
    have inv: "distinct (map cw_id (cs_rows s))" "\<And>w. w \<in> set (cs_rows s) \<Longrightarrow> row_fits h (cs_history s) w" "one_call h (cs_rows s)"
      using cbs(4) by (simp_all add: cb_inv_parts)
    have key: "deliveryKey h r2 = deliveryKey h (r1\<lparr>cb_ID := cid\<rparr>)" using group_same(1) [OF commit(4)] by auto
    have new: "attempted r3 \<longrightarrow> history (deliveryKey h r3) \<noteq> None"
      using group_attempted [OF commit(4)] key by (simp add: commit(5))
    have row: "row_fits h history w" if "w \<in> set (put_row cid r3 (cs_rows s))" for w
      using that
    proof (cases rule: put_row_cases)
      case other
      then show ?thesis using inv(2) [of w] group_same(2) [OF commit(4)] by (auto simp: row_fits_def map_le_def dom_def)
    next
      case new
      then show ?thesis using rec(1,3) \<open>attempted r3 \<longrightarrow> _\<close> by (simp add: row_fits_def)
    next
      case (old v)
      then have "callback_Get cid s = Some (decode_callback (cw_record v))" using get_found [OF inv(1), of v] by simp
      then have "cb_Session r3 = cb_Session (cw_record v)" using rec(2) rec(4) [of "decode_callback (cw_record v)"] by (simp add: cb_evolves_def)
      then show ?thesis using old inv(2) [of v] rec(1,3) new by (simp add: row_fits_def)
    qed
    have fresh: "\<not> SameDelivery h r3 (cw_record w)"
      if "w \<in> set (cs_rows s)" "cw_id w \<noteq> cid" "auto_pending r3" "auto_pending (cw_record w)" for w
    proof
      assume sd: "SameDelivery h r3 (cw_record w)"
      have "cb_Report r2 \<noteq> None" "auto_pending r2" using sd that(3) by (auto simp: commit(5) SameDelivery_def)
      note check = group_checked [OF commit(4) this(2,1)]
      have "cw_session w = cb_Session (r1\<lparr>cb_ID := cid\<rparr>)"
        using same_delivery_session [OF cbs(3) sd] inv(2) [OF that(1)] rec(2) by (simp add: row_fits_def)
      moreover have "SameDelivery h (r1\<lparr>cb_ID := cid\<rparr>) (cw_record w)" using sd check(1) by (simp add: commit(5))
      ultimately have "\<not> HoldsDelivery (cw_record w)" using that(1,2) check(3) by simp
      then show False using that(4) auto_holds by blast
    qed
    have "one_call h (put_row cid r3 (cs_rows s))" by (rule one_call_put [OF inv(3)]) (rule fresh)
    then show ?thesis using row put_row_ids [OF inv(1)] by (simp add: commit(6) cb_inv_parts)
  qed
qed


lemma cb_inv_empty: "cb_inv h empty_callbacks"
  by (simp add: cb_inv_def empty_callbacks_def)

lemma inv_reachable: "(cb_step h)\<^sup>*\<^sup>* empty_callbacks s \<Longrightarrow> session_in_key h \<Longrightarrow> cb_inv h s"
  by (induction rule: rtranclp_induct) (auto simp: cb_inv_empty intro: cb_inv_step)

section \<open>A record over a history\<close>

definition cb_grows :: "CallbackRecord \<Rightarrow> CallbackRecord \<Rightarrow> bool" where
  "cb_grows r r' \<longleftrightarrow>
     cb_Revision r \<le> cb_Revision r' \<and> cb_Session r' = cb_Session r
     \<and> (\<forall>p. cb_Report r = Some p \<longrightarrow> cb_Report r' = Some p)
     \<and> (\<forall>i. cb_Invite r = Some i \<longrightarrow>
          (\<exists>i'. cb_Invite r' = Some i' \<and> iv_Generation i \<le> iv_Generation i'
            \<and> (iv_Generation i' = iv_Generation i \<longrightarrow> iv_ID i' = iv_ID i \<and> (iv_Claim i \<noteq> [] \<longrightarrow> iv_Claim i' = iv_Claim i))))"

lemma grows_refl: "cb_grows r r"
  by (simp add: cb_grows_def)

lemma grows_trans: "cb_grows a b \<Longrightarrow> cb_grows b c \<Longrightarrow> cb_grows a c"
  unfolding cb_grows_def by (elim conjE, intro conjI) (simp, simp, simp, fastforce)

lemma find_map_other:
  "(\<And>w. P (g w) = P w) \<Longrightarrow> (\<And>w. P w \<Longrightarrow> g w = w) \<Longrightarrow> find P (map g rows) = find P rows"
  by (induction rows) auto

lemma put_row_other: "cid' \<noteq> cid \<Longrightarrow> find (\<lambda>w. cw_id w = cid') (put_row cid r rows) = find (\<lambda>w. cw_id w = cid') rows"
proof -
  assume ne: "cid' \<noteq> cid"
  have "find P (rows @ [x]) = find P rows" if "\<not> P x" for P and x :: callback_row
    using that by (induction rows) auto
  moreover have "find (\<lambda>w. cw_id w = cid') (map (\<lambda>w. if cw_id w = cid then w\<lparr>cw_record := r\<rparr> else w) rows) = find (\<lambda>w. cw_id w = cid') rows"
    by (rule find_map_other) (use ne in auto)
  ultimately show ?thesis using ne by (simp add: put_row_def)
qed

lemma evolves_grows:
  assumes "cb_evolves r r1" and "\<forall>i. cb_Invite r = Some i \<longrightarrow> u64_room (iv_Generation i)"
    and "groupAutomaticInvitation h s (r1\<lparr>cb_ID := cid\<rparr>) = (r2, history)" and "cb_Revision r \<le> n"
  shows "cb_grows r (r2\<lparr>cb_Revision := n, cb_Updated := now\<rparr>)"
proof -
  have "cb_Session r2 = cb_Session r1" "cb_Report r2 = cb_Report r1"
    "\<And>i. cb_Invite r1 = Some i \<Longrightarrow> \<exists>i'. cb_Invite r2 = Some i' \<and> iv_Generation i' = iv_Generation i \<and> iv_ID i' = iv_ID i \<and> iv_Claim i' = iv_Claim i"
    using group_same(1) [OF assms(3)] by (auto simp: group_waiting_def)
  moreover have "iv_Generation i' = Suc (iv_Generation i)"
    if "cb_Invite r = Some i" "iv_Generation i' = u64_succ (iv_Generation i)" for i i'
    using that assms(2) u64_succ_room by simp
  ultimately show ?thesis
    using assms(1,4) unfolding cb_grows_def cb_evolves_def invite_evolves_def by (auto, fastforce+)
qed

lemma step_grows:
  assumes "cb_step h s s'" and "cb_inv h s" and "callback_Get cid s = Some r"
  shows "\<exists>r'. callback_Get cid s' = Some r' \<and> cb_grows r r'"
  using assms
proof (induction rule: cb_step.induct)
  case (cbs n f cid2 s now op fp)
  show ?case
  proof (cases rule: Mutate_cases [of h now op fp cid2 n f s])
    case kept
    then show ?thesis using cbs grows_refl by auto
  next
    case (commit r1 r2 history r3)
    show ?thesis
    proof (cases "cid = cid2")
      case False
      then show ?thesis using cbs(4) grows_refl by (auto simp: commit(6) callback_Get_def put_row_other)
    next
      case True
      have "cb_evolves r r1" "cb_Revision r3 = Suc (cb_Revision r)"
        using commit_record(4) [OF cbs(3,1,2) commit(2-5), of r] cbs(4) True by auto
      moreover have "\<forall>i. cb_Invite r = Some i \<longrightarrow> u64_room (iv_Generation i)" using cbs(2,4) True by (simp add: cb_room_def)
      ultimately have "cb_grows r r3" using evolves_grows [OF _ _ commit(4), of r "cb_Revision r3" now] by (simp add: commit(5))
      then have "cb_grows r (decode_callback r3)" by (simp add: cb_grows_def)
      moreover have "distinct (map cw_id (cs_rows s))" using cbs(3) by (simp add: cb_inv_def)
      then have "callback_Get cid (snd (Mutate h now op fp cid2 n f s)) = Some (decode_callback r3)"
        using put_row_found [of "cs_rows s" cid2 r3] True by (simp add: commit(6) callback_Get_def del: map_option_eq_Some)
      ultimately show ?thesis by blast
    qed
  qed
qed

lemma step_tables:
  assumes "cb_step h s s'"
  shows "cs_history s \<subseteq>\<^sub>m cs_history s' \<and> cs_operations s \<subseteq>\<^sub>m cs_operations s'"
  using assms
proof (induction rule: cb_step.induct)
  case (cbs n f cid s now op fp)
  show ?case
  proof (cases rule: Mutate_cases [of h now op fp cid n f s])
    case (commit r1 r2 history r3)
    then show ?thesis using group_same(2) [OF commit(4)] by (auto simp: map_le_def)
  qed simp
qed

lemma run_tables:
  "(cb_step h)\<^sup>*\<^sup>* s s' \<Longrightarrow> cs_history s \<subseteq>\<^sub>m cs_history s' \<and> cs_operations s \<subseteq>\<^sub>m cs_operations s'"
  by (induction rule: rtranclp_induct) (auto dest: step_tables intro: map_le_trans)


section \<open>Guarantees\<close>

text \<open>
  C27. A delivery has one automatic call. In every reachable store, of all requests whose report is the same
  result of the same execution for the same device, at most one has an automatic invitation that waits to
  be delivered.
\<close>

theorem one_automatic_call:
  assumes "(cb_step h)\<^sup>*\<^sup>* empty_callbacks s" and "session_in_key h"
  shows "\<forall>a\<in>set (List_callbacks s). \<forall>b\<in>set (List_callbacks s).
           SameDelivery h a b \<and> auto_pending a \<and> auto_pending b \<longrightarrow> a = b"
proof (intro ballI impI)
  fix a b
  assume a: "a \<in> set (List_callbacks s)" and b: "b \<in> set (List_callbacks s)"
    and both: "SameDelivery h a b \<and> auto_pending a \<and> auto_pending b"
  obtain v w where v: "v \<in> set (cs_rows s)" "a = decode_callback (cw_record v)" and w: "w \<in> set (cs_rows s)" "b = decode_callback (cw_record w)"
    using a b by (auto simp: List_callbacks_def)
  have inv: "cb_inv h s" using inv_reachable assms by blast
  have "SameDelivery h (cw_record v) (cw_record w)" "auto_pending (cw_record v)" "auto_pending (cw_record w)"
    using both v w by (simp_all add: SameDelivery_def auto_pending_def)
  then have "cw_id v = cw_id w" using inv v(1) w(1) unfolding cb_inv_def by blast
  moreover have "distinct (map cw_id (cs_rows s))" using inv by (simp add: cb_inv_def)
  ultimately have "v = w" using v(1) w(1) by (metis eq_key_imp_eq_value distinct_map inj_onD)
  then show "a = b" using v w by simp
qed


text \<open>
  An operation takes effect once. After a mutation succeeded, running the same operation again at any
  later time, with whatever function, returns the same answer and changes nothing, and the same operation
  with another content is refused.
\<close>

theorem callback_operation_once:
  assumes "Mutate h now op fp cid n f s = (Inr r, s1)" and "(cb_step h)\<^sup>*\<^sup>* s1 s2"
  shows "Mutate h now2 op fp2 cid2 n2 f2 s2 = (if fp2 = fp then Inr (decode_callback r) else Inl CbOperation, s2)"
proof -
  have idem: "decode_callback (decode_callback x) = decode_callback x" for x by (simp add: decode_callback_def)
  obtain b where b: "cs_operations s1 op = Some (fp, b)" "decode_callback b = decode_callback r"
  proof (cases "cs_operations s op")
    case (Some x)
    then show ?thesis using assms(1) idem that by (cases x) (auto simp: Mutate_def split: if_splits)
  next
    case None
    then have "cs_operations s1 op = Some (fp, r)"
      using assms(1) by (auto simp: Mutate_def Let_def split: sum.splits if_splits prod.splits)
    then show ?thesis using that by blast
  qed
  have "cs_operations s2 op = Some (fp, b)" using run_tables [OF assms(2)] b(1) by (metis domI map_le_def)
  then show ?thesis using b(2) by (simp add: Mutate_def)
qed

text \<open>
  C29. A report is sealed once and an invitation is claimed once. Over any history a request keeps its sealed
  report, its revision and the generation of its invitation never go back, and while the invitation stays
  the same, the operation that claimed it stays the only one.
\<close>

theorem callback_is_claimed_once:
  assumes "(cb_step h)\<^sup>*\<^sup>* empty_callbacks s" and "session_in_key h" and "callback_Get cid s = Some r"
    and "(cb_step h)\<^sup>*\<^sup>* s s'"
  shows "\<exists>r'. callback_Get cid s' = Some r' \<and> cb_Revision r \<le> cb_Revision r'
      \<and> (cb_Report r \<noteq> None \<longrightarrow> cb_Report r' = cb_Report r)
      \<and> (\<forall>i. cb_Invite r = Some i \<longrightarrow>
           (\<exists>i'. cb_Invite r' = Some i' \<and> iv_Generation i \<le> iv_Generation i'
             \<and> (iv_Generation i' = iv_Generation i \<longrightarrow> iv_ID i' = iv_ID i \<and> (iv_Claim i \<noteq> [] \<longrightarrow> iv_Claim i' = iv_Claim i))))"
proof -
  have "\<exists>r'. callback_Get cid s' = Some r' \<and> cb_grows r r'"
    using assms(4)
  proof (induction rule: rtranclp_induct)
    case base
    then show ?case using assms(3) grows_refl by blast
  next
    case (step t u)
    then obtain q where q: "callback_Get cid t = Some q" "cb_grows r q" by blast
    have "cb_inv h t" using inv_reachable [OF rtranclp_trans [OF assms(1) step(1)] assms(2)] .
    from step_grows [OF step(2) this q(1)] grows_trans [OF q(2)] show ?case by blast
  qed
  then obtain r' where r': "callback_Get cid s' = Some r'" "cb_grows r r'" by blast
  then have "cb_Report r \<noteq> None \<longrightarrow> cb_Report r' = cb_Report r" by (auto simp: cb_grows_def)
  with r' show ?thesis unfolding cb_grows_def by (intro exI [of _ r']) simp
qed


section \<open>A concrete history\<close>

text \<open>Two requests of one session are armed for the same phone, and the same execution answers both.\<close>

definition demo_hash :: cb_hash where
  "demo_hash = \<lparr>hash_id = concat, hash_delivery = dl_Session\<rparr>"

definition demo_phone :: cb_env where
  "demo_phone =
     \<lparr>ce_now = 5, ce_authority = ''host'', ce_session = ''s'', ce_epoch = ''e'', ce_resume = ''th'', ce_config = 3, ce_name = ''n'',
      ce_quiet = True, ce_owner = ''phone'', ce_binding = ''bd'',
      ce_target = \<lparr>rp_Device = ''phone'', rp_Binding = ''bd'', rp_Name = ''p'', rp_Inventory = ''i''\<rparr>,
      ce_task = None, ce_current = (\<lambda>_. True), ce_voice_owned = False\<rparr>"

definition demo_admit :: "string \<Rightarrow> callback_store \<Rightarrow> callback_store" where
  "demo_admit cid s = snd (Mutate demo_hash 5 (''admit_'' @ cid) ''f'' cid 0 (admit_fn demo_phone cid ''phone'') s)"

definition demo_seal :: "string \<Rightarrow> callback_store \<Rightarrow> callback_store" where
  "demo_seal cid s = snd (Mutate demo_hash 6 (''seal_'' @ cid) ''f'' cid 1 (seal_fn demo_hash demo_phone ''root'' ''turn'' ''hash'' ''done'' ''result_ready'' None) s)"

definition demo_shown :: "callback_store \<Rightarrow> (cb_error + CallbackRecord) \<times> callback_store" where
  "demo_shown s = Mutate demo_hash 7 ''shown'' ''f'' ''a'' AnyRevision
     (client_fn demo_hash demo_phone \<lparr>in_Operation = ''shown'', in_Action = ''presented'', in_Enabled = False, in_Failures = False,
        in_Invitation = ''asealed_hash'', in_Voice = [], in_Request = ''a''\<rparr>) s"

definition demo_armed :: callback_store where
  "demo_armed = demo_admit ''b'' (demo_admit ''a'' empty_callbacks)"

definition demo_sealed :: callback_store where
  "demo_sealed = demo_seal ''b'' (demo_seal ''a'' demo_armed)"

lemmas demo_cb_eval = Mutate_def callback_Get_def put_row_def groupAutomaticInvitation_def Let_def demo_hash_def demo_phone_def
  admit_fn_def no_callback_def no_recipient_def empty_callbacks_def decode_callback_def AnyRevision_def u64_succ_def
  demo_admit_def demo_armed_def demo_seal_def demo_sealed_def seal_fn_def NewInvitation_def attempt_evidence_def
  deliveryKey_def delivery_of_def SameDelivery_def HoldsDelivery_def Terminal_invitation_def group_waiting_def

lemma demo_key: "session_in_key demo_hash"
  by (simp add: session_in_key_def demo_hash_def)

lemma demo_admit_step: "cb_room cid s \<Longrightarrow> cb_step demo_hash s (demo_admit cid s)"
  unfolding demo_admit_def by (rule cbs, rule hf_admit)

lemma demo_seal_step: "cb_room cid s \<Longrightarrow> cb_step demo_hash s (demo_seal cid s)"
  unfolding demo_seal_def by (rule cbs, rule hf_seal)

lemma demo_rooms:
  "cb_room ''a'' empty_callbacks" "cb_room ''b'' (demo_admit ''a'' empty_callbacks)"
  "cb_room ''a'' demo_armed" "cb_room ''b'' (demo_seal ''a'' demo_armed)" "cb_room ''a'' demo_sealed"
  unfolding cb_room_def by (simp_all add: demo_cb_eval u64_room_def)

lemma demo_run: "(cb_step demo_hash)\<^sup>*\<^sup>* empty_callbacks demo_sealed"
  unfolding demo_sealed_def demo_armed_def
  by (meson demo_rooms [unfolded demo_armed_def] demo_admit_step demo_seal_step rtranclp.rtrancl_refl rtranclp.rtrancl_into_rtrancl)

text \<open>Only the first of the two requests rings.\<close>

theorem one_automatic_call_witness:
  "\<exists>a b. callback_Get ''a'' demo_sealed = Some a \<and> callback_Get ''b'' demo_sealed = Some b \<and> SameDelivery demo_hash a b
     \<and> auto_pending a \<and> \<not> auto_pending b"
proof -
  obtain a b where ab: "callback_Get ''a'' demo_sealed = Some a" "callback_Get ''b'' demo_sealed = Some b"
    "SameDelivery demo_hash a b" "auto_pending a" "a \<noteq> b"
    by (simp add: demo_cb_eval auto_pending_def)
  have "a \<in> set (List_callbacks demo_sealed)" "b \<in> set (List_callbacks demo_sealed)"
    using got_callback [OF ab(1)] got_callback [OF ab(2)] by (auto simp: List_callbacks_def)
  with one_automatic_call [OF demo_run demo_key] ab show ?thesis by blast
qed


lemmas demo_shown_eval = demo_shown_def client_fn_def device_action_def ring_action_def ring_actions_def voice_actions_def

lemma demo_shown_step: "cb_step demo_hash demo_sealed (snd (demo_shown demo_sealed))"
  unfolding demo_shown_def by (rule cbs, rule hf_client) (simp_all add: demo_rooms)

lemma demo_shown_run: "(cb_step demo_hash)\<^sup>*\<^sup>* empty_callbacks (snd (demo_shown demo_sealed))"
  by (meson demo_run demo_shown_step rtranclp.rtrancl_into_rtrancl)


theorem callback_operation_once_witness:
  "\<exists>r. Mutate demo_hash 9 ''admit_a'' ''f'' ''zzz'' 17 expire_fn demo_sealed = (Inr r, demo_sealed)
     \<and> Mutate demo_hash 9 ''admit_a'' ''g'' ''a'' 1 expire_fn demo_sealed = (Inl CbOperation, demo_sealed)"
proof -
  have "\<exists>r. fst (Mutate demo_hash 5 (''admit_'' @ ''a'') ''f'' ''a'' 0 (admit_fn demo_phone ''a'' ''phone'') empty_callbacks) = Inr r"
    by (simp add: demo_cb_eval)
  then obtain r where m: "Mutate demo_hash 5 (''admit_'' @ ''a'') ''f'' ''a'' 0 (admit_fn demo_phone ''a'' ''phone'') empty_callbacks
      = (Inr r, demo_admit ''a'' empty_callbacks)"
    unfolding demo_admit_def by (metis prod.collapse)
  have run: "(cb_step demo_hash)\<^sup>*\<^sup>* (demo_admit ''a'' empty_callbacks) demo_sealed"
    unfolding demo_sealed_def demo_armed_def
    by (meson demo_rooms [unfolded demo_armed_def] demo_admit_step demo_seal_step rtranclp.rtrancl_refl rtranclp.rtrancl_into_rtrancl)
  show ?thesis
    using callback_operation_once [OF m run, of 9 "''f''" "''zzz''" 17 expire_fn]
      callback_operation_once [OF m run, of 9 "''g''" "''a''" 1 expire_fn] by simp
qed

theorem callback_is_claimed_once_witness:
  "\<exists>r r'. callback_Get ''a'' demo_sealed = Some r \<and> callback_Get ''a'' (snd (demo_shown demo_sealed)) = Some r'
     \<and> cb_Report r \<noteq> None \<and> cb_Report r' = cb_Report r"
proof -
  obtain r where r: "callback_Get ''a'' demo_sealed = Some r" "cb_Report r \<noteq> None"
    by (simp add: demo_cb_eval)
  have "(cb_step demo_hash)\<^sup>*\<^sup>* demo_sealed (snd (demo_shown demo_sealed))" by (rule r_into_rtranclp, rule demo_shown_step)
  from callback_is_claimed_once [OF demo_run demo_key r(1) this] r show ?thesis by blast
qed

end
