(* ===== verification/Callback_Pages.thy ===== *)
theory Callback_Pages
  imports Callback_Properties
begin

text \<open>
  A device that reconnects follows the pages of its active invitations from cursor to cursor. It gets each
  of them once, in order, and nothing else.
\<close>

section \<open>Following cursors\<close>

fun follow_pages :: "nat \<Rightarrow> string \<Rightarrow> string \<Rightarrow> string \<Rightarrow> int \<Rightarrow> int \<Rightarrow> callback_store \<Rightarrow> CallbackRecord list option" where
  "follow_pages 0 device binding after limit now s = None"
| "follow_pages (Suc k) device binding after limit now s =
     (case ActiveInvitationPage device binding after limit now s of
        Inl _ \<Rightarrow> None
      | Inr (out, nxt) \<Rightarrow>
          if nxt = [] then Some out
          else map_option ((@) out) (follow_pages k device binding nxt limit now s))"

definition active_after :: "string \<Rightarrow> string \<Rightarrow> string \<Rightarrow> int \<Rightarrow> callback_store \<Rightarrow> callback_row list" where
  "active_after device binding after now s =
     sort_key cw_id (filter (\<lambda>w. after < cw_id w \<and> active_row device binding now w) (cs_rows s))"

definition shown_row :: "callback_row \<Rightarrow> CallbackRecord" where
  "shown_row w = decode_callback (without_report (cw_record w))"

lemma shown_ID: "cb_ID (shown_row w) = cb_ID (cw_record w)"
  by (simp add: shown_row_def without_report_def)

lemma strictly_sorted:
  assumes "distinct (map cw_id (cs_rows s))"
  shows "sorted_wrt (\<lambda>v w. cw_id v < cw_id w) (active_after device binding after now s)"
proof -
  let ?l = "active_after device binding after now s"
  have "sorted (map cw_id ?l)" by (simp add: active_after_def)
  moreover have "distinct (map cw_id ?l)"
    using assms by (simp add: active_after_def distinct_map inj_on_def)
  ultimately have "sorted_wrt (<) (map cw_id ?l)" by (simp add: strict_sorted_iff)
  then show ?thesis by (simp add: sorted_wrt_map)
qed

lemma rest_after:
  assumes "sorted_wrt (\<lambda>v w. cw_id v < cw_id w) l" and "0 < n" and "n \<le> length l"
  shows "filter (\<lambda>w. cw_id (l ! (n - 1)) < cw_id w) l = drop n l"
proof -
  have s: "sorted_wrt (\<lambda>v w. cw_id v < cw_id w) (take n l @ drop n l)" using assms(1) by simp
  have nth: "l ! (n - 1) \<in> set (take n l)" using assms(2,3) by (auto simp: in_set_conv_nth intro!: exI [of _ "n - 1"])
  have a: "\<not> cw_id (l ! (n - 1)) < cw_id w" if w: "w \<in> set (take n l)" for w
  proof -
    obtain j where jl: "j < length (take n l)" and jw: "take n l ! j = w" using w unfolding in_set_conv_nth by blast
    have jn: "j < n" using jl by simp
    have j: "w = l ! j" using jw jn nth_take by metis
    show ?thesis
    proof (cases "j = n - 1")
      case False
      then have "cw_id w < cw_id (l ! (n - 1))" using sorted_wrt_nth_less [OF assms(1), of j "n - 1"] j jn assms(2,3) by simp
      then show ?thesis by simp
    qed (use j in simp)
  qed
  have b: "cw_id (l ! (n - 1)) < cw_id w" if "w \<in> set (drop n l)" for w
    using s nth that unfolding sorted_wrt_append by blast
  have "filter (\<lambda>w. cw_id (l ! (n - 1)) < cw_id w) (take n l) = []" "filter (\<lambda>w. cw_id (l ! (n - 1)) < cw_id w) (drop n l) = drop n l"
    using a b by (simp_all add: filter_empty_conv filter_id_conv)
  then show ?thesis by (metis append_take_drop_id filter_append append_Nil)
qed

lemma active_from:
  assumes "after < x"
  shows "filter (\<lambda>w. x < cw_id w) (active_after device binding after now s) = active_after device binding x now s"
proof -
  have "(\<lambda>w. x < cw_id w \<and> after < cw_id w \<and> active_row device binding now w) = (\<lambda>w. x < cw_id w \<and> active_row device binding now w)"
    using assms less_trans by blast
  then show ?thesis unfolding active_after_def by (simp add: filter_sort conj_comms)
qed

text \<open>One page and the cursor it gives.\<close>

lemma page_split:
  assumes "device \<noteq> []" "binding \<noteq> []" "length after \<le> 200" "1 \<le> limit" "limit \<le> 64"
  shows "ActiveInvitationPage device binding after limit now s =
     (let l = active_after device binding after now s; n = nat limit in
      Inr (map shown_row (take n l), if n < length l then cb_ID (cw_record (l ! (n - 1))) else []))"
proof -
  let ?l = "active_after device binding after now s" and ?n = "nat limit"
  have n: "nat (limit + 1) = Suc ?n" "0 < ?n" using assms by auto
  have cursor: "cb_ID (last (map shown_row (take ?n ?l))) = cb_ID (cw_record (?l ! (?n - 1)))" if "?n < length ?l"
  proof -
    have "take ?n ?l \<noteq> []" using that n(2) by auto
    then have "last (map shown_row (take ?n ?l)) = shown_row (?l ! (?n - 1))"
      using that by (simp add: last_map last_conv_nth)
    then show ?thesis by (simp add: shown_ID)
  qed
  have shown: "(\<lambda>w. decode_callback (without_report (cw_record w))) = shown_row" by (simp add: fun_eq_iff shown_row_def)
  show ?thesis
    using assms cursor unfolding ActiveInvitationPage_def Let_def active_after_def [symmetric] n(1) shown
    by (auto simp: min_def)
qed


section \<open>Completeness\<close>

lemma nonempty_above: "x \<noteq> [] \<Longrightarrow> [] < (x :: string)"
  by (cases x) simp_all

lemma follow_from:
  assumes "device \<noteq> []" "binding \<noteq> []" "1 \<le> limit" "limit \<le> 64" and ids: "distinct (map cw_id (cs_rows s))"
    "\<forall>w\<in>set (cs_rows s). cb_ID (cw_record w) = cw_id w \<and> cw_id w \<noteq> [] \<and> length (cw_id w) \<le> 200"
  shows "length after \<le> 200 \<Longrightarrow> length (active_after device binding after now s) < k
    \<Longrightarrow> follow_pages k device binding after limit now s = Some (map shown_row (active_after device binding after now s))"
proof (induction k arbitrary: after)
  case (Suc k)
  let ?l = "active_after device binding after now s" and ?n = "nat limit"
  have n: "0 < ?n" using assms(3) by simp
  show ?case
  proof (cases "?n < length ?l")
    case False
    then show ?thesis using page_split [OF assms(1,2) Suc.prems(1) assms(3,4)] by simp
  next
    case True
    let ?x = "cw_id (?l ! (?n - 1))"
    have "?l ! (?n - 1) \<in> set ?l" using True n by (simp add: less_imp_diff_less)
    then have x: "after < ?x" "?x \<noteq> []" "length ?x \<le> 200" "cb_ID (cw_record (?l ! (?n - 1))) = ?x"
      using ids(2) by (auto simp: active_after_def)
    have rest: "active_after device binding ?x now s = drop ?n ?l"
      using active_from [OF x(1), of device binding now s] rest_after [OF strictly_sorted [OF ids(1)] n, of device binding after now] True
      by simp
    then have "follow_pages k device binding ?x limit now s = Some (map shown_row (drop ?n ?l))"
      using Suc.IH [OF x(3)] Suc.prems(2) n True by simp
    then show ?thesis
      using page_split [OF assms(1,2) Suc.prems(1) assms(3,4), of now s] True x(2,4)
      by (simp add: Let_def flip: map_append)
  qed
qed simp

text \<open>
  Every active invitation is shown once. A device that follows the pages of a reachable store from the
  beginning, with any page size that is allowed, gets after finitely many pages exactly the enabled,
  unexpired invitations for it that wait or ring, in the order of their identifiers and without the
  reports.
\<close>

theorem invitation_pages_are_complete:
  assumes "(cb_step h)\<^sup>*\<^sup>* empty_callbacks s" and "session_in_key h" and "device \<noteq> []" and "binding \<noteq> []"
    and "1 \<le> limit" and "limit \<le> 64" and "\<forall>w\<in>set (cs_rows s). cw_id w \<noteq> [] \<and> length (cw_id w) \<le> 200"
  shows "follow_pages (Suc (length (cs_rows s))) device binding [] limit now s =
    Some (map shown_row (sort_key cw_id (filter (active_row device binding now) (cs_rows s))))"
proof -
  have inv: "cb_inv h s" using inv_reachable assms by blast
  have "filter (\<lambda>w. [] < cw_id w \<and> active_row device binding now w) (cs_rows s) = filter (active_row device binding now) (cs_rows s)"
    using assms(7) nonempty_above by (intro filter_cong) auto
  then have "active_after device binding [] now s = sort_key cw_id (filter (active_row device binding now) (cs_rows s))"
    by (simp add: active_after_def)
  moreover have "length (active_after device binding [] now s) < Suc (length (cs_rows s))"
    by (simp add: active_after_def le_imp_less_Suc)
  ultimately show ?thesis
    using follow_from [OF assms(3-6), of s "[]" now "Suc (length (cs_rows s))"] inv assms(7)
    by (simp add: cb_inv_def del: follow_pages.simps)
qed

theorem invitation_pages_are_complete_witness:
  "\<exists>page. follow_pages 3 ''phone'' ''bd'' [] 1 10 demo_sealed = Some page \<and> map cb_ID page = [''a'']"
proof -
  have rows: "\<forall>w\<in>set (cs_rows demo_sealed). cw_id w \<noteq> [] \<and> length (cw_id w) \<le> 200" "length (cs_rows demo_sealed) = 2"
    by (simp_all add: demo_cb_eval)
  have "map cb_ID (map shown_row (sort_key cw_id (filter (active_row ''phone'' ''bd'' 10) (cs_rows demo_sealed)))) = [''a'']"
    by (simp add: demo_cb_eval active_row_def shown_row_def without_report_def)
  with invitation_pages_are_complete [OF demo_run demo_key, of "''phone''" "''bd''" 1 10] rows show ?thesis
    by (simp add: numeral_3_eq_3)
qed

end
