(* ===== verification/Event_Inbox.thy ===== *)
theory Event_Inbox
  imports Bridge_Prelude "HOL-Library.Char_ord" "HOL-Library.List_Lexorder" "HOL-Library.Product_Lexorder"
begin

text \<open>
  The inbox of external events (\<^verbatim>\<open>internal/eventinbox\<close>): events of any source with a key, what
  each device has read, attachments that are fetched under a lease, and the checkpoints of sources that
  are polled.

  A table is the list of its rows or a map from its key; deleting an event deletes what refers to it, as
  the foreign keys say. One transaction is one update. A random identifier is an argument; parsing a URL
  into scheme and host and recognising a JSON object are the fields of \<open>inbox_lib\<close>, and so is the
  digest in the identifier of an attachment.
\<close>

section \<open>Tables\<close>

definition maxEvents :: nat where
  "maxEvents = 10000"

definition defaultListSize :: int where
  "defaultListSize = 500"

definition defaultTTL_ms :: int where
  "defaultTTL_ms = 30 * 24 * 60 * 60 * 1000"

definition maxDataBytes :: nat where
  "maxDataBytes = 16 * 1024"

record AttachmentInput =
  ai_ExternalID :: string
  ai_SourceURL :: string
  ai_MIMEType :: string
  ai_DisplayName :: string
  ai_Ordinal :: int

record event_input =
  in_Source :: string
  in_EventKey :: string
  in_Kind :: string
  in_Severity :: string
  in_Title :: string
  in_Body :: string
  in_URL :: string
  in_Data :: string
  in_OccurredAt :: int
  in_ExpiresAt :: int
  in_Attachments :: "AttachmentInput list"

record Event =
  ev_ID :: string
  ev_Sequence :: nat
  ev_AuthorityInstanceID :: string
  ev_Source :: string
  ev_EventKey :: string
  ev_Kind :: string
  ev_Severity :: string
  ev_Title :: string
  ev_Body :: string
  ev_URL :: string
  ev_Data :: string
  ev_OccurredAt :: int
  ev_ReceivedAt :: int
  ev_ExpiresAt :: int

record attachment_row =
  at_ID :: string
  at_EventID :: string
  at_ExternalID :: string
  at_Ordinal :: int
  at_Status :: string
  at_SourceURL :: string
  at_LocalPath :: string
  at_MIMEType :: string
  at_DisplayName :: string
  at_SizeBytes :: int
  at_SHA256 :: string
  at_ErrorCode :: string
  at_Attempt :: int
  at_AvailableAt :: int
  at_LeaseOwner :: string
  at_LeaseUntil :: int
  at_CreatedAt :: int
  at_UpdatedAt :: int

record inbox =
  ib_instance :: string
  ib_events :: "Event list"
  ib_seq :: nat
  ib_device :: "string \<times> string \<rightharpoonup> bool \<times> bool"
  ib_attachments :: "attachment_row list"
  ib_cursors :: "string \<times> string \<rightharpoonup> string"

definition empty_inbox :: "string \<Rightarrow> inbox" where
  "empty_inbox inst =
     \<lparr>ib_instance = inst, ib_events = [], ib_seq = 0, ib_device = Map.empty, ib_attachments = [], ib_cursors = Map.empty\<rparr>"

datatype inbox_error =
    MissingKey | TooLong | BadURL | BadSeverity | AlreadyExpired | BadData | BadAttachment | EventNotFound
  | IDsRequired | InvalidBatch | BatchScope | BatchAttachments | CursorConflict | SqlFailure

record inbox_lib =
  lib_url :: "string \<Rightarrow> (string \<times> string) option"
  lib_object :: "string \<Rightarrow> bool"
  lib_attachment_id :: "string \<Rightarrow> string \<Rightarrow> int \<Rightarrow> string"

section \<open>Normalisation\<close>

definition severities :: "string set" where
  "severities = {''info'', ''success'', ''warning'', ''error'', ''critical''}"

definition trimmed_input :: "event_input \<Rightarrow> event_input" where
  "trimmed_input i =
     (let sev = to_lower (trim_space (in_Severity i)) in
      i\<lparr>in_Source := trim_space (in_Source i), in_EventKey := trim_space (in_EventKey i), in_Kind := trim_space (in_Kind i),
        in_Severity := (if sev = [] then ''info'' else sev), in_Title := trim_space (in_Title i), in_URL := trim_space (in_URL i)\<rparr>)"

definition web_url :: "inbox_lib \<Rightarrow> string set \<Rightarrow> string \<Rightarrow> bool" where
  "web_url l schemes u \<longleftrightarrow> (case lib_url l u of None \<Rightarrow> False | Some (scheme, host) \<Rightarrow> scheme \<in> schemes \<and> host \<noteq> [])"

definition normalizeInput :: "inbox_lib \<Rightarrow> int \<Rightarrow> event_input \<Rightarrow> inbox_error + event_input" where
  "normalizeInput l now i0 =
     (let i = trimmed_input i0 in
      if in_Source i = [] \<or> 64 < length (in_Source i) \<or> in_EventKey i = [] \<or> 128 < length (in_EventKey i)
         \<or> in_Kind i = [] \<or> 64 < length (in_Kind i) then Inl MissingKey
      else if in_Title i = [] \<or> 240 < length (in_Title i) \<or> 32 * 1024 < length (in_Body i) \<or> 2048 < length (in_URL i)
      then Inl TooLong
      else if in_URL i \<noteq> [] \<and> \<not> web_url l {''https'', ''http''} (in_URL i) then Inl BadURL
      else if in_Severity i \<notin> severities then Inl BadSeverity
      else
        let i1 = i\<lparr>in_OccurredAt := (if in_OccurredAt i = 0 then now else in_OccurredAt i),
                   in_ExpiresAt := (if in_ExpiresAt i = 0 then now + defaultTTL_ms else in_ExpiresAt i)\<rparr> in
        if in_ExpiresAt i1 \<le> now then Inl AlreadyExpired
        else let i2 = i1\<lparr>in_Data := (if in_Data i1 = [] then ''{}'' else in_Data i1)\<rparr> in
             if maxDataBytes < length (in_Data i2) \<or> \<not> lib_object l (in_Data i2) then Inl BadData
             else Inr i2)"

definition validateAttachmentInput :: "inbox_lib \<Rightarrow> AttachmentInput \<Rightarrow> bool" where
  "validateAttachmentInput l a \<longleftrightarrow>
     \<not> (ai_Ordinal a < 0 \<or> 100 < ai_Ordinal a \<or> 256 < length (ai_ExternalID a) \<or> 240 < length (ai_DisplayName a)
        \<or> 128 < length (ai_MIMEType a))
     \<and> web_url l {''https''} (trim_space (ai_SourceURL a)) \<and> length (ai_SourceURL a) \<le> 4096"

section \<open>Events\<close>

definition getBySourceKey :: "string \<Rightarrow> string \<Rightarrow> inbox \<Rightarrow> Event option" where
  "getBySourceKey source key s = find (\<lambda>e. ev_Source e = source \<and> ev_EventKey e = key) (ib_events s)"

definition getByID :: "string \<Rightarrow> inbox \<Rightarrow> Event option" where
  "getByID eid s = find (\<lambda>e. ev_ID e = eid) (ib_events s)"

text \<open>Deleting events deletes the rows that refer to them.\<close>

definition delete_events :: "(Event \<Rightarrow> bool) \<Rightarrow> inbox \<Rightarrow> inbox" where
  "delete_events gone s =
     (let evs = filter (\<lambda>e. \<not> gone e) (ib_events s); ids = ev_ID ` set evs in
      s\<lparr>ib_events := evs,
        ib_device := (\<lambda>(eid, dev). if eid \<in> ids then ib_device s (eid, dev) else None),
        ib_attachments := filter (\<lambda>a. at_EventID a \<in> ids) (ib_attachments s)\<rparr>)"

definition newest :: "string \<Rightarrow> Event list \<Rightarrow> Event list" where
  "newest source evs = rev (sort_key ev_Sequence (filter (\<lambda>e. ev_Source e = source) evs))"

definition gcTx :: "int \<Rightarrow> string \<Rightarrow> inbox \<Rightarrow> inbox" where
  "gcTx now source s =
     (let s1 = delete_events (\<lambda>e. ev_ExpiresAt e \<le> now) s;
          old = ev_Sequence ` set (drop maxEvents (newest source (ib_events s1)))
      in delete_events (\<lambda>e. ev_Sequence e \<in> old) s1)"

definition insert_event :: "int \<Rightarrow> string \<Rightarrow> event_input \<Rightarrow> inbox \<Rightarrow> bool \<times> inbox" where
  "insert_event now eid i s =
     (if \<exists>e\<in>set (ib_events s). ev_ID e = eid \<or> ev_Source e = in_Source i \<and> ev_EventKey e = in_EventKey i then (False, s)
      else let n = Suc (ib_seq s) in
        (True, s\<lparr>ib_seq := n, ib_events := ib_events s @
           [\<lparr>ev_ID = eid, ev_Sequence = n, ev_AuthorityInstanceID = ib_instance s, ev_Source = in_Source i,
             ev_EventKey = in_EventKey i, ev_Kind = in_Kind i, ev_Severity = in_Severity i, ev_Title = in_Title i,
             ev_Body = in_Body i, ev_URL = in_URL i, ev_Data = in_Data i, ev_OccurredAt = in_OccurredAt i,
             ev_ReceivedAt = now, ev_ExpiresAt = in_ExpiresAt i\<rparr>]\<rparr>))"

definition attachment_of :: "inbox_lib \<Rightarrow> int \<Rightarrow> string \<Rightarrow> AttachmentInput \<Rightarrow> attachment_row" where
  "attachment_of l now eid a =
     \<lparr>at_ID = lib_attachment_id l eid (ai_ExternalID a) (ai_Ordinal a), at_EventID = eid,
      at_ExternalID = trim_space (ai_ExternalID a), at_Ordinal = ai_Ordinal a, at_Status = ''pending'',
      at_SourceURL = trim_space (ai_SourceURL a), at_LocalPath = [], at_MIMEType = trim_space (ai_MIMEType a),
      at_DisplayName = trim_space (ai_DisplayName a), at_SizeBytes = 0, at_SHA256 = [], at_ErrorCode = [], at_Attempt = 0,
      at_AvailableAt = now, at_LeaseOwner = [], at_LeaseUntil = 0, at_CreatedAt = now, at_UpdatedAt = now\<rparr>"

definition insert_attachment :: "attachment_row \<Rightarrow> attachment_row list \<Rightarrow> attachment_row list" where
  "insert_attachment a rows =
     (if \<exists>b\<in>set rows. at_ID b = at_ID a \<or> at_EventID b = at_EventID a \<and> at_Ordinal b = at_Ordinal a then rows
      else rows @ [a])"

fun insert_attachments ::
  "inbox_lib \<Rightarrow> int \<Rightarrow> string \<Rightarrow> int \<Rightarrow> AttachmentInput list \<Rightarrow> attachment_row list \<Rightarrow> attachment_row list option" where
  "insert_attachments l now eid index [] rows = Some rows"
| "insert_attachments l now eid index (a # as) rows =
     (let a' = (if ai_Ordinal a < 0 then a\<lparr>ai_Ordinal := index\<rparr> else a) in
      if \<not> validateAttachmentInput l a' then None
      else insert_attachments l now eid (index + 1) as (insert_attachment (attachment_of l now eid a') rows))"

definition Attachments :: "string \<Rightarrow> inbox \<Rightarrow> attachment_row list" where
  "Attachments eid s = sort_key (\<lambda>a. (at_Ordinal a, at_ID a)) (filter (\<lambda>a. at_EventID a = eid) (ib_attachments s))"

definition InsertWithAttachments ::
  "inbox_lib \<Rightarrow> int \<Rightarrow> string \<Rightarrow> event_input \<Rightarrow> AttachmentInput list \<Rightarrow> inbox
   \<Rightarrow> (inbox_error + (Event \<times> attachment_row list) \<times> bool) \<times> inbox" where
  "InsertWithAttachments l now eid i0 atts s =
     (case normalizeInput l now i0 of
        Inl e \<Rightarrow> (Inl e, s)
      | Inr i \<Rightarrow>
          let (inserted, s2) = insert_event now eid i (gcTx now (in_Source i) s) in
          case getBySourceKey (in_Source i) (in_EventKey i) s2 of
            None \<Rightarrow> (Inl EventNotFound, s)
          | Some ev \<Rightarrow>
              if \<not> inserted then (Inr ((ev, Attachments (ev_ID ev) s2), True), s2)
              else case insert_attachments l now (ev_ID ev) 0 atts (ib_attachments s2) of
                None \<Rightarrow> (Inl BadAttachment, s)
              | Some rows \<Rightarrow>
                  let s3 = s2\<lparr>ib_attachments := rows\<rparr> in (Inr ((ev, Attachments (ev_ID ev) s3), False), s3))"

definition Insert_event ::
  "inbox_lib \<Rightarrow> int \<Rightarrow> string \<Rightarrow> event_input \<Rightarrow> inbox \<Rightarrow> (inbox_error + (Event \<times> attachment_row list) \<times> bool) \<times> inbox" where
  "Insert_event l now eid i s = InsertWithAttachments l now eid i [] s"

definition Get_event :: "string \<Rightarrow> inbox \<Rightarrow> inbox_error + Event \<times> attachment_row list" where
  "Get_event eid s = (case getByID eid s of None \<Rightarrow> Inl EventNotFound | Some e \<Rightarrow> Inr (e, Attachments eid s))"

section \<open>Devices\<close>

record event_view =
  vw_Event :: Event
  vw_Attachments :: "attachment_row list"
  vw_Read :: bool
  vw_Dismissed :: bool

definition device_state :: "string \<Rightarrow> string \<Rightarrow> inbox \<Rightarrow> bool \<times> bool" where
  "device_state eid dev s = (case ib_device s (eid, dev) of None \<Rightarrow> (False, False) | Some x \<Rightarrow> x)"

text \<open>The reserved prefix is ASCII, so its length in bytes is its length in characters.\<close>

definition source_visible :: "string \<Rightarrow> string list \<Rightarrow> string \<Rightarrow> bool" where
  "source_visible reservedPrefix allowed source \<longleftrightarrow>
     reservedPrefix = [] \<or> take (length reservedPrefix) source \<noteq> reservedPrefix \<or> source \<in> set allowed"

definition snapshotForSources ::
  "int \<Rightarrow> string \<Rightarrow> int \<Rightarrow> string \<Rightarrow> string list \<Rightarrow> bool \<Rightarrow> inbox \<Rightarrow> nat \<times> event_view list" where
  "snapshotForSources now dev limit0 reservedPrefix allowed archived s =
     (let limit = (if limit0 \<le> 0 \<or> defaultListSize < limit0 then defaultListSize else limit0);
          evs = take (nat limit) (rev (sort_key ev_Sequence (filter (\<lambda>e. now < ev_ExpiresAt e
                  \<and> (archived \<or> \<not> snd (device_state (ev_ID e) dev s)) \<and> source_visible reservedPrefix allowed (ev_Source e)) (ib_events s))));
          items = map (\<lambda>e. \<lparr>vw_Event = e, vw_Attachments = Attachments (ev_ID e) s, vw_Read = fst (device_state (ev_ID e) dev s),
                            vw_Dismissed = snd (device_state (ev_ID e) dev s)\<rparr>) evs
      in (foldr (\<lambda>e m. max (ev_Sequence e) m) evs 0, items))"

definition Mark :: "string \<Rightarrow> string \<Rightarrow> bool option \<Rightarrow> bool option \<Rightarrow> inbox \<Rightarrow> (inbox_error + event_view) \<times> inbox" where
  "Mark eid dev rd dismissed s =
     (if trim_space eid = [] \<or> trim_space dev = [] then (Inl IDsRequired, s)
      else case getByID eid s of
        None \<Rightarrow> (Inl EventNotFound, s)
      | Some e \<Rightarrow>
          let (r0, d0) = device_state eid dev s;
              r = (case rd of None \<Rightarrow> r0 | Some x \<Rightarrow> x);
              d = (case dismissed of None \<Rightarrow> d0 | Some x \<Rightarrow> x)
          in (Inr \<lparr>vw_Event = e, vw_Attachments = [], vw_Read = r, vw_Dismissed = d\<rparr>,
              s\<lparr>ib_device := (ib_device s)((eid, dev) \<mapsto> (r, d))\<rparr>))"

section \<open>Attachment fetches\<close>

definition GetAttachment :: "string \<Rightarrow> inbox \<Rightarrow> inbox_error + attachment_row" where
  "GetAttachment aid s = (case find (\<lambda>a. at_ID a = aid) (ib_attachments s) of None \<Rightarrow> Inl EventNotFound | Some a \<Rightarrow> Inr a)"

definition claimable :: "int \<Rightarrow> attachment_row \<Rightarrow> bool" where
  "claimable now a \<longleftrightarrow> at_Status a \<in> {''pending'', ''retry''} \<and> at_AvailableAt a \<le> now \<and> at_LeaseUntil a \<le> now"

definition update_attachment :: "(attachment_row \<Rightarrow> bool) \<Rightarrow> (attachment_row \<Rightarrow> attachment_row) \<Rightarrow> inbox \<Rightarrow> inbox" where
  "update_attachment p f s = s\<lparr>ib_attachments := map (\<lambda>a. if p a then f a else a) (ib_attachments s)\<rparr>"

definition ClaimAttachmentFetch :: "string \<Rightarrow> int \<Rightarrow> int \<Rightarrow> inbox \<Rightarrow> attachment_row option \<times> inbox" where
  "ClaimAttachmentFetch owner now lease_ms s =
     (case sort_key (\<lambda>a. (at_AvailableAt a, at_Ordinal a, at_ID a)) (filter (claimable now) (ib_attachments s)) of
        [] \<Rightarrow> (None, s)
      | a # _ \<Rightarrow>
          let f = (\<lambda>b. b\<lparr>at_Status := ''fetching'', at_Attempt := at_Attempt a + 1, at_LeaseOwner := owner,
                         at_LeaseUntil := now + lease_ms, at_UpdatedAt := now\<rparr>)
          in (Some (a\<lparr>at_Status := ''fetching'', at_Attempt := at_Attempt a + 1\<rparr>),
              update_attachment (\<lambda>b. at_ID b = at_ID a \<and> at_Status b \<in> {''pending'', ''retry''} \<and> at_LeaseUntil b \<le> now) f s))"

definition leased_to :: "string \<Rightarrow> string \<Rightarrow> attachment_row \<Rightarrow> bool" where
  "leased_to aid owner a \<longleftrightarrow> at_ID a = aid \<and> at_Status a = ''fetching'' \<and> at_LeaseOwner a = owner"

definition CompleteAttachmentFetch ::
  "int \<Rightarrow> string \<Rightarrow> string \<Rightarrow> string \<Rightarrow> string \<Rightarrow> string \<Rightarrow> int \<Rightarrow> inbox \<Rightarrow> inbox_error option \<times> inbox" where
  "CompleteAttachmentFetch now aid owner path mime digest bytes s =
     (if \<exists>a\<in>set (ib_attachments s). leased_to aid owner a
      then (None, update_attachment (leased_to aid owner) (\<lambda>a. a\<lparr>at_Status := ''available'', at_SourceURL := [],
              at_LocalPath := path, at_MIMEType := mime, at_SizeBytes := bytes, at_SHA256 := digest, at_ErrorCode := [],
              at_LeaseOwner := [], at_LeaseUntil := 0, at_UpdatedAt := now\<rparr>) s)
      else (Some EventNotFound, s))"

text \<open>
  The statement of \<^verbatim>\<open>FailAttachmentFetch\<close> has seven parameters and is given six values: the error
  code is never passed. The driver refuses to run a statement with a missing value, so the call always
  fails and changes nothing.
\<close>

definition FailAttachmentFetch :: "string \<Rightarrow> string \<Rightarrow> string \<Rightarrow> int \<Rightarrow> bool \<Rightarrow> inbox \<Rightarrow> inbox_error option \<times> inbox" where
  "FailAttachmentFetch aid owner code retryAt terminal s = (Some SqlFailure, s)"

section \<open>Source checkpoints\<close>

definition SourceCursor :: "string \<Rightarrow> string \<Rightarrow> inbox \<Rightarrow> string" where
  "SourceCursor source stream s = (case ib_cursors s (source, stream) of None \<Rightarrow> [] | Some c \<Rightarrow> c)"

fun normalize_batch :: "inbox_lib \<Rightarrow> int \<Rightarrow> string \<Rightarrow> event_input list \<Rightarrow> inbox_error + event_input list" where
  "normalize_batch l now source [] = Inr []"
| "normalize_batch l now source (i # is) =
     (if in_Source i \<noteq> source then Inl BatchScope
      else case normalizeInput l now i of
        Inl e \<Rightarrow> Inl e
      | Inr n \<Rightarrow>
          if in_Attachments i \<noteq> [] then Inl BatchAttachments
          else case normalize_batch l now source is of Inl e \<Rightarrow> Inl e | Inr ns \<Rightarrow> Inr (n # ns))"

fun insert_batch :: "int \<Rightarrow> string \<Rightarrow> (event_input \<times> string) list \<Rightarrow> inbox \<Rightarrow> (Event list \<times> inbox) option" where
  "insert_batch now source [] s = Some ([], s)"
| "insert_batch now source ((i, eid) # is) s =
     (let (inserted, s1) = insert_event now eid i s in
      if \<not> inserted then insert_batch now source is s1
      else case getBySourceKey source (in_EventKey i) s1 of
        None \<Rightarrow> None
      | Some ev \<Rightarrow> map_option (\<lambda>(evs, s2). (ev # evs, s2)) (insert_batch now source is s1))"

definition trim_source :: "int \<Rightarrow> string \<Rightarrow> inbox \<Rightarrow> inbox" where
  "trim_source now source s =
     (let keep = ev_Sequence ` set (take maxEvents (newest source (ib_events s)))
      in delete_events (\<lambda>e. ev_Source e = source \<and> (ev_ExpiresAt e \<le> now \<or> ev_Sequence e \<notin> keep)) s)"

text \<open>\<open>ids\<close> are the random identifiers, one for every input; the next checkpoint is not a nil slice.\<close>

definition CommitSourceBatch ::
  "inbox_lib \<Rightarrow> int \<Rightarrow> string list \<Rightarrow> string \<Rightarrow> string \<Rightarrow> string \<Rightarrow> string \<Rightarrow> event_input list \<Rightarrow> inbox
   \<Rightarrow> (inbox_error + Event list) \<times> inbox" where
  "CommitSourceBatch l now ids source stream expected nxt inputs s =
     (if source = [] \<or> 64 < length source \<or> stream = [] \<or> 128 < length stream \<or> 16384 < length nxt \<or> 100 < length inputs
      then (Inl InvalidBatch, s)
      else case normalize_batch l now source inputs of
        Inl e \<Rightarrow> (Inl e, s)
      | Inr ns \<Rightarrow>
          if SourceCursor source stream s \<noteq> expected then (Inl CursorConflict, s)
          else case insert_batch now source (zip ns ids) s of
            None \<Rightarrow> (Inl EventNotFound, s)
          | Some (evs, s1) \<Rightarrow>
              let s2 = trim_source now source s1
              in (Inr evs, s2\<lparr>ib_cursors := (ib_cursors s2)((source, stream) \<mapsto> nxt)\<rparr>))"

end
