(* ===== verification/Inbox_Properties.thy ===== *)
theory Inbox_Properties
  imports Event_Inbox
begin

text \<open>
  What the inbox promises over any history: a key of a source has one event, the tables refer to each
  other and stay bounded, a batch of a polled source is applied once. And what it does not: a fetch that
  failed is never tried again, and a batch loses an event whose key is held by an expired one.
\<close>

section \<open>Histories\<close>

text \<open>\<open>D\<close> says which leases are completed.\<close>

inductive inbox_step :: "inbox_lib \<Rightarrow> (string \<Rightarrow> string \<Rightarrow> bool) \<Rightarrow> inbox \<Rightarrow> inbox \<Rightarrow> bool" for l D where
  ib_insert: "inbox_step l D s (snd (InsertWithAttachments l now eid i atts s))"
| ib_mark: "inbox_step l D s (snd (Mark eid dev rd dismissed s))"
| ib_claim: "inbox_step l D s (snd (ClaimAttachmentFetch owner now lease_ms s))"
| ib_complete: "D aid owner \<Longrightarrow> inbox_step l D s (snd (CompleteAttachmentFetch now aid owner path mime digest bytes s))"
| ib_fail: "inbox_step l D s (snd (FailAttachmentFetch aid owner code retryAt terminal s))"
| ib_batch: "inbox_step l D s (snd (CommitSourceBatch l now ids source stream expected nxt inputs s))"

definition event_key :: "Event \<Rightarrow> string \<times> string" where
  "event_key e = (ev_Source e, ev_EventKey e)"

definition events_ok :: "nat \<Rightarrow> Event list \<Rightarrow> bool" where
  "events_ok n evs \<longleftrightarrow>
     sorted_wrt (<) (map ev_Sequence evs) \<and> (\<forall>e\<in>set evs. ev_Sequence e \<le> n)
     \<and> distinct (map ev_ID evs) \<and> distinct (map event_key evs)"

definition refers :: "inbox \<Rightarrow> bool" where
  "refers s \<longleftrightarrow>
     (\<forall>eid dev. ib_device s (eid, dev) \<noteq> None \<longrightarrow> eid \<in> ev_ID ` set (ib_events s))
     \<and> (\<forall>a\<in>set (ib_attachments s). at_EventID a \<in> ev_ID ` set (ib_events s))"

definition source_count :: "string \<Rightarrow> Event list \<Rightarrow> nat" where
  "source_count src evs = length (filter (\<lambda>e. ev_Source e = src) evs)"

definition inbox_inv :: "inbox \<Rightarrow> bool" where
  "inbox_inv s \<longleftrightarrow> events_ok (ib_seq s) (ib_events s) \<and> refers s \<and> (\<forall>src. source_count src (ib_events s) \<le> Suc maxEvents)
     \<and> (\<forall>e\<in>set (ib_events s). trim_space (ev_Source e) = ev_Source e)"

section \<open>Deleting\<close>

lemma events_ok_filter: "events_ok n evs \<Longrightarrow> events_ok n (filter P evs)"
  by (auto simp: events_ok_def sorted_wrt_map sorted_wrt_filter distinct_map inj_on_def)

lemma delete_fields [simp]:
  "ib_events (delete_events gone s) = filter (\<lambda>e. \<not> gone e) (ib_events s)"
  "ib_seq (delete_events gone s) = ib_seq s" "ib_cursors (delete_events gone s) = ib_cursors s"
  "ib_instance (delete_events gone s) = ib_instance s"
  by (simp_all add: delete_events_def Let_def)

lemma delete_refers: "refers (delete_events gone s)"
  by (auto simp: refers_def delete_events_def Let_def split: if_splits)

lemma count_filter_le: "source_count src (filter P evs) \<le> source_count src evs"
  by (induction evs) (simp_all add: source_count_def)

lemma sorted_key_id: "sorted_wrt (<) (map ev_Sequence evs) \<Longrightarrow> sort_key ev_Sequence evs = evs"
  by (metis sort_key_id_if_sorted strict_sorted_iff)

lemma newest_rev: "events_ok n evs \<Longrightarrow> newest src evs = rev (filter (\<lambda>e. ev_Source e = src) evs)"
  using events_ok_filter [of n evs "\<lambda>e. ev_Source e = src"] by (simp add: newest_def sorted_key_id events_ok_def)

lemma seq_inj: "events_ok n evs \<Longrightarrow> inj_on ev_Sequence (set evs) \<and> distinct evs"
  by (metis distinct_map events_ok_def strict_sorted_iff)

text \<open>What is left of a source when everything beyond the newest \<open>k\<close> is deleted.\<close>

lemma capped_count:
  assumes "events_ok n evs" and sub: "\<And>e. e \<in> set evs \<Longrightarrow> ev_Source e = src \<Longrightarrow> P e \<Longrightarrow> e \<in> set (take k (newest src evs))"
  shows "source_count src (filter P evs) \<le> k"
proof -
  let ?kept = "filter (\<lambda>e. ev_Source e = src) (filter P evs)"
  have "distinct ?kept" using seq_inj [OF assms(1)] by simp
  then have "length ?kept = card (set ?kept)" by (rule distinct_card [symmetric])
  also have "\<dots> \<le> card (set (take k (newest src evs)))" using sub by (intro card_mono) auto
  also have "\<dots> \<le> length (take k (newest src evs))" by (rule card_length)
  finally show ?thesis by (simp add: source_count_def)
qed

lemma newest_split:
  assumes "events_ok n evs" and "e \<in> set evs" and "ev_Source e = src"
  shows "e \<in> set (take k (newest src evs)) \<or> e \<in> set (drop k (newest src evs))"
proof -
  have "e \<in> set (newest src evs)" using assms by (simp add: newest_rev)
  then show ?thesis by (metis UnE append_take_drop_id set_append)
qed

lemma gc_events: "\<exists>P. ib_events (gcTx now src s) = filter P (ib_events s)"
  by (auto simp: gcTx_def Let_def)

lemma gc_fields [simp]:
  "ib_seq (gcTx now src s) = ib_seq s" "ib_cursors (gcTx now src s) = ib_cursors s" "ib_instance (gcTx now src s) = ib_instance s"
  "refers (gcTx now src s)"
  by (simp_all add: gcTx_def Let_def delete_refers)

lemma gc_ok: "events_ok n (ib_events s) \<Longrightarrow> events_ok n (ib_events (gcTx now src s))"
  using gc_events [of now src s] events_ok_filter by metis

lemma gc_count:
  assumes "events_ok n (ib_events s)"
  shows "source_count src (ib_events (gcTx now src s)) \<le> maxEvents"
    and "source_count other (ib_events (gcTx now src s)) \<le> source_count other (ib_events s)"
proof -
  let ?evs = "filter (\<lambda>e. \<not> ev_ExpiresAt e \<le> now) (ib_events s)"
  have ok: "events_ok n ?evs" using assms by (rule events_ok_filter)
  have "source_count src (filter (\<lambda>e. ev_Sequence e \<notin> ev_Sequence ` set (drop maxEvents (newest src ?evs))) ?evs) \<le> maxEvents"
  proof (rule capped_count [OF ok])
    fix e assume e: "e \<in> set ?evs" "ev_Source e = src" "ev_Sequence e \<notin> ev_Sequence ` set (drop maxEvents (newest src ?evs))"
    then show "e \<in> set (take maxEvents (newest src ?evs))" using newest_split [OF ok e(1,2), of maxEvents] by blast
  qed
  then show "source_count src (ib_events (gcTx now src s)) \<le> maxEvents" by (simp add: gcTx_def Let_def)
  show "source_count other (ib_events (gcTx now src s)) \<le> source_count other (ib_events s)"
    using gc_events [of now src s] count_filter_le by metis
qed


section \<open>Inserting\<close>

lemma insert_cases:
  obtains (known) e where "insert_event now eid i s = (False, s)" "e \<in> set (ib_events s)"
      "ev_ID e = eid \<or> event_key e = (in_Source i, in_EventKey i)"
  | (fresh) e where "insert_event now eid i s = (True, s\<lparr>ib_seq := Suc (ib_seq s), ib_events := ib_events s @ [e]\<rparr>)"
      "ev_ID e = eid" "ev_Sequence e = Suc (ib_seq s)" "event_key e = (in_Source i, in_EventKey i)"
      "ev_ExpiresAt e = in_ExpiresAt i" "eid \<notin> ev_ID ` set (ib_events s)" "event_key e \<notin> event_key ` set (ib_events s)"
proof (cases "\<exists>e\<in>set (ib_events s). ev_ID e = eid \<or> ev_Source e = in_Source i \<and> ev_EventKey e = in_EventKey i")
  case True
  then obtain e where "e \<in> set (ib_events s)" "ev_ID e = eid \<or> event_key e = (in_Source i, in_EventKey i)"
    by (auto simp: event_key_def)
  then show ?thesis using True by (intro known [of e]) (simp_all add: insert_event_def)
next
  case False
  show ?thesis by (rule fresh) (use False in \<open>auto simp: insert_event_def Let_def event_key_def\<close>)
qed

lemma insert_ok:
  assumes "insert_event now eid i s = (b, s')" and "events_ok (ib_seq s) (ib_events s)" and "refers s"
  shows "events_ok (ib_seq s') (ib_events s')" "refers s'" "ib_attachments s' = ib_attachments s" "ib_cursors s' = ib_cursors s"
    "ib_seq s \<le> ib_seq s'" "source_count src (ib_events s') \<le> source_count src (ib_events s) + (if src = in_Source i then 1 else 0)"
    "set (ib_events s) \<subseteq> set (ib_events s')"
  by (cases rule: insert_cases [of now eid i s];
      use assms in \<open>auto simp: events_ok_def refers_def sorted_wrt_append source_count_def event_key_def\<close>; fastforce)+

lemma batch_ok:
  assumes "insert_batch now src is s = Some (evs, s')" and "events_ok (ib_seq s) (ib_events s)" and "refers s"
    and "\<forall>(i, eid)\<in>set is. in_Source i = src"
  shows "events_ok (ib_seq s') (ib_events s') \<and> refers s' \<and> ib_attachments s' = ib_attachments s \<and> ib_cursors s' = ib_cursors s
     \<and> ib_seq s \<le> ib_seq s' \<and> set (ib_events s) \<subseteq> set (ib_events s')
     \<and> (\<forall>other. other \<noteq> src \<longrightarrow> source_count other (ib_events s') \<le> source_count other (ib_events s))"
  using assms
proof (induction "is" arbitrary: s evs)
  case (Cons x "is")
  obtain i eid where x: "x = (i, eid)" by force
  obtain b s1 where b: "insert_event now eid i s = (b, s1)" by force
  note one = insert_ok [OF b Cons.prems(2,3)]
  obtain evs1 where rest: "insert_batch now src is s1 = Some (evs1, s')"
    using Cons.prems(1) by (auto simp: x b split: if_splits option.splits)
  have src: "in_Source i = src" "\<forall>(i, eid)\<in>set is. in_Source i = src" using Cons.prems(4) by (auto simp: x)
  note ih = Cons.IH [OF rest one(1,2) src(2)]
  have "source_count other (ib_events s') \<le> source_count other (ib_events s)" if "other \<noteq> src" for other
    using ih one(6) [of other] that src(1) by (auto intro: order_trans)
  with ih one(3,4,5,7) show ?case by auto
qed simp


lemma attachments_new:
  "insert_attachments l now eid k atts rows = Some rows' \<Longrightarrow> \<forall>a\<in>set rows'. a \<in> set rows \<or> at_EventID a = eid \<and> at_Status a = ''pending''"
proof (induction atts arbitrary: k rows)
  case (Cons x atts)
  then show ?case by (fastforce simp: Let_def insert_attachment_def attachment_of_def split: if_splits)
qed simp

lemma found_event: "getBySourceKey src key s = Some e \<Longrightarrow> e \<in> set (ib_events s) \<and> event_key e = (src, key)"
  by (auto simp: getBySourceKey_def find_Some_iff event_key_def)

text \<open>The outcomes of an insertion.\<close>

lemma InsertWith_cases:
  obtains (refused) e where "InsertWithAttachments l now eid i atts s = (Inl e, s)"
  | (duplicate) n ev xs s2 where "normalizeInput l now i = Inr n" "insert_event now eid n (gcTx now (in_Source n) s) = (False, s2)"
      "getBySourceKey (in_Source n) (in_EventKey n) s2 = Some ev" "xs = Attachments (ev_ID ev) s2"
      "InsertWithAttachments l now eid i atts s = (Inr ((ev, xs), True), s2)"
  | (stored) n ev xs s2 rows where "normalizeInput l now i = Inr n" "insert_event now eid n (gcTx now (in_Source n) s) = (True, s2)"
      "getBySourceKey (in_Source n) (in_EventKey n) s2 = Some ev" "insert_attachments l now (ev_ID ev) 0 atts (ib_attachments s2) = Some rows"
      "InsertWithAttachments l now eid i atts s = (Inr ((ev, xs), False), s2\<lparr>ib_attachments := rows\<rparr>)"
proof (cases "normalizeInput l now i")
  case (Inl e)
  then show ?thesis by (intro refused) (simp add: InsertWithAttachments_def)
next
  case (Inr n)
  obtain b s2 where b: "insert_event now eid n (gcTx now (in_Source n) s) = (b, s2)" by force
  show ?thesis
  proof (cases "getBySourceKey (in_Source n) (in_EventKey n) s2")
    case None
    then show ?thesis using Inr b by (intro refused) (simp add: InsertWithAttachments_def)
  next
    case (Some ev)
    show ?thesis
    proof (cases b)
      case False
      then show ?thesis using Inr b Some by (intro duplicate) (simp_all add: InsertWithAttachments_def)
    next
      case True
      show ?thesis
      proof (cases "insert_attachments l now (ev_ID ev) 0 atts (ib_attachments s2)")
        case None
        then show ?thesis using Inr b Some True by (intro refused) (simp add: InsertWithAttachments_def)
      next
        case (Some rows)
        then show ?thesis using Inr b \<open>getBySourceKey _ _ s2 = Some ev\<close> True
          by (intro stored [of n s2 ev rows]) (simp_all add: InsertWithAttachments_def Let_def)
      qed
    qed
  qed
qed

lemma normalized_source: "normalizeInput l now i = Inr n \<Longrightarrow> trim_space (in_Source n) = in_Source n \<and> in_Source n = trim_space (in_Source i)"
  by (auto simp: normalizeInput_def trimmed_input_def Let_def split: if_splits)

lemma insert_trimmed:
  assumes "insert_event now eid n s = (b, s2)" and "\<forall>e\<in>set (ib_events s). trim_space (ev_Source e) = ev_Source e"
    and "trim_space (in_Source n) = in_Source n \<and> in_Source n = x"
  shows "\<forall>e\<in>set (ib_events s2). trim_space (ev_Source e) = ev_Source e"
  using assms by (cases rule: insert_cases [of now eid n s]) (auto simp: event_key_def)

lemma inv_insert: "inbox_inv s \<Longrightarrow> inbox_inv (snd (InsertWithAttachments l now eid i atts s))"
proof -
  assume inv: "inbox_inv s"
  have step: "inbox_inv s2"
    if "insert_event now eid n (gcTx now (in_Source n) s) = (b, s2)" and n: "normalizeInput l now i = Inr n" for n b s2
  proof -
    have ok: "events_ok (ib_seq s) (ib_events s)" using inv by (simp add: inbox_inv_def)
    note i = insert_ok [OF that(1)]
    have "\<forall>e\<in>set (ib_events (gcTx now (in_Source n) s)). trim_space (ev_Source e) = ev_Source e"
      using inv gc_events [of now "in_Source n" s] by (auto simp: inbox_inv_def)
    then have trims: "\<forall>e\<in>set (ib_events s2). trim_space (ev_Source e) = ev_Source e"
      by (rule insert_trimmed [OF that(1) _ normalized_source [OF n]])
    have "source_count src (ib_events s2) \<le> Suc maxEvents" for src
    proof (cases "src = in_Source n")
      case True
      then show ?thesis using i(6) [of src] gc_count(1) [OF ok, of "in_Source n" now] gc_ok [OF ok] by simp
    next
      case False
      have "source_count src (ib_events s) \<le> Suc maxEvents" using inv by (simp add: inbox_inv_def)
      then show ?thesis using False i(6) [of src] gc_count(2) [OF ok, of src now "in_Source n"] gc_ok [OF ok] by simp
    qed
    then show ?thesis using i(1,2) gc_ok [OF ok] trims by (simp add: inbox_inv_def)
  qed
  show ?thesis
  proof (cases rule: InsertWith_cases [of l now eid i atts s])
    case (stored n ev xs s2 rows)
    have "ev_ID ev \<in> ev_ID ` set (ib_events s2)" using found_event [OF stored(3)] by blast
    then have "refers (s2\<lparr>ib_attachments := rows\<rparr>)"
      using attachments_new [OF stored(4)] step [OF stored(2,1)] by (auto simp: inbox_inv_def refers_def)
    then show ?thesis using step [OF stored(2,1)] by (simp add: stored(5) inbox_inv_def)
  next
    case (duplicate n ev xs s2)
    then show ?thesis using step [OF duplicate(2,1)] by simp
  qed (use inv in simp)
qed

lemma update_fields [simp]:
  "ib_events (update_attachment p f s) = ib_events s" "ib_seq (update_attachment p f s) = ib_seq s"
  "ib_device (update_attachment p f s) = ib_device s" "ib_cursors (update_attachment p f s) = ib_cursors s"
  by (simp_all add: update_attachment_def)

lemma inv_update:
  assumes "inbox_inv s" and "\<And>a. at_EventID (f a) = at_EventID a"
  shows "inbox_inv (update_attachment p f s)"
  using assms by (auto simp: inbox_inv_def refers_def update_attachment_def)

lemma trim_count:
  assumes "events_ok n (ib_events s)"
  shows "source_count src (ib_events (trim_source now src s)) \<le> maxEvents"
    and "source_count other (ib_events (trim_source now src s)) \<le> source_count other (ib_events s)"
proof -
  let ?keep = "ev_Sequence ` set (take maxEvents (newest src (ib_events s)))"
  have "source_count src (filter (\<lambda>e. \<not> (ev_Source e = src \<and> (ev_ExpiresAt e \<le> now \<or> ev_Sequence e \<notin> ?keep))) (ib_events s)) \<le> maxEvents"
  proof (rule capped_count [OF assms])
    fix e assume e: "e \<in> set (ib_events s)" "ev_Source e = src" "\<not> (ev_Source e = src \<and> (ev_ExpiresAt e \<le> now \<or> ev_Sequence e \<notin> ?keep))"
    then obtain d where d: "d \<in> set (take maxEvents (newest src (ib_events s)))" "ev_Sequence e = ev_Sequence d" by auto
    then have "d \<in> set (ib_events s)" using in_set_takeD by (fastforce simp: newest_rev [OF assms])
    then have "e = d" using seq_inj [OF assms] e(1) d(2) by (auto dest: inj_onD)
    then show "e \<in> set (take maxEvents (newest src (ib_events s)))" using d(1) by simp
  qed
  then show "source_count src (ib_events (trim_source now src s)) \<le> maxEvents" by (simp add: trim_source_def Let_def)
  show "source_count other (ib_events (trim_source now src s)) \<le> source_count other (ib_events s)"
    unfolding trim_source_def Let_def delete_fields by (rule count_filter_le)
qed

lemma batch_sources:
  "normalize_batch l now src is = Inr ns \<Longrightarrow> length ns = length is \<and> (\<forall>n\<in>set ns. in_Source n = trim_space src)"
proof (induction "is" arbitrary: ns)
  case (Cons i "is")
  then show ?case using normalized_source by (fastforce split: if_splits sum.splits)
qed simp

text \<open>Nothing is inserted for a source with white space around it: the event would be stored under another name.\<close>

lemma batch_foreign:
  assumes "insert_batch now src is s = Some (evs, s')" and "\<forall>e\<in>set (ib_events s). trim_space (ev_Source e) = ev_Source e"
    and "\<forall>(i, eid)\<in>set is. in_Source i = trim_space src" and "trim_space src \<noteq> src"
  shows "s' = s \<and> evs = []"
  using assms
proof (induction "is" arbitrary: evs)
  case (Cons x "is")
  obtain i eid where x: "x = (i, eid)" by force
  have src: "in_Source i = trim_space src" using Cons.prems(3) by (simp add: x)
  show ?case
  proof (cases rule: insert_cases [of now eid i s])
    case known
    then show ?thesis using Cons by (simp add: x)
  next
    case (fresh e)
    let ?s1 = "s\<lparr>ib_seq := Suc (ib_seq s), ib_events := ib_events s @ [e]\<rparr>"
    have "\<forall>d\<in>set (ib_events ?s1). trim_space (ev_Source d) = ev_Source d"
      using Cons.prems(2) fresh(4) src by (auto simp: event_key_def)
    then have "getBySourceKey src (in_EventKey i) ?s1 = None"
      using Cons.prems(4) unfolding getBySourceKey_def find_None_iff by metis
    then show ?thesis using Cons.prems(1) fresh(1) by (simp add: x)
  qed
qed simp

lemma batch_trimmed:
  assumes "insert_batch now src is s = Some (evs, s')" and "\<forall>e\<in>set (ib_events s). trim_space (ev_Source e) = ev_Source e"
    and "\<forall>(i, eid)\<in>set is. in_Source i = trim_space src"
  shows "\<forall>e\<in>set (ib_events s'). trim_space (ev_Source e) = ev_Source e"
  using assms
proof (induction "is" arbitrary: s evs)
  case (Cons x "is")
  obtain i eid where x: "x = (i, eid)" by force
  obtain b s1 where b: "insert_event now eid i s = (b, s1)" by force
  have t: "\<forall>e\<in>set (ib_events s1). trim_space (ev_Source e) = ev_Source e"
    by (rule insert_trimmed [OF b Cons.prems(2)]) (use Cons.prems(3) in \<open>simp add: x\<close>)
  obtain evs1 where rest: "insert_batch now src is s1 = Some (evs1, s')"
    using Cons.prems(1) by (auto simp: x b split: if_splits option.splits)
  from Cons.IH [OF rest t] Cons.prems(3) show ?case by (simp add: x)
qed simp


lemma Commit_cases:
  obtains (refused) e where "CommitSourceBatch l now ids source stream expected nxt inputs s = (Inl e, s)"
  | (applied) ns evs s1 where "normalize_batch l now source inputs = Inr ns" "SourceCursor source stream s = expected"
      "insert_batch now source (zip ns ids) s = Some (evs, s1)"
      "CommitSourceBatch l now ids source stream expected nxt inputs s =
         (Inr evs, (trim_source now source s1)\<lparr>ib_cursors := (ib_cursors s1)((source, stream) \<mapsto> nxt)\<rparr>)"
proof (cases "fst (CommitSourceBatch l now ids source stream expected nxt inputs s)")
  case (Inl e)
  then have "CommitSourceBatch l now ids source stream expected nxt inputs s = (Inl e, s)"
    by (auto simp: CommitSourceBatch_def Let_def split: if_splits sum.splits option.splits prod.splits)
  then show ?thesis by (rule refused)
next
  case (Inr evs)
  then obtain ns s1 where "normalize_batch l now source inputs = Inr ns" "SourceCursor source stream s = expected"
      "insert_batch now source (zip ns ids) s = Some (evs, s1)"
    by (auto simp: CommitSourceBatch_def Let_def split: if_splits sum.splits option.splits prod.splits)
  then show ?thesis
    using Inr by (intro applied [of ns evs s1]) (auto simp: CommitSourceBatch_def Let_def trim_source_def split: if_splits)
qed

lemma trim_parts:
  assumes "events_ok (ib_seq s) (ib_events s)"
  shows "events_ok (ib_seq (trim_source now src s)) (ib_events (trim_source now src s))" "refers (trim_source now src s)"
  using assms by (simp_all add: trim_source_def Let_def events_ok_filter delete_refers del: delete_fields(1)) (simp add: events_ok_filter)

lemma refers_cursors [simp]: "refers (s\<lparr>ib_cursors := c\<rparr>) = refers s"
  by (simp add: refers_def)

lemma zip_sources: "\<forall>n\<in>set ns. in_Source n = x \<Longrightarrow> \<forall>(i, eid)\<in>set (zip ns ids). in_Source i = x"
  by (auto dest: set_zip_leftD)

lemma inv_batch: "inbox_inv s \<Longrightarrow> inbox_inv (snd (CommitSourceBatch l now ids source stream expected nxt inputs s))"
proof (cases rule: Commit_cases [of l now ids source stream expected nxt inputs s])
  case (applied ns evs s1)
  assume inv: "inbox_inv s"
  have src: "\<forall>(i, eid)\<in>set (zip ns ids). in_Source i = trim_space source"
    using batch_sources [OF applied(1)] by (intro zip_sources) blast
  have trims: "\<forall>e\<in>set (ib_events s). trim_space (ev_Source e) = ev_Source e" using inv by (simp add: inbox_inv_def)
  have "events_ok (ib_seq s1) (ib_events s1) \<and> (\<forall>other. other \<noteq> source \<longrightarrow> source_count other (ib_events s1) \<le> Suc maxEvents)"
  proof (cases "trim_space source = source")
    case True
    then show ?thesis using batch_ok [OF applied(3)] src inv by (auto simp: inbox_inv_def intro: order_trans)
  next
    case False
    then have "s1 = s" using batch_foreign [OF applied(3) trims src] by simp
    then show ?thesis using inv by (simp add: inbox_inv_def)
  qed
  then have one: "events_ok (ib_seq s1) (ib_events s1)" "\<And>other. other \<noteq> source \<Longrightarrow> source_count other (ib_events s1) \<le> Suc maxEvents" by auto
  have count: "source_count src (ib_events (trim_source now source s1)) \<le> Suc maxEvents" for src
    using trim_count [OF one(1), of source now] trim_count(2) [OF one(1), of src now source] one(2) [of src]
    by (cases "src = source") (auto intro: order_trans)
  have "\<forall>e\<in>set (ib_events s1). trim_space (ev_Source e) = ev_Source e" using batch_trimmed [OF applied(3) trims src] .
  then have "\<forall>e\<in>set (ib_events (trim_source now source s1)). trim_space (ev_Source e) = ev_Source e"
    by (simp add: trim_source_def Let_def)
  then show ?thesis using trim_parts [OF one(1), of now source] count by (simp add: applied(4) inbox_inv_def)
qed simp

lemma Mark_cases:
  obtains (kept) "snd (Mark eid dev rd dismissed s) = s"
  | (marked) e v where "e \<in> set (ib_events s)" "ev_ID e = eid"
      "snd (Mark eid dev rd dismissed s) = s\<lparr>ib_device := (ib_device s)((eid, dev) \<mapsto> v)\<rparr>"
proof (cases "trim_space eid = [] \<or> trim_space dev = [] \<or> getByID eid s = None")
  case True
  then show ?thesis by (intro kept) (auto simp: Mark_def)
next
  case False
  then obtain e where "getByID eid s = Some e" by blast
  then have "e \<in> set (ib_events s)" "ev_ID e = eid" by (auto simp: getByID_def find_Some_iff)
  moreover obtain r0 d0 where "device_state eid dev s = (r0, d0)" by force
  ultimately show ?thesis using False \<open>getByID eid s = Some e\<close>
    by (intro marked [of e "(case rd of None \<Rightarrow> r0 | Some x \<Rightarrow> x, case dismissed of None \<Rightarrow> d0 | Some x \<Rightarrow> x)"])
      (simp_all add: Mark_def Let_def)
qed

lemma inv_step_inbox: "inbox_step l D s s' \<Longrightarrow> inbox_inv s \<Longrightarrow> inbox_inv s'"
proof (induction rule: inbox_step.induct)
  case (ib_insert s now eid i atts)
  then show ?case by (rule inv_insert)
next
  case (ib_mark s eid dev rd dismissed)
  show ?case
  proof (cases rule: Mark_cases [of eid dev rd dismissed s])
    case (marked e v)
    have old: "\<And>x y. ib_device s (x, y) \<noteq> None \<Longrightarrow> x \<in> ev_ID ` set (ib_events s)"
      "\<And>a. a \<in> set (ib_attachments s) \<Longrightarrow> at_EventID a \<in> ev_ID ` set (ib_events s)"
      using ib_mark unfolding inbox_inv_def refers_def by blast+
    have "((ib_device s)((eid, dev) \<mapsto> v)) (x, y) \<noteq> None \<Longrightarrow> x \<in> ev_ID ` set (ib_events s)" for x y
      using old(1) [of x y] marked(1,2) by (cases "(x, y) = (eid, dev)") auto
    with old(2) have "refers (s\<lparr>ib_device := (ib_device s)((eid, dev) \<mapsto> v)\<rparr>)" unfolding refers_def by simp
    then show ?thesis using ib_mark marked by (simp add: inbox_inv_def)
  qed (use ib_mark in simp)
next
  case (ib_claim s owner now lease_ms)
  then show ?case by (auto simp: ClaimAttachmentFetch_def Let_def intro: inv_update split: list.splits)
next
  case (ib_complete aid owner s now path mime digest bytes)
  then show ?case by (auto simp: CompleteAttachmentFetch_def intro: inv_update)
next
  case (ib_batch s now ids source stream expected nxt inputs)
  then show ?case by (rule inv_batch)
qed (simp add: FailAttachmentFetch_def)

interpretation inbox_sys: step_system "\<lambda>s. \<exists>inst. s = empty_inbox inst" "inbox_step l D" inbox_inv for l D
proof unfold_locales
  show "inbox_inv s" if "\<exists>inst. s = empty_inbox inst" for s
    using that by (auto simp: empty_inbox_def inbox_inv_def events_ok_def refers_def source_count_def)
qed (rule inv_step_inbox)

end
