(* ===== verification/Inbox_Guarantees.thy ===== *)
theory Inbox_Guarantees
  imports Inbox_Properties
begin

text \<open>The guarantees of the event inbox, and two failures of the code.\<close>

section \<open>Soundness and bounds\<close>

abbreviation inbox_reachable :: "inbox_lib \<Rightarrow> (string \<Rightarrow> string \<Rightarrow> bool) \<Rightarrow> inbox \<Rightarrow> bool" where
  "inbox_reachable l D s \<equiv> \<exists>inst. (inbox_step l D)\<^sup>*\<^sup>* (empty_inbox inst) s"

lemma inbox_reachable_inv: "inbox_reachable l D s \<Longrightarrow> inbox_inv s"
  using inbox_sys.reachable_good by blast

text \<open>
  The inbox is bounded and consistent. In every reachable inbox a source has at most one event more than
  the limit, a key of a source has at most one event, the events are in the order of their numbers, and
  every device state and attachment belongs to an event that is there.
\<close>

theorem inbox_is_bounded:
  assumes "inbox_reachable l D s"
  shows "source_count src (ib_events s) \<le> maxEvents + 1
    \<and> distinct (map event_key (ib_events s)) \<and> sorted_wrt (<) (map ev_Sequence (ib_events s))
    \<and> (ib_device s (eid, dev) \<noteq> None \<longrightarrow> eid \<in> ev_ID ` set (ib_events s))
    \<and> (\<forall>a\<in>set (ib_attachments s). at_EventID a \<in> ev_ID ` set (ib_events s))"
  using inbox_reachable_inv [OF assms] unfolding inbox_inv_def events_ok_def refers_def
  by (elim conjE, intro conjI) (simp, assumption, assumption, blast, assumption)

section \<open>One event per key\<close>

lemma key_unique: "distinct (map event_key evs) \<Longrightarrow> e \<in> set evs \<Longrightarrow> filter (\<lambda>x. event_key x = event_key e) evs = [e]"
  by (induction evs) (auto simp: filter_empty_conv image_iff)

lemma find_key:
  "distinct (map event_key (ib_events s)) \<Longrightarrow> e \<in> set (ib_events s) \<Longrightarrow> getBySourceKey (ev_Source e) (ev_EventKey e) s = Some e"
proof -
  have "distinct (map event_key evs) \<Longrightarrow> e \<in> set evs \<Longrightarrow> find (\<lambda>x. ev_Source x = ev_Source e \<and> ev_EventKey x = ev_EventKey e) evs = Some e" for evs
    by (induction evs) (auto simp: event_key_def image_iff)
  then show "distinct (map event_key (ib_events s)) \<Longrightarrow> e \<in> set (ib_events s) \<Longrightarrow> ?thesis" by (simp add: getBySourceKey_def)
qed

lemma gc_live: "e \<in> set (ib_events (gcTx now src s)) \<Longrightarrow> e \<in> set (ib_events s) \<and> now < ev_ExpiresAt e"
  by (auto simp: gcTx_def Let_def)

text \<open>Collecting keeps an event that is neither expired nor beyond the newest ones of its source.\<close>

lemma gc_keeps:
  assumes ok: "events_ok n (ib_events s)" and e: "e \<in> set (ib_events s)" "now < ev_ExpiresAt e"
    and rank: "length (filter (\<lambda>x. ev_Source x = src \<and> ev_Sequence e < ev_Sequence x) (ib_events s)) < maxEvents"
  shows "e \<in> set (ib_events (gcTx now src s))"
proof -
  let ?evs = "filter (\<lambda>x. \<not> ev_ExpiresAt x \<le> now) (ib_events s)"
  have ok': "events_ok n ?evs" using ok by (rule events_ok_filter)
  have "ev_Sequence e \<notin> ev_Sequence ` set (drop maxEvents (newest src ?evs))"
  proof
    assume "ev_Sequence e \<in> ev_Sequence ` set (drop maxEvents (newest src ?evs))"
    then obtain d where d: "d \<in> set (drop maxEvents (newest src ?evs))" "ev_Sequence d = ev_Sequence e" by force
    have sorted: "sorted_wrt (\<lambda>x y. ev_Sequence y < ev_Sequence x) (newest src ?evs)"
      using events_ok_filter [OF ok', of "\<lambda>x. ev_Source x = src"]
      by (simp add: newest_rev [OF ok'] sorted_wrt_rev sorted_wrt_map events_ok_def)
    have newer: "ev_Sequence e < ev_Sequence x" if "x \<in> set (take maxEvents (newest src ?evs))" for x
    proof -
      have "sorted_wrt (\<lambda>x y. ev_Sequence y < ev_Sequence x) (take maxEvents (newest src ?evs) @ drop maxEvents (newest src ?evs))"
        using sorted by simp
      then have "ev_Sequence d < ev_Sequence x" using that d(1) unfolding sorted_wrt_append by blast
      then show ?thesis by (simp add: d(2))
    qed
    have len: "length (take maxEvents (newest src ?evs)) = maxEvents" using d(1) by (cases "maxEvents \<le> length (newest src ?evs)") auto
    have dist: "distinct (take maxEvents (newest src ?evs))" using seq_inj [OF ok] by (simp add: newest_rev [OF ok'] distinct_take)
    have "maxEvents = card (set (take maxEvents (newest src ?evs)))" using distinct_card [OF dist] len by simp
    also have "\<dots> \<le> card (set (filter (\<lambda>x. ev_Source x = src \<and> ev_Sequence e < ev_Sequence x) (ib_events s)))"
    proof (rule card_mono)
      show "set (take maxEvents (newest src ?evs)) \<subseteq> set (filter (\<lambda>x. ev_Source x = src \<and> ev_Sequence e < ev_Sequence x) (ib_events s))"
      proof
        fix x assume x: "x \<in> set (take maxEvents (newest src ?evs))"
        then have "x \<in> set (newest src ?evs)" by (rule in_set_takeD)
        then show "x \<in> set (filter (\<lambda>x. ev_Source x = src \<and> ev_Sequence e < ev_Sequence x) (ib_events s))"
          using newer [OF x] by (simp add: newest_rev [OF ok'])
      qed
    qed simp
    also have "\<dots> \<le> length (filter (\<lambda>x. ev_Source x = src \<and> ev_Sequence e < ev_Sequence x) (ib_events s))" by (rule card_length)
    finally show False using rank by simp
  qed
  then show ?thesis using e by (simp add: gcTx_def Let_def)
qed


lemma newest_count: "events_ok n evs \<Longrightarrow> length (newest src evs) = source_count src evs"
  by (simp add: newest_rev source_count_def)

lemma normalized_live: "normalizeInput l now i = Inr n \<Longrightarrow> now < in_ExpiresAt n"
  by (auto simp: normalizeInput_def Let_def split: if_splits)

lemma fewer_newer:
  "e \<in> set evs \<Longrightarrow> ev_Source e = src \<Longrightarrow>
   length (filter (\<lambda>x. ev_Source x = src \<and> ev_Sequence e < ev_Sequence x) evs) < source_count src evs"
proof -
  assume "e \<in> set evs" "ev_Source e = src"
  moreover have "filter (\<lambda>x. ev_Source x = src \<and> ev_Sequence e < ev_Sequence x) evs
      = filter (\<lambda>x. ev_Sequence e < ev_Sequence x) (filter (\<lambda>x. ev_Source x = src) evs)" by (simp add: conj_commute)
  ultimately show ?thesis using length_filter_less [of e "filter (\<lambda>x. ev_Source x = src) evs"] by (simp add: source_count_def)
qed

lemma insert_reports:
  assumes inv: "inbox_inv s" and r: "InsertWithAttachments l now eid i atts s = (Inr ((ev, xs), dup), s')"
    and n: "normalizeInput l now i = Inr n"
  shows "ev \<in> set (ib_events s') \<and> event_key ev = (in_Source n, in_EventKey n) \<and> now < ev_ExpiresAt ev
     \<and> (if dup then ev \<in> set (ib_events s) \<and> set (ib_events s') \<subseteq> set (ib_events s)
       else ev_ID ev = eid \<and> ev_Sequence ev = Suc (ib_seq s) \<and> set (ib_events s') \<subseteq> insert ev (set (ib_events s)))
     \<and> length (filter (\<lambda>x. ev_Source x = in_Source n \<and> ev_Sequence ev < ev_Sequence x) (ib_events s')) < maxEvents"
proof -
  let ?g = "gcTx now (in_Source n) s"
  have ok: "events_ok (ib_seq s) (ib_events s)" using inv by (simp add: inbox_inv_def)
  have gok: "events_ok (ib_seq s) (ib_events ?g)" by (rule gc_ok [OF ok])
  have cap: "source_count (in_Source n) (ib_events ?g) \<le> maxEvents" by (rule gc_count(1) [OF ok])
  show ?thesis
  proof (cases rule: InsertWith_cases [of l now eid i atts s])
    case (refused e)
    then show ?thesis using r by simp
  next
    case (duplicate n' ev' ys s2)
    then have s2: "s2 = ?g" "s' = ?g" "ev' = ev" "dup" "n' = n"
      using r n by (auto simp: insert_event_def Let_def split: if_splits)
    have e: "ev \<in> set (ib_events ?g)" "event_key ev = (in_Source n, in_EventKey n)" using found_event [OF duplicate(3)] s2 by simp_all
    have "length (filter (\<lambda>x. ev_Source x = in_Source n \<and> ev_Sequence ev < ev_Sequence x) (ib_events ?g))
        < source_count (in_Source n) (ib_events ?g)"
      by (rule fewer_newer) (use e in \<open>simp_all add: event_key_def\<close>)
    then show ?thesis using e gc_live [OF e(1)] cap s2 gc_live by auto
  next
    case (stored n' ev' ys s2 rows)
    show ?thesis
    proof (cases rule: insert_cases [of now eid n ?g])
      case known
      then show ?thesis using stored n by simp
    next
      case (fresh e)
      then have s2: "ib_events s2 = ib_events ?g @ [e]" "ib_events s' = ib_events ?g @ [e]" "ev' = ev" "n' = n" "\<not> dup"
        using stored r n by auto
      have ok2: "events_ok (ib_seq s2) (ib_events s2)" using insert_ok(1) [OF stored(2)] gok n stored(1) by simp
      have "ev = e" using find_key [of s2 e] ok2 fresh(4) s2 stored(3) by (simp add: events_ok_def event_key_def)
      moreover have "\<not> Suc (ib_seq s) < ev_Sequence x" if "x \<in> set (ib_events ?g)" for x
        using gok that by (auto simp: events_ok_def)
      then have "filter (\<lambda>x. ev_Source x = in_Source n \<and> ev_Sequence e < ev_Sequence x) (ib_events ?g @ [e]) = []"
        using fresh(3) by (simp add: filter_empty_conv)
      ultimately show ?thesis
        using fresh s2 normalized_live [OF n] gc_live by (auto simp: maxEvents_def simp del: filter_append)
    qed
  qed
qed

text \<open>
  C30. An event is recorded once. After an insertion reports an event, the inbox holds exactly this event under
  its source and key; a duplicate is the event that was there, unexpired, and nothing was added; otherwise
  it is a new event with the next number. Delivering the same input again at once, with whatever identifier
  and attachments, reports the same event as a duplicate.
\<close>

theorem event_is_recorded_once:
  assumes "inbox_reachable l D s" and "InsertWithAttachments l now eid i atts s = (Inr ((ev, xs), dup), s')"
  shows "filter (\<lambda>e. event_key e = event_key ev) (ib_events s') = [ev] \<and> now < ev_ExpiresAt ev
    \<and> (if dup then ev \<in> set (ib_events s) \<and> set (ib_events s') \<subseteq> set (ib_events s)
       else ev_ID ev = eid \<and> ev_Sequence ev = Suc (ib_seq s) \<and> set (ib_events s') \<subseteq> insert ev (set (ib_events s)))
    \<and> (\<exists>ys. fst (InsertWithAttachments l now eid2 i atts2 s') = Inr ((ev, ys), True))"
proof -
  have inv: "inbox_inv s" using inbox_reachable_inv [OF assms(1)] .
  have inv': "inbox_inv s'" using inv_insert [OF inv, of l now eid i atts] assms(2) by simp
  then have ok': "events_ok (ib_seq s') (ib_events s')" "distinct (map event_key (ib_events s'))" by (simp_all add: inbox_inv_def events_ok_def)
  from assms(2) obtain n where n: "normalizeInput l now i = Inr n"
    by (auto simp: InsertWithAttachments_def split: sum.splits)
  have facts: "ev \<in> set (ib_events s') \<and> event_key ev = (in_Source n, in_EventKey n) \<and> now < ev_ExpiresAt ev
     \<and> (if dup then ev \<in> set (ib_events s) \<and> set (ib_events s') \<subseteq> set (ib_events s)
       else ev_ID ev = eid \<and> ev_Sequence ev = Suc (ib_seq s) \<and> set (ib_events s') \<subseteq> insert ev (set (ib_events s)))
     \<and> length (filter (\<lambda>x. ev_Source x = in_Source n \<and> ev_Sequence ev < ev_Sequence x) (ib_events s')) < maxEvents"
    by (rule insert_reports [OF inv assms(2) n])
  have "ev \<in> set (ib_events (gcTx now (in_Source n) s'))" using gc_keeps [OF ok'(1)] facts by blast
  moreover define s2 where "s2 = gcTx now (in_Source n) s'"
  moreover have "ev_Source ev = in_Source n" "ev_EventKey ev = in_EventKey n" using facts by (simp_all add: event_key_def)
  ultimately have "\<exists>e\<in>set (ib_events s2). ev_ID e = eid2 \<or> ev_Source e = in_Source n \<and> ev_EventKey e = in_EventKey n" by blast
  then have again: "insert_event now eid2 n (gcTx now (in_Source n) s') = (False, s2)" "s2 = gcTx now (in_Source n) s'"
    by (simp_all add: insert_event_def s2_def)
  have "events_ok (ib_seq s') (ib_events s2)" using gc_ok [OF ok'(1)] again(2) by simp
  then have "getBySourceKey (in_Source n) (in_EventKey n) s2 = Some ev"
    using find_key [of s2 ev] facts \<open>ev \<in> set (ib_events (gcTx now (in_Source n) s'))\<close> again(2) by (simp add: events_ok_def event_key_def)
  then have "\<exists>ys. fst (InsertWithAttachments l now eid2 i atts2 s') = Inr ((ev, ys), True)"
    using n again(1) by (simp add: InsertWithAttachments_def)
  then show ?thesis using facts key_unique [OF ok'(2)] by blast
qed


section \<open>Batches of a polled source\<close>

lemma batch_events:
  assumes "insert_batch now src is s = Some (evs, s')" and "events_ok (ib_seq s) (ib_events s)" and "refers s"
    and "\<forall>(i, eid)\<in>set is. in_Source i = src"
  shows "ib_events s' = ib_events s @ evs \<and> (\<forall>e\<in>set evs. ib_seq s < ev_Sequence e)
    \<and> event_key ` set evs \<subseteq> (\<lambda>(i, eid). (src, in_EventKey i)) ` set is"
  using assms
proof (induction "is" arbitrary: s evs)
  case (Cons x "is")
  obtain i eid where x: "x = (i, eid)" by force
  have src: "in_Source i = src" "\<forall>(i, eid)\<in>set is. in_Source i = src" using Cons.prems(4) by (auto simp: x)
  show ?case
  proof (cases rule: insert_cases [of now eid i s])
    case known
    then have "insert_batch now src is s = Some (evs, s')" using Cons.prems(1) by (simp add: x)
    from Cons.IH [OF this Cons.prems(2,3) src(2)] show ?thesis by (auto simp: x)
  next
    case (fresh e)
    define s1 where "s1 = s\<lparr>ib_seq := Suc (ib_seq s), ib_events := ib_events s @ [e]\<rparr>"
    have b: "insert_event now eid i s = (True, s1)" using fresh(1) by (simp add: s1_def)
    have ok: "events_ok (ib_seq s1) (ib_events s1)" "refers s1" using insert_ok(1,2) [OF b Cons.prems(2,3)] by auto
    have "getBySourceKey src (in_EventKey i) s1 = Some e"
      using find_key [of s1 e] ok(1) fresh(4) src(1) by (simp add: events_ok_def event_key_def s1_def)
    then obtain evs1 where r: "insert_batch now src is s1 = Some (evs1, s')" "evs = e # evs1"
      using Cons.prems(1) b by (auto simp: x)
    from Cons.IH [OF r(1) ok src(2)] r(2) fresh(3,4) src(1) show ?thesis by (auto simp: x s1_def)
  qed
qed simp

lemma trimmed_batch:
  assumes inv: "inbox_inv s" and "normalize_batch l now source inputs = Inr ns"
    and "insert_batch now source (zip ns ids) s = Some (evs, s1)"
  shows "ib_events s1 = ib_events s @ evs \<and> (\<forall>e\<in>set evs. ib_seq s < ev_Sequence e) \<and> ib_cursors s1 = ib_cursors s
    \<and> events_ok (ib_seq s1) (ib_events s1) \<and> ib_seq s \<le> ib_seq s1 \<and> ib_attachments s1 = ib_attachments s"
proof -
  have src: "\<forall>(i, eid)\<in>set (zip ns ids). in_Source i = trim_space source"
    using batch_sources [OF assms(2)] by (intro zip_sources) blast
  show ?thesis
  proof (cases "trim_space source = source")
    case True
    then show ?thesis using batch_events [OF assms(3)] batch_ok [OF assms(3)] src inv by (simp add: inbox_inv_def)
  next
    case False
    then have "s1 = s \<and> evs = []" using batch_foreign [OF assms(3) _ src] inv by (simp add: inbox_inv_def)
    then show ?thesis using inv by (simp add: inbox_inv_def)
  qed
qed


text \<open>
  A batch loses an event whose key is still held by an expired one. The expired event makes the insertion
  a duplicate and is only deleted afterwards, while the checkpoint moves on: after the batch there is no
  event with this key at all, and none is reported.
\<close>

theorem batch_loses_reused_key:
  assumes "inbox_reachable l D s" and "old \<in> set (ib_events s)" and "ev_Source old = source" and "ev_ExpiresAt old \<le> now"
    and "CommitSourceBatch l now ids source stream expected nxt inputs s = (Inr evs, s')"
  shows "(\<forall>e\<in>set (ib_events s') \<union> set evs. event_key e \<noteq> event_key old) \<and> SourceCursor source stream s' = nxt"
proof (cases rule: Commit_cases [of l now ids source stream expected nxt inputs s])
  case (refused e)
  then show ?thesis using assms(5) by simp
next
  case (applied ns evs' s1)
  have b: "ib_events s1 = ib_events s @ evs" "events_ok (ib_seq s1) (ib_events s1)"
    using trimmed_batch [OF inbox_reachable_inv [OF assms(1)] applied(1,3)] applied(4) assms(5) by auto
  have s': "s' = (trim_source now source s1)\<lparr>ib_cursors := (ib_cursors s1)((source, stream) \<mapsto> nxt)\<rparr>" using applied(4) assms(5) by simp
  have "e = old" if "e \<in> set (ib_events s1)" "event_key e = event_key old" for e
    using b assms(2) that by (auto simp: events_ok_def distinct_map dest: inj_onD)
  then have "event_key e \<noteq> event_key old" if "e \<in> set (ib_events s')" for e
    using that assms(3,4) by (auto simp: s' trim_source_def Let_def)
  moreover have "event_key e \<noteq> event_key old" if "e \<in> set evs" for e
    using that b assms(2) by (force simp: events_ok_def)
  ultimately show ?thesis by (auto simp: s' SourceCursor_def)
qed

section \<open>Fetches\<close>

lemma delete_keeps:
  "a \<in> set (ib_attachments s) \<Longrightarrow> e \<in> set (ib_events (delete_events gone s)) \<Longrightarrow> ev_ID e = at_EventID a
   \<Longrightarrow> a \<in> set (ib_attachments (delete_events gone s))"
  by (force simp: delete_events_def Let_def)

lemma gc_keeps_attachment:
  assumes "a \<in> set (ib_attachments s)" and "e \<in> set (ib_events (gcTx now src s))" and "ev_ID e = at_EventID a"
  shows "a \<in> set (ib_attachments (gcTx now src s))"
  using assms unfolding gcTx_def Let_def by (intro delete_keeps [where e = e]) auto

lemma trim_keeps_attachment:
  assumes "a \<in> set (ib_attachments s)" and "e \<in> set (ib_events (trim_source now src s))" and "ev_ID e = at_EventID a"
  shows "a \<in> set (ib_attachments (trim_source now src s))"
  using assms unfolding trim_source_def Let_def by (rule delete_keeps)

lemma attachments_kept: "insert_attachments l now eid k atts rows = Some rows' \<Longrightarrow> set rows \<subseteq> set rows'"
proof (induction atts arbitrary: k rows)
  case (Cons x atts)
  then show ?case by (fastforce simp: Let_def insert_attachment_def split: if_splits)
qed simp

text \<open>The events after a step were there or have a new number, and an attachment stays with its event.\<close>

lemma insert_history:
  assumes inv: "inbox_inv s" and s': "s' = snd (InsertWithAttachments l now eid i atts s)"
  shows "ib_seq s \<le> ib_seq s'" and "e \<in> set (ib_events s') \<Longrightarrow> e \<in> set (ib_events s) \<or> ib_seq s < ev_Sequence e"
    and "a \<in> set (ib_attachments s) \<Longrightarrow> e \<in> set (ib_events s) \<Longrightarrow> e \<in> set (ib_events s') \<Longrightarrow> ev_ID e = at_EventID a
      \<Longrightarrow> a \<in> set (ib_attachments s')"
proof -
  have ok: "events_ok (ib_seq s) (ib_events s)" using inv by (simp add: inbox_inv_def)
  have one: "ib_seq s \<le> ib_seq s2 \<and> (\<forall>e\<in>set (ib_events s2). e \<in> set (ib_events s) \<or> ib_seq s < ev_Sequence e)
      \<and> (\<forall>a\<in>set (ib_attachments s). \<forall>e\<in>set (ib_events s). e \<in> set (ib_events s2) \<longrightarrow> ev_ID e = at_EventID a \<longrightarrow> a \<in> set (ib_attachments s2))"
    if "insert_event now eid n (gcTx now (in_Source n) s) = (b, s2)" for n b s2
  proof (cases rule: insert_cases [of now eid n "gcTx now (in_Source n) s"])
    case known
    then show ?thesis using that gc_live gc_keeps_attachment by auto
  next
    case (fresh x)
    have "e \<noteq> x" if "e \<in> set (ib_events s)" for e using that ok fresh(3) by (auto simp: events_ok_def)
    then show ?thesis using that fresh(1,3) gc_live gc_keeps_attachment by auto
  qed
  have "ib_seq s \<le> ib_seq s' \<and> (\<forall>e\<in>set (ib_events s'). e \<in> set (ib_events s) \<or> ib_seq s < ev_Sequence e)
      \<and> (\<forall>a\<in>set (ib_attachments s). \<forall>e\<in>set (ib_events s). e \<in> set (ib_events s') \<longrightarrow> ev_ID e = at_EventID a \<longrightarrow> a \<in> set (ib_attachments s'))"
  proof (cases rule: InsertWith_cases [of l now eid i atts s])
    case (stored n ev xs s2 rows)
    show ?thesis using one [OF stored(2)] attachments_kept [OF stored(4)] by (auto simp: s' stored(5))
  next
    case (duplicate n ev xs s2)
    show ?thesis using one [OF duplicate(2)] by (simp add: s' duplicate(5))
  qed (use s' in simp)
  then show "ib_seq s \<le> ib_seq s'" and "e \<in> set (ib_events s') \<Longrightarrow> e \<in> set (ib_events s) \<or> ib_seq s < ev_Sequence e"
    and "a \<in> set (ib_attachments s) \<Longrightarrow> e \<in> set (ib_events s) \<Longrightarrow> e \<in> set (ib_events s') \<Longrightarrow> ev_ID e = at_EventID a
      \<Longrightarrow> a \<in> set (ib_attachments s')" by blast+
qed

lemma batch_history:
  assumes inv: "inbox_inv s" and s': "s' = snd (CommitSourceBatch l now ids source stream expected nxt inputs s)"
  shows "ib_seq s \<le> ib_seq s'" and "e \<in> set (ib_events s') \<Longrightarrow> e \<in> set (ib_events s) \<or> ib_seq s < ev_Sequence e"
    and "a \<in> set (ib_attachments s) \<Longrightarrow> e \<in> set (ib_events s') \<Longrightarrow> ev_ID e = at_EventID a \<Longrightarrow> a \<in> set (ib_attachments s')"
proof -
  have "ib_seq s \<le> ib_seq s' \<and> (\<forall>e\<in>set (ib_events s'). e \<in> set (ib_events s) \<or> ib_seq s < ev_Sequence e)
    \<and> (\<forall>a\<in>set (ib_attachments s). \<forall>e\<in>set (ib_events s'). ev_ID e = at_EventID a \<longrightarrow> a \<in> set (ib_attachments s'))"
  proof (cases rule: Commit_cases [of l now ids source stream expected nxt inputs s])
    case (applied ns evs s1)
    note b = trimmed_batch [OF inv applied(1,3)]
    have "e \<in> set (ib_events s1)" if "e \<in> set (ib_events (trim_source now source s1))" for e
      using that by (simp add: trim_source_def Let_def)
    moreover have "ib_seq (trim_source now source s1) = ib_seq s1" by (simp add: trim_source_def Let_def)
    moreover have "a \<in> set (ib_attachments (trim_source now source s1))"
      if "a \<in> set (ib_attachments s)" "e \<in> set (ib_events (trim_source now source s1))" "ev_ID e = at_EventID a" for a e
      using that b by (intro trim_keeps_attachment [where e = e]) auto
    ultimately show ?thesis using b by (fastforce simp: s' applied(4))
  qed (use s' in simp)
  then show "ib_seq s \<le> ib_seq s'" and "e \<in> set (ib_events s') \<Longrightarrow> e \<in> set (ib_events s) \<or> ib_seq s < ev_Sequence e"
    and "a \<in> set (ib_attachments s) \<Longrightarrow> e \<in> set (ib_events s') \<Longrightarrow> ev_ID e = at_EventID a \<Longrightarrow> a \<in> set (ib_attachments s')" by blast+
qed

lemma step_history:
  assumes "inbox_step l D s s'" and "inbox_inv s"
  shows "ib_seq s \<le> ib_seq s' \<and> (e \<in> set (ib_events s') \<longrightarrow> e \<in> set (ib_events s) \<or> ib_seq s < ev_Sequence e)"
  using assms
proof (induction rule: inbox_step.induct)
  case (ib_insert s now eid i atts)
  show ?case using insert_history [OF ib_insert refl] by blast
next
  case (ib_mark s eid dev rd dismissed)
  then show ?case by (cases rule: Mark_cases [of eid dev rd dismissed s]) auto
next
  case (ib_batch s now ids source stream expected nxt inputs)
  show ?case using batch_history [OF ib_batch refl] by blast
qed (simp_all add: ClaimAttachmentFetch_def CompleteAttachmentFetch_def FailAttachmentFetch_def Let_def split: list.splits)

lemma kept_attachment:
  assumes "inbox_step l D s s'" and "inbox_inv s" and a: "a \<in> set (ib_attachments s)" "at_Status a = ''fetching''"
    and "\<not> D (at_ID a) (at_LeaseOwner a)" and "e \<in> set (ib_events s)" "e \<in> set (ib_events s')" "ev_ID e = at_EventID a"
  shows "a \<in> set (ib_attachments s')"
  using assms
proof (induction rule: inbox_step.induct)
  case (ib_insert s now eid i atts)
  then show ?case by (metis insert_history(3))
next
  case (ib_mark s eid dev rd dismissed)
  then show ?case by (cases rule: Mark_cases [of eid dev rd dismissed s]) auto
next
  case (ib_claim s owner now lease_ms)
  then show ?case by (force simp: ClaimAttachmentFetch_def Let_def update_attachment_def split: list.splits)
next
  case (ib_complete aid owner s now path mime digest bytes)
  then have "\<not> leased_to aid owner a" by (auto simp: leased_to_def)
  then show ?case using ib_complete by (force simp: CompleteAttachmentFetch_def update_attachment_def)
next
  case (ib_batch s now ids source stream expected nxt inputs)
  then show ?case by (metis batch_history(3))
qed (simp add: FailAttachmentFetch_def)


section \<open>Instances\<close>

definition sample_lib :: inbox_lib where
  "sample_lib = \<lparr>lib_url = (\<lambda>u. Some (''https'', ''h'')), lib_object = (\<lambda>d. True), lib_attachment_id = (\<lambda>eid x n. eid)\<rparr>"

definition sample_input :: event_input where
  "sample_input = \<lparr>in_Source = ''a'', in_EventKey = ''k'', in_Kind = ''d'', in_Severity = ''info'', in_Title = ''t'', in_Body = [],
     in_URL = [], in_Data = ''{}'', in_OccurredAt = 1, in_ExpiresAt = 5, in_Attachments = []\<rparr>"

definition sample_file :: AttachmentInput where
  "sample_file = \<lparr>ai_ExternalID = [], ai_SourceURL = [], ai_MIMEType = [], ai_DisplayName = [], ai_Ordinal = 0\<rparr>"

definition sample_event :: Event where
  "sample_event = \<lparr>ev_ID = ''e'', ev_Sequence = 1, ev_AuthorityInstanceID = ''x'', ev_Source = ''a'', ev_EventKey = ''k'', ev_Kind = ''d'',
     ev_Severity = ''info'', ev_Title = ''t'', ev_Body = [], ev_URL = [], ev_Data = ''{}'', ev_OccurredAt = 1, ev_ReceivedAt = 1, ev_ExpiresAt = 5\<rparr>"

definition sample_inbox :: inbox where
  "sample_inbox = (empty_inbox ''x'')\<lparr>ib_seq := 1, ib_events := [sample_event],
     ib_attachments := [attachment_of sample_lib 1 ''e'' sample_file]\<rparr>"

definition sample_claim :: attachment_row where
  "sample_claim = (attachment_of sample_lib 1 ''e'' sample_file)
     \<lparr>at_Status := ''fetching'', at_Attempt := 1, at_LeaseOwner := ''w'', at_LeaseUntil := 11, at_UpdatedAt := 1\<rparr>"

lemma sample_trims: "trim_space ''a'' = ''a''" "trim_space ''k'' = ''k''" "trim_space ''d'' = ''d''" "trim_space ''t'' = ''t''"
    "trim_space ''info'' = ''info''" "to_lower ''info'' = ''info''"
  by (simp_all add: trim_eval bit_Suc_0_iff)

lemma sample_normal: "normalizeInput sample_lib now sample_input = (if 5 \<le> now then Inl AlreadyExpired else Inr sample_input)"
  by (simp add: normalizeInput_def trimmed_input_def sample_input_def sample_trims severities_def sample_lib_def maxDataBytes_def Let_def del: to_lower.simps)

lemma sample_first:
  "InsertWithAttachments sample_lib 1 ''e'' sample_input [sample_file] (empty_inbox ''x'')
   = (Inr ((sample_event, [attachment_of sample_lib 1 ''e'' sample_file]), False), sample_inbox)"
  unfolding InsertWithAttachments_def sample_normal
  by (simp add: gcTx_def Let_def delete_events_def newest_def empty_inbox_def insert_event_def
     getBySourceKey_def validateAttachmentInput_def web_url_def insert_attachment_def Attachments_def sample_inbox_def
     sample_event_def sample_input_def sample_file_def sample_lib_def attachment_of_def fun_eq_iff)

lemma sample_batch:
  "CommitSourceBatch sample_lib 1 [''e''] ''a'' ''s'' [] ''c'' [sample_input] (empty_inbox ''x'') 
   = (Inr [sample_event], (empty_inbox ''x'')\<lparr>ib_seq := 1, ib_events := [sample_event], ib_cursors := [(''a'', ''s'') \<mapsto> ''c'']\<rparr>)"
  unfolding CommitSourceBatch_def normalize_batch.simps sample_normal
  by (simp add: Let_def SourceCursor_def trim_source_def delete_events_def newest_def empty_inbox_def insert_event_def
     getBySourceKey_def sample_event_def sample_input_def maxEvents_def fun_eq_iff)

lemma later_normal:
  "normalizeInput sample_lib 6 (sample_input\<lparr>in_ExpiresAt := 9\<rparr>) = Inr (sample_input\<lparr>in_ExpiresAt := 9\<rparr>)"
  by (simp add: normalizeInput_def trimmed_input_def sample_input_def sample_trims severities_def sample_lib_def maxDataBytes_def Let_def
      del: to_lower.simps)

lemma sample_lost:
  "fst (CommitSourceBatch sample_lib 6 [''f''] ''a'' ''s'' [] ''c'' [sample_input\<lparr>in_ExpiresAt := 9\<rparr>] sample_inbox) = Inr []"
  unfolding CommitSourceBatch_def normalize_batch.simps later_normal
  by (simp add: Let_def SourceCursor_def empty_inbox_def insert_event_def sample_inbox_def sample_event_def sample_input_def)

lemma sample_claimed: "snd (ClaimAttachmentFetch ''w'' 1 10 sample_inbox) = sample_inbox\<lparr>ib_attachments := [sample_claim]\<rparr>"
  by (simp add: ClaimAttachmentFetch_def claimable_def update_attachment_def sample_inbox_def attachment_of_def sample_claim_def Let_def)

lemma sample_reachable: "inbox_reachable sample_lib D sample_inbox" "inbox_reachable sample_lib D (sample_inbox\<lparr>ib_attachments := [sample_claim]\<rparr>)"
proof -
  have a: "inbox_step sample_lib D (empty_inbox ''x'') sample_inbox"
    using ib_insert [of sample_lib D "empty_inbox ''x''" 1 "''e''" sample_input "[sample_file]"] by (simp add: sample_first)
  have b: "inbox_step sample_lib D sample_inbox (sample_inbox\<lparr>ib_attachments := [sample_claim]\<rparr>)"
    using ib_claim [of sample_lib D sample_inbox "''w''" 1 10] by (simp add: sample_claimed)
  show "inbox_reachable sample_lib D sample_inbox" using a by blast
  show "inbox_reachable sample_lib D (sample_inbox\<lparr>ib_attachments := [sample_claim]\<rparr>)"
    using a b by (meson r_into_rtranclp rtranclp.rtrancl_into_rtrancl)
qed

theorem inbox_is_bounded_witness: "source_count ''a'' (ib_events sample_inbox) \<le> maxEvents + 1 \<and> ib_events sample_inbox \<noteq> []"
  using inbox_is_bounded [OF sample_reachable(1), of "''a''" "''e''" "''d''"] by (simp add: sample_inbox_def)

theorem event_is_recorded_once_witness:
  "InsertWithAttachments sample_lib 1 ''e'' sample_input [sample_file] (empty_inbox ''x'')
     = (Inr ((sample_event, [attachment_of sample_lib 1 ''e'' sample_file]), False), sample_inbox)
   \<and> (\<exists>ys. fst (InsertWithAttachments sample_lib 1 ''f'' sample_input [] sample_inbox) = Inr ((sample_event, ys), True))"
proof -
  have "inbox_reachable sample_lib (\<lambda>a b. False) (empty_inbox ''x'')" by blast
  from event_is_recorded_once [OF this sample_first, of "''f''" "[]"] sample_first show ?thesis by blast
qed


theorem batch_loses_reused_key_witness:
  "let r = CommitSourceBatch sample_lib 6 [''f''] ''a'' ''s'' [] ''c'' [sample_input\<lparr>in_ExpiresAt := 9\<rparr>] sample_inbox in
   fst r = Inr [] \<and> (\<forall>e\<in>set (ib_events (snd r)). event_key e \<noteq> (''a'', ''k'')) \<and> SourceCursor ''a'' ''s'' (snd r) = ''c''"
proof -
  have e: "sample_event \<in> set (ib_events sample_inbox)" "ev_Source sample_event = ''a''" "ev_ExpiresAt sample_event \<le> 6"
    "event_key sample_event = (''a'', ''k'')"
    by (simp_all add: sample_inbox_def sample_event_def event_key_def)
  obtain s' where r:
    "CommitSourceBatch sample_lib 6 [''f''] ''a'' ''s'' [] ''c'' [sample_input\<lparr>in_ExpiresAt := 9\<rparr>] sample_inbox = (Inr [], s')"
    using sample_lost by (metis prod.collapse)
  show ?thesis using batch_loses_reused_key [OF sample_reachable(1) e(1-3) r] by (simp add: r e(4))
qed



end
