(* ===== verification/Task_Interactions.thy ===== *)
theory Task_Interactions
  imports Bridge_Prelude
begin

text \<open>
  The store of questions a session asks the one that gave it its work (\<^verbatim>\<open>internal/taskinteraction\<close>),
  and the changes the hub makes to them (\<^verbatim>\<open>internal/core/task_interactions.go\<close>,
  \<^verbatim>\<open>task_interaction_remote.go\<close> and \<^verbatim>\<open>task_interaction_lifecycle.go\<close>).

  A question is answered in the instance that asked it, its authority; the instance of the parent holds a
  replica. The row identifier of a question is its place in the table, because rows are never deleted. The
  encoded record is the record itself. Identifiers and tokens that are random are arguments, and so is the
  digest. A version the database cannot hold (63 bits) makes the statement fail.
\<close>

section \<open>Tables\<close>

record interaction_binding =
  bd_ParentRequest :: string
  bd_Authority :: string
  bd_Kind :: string
  bd_RelationID :: string
  bd_LogicalID :: string
  bd_Child :: string
  bd_ChildThread :: string
  bd_ChildRequest :: string
  bd_ChildRevision :: nat
  bd_Parent :: string
  bd_ParentThread :: string
  bd_ParentRevision :: nat
  bd_ParentAuthority :: string

record question =
  tn_ProducerRequest :: string
  tn_SourceInteraction :: string
  tn_Route :: "string list"
  tn_AuthorityVersion :: nat
  tn_NativePayload :: string
  tn_ID :: string
  tn_Binding :: interaction_binding
  tn_NativeCall :: string
  tn_NativeTurn :: string
  tn_OriginKey :: string
  tn_IntentHash :: string
  tn_Question :: string
  tn_Options :: "string list"
  tn_Kind :: string
  tn_Blocking :: bool
  tn_HumanOnly :: bool
  tn_NativeQuestion :: string
  tn_QuestionRevision :: nat
  tn_Version :: nat
  tn_State :: string
  tn_Notification :: string
  tn_NotificationRequest :: string
  tn_Answer :: string
  tn_Actor :: string
  tn_ActorID :: string
  tn_AnswerKey :: string
  tn_AnswerHash :: string
  tn_AckToken :: string
  tn_AcknowledgedBy :: string
  tn_Error :: string
  tn_CreatedAt :: int
  tn_UpdatedAt :: int

record question_row =
  qr_id :: string
  qr_child :: string
  qr_request :: string
  qr_parent :: string
  qr_origin :: string
  qr_version :: nat
  qr_data :: question

record interaction_store =
  ti_questions :: "question_row list"
  ti_commands :: "string \<times> string \<rightharpoonup> string \<times> string"
  ti_receipts :: "string \<rightharpoonup> nat"
  ti_outbox :: "string \<times> string \<rightharpoonup> string \<times> string \<times> string"
  ti_controls :: "string \<rightharpoonup> string \<times> string \<times> string"
  ti_cursor :: nat

definition empty_interactions :: interaction_store where
  "empty_interactions =
     \<lparr>ti_questions = [], ti_commands = Map.empty, ti_receipts = Map.empty, ti_outbox = Map.empty,
      ti_controls = Map.empty, ti_cursor = 0\<rparr>"

datatype ti_error =
    TiNoRows | TiIdempotencyConflict | TiLimit | TiConflict | TiRevisionChanged | TiAlreadyReserved | TiHumanRequired
  | TiInvalidAnswer | TiProofMismatch | TiNotDelivered | TiInvalidRemote | TiRemoteConflict | TiBindingChanged | TiSqlFailure
  | TiLineageLimit | TiContinuationUnbound | TiRelationMissing

definition empty_binding :: interaction_binding where
  "empty_binding =
     \<lparr>bd_ParentRequest = [], bd_Authority = [], bd_Kind = [], bd_RelationID = [], bd_LogicalID = [], bd_Child = [],
      bd_ChildThread = [], bd_ChildRequest = [], bd_ChildRevision = 0, bd_Parent = [], bd_ParentThread = [],
      bd_ParentRevision = 0, bd_ParentAuthority = []\<rparr>"

text \<open>The zero value of a record.\<close>

definition no_question :: question where
  "no_question =
     \<lparr>tn_ProducerRequest = [], tn_SourceInteraction = [], tn_Route = [], tn_AuthorityVersion = 0, tn_NativePayload = [],
      tn_ID = [], tn_Binding = empty_binding, tn_NativeCall = [], tn_NativeTurn = [], tn_OriginKey = [], tn_IntentHash = [],
      tn_Question = [], tn_Options = [], tn_Kind = [], tn_Blocking = False, tn_HumanOnly = False, tn_NativeQuestion = [],
      tn_QuestionRevision = 0, tn_Version = 0, tn_State = [], tn_Notification = [], tn_NotificationRequest = [],
      tn_Answer = [], tn_Actor = [], tn_ActorID = [], tn_AnswerKey = [], tn_AnswerHash = [], tn_AckToken = [],
      tn_AcknowledgedBy = [], tn_Error = [], tn_CreatedAt = 0, tn_UpdatedAt = 0\<rparr>"

definition sql_integer :: "nat \<Rightarrow> bool" where
  "sql_integer n \<longleftrightarrow> n < 2 ^ 63"

definition open_states :: "string set" where
  "open_states = {''pending_parent'', ''pending_human''}"

definition counted_states :: "string set" where
  "counted_states = {''pending_parent'', ''pending_human'', ''answer_reserved'', ''awaiting_consumption''}"

definition settled_states :: "string set" where
  "settled_states = {''resolved'', ''expired'', ''cancelled'', ''orphaned'', ''native_reply_written''}"

section \<open>Reading\<close>

definition question_row_of :: "string \<Rightarrow> interaction_store \<Rightarrow> question_row option" where
  "question_row_of qid s = find (\<lambda>w. qr_id w = qid) (ti_questions s)"

definition Get_question :: "string \<Rightarrow> interaction_store \<Rightarrow> ti_error + question" where
  "Get_question qid s = (case question_row_of qid s of None \<Rightarrow> Inl TiNoRows | Some w \<Rightarrow> Inr (qr_data w))"

definition page_limit :: "int \<Rightarrow> nat" where
  "page_limit limit = (if limit \<le> 0 \<or> 100 < limit then 100 else nat limit)"

definition List_questions :: "string \<Rightarrow> int \<Rightarrow> interaction_store \<Rightarrow> question list" where
  "List_questions session limit s =
     take (page_limit limit) (map qr_data (rev (filter (\<lambda>w. qr_child w = session \<or> qr_parent w = session) (ti_questions s))))"

definition OpenForSession :: "string \<Rightarrow> interaction_store \<Rightarrow> question list" where
  "OpenForSession session s =
     map qr_data (rev (filter (\<lambda>w. (session = [] \<or> qr_child w = session \<or> qr_parent w = session)
       \<and> tn_State (qr_data w) \<in> open_states) (ti_questions s)))"

text \<open>The rows before the cursor; a cursor that names no question has none.\<close>

definition rows_before :: "string \<Rightarrow> question_row list \<Rightarrow> question_row list" where
  "rows_before cursor ws =
     (if cursor = [] then ws
      else if cursor \<in> qr_id ` set ws then takeWhile (\<lambda>w. qr_id w \<noteq> cursor) ws else [])"

definition ListPage :: "string \<Rightarrow> string \<Rightarrow> int \<Rightarrow> interaction_store \<Rightarrow> question list \<times> string" where
  "ListPage session cursor limit s =
     (let n = page_limit limit;
          out = take (n + 1) (map qr_data (rev (filter (\<lambda>w. session = [] \<or> qr_child w = session \<or> qr_parent w = session)
                  (rows_before cursor (ti_questions s)))))
      in if n < length out then (take n out, tn_ID (last (take n out))) else (out, []))"

definition RelayVersion :: "string \<Rightarrow> interaction_store \<Rightarrow> nat" where
  "RelayVersion qid s = (case ti_receipts s qid of None \<Rightarrow> 0 | Some v \<Rightarrow> v)"

definition needs_work :: "interaction_store \<Rightarrow> question_row \<Rightarrow> bool" where
  "needs_work s w \<longleftrightarrow>
     tn_State (qr_data w) \<notin> settled_states
     \<or> tn_AuthorityVersion (qr_data w) = 0 \<and> bd_ParentAuthority (tn_Binding (qr_data w)) \<noteq> bd_Authority (tn_Binding (qr_data w))
       \<and> RelayVersion (qr_id w) s < qr_version w"

definition pending_page :: "interaction_store \<Rightarrow> (nat \<times> question_row) list" where
  "pending_page s = take 256 (filter (\<lambda>(n, w). ti_cursor s < n \<and> needs_work s w) (List.enumerate 1 (ti_questions s)))"

definition Pending_questions :: "interaction_store \<Rightarrow> question list \<times> interaction_store" where
  "Pending_questions s =
     (let page = pending_page s
      in (map (qr_data \<circ> snd) page, s\<lparr>ti_cursor := (if length page < 256 then 0 else fst (last page))\<rparr>))"

section \<open>Asking and changing\<close>

definition pending_questions :: "string \<Rightarrow> string \<Rightarrow> interaction_store \<Rightarrow> nat" where
  "pending_questions child request s =
     length (filter (\<lambda>w. qr_child w = child \<and> qr_request w = request \<and> tn_State (qr_data w) \<in> counted_states) (ti_questions s))"

definition row_of_question :: "question \<Rightarrow> question_row" where
  "row_of_question r =
     \<lparr>qr_id = tn_ID r, qr_child = bd_Child (tn_Binding r), qr_request = bd_ChildRequest (tn_Binding r),
      qr_parent = bd_Parent (tn_Binding r), qr_origin = tn_OriginKey r, qr_version = tn_Version r, qr_data = r\<rparr>"

definition insert_question :: "question \<Rightarrow> interaction_store \<Rightarrow> interaction_store option" where
  "insert_question r s =
     (if (\<exists>w\<in>set (ti_questions s). qr_id w = tn_ID r \<or> qr_origin w = tn_OriginKey r) \<or> \<not> sql_integer (tn_Version r) then None
      else Some (s\<lparr>ti_questions := ti_questions s @ [row_of_question r]\<rparr>))"

definition new_question :: "int \<Rightarrow> string \<Rightarrow> question \<Rightarrow> question" where
  "new_question now qid r =
     r\<lparr>tn_ID := qid, tn_Version := 1, tn_QuestionRevision := 1,
       tn_State := (if tn_HumanOnly r then ''pending_human'' else ''pending_parent''), tn_Notification := ''pending'',
       tn_CreatedAt := now, tn_UpdatedAt := now\<rparr>"

definition Create_question ::
  "int \<Rightarrow> string \<Rightarrow> question \<Rightarrow> interaction_store \<Rightarrow> ((question \<times> bool) \<times> ti_error option) \<times> interaction_store" where
  "Create_question now qid r0 s =
     (let r = new_question now qid r0 in
      case find (\<lambda>w. qr_origin w = tn_OriginKey r) (ti_questions s) of
        Some w \<Rightarrow>
          if tn_IntentHash (qr_data w) \<noteq> tn_IntentHash r then (((qr_data w, False), Some TiIdempotencyConflict), s)
          else (((qr_data w, False), None), s)
      | None \<Rightarrow>
          if 8 \<le> pending_questions (bd_Child (tn_Binding r)) (bd_ChildRequest (tn_Binding r)) s then (((r, False), Some TiLimit), s)
          else case insert_question r s of
            None \<Rightarrow> (((r, False), Some TiSqlFailure), s)
          | Some s' \<Rightarrow> (((r, True), None), s'))"

definition write_row :: "question \<Rightarrow> interaction_store \<Rightarrow> interaction_store" where
  "write_row r s =
     s\<lparr>ti_questions := map (\<lambda>w. if qr_id w = tn_ID r then w\<lparr>qr_version := tn_Version r, qr_data := r\<rparr> else w) (ti_questions s)\<rparr>"

text \<open>
  A change with a key is a command and is applied once. The functions that are passed check before they
  assign, so that a record they refuse is unchanged; none of them changes the identifier or the version.
\<close>

definition Change_question ::
  "int \<Rightarrow> string \<Rightarrow> string \<Rightarrow> string \<Rightarrow> string \<Rightarrow> (question \<Rightarrow> ti_error + question) \<Rightarrow> interaction_store
   \<Rightarrow> (question \<times> ti_error option) \<times> interaction_store" where
  "Change_question now qid scope key hash fn s =
     (case question_row_of qid s of
        None \<Rightarrow> ((no_question, Some TiNoRows), s)
      | Some w \<Rightarrow>
          let r = qr_data w in
          case (if key = [] then None else ti_commands s (scope, key)) of
            Some (h, q) \<Rightarrow> if h \<noteq> hash \<or> q \<noteq> qid then ((r, Some TiIdempotencyConflict), s) else ((r, None), s)
          | None \<Rightarrow>
              case fn r of
                Inl e \<Rightarrow> ((r, Some e), s)
              | Inr r1 \<Rightarrow>
                  if r1 = r \<and> key = [] then ((r1, None), s)
                  else
                    let r2 = r1\<lparr>tn_Version := tn_Version r1 + 1, tn_UpdatedAt := now\<rparr> in
                    if \<not> sql_integer (tn_Version r2) then ((r2, Some TiSqlFailure), s)
                    else if qr_version w \<noteq> tn_Version r1 then ((r2, Some TiConflict), s)
                    else
                      let s1 = write_row r2 s in
                      ((r2, None), if key = [] then s1 else s1\<lparr>ti_commands := (ti_commands s1)((scope, key) \<mapsto> (hash, qid))\<rparr>))"

definition answer_fn ::
  "(string \<Rightarrow> string) \<Rightarrow> string \<Rightarrow> string \<Rightarrow> nat \<Rightarrow> string \<Rightarrow> string \<Rightarrow> string \<Rightarrow> question \<Rightarrow> ti_error + question" where
  "answer_fn Hash token key revision actor actorID answer r =
     (if tn_QuestionRevision r \<noteq> revision then Inl TiRevisionChanged
      else if tn_State r \<notin> open_states then Inl TiAlreadyReserved
      else if tn_HumanOnly r \<and> actor \<noteq> ''human'' then Inl TiHumanRequired
      else if answer = [] \<or> 16000 < length answer then Inl TiInvalidAnswer
      else Inr (r\<lparr>tn_Answer := answer, tn_Actor := actor, tn_ActorID := actorID, tn_AnswerKey := key,
                   tn_AnswerHash := Hash answer, tn_AckToken := token, tn_State := ''answer_reserved''\<rparr>))"

definition Answer ::
  "(string \<Rightarrow> string) \<Rightarrow> int \<Rightarrow> string \<Rightarrow> string \<Rightarrow> string \<Rightarrow> string \<Rightarrow> string \<Rightarrow> nat \<Rightarrow> string \<Rightarrow> string \<Rightarrow> string
   \<Rightarrow> interaction_store \<Rightarrow> (question \<times> ti_error option) \<times> interaction_store" where
  "Answer Hash now token qid scope key hash revision actor actorID answer =
     Change_question now qid scope key hash (answer_fn Hash token key revision actor actorID answer)"

definition acknowledge_fn :: "string \<Rightarrow> string \<Rightarrow> question \<Rightarrow> ti_error + question" where
  "acknowledge_fn token proof r =
     (if token = [] \<or> tn_AckToken r \<noteq> token then Inl TiProofMismatch
      else if tn_State r = ''resolved'' then Inr r
      else if tn_State r \<noteq> ''answer_reserved'' \<and> tn_State r \<noteq> ''awaiting_consumption'' then Inl TiNotDelivered
      else Inr (r\<lparr>tn_State := ''resolved'', tn_AcknowledgedBy := proof\<rparr>))"

definition Acknowledge ::
  "int \<Rightarrow> string \<Rightarrow> string \<Rightarrow> string \<Rightarrow> interaction_store \<Rightarrow> (question \<times> ti_error option) \<times> interaction_store" where
  "Acknowledge now qid token proof = Change_question now qid [] [] [] (acknowledge_fn token proof)"

section \<open>Replicas and commands to another instance\<close>

definition replica_of :: "question \<Rightarrow> question" where
  "replica_of r = r\<lparr>tn_AckToken := [], tn_OriginKey := ''replica:'' @ bd_Authority (tn_Binding r) @ '':'' @ tn_ID r\<rparr>"

definition Import :: "question \<Rightarrow> interaction_store \<Rightarrow> (question \<times> ti_error option) \<times> interaction_store" where
  "Import remote0 s =
     (if tn_ID remote0 = [] \<or> bd_Authority (tn_Binding remote0) = []
         \<or> bd_ParentAuthority (tn_Binding remote0) = bd_Authority (tn_Binding remote0) then ((no_question, Some TiInvalidRemote), s)
      else
        let remote = replica_of remote0 in
        case question_row_of (tn_ID remote) s of
          Some w \<Rightarrow>
            let old = qr_data w in
            if tn_Binding old \<noteq> tn_Binding remote \<or> tn_IntentHash old \<noteq> tn_IntentHash remote then ((old, Some TiRemoteConflict), s)
            else if tn_Version remote \<le> tn_AuthorityVersion old then ((old, None), s)
            else
              let r = remote\<lparr>tn_AuthorityVersion := tn_Version remote, tn_Version := tn_Version old + 1,
                             tn_Notification := tn_Notification old, tn_NotificationRequest := tn_NotificationRequest old\<rparr> in
              if \<not> sql_integer (tn_Version r) then ((old, Some TiSqlFailure), s) else ((r, None), write_row r s)
        | None \<Rightarrow>
            let r = remote\<lparr>tn_AuthorityVersion := tn_Version remote\<rparr> in
            case insert_question r s of None \<Rightarrow> ((r, Some TiSqlFailure), s) | Some s' \<Rightarrow> ((r, None), s'))"

definition RelayAccepted :: "string \<Rightarrow> nat \<Rightarrow> interaction_store \<Rightarrow> ti_error option \<times> interaction_store" where
  "RelayAccepted qid v s =
     (if \<not> sql_integer v then (Some TiSqlFailure, s)
      else (None, s\<lparr>ti_receipts := (ti_receipts s)(qid \<mapsto> max v (RelayVersion qid s))\<rparr>))"

definition RemoteCommand :: "string \<Rightarrow> string \<Rightarrow> interaction_store \<Rightarrow> string \<times> bool" where
  "RemoteCommand scope key s = (case ti_outbox s (scope, key) of None \<Rightarrow> ([], False) | Some (h, q, st) \<Rightarrow> (st, True))"

definition RemoteComplete :: "string \<Rightarrow> string \<Rightarrow> interaction_store \<Rightarrow> interaction_store" where
  "RemoteComplete scope key s =
     (case ti_outbox s (scope, key) of
        None \<Rightarrow> s
      | Some (h, q, st) \<Rightarrow> s\<lparr>ti_outbox := (ti_outbox s)((scope, key) \<mapsto> (h, q, ''complete''))\<rparr>)"

definition Command_of :: "string \<Rightarrow> string \<Rightarrow> interaction_store \<Rightarrow> ti_error + question option" where
  "Command_of scope key s =
     (case ti_commands s (scope, key) of
        None \<Rightarrow> Inr None
      | Some (h, q) \<Rightarrow> (case Get_question q s of Inl e \<Rightarrow> Inl e | Inr r \<Rightarrow> Inr (Some r)))"

definition ReserveRemoteOnce ::
  "string \<Rightarrow> string \<Rightarrow> string \<Rightarrow> string \<Rightarrow> interaction_store \<Rightarrow> (ti_error + bool) \<times> interaction_store" where
  "ReserveRemoteOnce scope key hash qid s =
     (case ti_outbox s (scope, key) of
        None \<Rightarrow> (Inr True, s\<lparr>ti_outbox := (ti_outbox s)((scope, key) \<mapsto> (hash, qid, ''unknown''))\<rparr>)
      | Some (h, q, st) \<Rightarrow> if h \<noteq> hash \<or> q \<noteq> qid then (Inl TiIdempotencyConflict, s) else (Inr False, s))"

definition CheckControl :: "string \<Rightarrow> string \<Rightarrow> string \<Rightarrow> string \<Rightarrow> interaction_store \<Rightarrow> ti_error option" where
  "CheckControl cid question target hash s =
     (case ti_controls s cid of
        None \<Rightarrow> Some TiNoRows
      | Some (q, t, h) \<Rightarrow> if q \<noteq> question \<or> t \<noteq> target \<or> hash \<noteq> [] \<and> h \<noteq> hash then Some TiBindingChanged else None)"

definition ReserveControl ::
  "string \<Rightarrow> string \<Rightarrow> string \<Rightarrow> string \<Rightarrow> interaction_store \<Rightarrow> ti_error option \<times> interaction_store" where
  "ReserveControl cid question target hash s =
     (let s' = (case ti_controls s cid of
                  None \<Rightarrow> s\<lparr>ti_controls := (ti_controls s)(cid \<mapsto> (question, target, hash))\<rparr> | Some x \<Rightarrow> s)
      in (CheckControl cid question target hash s', s'))"

section \<open>The changes of the hub\<close>

text \<open>A parent, here or in another instance, asks for a person.\<close>

definition escalate_fn :: "question \<Rightarrow> ti_error + question" where
  "escalate_fn r =
     (if tn_State r \<notin> open_states then Inl TiAlreadyReserved else Inr (r\<lparr>tn_HumanOnly := True, tn_State := ''pending_human''\<rparr>))"

definition queried_fn :: "question \<Rightarrow> ti_error + question" where
  "queried_fn r = Inr (r\<lparr>tn_Notification := ''parent_queried''\<rparr>)"

definition orphan_fn :: "string \<Rightarrow> question \<Rightarrow> ti_error + question" where
  "orphan_fn reason r = Inr (r\<lparr>tn_State := ''orphaned'', tn_Error := reason\<rparr>)"

definition notified_fn :: "string \<Rightarrow> string \<Rightarrow> question \<Rightarrow> ti_error + question" where
  "notified_fn st request r = Inr (r\<lparr>tn_Notification := st, tn_NotificationRequest := request\<rparr>)"

definition busy_fn :: "question \<Rightarrow> ti_error + question" where
  "busy_fn r = Inr (r\<lparr>tn_Notification := ''deferred_parent_busy''\<rparr>)"

definition relayed_fn :: "string \<Rightarrow> string \<Rightarrow> question \<Rightarrow> ti_error + question" where
  "relayed_fn st reason r = Inr (r\<lparr>tn_Notification := st, tn_Error := reason\<rparr>)"

definition unacknowledged_fn :: "question \<Rightarrow> ti_error + question" where
  "unacknowledged_fn r =
     Inr (if tn_State r \<noteq> ''resolved''
          then r\<lparr>tn_Error := ''answer_continuation_not_acknowledged; inspect original receipt, do not replay''\<rparr> else r)"

definition awaiting_fn :: "question \<Rightarrow> ti_error + question" where
  "awaiting_fn r = Inr (if tn_State r = ''answer_reserved'' then r\<lparr>tn_State := ''awaiting_consumption''\<rparr> else r)"

definition resolution_fn :: "string \<Rightarrow> question \<Rightarrow> ti_error + question" where
  "resolution_fn status r =
     Inr (if tn_State r \<noteq> ''pending_human'' then r
          else if status = ''resolved'' then r\<lparr>tn_State := ''native_reply_written'', tn_Actor := ''human''\<rparr>
          else if status = ''expired'' then r\<lparr>tn_State := ''orphaned'', tn_Error := ''native_question_expired''\<rparr>
          else if status = ''cancelled'' then r\<lparr>tn_State := ''cancelled''\<rparr>
          else r)"

text \<open>
  The first step of the reconciliation: a question that needs work and whose binding is no longer valid is
  orphaned, whatever its state. \<open>invalid\<close> is what \<^verbatim>\<open>validInteraction\<close> reports.
\<close>

definition reconcile_orphans :: "int \<Rightarrow> (question \<Rightarrow> string option) \<Rightarrow> interaction_store \<Rightarrow> interaction_store" where
  "reconcile_orphans now invalid s =
     (let (rs, s1) = Pending_questions s
      in fold (\<lambda>r t. case invalid r of None \<Rightarrow> t | Some e \<Rightarrow> snd (Change_question now (tn_ID r) [] [] [] (orphan_fn e) t)) rs s1)"

section \<open>The relation a request belongs to\<close>

text \<open>
  A request that the bridge itself created stands for the request of the question it continues. \<open>base\<close>
  looks up the delegation or the dispatch of an ordinary request. \<open>seen\<close> bounds the chain.
\<close>

definition trim_prefix :: "string \<Rightarrow> string \<Rightarrow> string" where
  "trim_prefix s p = (if has_prefix s p then drop (length p) s else s)"

function interactionBindingPath ::
  "string \<Rightarrow> (string \<Rightarrow> string \<Rightarrow> ti_error + interaction_binding) \<Rightarrow> interaction_store \<Rightarrow> string \<Rightarrow> string
   \<Rightarrow> (string \<times> string) list \<Rightarrow> ti_error + interaction_binding" where
  "interactionBindingPath inst base s child request seen =
     (if (child, request) \<in> set seen \<or> 8 \<le> length seen then Inl TiLineageLimit
      else if has_prefix request ''tianswer_'' then
        (case Get_question (trim_prefix request ''tianswer_'') s of
           Inl e \<Rightarrow> Inl TiContinuationUnbound
         | Inr q \<Rightarrow>
             if CheckControl request (tn_ID q) child [] s \<noteq> None \<or> bd_Authority (tn_Binding q) \<noteq> inst
                \<or> bd_Child (tn_Binding q) \<noteq> child \<or> tn_Answer q = [] then Inl TiContinuationUnbound
             else interactionBindingPath inst base s child (bd_ChildRequest (tn_Binding q)) ((child, request) # seen))
      else if has_prefix request ''tiwake_'' then
        (case Get_question (trim_prefix request ''tiwake_'') s of
           Inl e \<Rightarrow> Inl TiRelationMissing
         | Inr q \<Rightarrow>
             if CheckControl request (tn_ID q) child [] s \<noteq> None \<or> bd_Parent (tn_Binding q) \<noteq> child
                \<or> bd_ParentAuthority (tn_Binding q) \<noteq> inst \<or> bd_ParentRequest (tn_Binding q) = [] then Inl TiRelationMissing
             else interactionBindingPath inst base s child (bd_ParentRequest (tn_Binding q)) ((child, request) # seen))
      else base child request)"
  by pat_completeness auto
termination
  by (relation "measure (\<lambda>(inst, base, s, child, request, seen). 8 - length seen)") auto

declare interactionBindingPath.simps [simp del]

end
