(* ===== verification/Interaction_Guarantees.thy ===== *)
theory Interaction_Guarantees
  imports Interaction_Properties
begin

text \<open>The guarantees of the question store, with instances.\<close>

section \<open>One answer\<close>

lemma history_rows:
  assumes "(ti_history inst Hash)\<^sup>*\<^sup>* s s'" and "ti_inv inst s" and "w \<in> set (ti_questions s)"
  shows "\<exists>w'\<in>set (ti_questions s'). question_row_step inst w w'"
  using assms(1)
proof (induction rule: rtranclp_induct)
  case base
  show ?case using assms(3) by force
next
  case (step t u)
  then obtain v where v: "v \<in> set (ti_questions t)" "question_row_step inst w v" by blast
  have "questions_change inst t u"
    using history_change [OF step.hyps(2)] question_sys.steps_good [OF step.hyps(1) assms(2)] by blast
  then show ?case unfolding questions_change_def
  proof (elim disjE exE conjE)
    fix f assume f: "ti_questions u = map f (ti_questions t)" "\<forall>w\<in>set (ti_questions t). question_row_step inst w (f w)"
    then show ?thesis using v row_step_trans by (intro bexI [of _ "f v"]) auto
  qed (use v in auto)
qed

lemma closed_answer:
  assumes "ti_inv inst s" and "w \<in> set (ti_questions s)" and "tn_State (qr_data w) \<notin> open_states"
  shows "snd (Answer Hash now token (qr_id w) scope key hash revision actor actorID answer s) = s"
proof -
  let ?fn = "answer_fn Hash token key revision actor actorID answer"
  show ?thesis unfolding Answer_def
  proof (cases rule: Change_cases [of now "qr_id w" scope key hash ?fn s])
    case (written v r1 r2 s')
    have "v = w" using found_question [OF written(1)] assms(2) by (intro only_row [OF assms(1)]) auto
    then show "snd (Change_question now (qr_id w) scope key hash ?fn s) = s" using written(2) assms(3) by (simp add: answer_fn_def split: if_splits)
  qed
qed

text \<open>
  C33. An answer is reserved once. Once a question of this instance is no longer open, its answer, who gave it
  and the token that acknowledges it never change, it is never open again and every further answer changes
  nothing; a question that is for a person stays so and its answer is a person's; versions never go back.
\<close>

theorem answer_is_reserved_once:
  assumes "(ti_history inst Hash)\<^sup>*\<^sup>* empty_interactions s" and "w \<in> set (ti_questions s)" and "owner_of w = inst"
    and "(ti_history inst Hash)\<^sup>*\<^sup>* s s'"
  shows "\<exists>w'\<in>set (ti_questions s').
      qr_id w' = qr_id w \<and> tn_Binding (qr_data w') = tn_Binding (qr_data w) \<and> qr_version w \<le> qr_version w'
    \<and> (tn_State (qr_data w) \<notin> open_states \<longrightarrow>
         tn_State (qr_data w') \<notin> open_states \<and> sealed_answer (qr_data w') = sealed_answer (qr_data w)
         \<and> snd (Answer Hash now token (qr_id w) scope key hash revision actor actorID answer s') = s')
    \<and> (tn_HumanOnly (qr_data w) \<longrightarrow> tn_HumanOnly (qr_data w') \<and> (tn_Answer (qr_data w') \<noteq> [] \<longrightarrow> tn_Actor (qr_data w') = ''human''))"
proof -
  have inv: "ti_inv inst s" by (rule question_sys.reachable_good [OF refl assms(1)])
  have inv': "ti_inv inst s'" by (rule question_sys.steps_good [OF assms(4) inv])
  obtain w' where w': "w' \<in> set (ti_questions s')" "question_row_step inst w w'" using history_rows [OF assms(4) inv assms(2)] by blast
  then have f: "qr_id w' = qr_id w" "same_question (qr_data w) (qr_data w')" "qr_version w \<le> qr_version w'" "follows (qr_data w) (qr_data w')"
    using assms(3) by (simp_all add: question_row_step_def)
  have "answer_ok (qr_data w')" using inv' w'(1) f(2) assms(3) by (simp add: ti_inv_def question_row_ok_def same_question_def)
  moreover have "snd (Answer Hash now token (qr_id w) scope key hash revision actor actorID answer s') = s'"
    if "tn_State (qr_data w) \<notin> open_states"
    using closed_answer [OF inv' w'(1)] that f(1,4) by (simp add: follows_def)
  ultimately show ?thesis using w'(1) f by (intro bexI [of _ w']) (simp_all add: follows_def same_question_def answer_ok_def)
qed

section \<open>One command\<close>

lemma outbox_kept:
  assumes "(ti_history inst Hash)\<^sup>*\<^sup>* s s'" and "ti_outbox s k = Some (h, q, st)"
  shows "\<exists>st'. ti_outbox s' k = Some (h, q, st')"
  using assms(1)
proof (induction rule: rtranclp_induct)
  case (step t u)
  then obtain st' where st': "ti_outbox t k = Some (h, q, st')" by blast
  show ?case using step.hyps(2)
  proof (cases rule: ti_history.cases)
    case th_step
    then show ?thesis
    proof (cases rule: ti_step.cases)
      case (ti_create r now qid)
      have "ti_outbox u = ti_outbox t"
        unfolding ti_create(1) by (auto simp: Create_question_def Let_def insert_question_def split: option.splits if_splits)
      with st' show ?thesis by simp
    next
      case (ti_change fn now qid scope key hash)
      show ?thesis using st' by (cases rule: Change_cases [of now qid scope key hash fn t]) (simp_all add: ti_change(1))
    next
      case (ti_sync r)
      have "ti_outbox u = ti_outbox t"
        unfolding ti_sync(1) by (auto simp: Import_def Let_def insert_question_def write_row_def split: option.splits if_splits)
      with st' show ?thesis by simp
    next
      case (ti_reply w r)
      have "ti_outbox u = ti_outbox t"
        unfolding ti_reply(1) by (auto simp: Import_def Let_def insert_question_def write_row_def split: option.splits if_splits)
      with st' show ?thesis by simp
    next
      case (ti_completed scope key)
      then show ?thesis using st' by (cases "k = (scope, key)") (auto simp: RemoteComplete_def split: option.splits)
    next
      case (ti_reserved scope key hash qid)
      then show ?thesis using st' by (cases "k = (scope, key)") (auto simp: ReserveRemoteOnce_def split: option.splits)
    qed (use st' in \<open>auto simp: RelayAccepted_def ReserveControl_def Let_def split: option.splits\<close>)
  qed (use st' in \<open>simp_all add: Pending_questions_def Let_def\<close>)
qed (use assms(2) in blast)

text \<open>
  A command to another instance is sent once. After it was reserved, every later reservation with the same
  key, whatever happened in between, is refused or reports that it is not the first and changes nothing;
  it is refused when its content or its question is another one.
\<close>

theorem remote_command_is_sent_once:
  assumes "ReserveRemoteOnce scope key hash qid s = (Inr True, s1)" and "(ti_history inst Hash)\<^sup>*\<^sup>* s1 s'"
  shows "ReserveRemoteOnce scope key hash' qid' s'
     = (if hash' = hash \<and> qid' = qid then Inr False else Inl TiIdempotencyConflict, s')"
proof -
  have "ti_outbox s1 (scope, key) = Some (hash, qid, ''unknown'')"
    using assms(1) by (auto simp: ReserveRemoteOnce_def split: option.splits if_splits)
  from outbox_kept [OF assms(2) this] show ?thesis by (auto simp: ReserveRemoteOnce_def)
qed

section \<open>Looking at every question\<close>

lemma change_ids: "questions_change inst s s' \<Longrightarrow> prefix (map qr_id (ti_questions s)) (map qr_id (ti_questions s'))"
  unfolding questions_change_def
proof (elim disjE exE conjE)
  fix f assume f: "ti_questions s' = map f (ti_questions s)" "\<forall>w\<in>set (ti_questions s). question_row_step inst w (f w)"
  then have "map qr_id (ti_questions s') = map qr_id (ti_questions s)" by (simp add: question_row_step_def)
  then show ?thesis by simp
qed simp

lemma step_cursor: "ti_step inst Hash s s' \<Longrightarrow> ti_cursor s' = ti_cursor s"
proof (induction rule: ti_step.induct)
  case (ti_change fn s now qid scope key hash)
  show ?case by (cases rule: Change_cases [of now qid scope key hash fn s]) simp_all
qed (auto simp: Create_question_def insert_question_def Import_def write_row_def RelayAccepted_def RemoteComplete_def
  ReserveRemoteOnce_def ReserveControl_def Let_def split: option.splits if_splits)

lemma steps_between:
  assumes "(ti_step inst Hash)\<^sup>*\<^sup>* s s'" and "ti_inv inst s"
  shows "ti_cursor s' = ti_cursor s \<and> prefix (map qr_id (ti_questions s)) (map qr_id (ti_questions s')) \<and> ti_inv inst s'"
  using assms(1)
proof (induction rule: rtranclp_induct)
  case (step t u)
  have "questions_change inst t u" using ti_step_change [OF step.hyps(2)] step.IH by blast
  then show ?case using step.IH step_cursor [OF step.hyps(2)] change_ids [of inst t u] change_inv by (metis prefix_order.trans)
qed (use assms(2) in simp)

lemma sorted_rows: "sorted_wrt (<) (map fst (filter P (List.enumerate n xs)))"
proof -
  have "sorted_wrt (<) (map fst (List.enumerate n xs))" unfolding map_fst_enumerate by (rule sorted_wrt_upt)
  then show ?thesis unfolding sorted_wrt_map by (rule sorted_wrt_filter)
qed

lemma sorted_page:
  "sorted_wrt (<) (map fst (pending_page s)) \<and> (\<forall>(n, w)\<in>set (pending_page s). ti_cursor s < n \<and> n \<le> length (ti_questions s))"
proof -
  have "sorted_wrt (<) (map fst (pending_page s))"
    unfolding pending_page_def take_map [symmetric] by (rule sorted_wrt_take [OF sorted_rows])
  moreover have "ti_cursor s < n \<and> n \<le> length (ti_questions s)" if "(n, w) \<in> set (pending_page s)" for n w
    using in_set_takeD [OF that [unfolded pending_page_def]] by (auto simp: in_set_enumerate_eq)
  ultimately show ?thesis by blast
qed

text \<open>Numbers that increase from above the cursor: the last of \<open>k\<close> is at least \<open>k\<close> beyond it.\<close>

lemma increasing_last: "sorted_wrt (<) (ns :: nat list) \<Longrightarrow> ns \<noteq> [] \<Longrightarrow> \<forall>n\<in>set ns. c < n \<Longrightarrow> c + length ns \<le> last ns"
proof (induction ns arbitrary: c)
  case (Cons n ns)
  show ?case
  proof (cases "ns = []")
    case False
    then have "n + length ns \<le> last ns" using Cons by (intro Cons.IH) auto
    then show ?thesis using Cons.prems False by simp
  qed (use Cons.prems in simp)
qed simp

text \<open>A row that needs work and is missing from the page of its cursor lies behind a full page.\<close>

lemma page_misses:
  assumes "(t, w) \<in> set (List.enumerate 1 (ti_questions s))" and "needs_work s w" and "ti_cursor s < t" and "(t, w) \<notin> set (pending_page s)"
  shows "length (pending_page s) = 256 \<and> fst (last (pending_page s)) < t"
proof -
  let ?xs = "filter (\<lambda>(n, w). ti_cursor s < n \<and> needs_work s w) (List.enumerate 1 (ti_questions s))"
  have x: "(t, w) \<in> set (drop 256 ?xs)" "256 < length ?xs"
  proof -
    have "(t, w) \<in> set (take 256 ?xs @ drop 256 ?xs)" using assms(1-3) by (simp only: append_take_drop_id) simp
    then show "(t, w) \<in> set (drop 256 ?xs)" using assms(4) unfolding pending_page_def set_append by blast
    then show "256 < length ?xs" by (cases "256 < length ?xs") auto
  qed
  have "sorted_wrt (<) (map fst (take 256 ?xs @ drop 256 ?xs))"
    by (simp only: append_take_drop_id) (rule sorted_rows)
  then have below: "\<forall>a\<in>fst ` set (take 256 ?xs). \<forall>b\<in>fst ` set (drop 256 ?xs). a < b"
    unfolding map_append sorted_wrt_append set_map by (elim conjE)
  have "t \<in> fst ` set (drop 256 ?xs)" using imageI [OF x(1), of fst] by (simp only: fst_conv)
  with below have "\<forall>x\<in>set (take 256 ?xs). fst x < t" by blast
  moreover have "length (pending_page s) = 256" unfolding pending_page_def using x(2) by simp
  moreover have "pending_page s = take 256 ?xs" by (simp only: pending_page_def)
  ultimately show ?thesis by (metis last_in_set list.size(3) zero_neq_numeral)
qed


lemma cursor_bound: "(ti_history inst Hash)\<^sup>*\<^sup>* empty_interactions s \<Longrightarrow> ti_cursor s \<le> length (ti_questions s)"
proof (induction rule: rtranclp_induct)
  case (step t u)
  have inv: "ti_inv inst t" by (rule question_sys.reachable_good [OF refl step.hyps(1)])
  show ?case using step.hyps(2)
  proof (cases rule: ti_history.cases)
    case th_step
    then have "ti_cursor u = ti_cursor t \<and> prefix (map qr_id (ti_questions t)) (map qr_id (ti_questions u))"
      using steps_between [OF r_into_rtranclp inv] by blast
    then show ?thesis using prefix_length_le step.IH by fastforce
  next
    case th_pending
    have "pending_page t \<noteq> [] \<Longrightarrow> last (pending_page t) \<in> set (pending_page t)" by simp
    then show ?thesis using sorted_page [of t] by (fastforce simp: th_pending Pending_questions_def Let_def)
  qed simp
qed (simp add: empty_interactions_def)

text \<open>How many looks it takes at most until row \<open>t\<close> is on the page, from a cursor, with at most \<open>N\<close> rows.\<close>

definition looks :: "nat \<Rightarrow> nat \<Rightarrow> nat \<Rightarrow> nat" where
  "looks N t c = (if c < t then (t - 1 - c) div 256 else (N - c) div 256 + 1 + (t - 1) div 256)"

lemma looks_bound: "0 < t \<Longrightarrow> t \<le> N \<Longrightarrow> c \<le> N \<Longrightarrow> looks N t c \<le> N div 256 + 1"
proof (cases "c < t")
  case False
  assume "0 < t" "t \<le> N" "c \<le> N"
  moreover have "(N - c) div 256 + (t - 1) div 256 \<le> (N - c + (t - 1)) div 256" by linarith
  moreover have "(N - c + (t - 1)) div 256 \<le> N div 256" using False calculation(3) by (intro div_le_mono) linarith
  ultimately show ?thesis using False by (simp add: looks_def)
qed (simp add: looks_def div_le_mono le_SucI)

lemma looks_decrease:
  assumes row: "(t, w) \<in> set (List.enumerate 1 (ti_questions s))" "needs_work s w" and missed: "(t, w) \<notin> set (pending_page s)"
    and N: "length (ti_questions s) \<le> N"
  shows "looks N t (ti_cursor (snd (Pending_questions s))) < looks N t (ti_cursor s) \<and> ti_cursor (snd (Pending_questions s)) \<le> N"
proof -
  let ?c = "ti_cursor s" and ?c' = "ti_cursor (snd (Pending_questions s))"
  have t: "0 < t" using row(1) by (auto simp: in_set_enumerate_eq)
  have full: "?c + 256 \<le> ?c' \<and> ?c' \<le> N" if "length (pending_page s) = 256"
  proof -
    have ne: "pending_page s \<noteq> []" using that by auto
    have "?c' = last (map fst (pending_page s))" using that ne by (simp add: Pending_questions_def Let_def last_map)
    moreover have "last (pending_page s) \<in> set (pending_page s)" using ne by simp
    ultimately show ?thesis
      using increasing_last [of "map fst (pending_page s)" ?c] sorted_page [of s] that ne N by (fastforce simp: last_map)
  qed
  have short: "?c' = 0" if "length (pending_page s) \<noteq> 256"
    using that by (auto simp: Pending_questions_def Let_def pending_page_def)
  show ?thesis
  proof (cases "?c < t")
    case True
    then have p: "length (pending_page s) = 256" "fst (last (pending_page s)) < t" using page_misses [OF row True missed] by auto
    then have "?c' < t" by (simp add: Pending_questions_def Let_def)
    moreover have "(t - 1 - ?c') div 256 < (t - 1 - ?c) div 256" using full [OF p(1)] \<open>?c' < t\<close> by linarith
    ultimately show ?thesis using True full [OF p(1)] by (simp add: looks_def)
  next
    case False
    show ?thesis
    proof (cases "length (pending_page s) = 256")
      case True
      have "(N - ?c') div 256 < (N - ?c) div 256" using full [OF True] by linarith
      then show ?thesis using False full [OF True] by (simp add: looks_def)
    next
      case c0: False
      then show ?thesis using False short t by (simp add: looks_def)
    qed
  qed
qed

text \<open>
  C34. Every question that needs work is looked at. Whatever happens between the looks of the scheduler, as
  long as there are at most \<open>N\<close> questions, one that keeps needing work is on one of the next
  \<open>N div 256 + 2\<close> pages, wherever the cursor stands: long-lived questions cannot starve it.
\<close>

theorem pending_questions_rotate:
  assumes "(ti_history inst Hash)\<^sup>*\<^sup>* empty_interactions (\<sigma> 0)"
    and "\<And>i. (ti_step inst Hash)\<^sup>*\<^sup>* (snd (Pending_questions (\<sigma> i))) (\<sigma> (Suc i))"
    and "\<And>i. \<exists>w\<in>set (ti_questions (\<sigma> i)). qr_id w = qid \<and> needs_work (\<sigma> i) w"
    and "\<And>i. length (ti_questions (\<sigma> i)) \<le> N"
  shows "\<exists>k\<le>N div 256 + 1. qid \<in> tn_ID ` set (fst (Pending_questions (\<sigma> k)))"
proof -
  have same: "ti_questions (snd (Pending_questions s)) = ti_questions s" for s by (simp add: Pending_questions_def Let_def)
  have inv: "ti_inv inst (\<sigma> i)" for i
  proof (induction i)
    case (Suc i)
    have "ti_inv inst (snd (Pending_questions (\<sigma> i)))" using Suc by (simp add: ti_inv_def same)
    then show ?case using steps_between [OF assms(2)] by blast
  qed (rule question_sys.reachable_good [OF refl assms(1)])
  have next_state: "ti_cursor (\<sigma> (Suc i)) = ti_cursor (snd (Pending_questions (\<sigma> i)))
      \<and> prefix (map qr_id (ti_questions (\<sigma> i))) (map qr_id (ti_questions (\<sigma> (Suc i))))" for i
    using steps_between [OF assms(2) [of i]] inv [of i] by (simp add: ti_inv_def same)
  have ids: "prefix (map qr_id (ti_questions (\<sigma> 0))) (map qr_id (ti_questions (\<sigma> i)))" for i
    using next_state by (induction i) (auto intro: prefix_order.trans)
  obtain n where n: "n < length (ti_questions (\<sigma> 0))" "qr_id (ti_questions (\<sigma> 0) ! n) = qid"
    using assms(3) [of 0] by (auto simp: in_set_conv_nth)
  have row: "(Suc n, ti_questions (\<sigma> i) ! n) \<in> set (List.enumerate 1 (ti_questions (\<sigma> i)))"
      "needs_work (\<sigma> i) (ti_questions (\<sigma> i) ! n)" "qr_id (ti_questions (\<sigma> i) ! n) = qid" "n < length (ti_questions (\<sigma> i))" for i
  proof -
    have len: "n < length (ti_questions (\<sigma> i))" using n(1) prefix_length_le [OF ids [of i]] by simp
    have "map qr_id (ti_questions (\<sigma> i)) ! n = map qr_id (ti_questions (\<sigma> 0)) ! n"
      using ids [of i] n(1) by (auto simp: prefix_def nth_append simp del: nth_map)
    then have q: "qr_id (ti_questions (\<sigma> i) ! n) = qid" using n len by simp
    show "(Suc n, ti_questions (\<sigma> i) ! n) \<in> set (List.enumerate 1 (ti_questions (\<sigma> i)))" using len by (simp add: in_set_enumerate_eq)
    obtain w where w: "w \<in> set (ti_questions (\<sigma> i))" "qr_id w = qid" "needs_work (\<sigma> i) w" using assms(3) by blast
    then have "w = ti_questions (\<sigma> i) ! n" using q len by (intro only_row [OF inv]) auto
    then show "needs_work (\<sigma> i) (ti_questions (\<sigma> i) ! n)" using w by simp
    show "qr_id (ti_questions (\<sigma> i) ! n) = qid" "n < length (ti_questions (\<sigma> i))" using q len .
  qed
  have "(\<exists>j\<le>k. (Suc n, ti_questions (\<sigma> j) ! n) \<in> set (pending_page (\<sigma> j)))
      \<or> looks N (Suc n) (ti_cursor (\<sigma> (Suc k))) + Suc k \<le> looks N (Suc n) (ti_cursor (\<sigma> 0))" for k
  proof (induction k)
    case 0
    then show ?case using looks_decrease [OF row(1,2) [of 0] _ assms(4)] next_state [of 0] by (auto simp: Suc_le_eq)
  next
    case (Suc k)
    then show ?case
      using looks_decrease [OF row(1,2) [of "Suc k"] _ assms(4)] next_state [of "Suc k"] by (force simp: le_Suc_eq)
  qed
  from this [of "N div 256 + 1"] obtain j where j: "j \<le> N div 256 + 1" "(Suc n, ti_questions (\<sigma> j) ! n) \<in> set (pending_page (\<sigma> j))"
    using looks_bound [of "Suc n" N "ti_cursor (\<sigma> 0)"] n(1) assms(4) [of 0] cursor_bound [OF assms(1)] by fastforce
  have "tn_ID (qr_data (ti_questions (\<sigma> j) ! n)) = qid"
    using inv [of j] row(3,4) [of j] by (simp add: ti_inv_def question_row_ok_def)
  then have "qid \<in> tn_ID ` set (fst (Pending_questions (\<sigma> j)))" using j(2) by (force simp: Pending_questions_def Let_def)
  with j(1) show ?thesis by blast
qed

section \<open>A resolution that is lost\<close>

lemma change_elsewhere:
  assumes "ti_inv inst t" and "v \<in> set (ti_questions t)" and "qr_id v \<noteq> qid" and "hub_change Hash fn"
  shows "v \<in> set (ti_questions (snd (Change_question now qid scope key hash fn t)))"
proof (cases rule: Change_cases [of now qid scope key hash fn t])
  case (written w r1 r2 s')
  have "tn_ID r2 = qid"
    using hub_change_follows [OF assms(4) written(2)] found_question [OF written(1)] assms(1) written(4)
    by (auto simp: same_question_def ti_inv_def question_row_ok_def)
  then have "(if qr_id v = tn_ID r2 then v\<lparr>qr_version := tn_Version r2, qr_data := r2\<rparr> else v) = v" using assms(3) by simp
  then show ?thesis using assms(2) written(5,8) by (force simp: write_row_def)
qed (use assms(2) in simp)

lemma row_found:
  assumes inv: "ti_inv inst t" and v: "v \<in> set (ti_questions t)"
  shows "question_row_of (qr_id v) t = Some v"
proof (cases "question_row_of (qr_id v) t")
  case None
  then show ?thesis using v by (auto simp: question_row_of_def find_None_iff)
next
  case (Some u)
  then show ?thesis using found_question [OF Some] only_row [OF inv v] by simp
qed

lemma orphan_change:
  assumes inv: "ti_inv inst t" and v: "v \<in> set (ti_questions t)" and room: "sql_integer (Suc (qr_version v))"
  shows "\<exists>v'\<in>set (ti_questions (snd (Change_question now (qr_id v) [] [] [] (orphan_fn e) t))). qr_id v' = qr_id v \<and> tn_State (qr_data v') = ''orphaned''"
proof (cases "qr_data v = (qr_data v)\<lparr>tn_State := ''orphaned'', tn_Error := e\<rparr>")
  case True
  note row = row_found [OF inv v]
  have "snd (Change_question now (qr_id v) [] [] [] (orphan_fn e) t) = t" unfolding Change_question_def row orphan_fn_def using True by (simp add: Let_def)
  moreover have "tn_State (qr_data v) = ''orphaned''" using arg_cong [OF True, of tn_State] by simp
  ultimately show ?thesis using v by (intro bexI [of _ v]) simp_all
next
  case False
  let ?r = "(qr_data v)\<lparr>tn_State := ''orphaned'', tn_Error := e, tn_Version := Suc (tn_Version (qr_data v)), tn_UpdatedAt := now\<rparr>"
  have ok: "tn_Version (qr_data v) = qr_version v" "tn_ID (qr_data v) = qr_id v" using inv v by (simp_all add: ti_inv_def question_row_ok_def)
  note row = row_found [OF inv v]
  have "snd (Change_question now (qr_id v) [] [] [] (orphan_fn e) t) = write_row ?r t"
    unfolding Change_question_def row orphan_fn_def using False room ok by (simp add: Let_def)
  moreover have "v\<lparr>qr_version := tn_Version ?r, qr_data := ?r\<rparr> \<in> set (ti_questions (write_row ?r t))"
    unfolding write_row_def using ok(2) imageI [OF v, of "\<lambda>w. if qr_id w = tn_ID ?r then w\<lparr>qr_version := tn_Version ?r, qr_data := ?r\<rparr> else w"] by simp
  ultimately show ?thesis by (intro bexI [of _ "v\<lparr>qr_version := tn_Version ?r, qr_data := ?r\<rparr>"]) simp_all
qed

lemma orphan_fold:
  assumes "ti_inv inst t" and "v \<in> set (ti_questions t)" and "distinct (map tn_ID rs)"
    and "tn_State (qr_data v) = ''orphaned'' \<and> qr_id v \<notin> tn_ID ` set rs
       \<or> qr_data v \<in> set rs \<and> invalid (qr_data v) = Some e \<and> sql_integer (Suc (qr_version v))"
  shows "\<exists>v'\<in>set (ti_questions (fold (\<lambda>r t. case invalid r of None \<Rightarrow> t | Some e \<Rightarrow> snd (Change_question now (tn_ID r) [] [] [] (orphan_fn e) t)) rs t)).
    qr_id v' = qr_id v \<and> tn_State (qr_data v') = ''orphaned''"
  using assms
proof (induction rs arbitrary: t v)
  case (Cons r rs)
  let ?t = "case invalid r of None \<Rightarrow> t | Some e \<Rightarrow> snd (Change_question now (tn_ID r) [] [] [] (orphan_fn e) t)"
  have inv: "ti_inv inst ?t"
    using Cons.prems(1) inv_history [OF th_step [OF ti_change [OF hc_orphan]]] by (auto split: option.splits)
  have vid: "tn_ID (qr_data v) = qr_id v" using Cons.prems(1,2) by (simp add: ti_inv_def question_row_ok_def)
  show ?case
  proof (cases "tn_ID r = qr_id v")
    case False
    then have "v \<in> set (ti_questions ?t)"
      using Cons.prems(1,2) change_elsewhere [OF Cons.prems(1,2) _ hc_orphan] by (auto split: option.splits)
    from Cons.IH [OF inv this] Cons.prems(3,4) False vid show ?thesis by auto
  next
    case True
    then have new: "qr_id v \<notin> tn_ID ` set rs" using Cons.prems(3) by auto
    then have "qr_data v \<notin> set rs" using vid by (metis imageI)
    then have "qr_data v = r" "invalid r = Some e" "sql_integer (Suc (qr_version v))" using Cons.prems(4) vid True by auto
    then obtain v' where v': "v' \<in> set (ti_questions ?t)" "qr_id v' = qr_id v" "tn_State (qr_data v') = ''orphaned''"
      using orphan_change [OF Cons.prems(1,2), of now e] True by auto
    from Cons.IH [OF inv v'(1)] Cons.prems(3) v'(2,3) new show ?thesis by auto
  qed
qed auto

text \<open>
  C35. A resolution can be lost. A question whose parent is in another instance still needs work after it was
  resolved, until the parent has been told; if its binding became invalid by then, for example because the
  child was closed, the reconciliation orphans it, although it was answered and acknowledged.
\<close>

theorem resolved_question_is_orphaned:
  assumes "(ti_history inst Hash)\<^sup>*\<^sup>* empty_interactions s" and "(n, w) \<in> set (pending_page s)"
    and "tn_State (qr_data w) = ''resolved''" and "invalid (qr_data w) = Some e" and "sql_integer (Suc (qr_version w))"
  shows "\<exists>w'\<in>set (ti_questions (reconcile_orphans now invalid s)). qr_id w' = qr_id w \<and> tn_State (qr_data w') = ''orphaned''"
proof -
  let ?rs = "map (qr_data \<circ> snd) (pending_page s)" and ?t = "snd (Pending_questions s)"
  have inv: "ti_inv inst s" by (rule question_sys.reachable_good [OF refl assms(1)])
  then have inv': "ti_inv inst ?t" by (rule inv_history [OF th_pending])
  have sub: "set (map snd (pending_page s)) \<subseteq> set (ti_questions s)"
    by (auto simp: pending_page_def in_set_enumerate_eq dest!: in_set_takeD)
  have "distinct (map (qr_id \<circ> snd) (pending_page s))"
  proof -
    have "distinct (map (qr_id \<circ> snd) (List.enumerate 1 (ti_questions s)))" using inv by (simp add: ti_inv_def flip: map_map)
    then show ?thesis unfolding pending_page_def by (simp add: distinct_map_filter distinct_take flip: take_map)
  qed
  moreover have "map tn_ID ?rs = map (qr_id \<circ> snd) (pending_page s)"
    using inv sub by (auto simp: ti_inv_def question_row_ok_def)
  ultimately have dist: "distinct (map tn_ID ?rs)" by (simp only:)
  have "qr_data w \<in> set ?rs" using assms(2) by force
  moreover have "w \<in> set (ti_questions ?t)" using sub assms(2) by (force simp: Pending_questions_def Let_def)
  moreover have "reconcile_orphans now invalid s
      = fold (\<lambda>r t. case invalid r of None \<Rightarrow> t | Some e \<Rightarrow> snd (Change_question now (tn_ID r) [] [] [] (orphan_fn e) t)) ?rs ?t"
    by (simp add: reconcile_orphans_def Pending_questions_def Let_def)
  ultimately show ?thesis using orphan_fold [OF inv' _ dist, of w invalid e now] assms(4,5) by auto
qed

section \<open>Instances\<close>

definition sample_ask :: question where
  "sample_ask = no_question\<lparr>tn_Binding := empty_binding\<lparr>bd_Authority := ''i'', bd_ParentAuthority := ''p''\<rparr>, tn_OriginKey := ''o''\<rparr>"

definition sample_answered :: question where
  "sample_answered = (new_question 1 ''q'' sample_ask)\<lparr>tn_Answer := ''yes'', tn_Actor := ''human'', tn_ActorID := ''d'', tn_AnswerKey := ''k'',
     tn_AnswerHash := ''yes'', tn_AckToken := ''t'', tn_State := ''answer_reserved'', tn_Version := 2, tn_UpdatedAt := 2\<rparr>"

definition sample_resolved :: question where
  "sample_resolved = sample_answered\<lparr>tn_State := ''resolved'', tn_AcknowledgedBy := ''c'', tn_Version := 3, tn_UpdatedAt := 3\<rparr>"

definition sample_store :: "question \<Rightarrow> bool \<Rightarrow> interaction_store" where
  "sample_store r b = empty_interactions\<lparr>ti_questions := [row_of_question r], ti_commands := (if b then [(''d'', ''k'') \<mapsto> (''h'', ''q'')] else Map.empty)\<rparr>"

lemmas sample_defs = sample_store_def sample_resolved_def sample_answered_def sample_ask_def new_question_def no_question_def empty_binding_def
  empty_interactions_def row_of_question_def sql_integer_def Let_def

lemma sample_created:
  "snd (Create_question 1 ''q'' sample_ask empty_interactions) = sample_store (new_question 1 ''q'' sample_ask) False"
  by (simp add: Create_question_def pending_questions_def insert_question_def sample_defs)

lemma sample_reserved:
  "snd (Answer (\<lambda>x. x) 2 ''t'' ''q'' ''d'' ''k'' ''h'' 1 ''human'' ''d'' ''yes'' (sample_store (new_question 1 ''q'' sample_ask) False))
   = sample_store sample_answered True"
  by (simp add: Answer_def Change_question_def answer_fn_def question_row_of_def write_row_def open_states_def sample_defs)

lemma sample_acknowledged:
  "snd (Acknowledge 3 ''q'' ''t'' ''c'' (sample_store sample_answered True)) = sample_store sample_resolved True"
  by (simp add: Acknowledge_def Change_question_def acknowledge_fn_def question_row_of_def write_row_def sample_defs)

lemma sample_history:
  "(ti_history ''i'' (\<lambda>x. x))\<^sup>*\<^sup>* empty_interactions (sample_store (new_question 1 ''q'' sample_ask) False)"
  "(ti_history ''i'' (\<lambda>x. x))\<^sup>*\<^sup>* empty_interactions (sample_store sample_answered True)"
  "ti_history ''i'' (\<lambda>x. x) (sample_store sample_answered True) (sample_store sample_resolved True)"
  "(ti_history ''i'' (\<lambda>x. x))\<^sup>*\<^sup>* empty_interactions (sample_store sample_resolved True)"
proof -
  have blank: "blank_question ''i'' sample_ask" by (simp add: blank_question_def sample_defs)
  have a: "ti_history ''i'' (\<lambda>x. x) empty_interactions (sample_store (new_question 1 ''q'' sample_ask) False)"
    using th_step [OF ti_create [OF blank]] unfolding sample_created [symmetric] .
  have b: "ti_history ''i'' (\<lambda>x. x) (sample_store (new_question 1 ''q'' sample_ask) False) (sample_store sample_answered True)"
    unfolding sample_reserved [symmetric] Answer_def by (intro th_step ti_change hc_answer)
  show c: "ti_history ''i'' (\<lambda>x. x) (sample_store sample_answered True) (sample_store sample_resolved True)"
    unfolding sample_acknowledged [symmetric] Acknowledge_def by (intro th_step ti_change hc_ack)
  show 1: "(ti_history ''i'' (\<lambda>x. x))\<^sup>*\<^sup>* empty_interactions (sample_store (new_question 1 ''q'' sample_ask) False)" using a by blast
  then show 2: "(ti_history ''i'' (\<lambda>x. x))\<^sup>*\<^sup>* empty_interactions (sample_store sample_answered True)"
    using b by (rule rtranclp.rtrancl_into_rtrancl)
  then show "(ti_history ''i'' (\<lambda>x. x))\<^sup>*\<^sup>* empty_interactions (sample_store sample_resolved True)"
    using c by (rule rtranclp.rtrancl_into_rtrancl)
qed

theorem answer_is_reserved_once_witness:
  "\<exists>w'\<in>set (ti_questions (sample_store sample_resolved True)).
     qr_id w' = ''q'' \<and> sealed_answer (qr_data w') = sealed_answer sample_answered
     \<and> snd (Answer (\<lambda>x. x) 4 ''u'' ''q'' ''e'' ''l'' ''g'' 1 ''human'' ''e'' ''no'' (sample_store sample_resolved True)) = sample_store sample_resolved True"
proof -
  have w: "row_of_question sample_answered \<in> set (ti_questions (sample_store sample_answered True))"
    "owner_of (row_of_question sample_answered) = ''i''" "tn_State (qr_data (row_of_question sample_answered)) \<notin> open_states"
    "qr_id (row_of_question sample_answered) = ''q''" "qr_data (row_of_question sample_answered) = sample_answered"
    by (simp_all add: sample_defs open_states_def)
  have "(ti_history ''i'' (\<lambda>x. x))\<^sup>*\<^sup>* (sample_store sample_answered True) (sample_store sample_resolved True)"
    by (rule r_into_rtranclp) (rule sample_history(3))
  from answer_is_reserved_once [OF sample_history(2) w(1,2) this,
      where now = 4 and token = "''u''" and scope = "''e''" and key = "''l''" and hash = "''g''" and revision = 1
        and actor = "''human''" and actorID = "''e''" and answer = "''no''"]
  show ?thesis using w(3) unfolding w(4,5) by blast
qed

theorem remote_command_is_sent_once_witness:
  "ReserveRemoteOnce ''d'' ''k'' ''h'' ''q'' (snd (ReserveRemoteOnce ''d'' ''k'' ''h'' ''q'' empty_interactions))
   = (Inr False, snd (ReserveRemoteOnce ''d'' ''k'' ''h'' ''q'' empty_interactions))"
proof -
  let ?s = "snd (ReserveRemoteOnce ''d'' ''k'' ''h'' ''q'' empty_interactions)"
  have "ReserveRemoteOnce ''d'' ''k'' ''h'' ''q'' empty_interactions = (Inr True, ?s)"
    by (simp add: ReserveRemoteOnce_def empty_interactions_def)
  from remote_command_is_sent_once [OF this rtranclp.rtrancl_refl [of "ti_history ''i'' (\<lambda>x. x)"], of "''h''" "''q''"] show ?thesis by simp
qed

theorem pending_questions_rotate_witness:
  "\<exists>k\<le>1. ''q'' \<in> tn_ID ` set (fst (Pending_questions ((\<lambda>i::nat. sample_store sample_answered True) k)))"
proof -
  let ?s = "sample_store sample_answered True"
  have "pending_page ?s = [(1, row_of_question sample_answered)]"
    by (simp add: pending_page_def needs_work_def settled_states_def sample_defs)
  then have "snd (Pending_questions ?s) = ?s" by (simp add: Pending_questions_def Let_def sample_defs)
  moreover have "\<exists>w\<in>set (ti_questions ?s). qr_id w = ''q'' \<and> needs_work ?s w" "length (ti_questions ?s) \<le> 1"
    by (simp_all add: needs_work_def settled_states_def sample_defs)
  ultimately show ?thesis
    using pending_questions_rotate [where \<sigma> = "\<lambda>i. ?s" and inst = "''i''" and Hash = "\<lambda>x. x" and qid = "''q''" and N = 1] sample_history(2) by simp
qed

theorem resolved_question_is_orphaned_witness:
  "\<exists>w'\<in>set (ti_questions (reconcile_orphans 4 (\<lambda>r. Some ''interaction_child_changed'') (sample_store sample_resolved True))).
     qr_id w' = ''q'' \<and> tn_State (qr_data w') = ''orphaned''"
proof -
  have "(1, row_of_question sample_resolved) \<in> set (pending_page (sample_store sample_resolved True))"
    by (simp add: pending_page_def needs_work_def RelayVersion_def sample_defs)
  moreover have "tn_State (qr_data (row_of_question sample_resolved)) = ''resolved''" "sql_integer (Suc (qr_version (row_of_question sample_resolved)))"
    "qr_id (row_of_question sample_resolved) = ''q''"
    by (simp_all add: sample_defs)
  ultimately show ?thesis
    using resolved_question_is_orphaned [OF sample_history(4), of 1 "row_of_question sample_resolved" "\<lambda>r. Some ''interaction_child_changed''"] by simp
qed

end
