(* ===== verification/Delegation.thy ===== *)
theory Delegation
  imports Task_Journal
begin

text \<open>
  Delegations (\<^verbatim>\<open>internal/delegation\<close>): work one session gives to another one, its rounds, the
  capacity that bounds it, its result and the delivery of the result to the parent.

  A table is the list of its rows in the order of their row identifiers, or a map from its key; rows of
  \<open>session_delegations\<close> are never deleted, so a row identifier is a place in the list. One transaction is
  one update and an error undoes it. Times are arguments, and so is what a caller's revalidation says
  before and after the statements. Revisions and versions fit into the 63 bits of a column.
\<close>

section \<open>Tables\<close>

record DelegationRecord =
  dg_LogicalID :: string
  dg_PreviousID :: string
  dg_Authority :: string
  dg_GrantDigest :: string
  dg_Mode :: string
  dg_ExecutionRequestID :: string
  dg_ExpectedThread :: string
  dg_ExpectedRevision :: nat
  dg_WorkspaceIdentity :: string
  dg_SourceThread :: string
  dg_SourceRevision :: nat
  dg_ID :: string
  dg_ParentSessionID :: string
  dg_ChildSessionID :: string
  dg_ChildRequestID :: string
  dg_OriginRequestID :: string
  dg_ToolCallID :: string
  dg_IntentHash :: string
  dg_ChildName :: string
  dg_Cwd :: string
  dg_Instruction :: string
  dg_Model :: string
  dg_Effort :: string
  dg_Sandbox :: string
  dg_ParentRequestID :: string
  dg_DeliveryState :: string

record delegation_row =
  dw_id :: string
  dw_parent :: string
  dw_origin :: string
  dw_call :: string
  dw_hash :: string
  dw_child :: string
  dw_request :: string
  dw_name :: string
  dw_cwd :: string
  dw_instruction :: string
  dw_model :: string
  dw_effort :: string
  dw_sandbox :: string
  dw_parent_request :: string
  dw_state :: string
  dw_status :: string
  dw_result :: string
  dw_artifacts :: "string list"
  dw_error :: string
  dw_delivery :: string
  dw_delivery_error :: string
  dw_created :: int
  dw_updated :: int

record Limits =
  lm_Active :: int
  lm_Queued :: int
  lm_Delivery :: int

record source_binding =
  sb_thread :: string
  sb_revision :: nat
  sb_expected_thread :: string
  sb_expected_revision :: nat
  sb_identity :: string

record round_row =
  rd_id :: string
  rd_logical :: string
  rd_version :: nat
  rd_previous :: string
  rd_authority :: string
  rd_grant :: string
  rd_mode :: string
  rd_request :: string
  rd_claimed :: bool

record ContinuityCommand =
  cc_Parent :: string
  cc_Key :: string
  cc_Hash :: string
  cc_Action :: string
  cc_Request :: string
  cc_Call :: string
  cc_State :: string
  cc_Error :: string
  cc_EffectTaskID :: string
  cc_Result :: string
  cc_FormalBinding :: string

record DelegationEpoch =
  se_LogicalID :: string
  se_Parent :: string
  se_Authority :: string
  se_Thread :: string
  se_GrantDigest :: string
  se_Peer :: string
  se_Request :: string
  se_Call :: string
  se_Epoch :: nat
  se_FromRevision :: nat
  se_ToRevision :: nat

record delegation_store =
  dl_rows :: "delegation_row list"
  dl_commitments :: "string \<rightharpoonup> int"
  dl_profiles :: "string \<rightharpoonup> string \<times> string option"
  dl_capacity :: "string \<rightharpoonup> Limits"
  dl_scan :: "nat \<times> nat"
  dl_bindings :: "string \<rightharpoonup> source_binding"
  dl_rounds :: "round_row list"
  dl_threads :: "string \<rightharpoonup> string \<times> nat"
  dl_duties :: "(string \<times> string) list"
  dl_reviews :: "(string \<times> string \<times> string) list"
  dl_authority :: "string option"
  dl_commands :: "ContinuityCommand list"
  dl_epochs :: "DelegationEpoch list"
  dl_journal :: task_journal

definition DefaultLimits :: Limits where
  "DefaultLimits = \<lparr>lm_Active = 6, lm_Queued = 64, lm_Delivery = 128\<rparr>"

definition empty_delegations :: delegation_store where
  "empty_delegations =
     \<lparr>dl_rows = [], dl_commitments = Map.empty, dl_profiles = Map.empty, dl_capacity = [[] \<mapsto> DefaultLimits], dl_scan = (0, 0),
      dl_bindings = Map.empty, dl_rounds = [], dl_threads = Map.empty, dl_duties = [], dl_reviews = [], dl_authority = None,
      dl_commands = [], dl_epochs = [], dl_journal = empty_task_journal\<rparr>"

datatype delegation_error =
    DgIncomplete | DgNoRows | DgSqlFailure | DgInvalidCapacity | DgQueueLimit | DgDeliveryLimit | DgInvalidStatus | DgInvalidBatch
  | DgRoundStale | DgIntentConflict | DgBindingChanged | DgResponsibility | DgReviewConflict | DgWrongAuthority | DgCommandChanged
  | DgStale | DgPendingWork | DgIndependent | DgArtifactSelector | DgApi api_error

section \<open>Capacity\<close>

definition Limits_Validate :: "Limits \<Rightarrow> bool" where
  "Limits_Validate l \<longleftrightarrow>
     \<not> (lm_Active l < 1 \<or> 256 < lm_Active l \<or> lm_Queued l < 0 \<or> 4096 < lm_Queued l \<or> lm_Delivery l < lm_Active l \<or> 8192 < lm_Delivery l)"

definition Capacity_Validate :: "Limits \<Rightarrow> (string \<times> Limits) list \<Rightarrow> bool" where
  "Capacity_Validate dflt parents \<longleftrightarrow> Limits_Validate dflt \<and> (\<forall>(p, l)\<in>set parents. p \<noteq> [] \<and> Limits_Validate l)"

definition ConfigureCapacity :: "Limits \<Rightarrow> (string \<times> Limits) list \<Rightarrow> delegation_store \<Rightarrow> delegation_error option \<times> delegation_store" where
  "ConfigureCapacity dflt parents s =
     (if \<not> Capacity_Validate dflt parents then (Some DgInvalidCapacity, s)
      else (None, s\<lparr>dl_capacity := (map_of parents)([] \<mapsto> dflt)\<rparr>))"

definition limitsFor :: "string \<Rightarrow> delegation_store \<Rightarrow> Limits option" where
  "limitsFor parent s = (case dl_capacity s parent of Some l \<Rightarrow> Some l | None \<Rightarrow> dl_capacity s [])"

definition steers :: "delegation_store \<Rightarrow> string set" where
  "steers s = rd_id ` set (filter (\<lambda>r. rd_mode r = ''steer'') (dl_rounds s))"

definition executing :: "delegation_row \<Rightarrow> bool" where
  "executing w \<longleftrightarrow> dw_state w \<in> {''provisioning'', ''running''}"

definition undelivered :: "delegation_row \<Rightarrow> bool" where
  "undelivered w \<longleftrightarrow> dw_delivery w \<in> {''pending'', ''queued''}"

record Counts =
  ct_Active :: nat
  ct_Queued :: nat
  ct_Delivery :: nat
  ct_Reserved :: nat

definition count_rows :: "string \<Rightarrow> (delegation_row \<Rightarrow> bool) \<Rightarrow> delegation_store \<Rightarrow> nat" where
  "count_rows parent P s = length (filter (\<lambda>w. dw_parent w = parent \<and> P w) (dl_rows s))"

definition countsFor :: "string \<Rightarrow> delegation_store \<Rightarrow> Counts" where
  "countsFor parent s =
     \<lparr>ct_Active = count_rows parent (\<lambda>w. executing w \<and> dw_id w \<notin> steers s) s,
      ct_Queued = count_rows parent (\<lambda>w. dw_state w = ''queued'') s,
      ct_Delivery = count_rows parent (\<lambda>w. dw_state w = ''collecting'' \<or> dw_state w = ''terminal'' \<and> undelivered w) s,
      ct_Reserved = count_rows parent (\<lambda>w. dw_state w \<noteq> ''terminal'' \<or> undelivered w) s\<rparr>"

definition child_busy :: "string \<Rightarrow> delegation_store \<Rightarrow> bool" where
  "child_busy child s \<longleftrightarrow>
     (\<exists>w\<in>set (dl_rows s). dw_child w = child \<and> dw_state w \<in> {''provisioning'', ''running'', ''collecting''} \<and> dw_id w \<notin> steers s)"

definition admissionState :: "string \<Rightarrow> string \<Rightarrow> delegation_store \<Rightarrow> delegation_error + string" where
  "admissionState parent child s =
     (case limitsFor parent s of
        None \<Rightarrow> Inl DgNoRows
      | Some l \<Rightarrow>
          let n = countsFor parent s in
          if lm_Delivery l \<le> int (ct_Reserved n) then Inl DgDeliveryLimit
          else if int (ct_Active n) < lm_Active l \<and> ct_Queued n = 0 \<and> \<not> child_busy child s
                  \<and> int (ct_Active n + ct_Delivery n) < lm_Delivery l then Inr ''provisioning''
          else if lm_Queued l \<le> int (ct_Queued n) then Inl DgQueueLimit
          else Inr ''queued'')"

section \<open>Admission\<close>

definition incomplete :: "DelegationRecord \<Rightarrow> bool" where
  "incomplete r \<longleftrightarrow> dg_ID r = [] \<or> dg_ParentSessionID r = [] \<or> dg_ChildSessionID r = [] \<or> dg_ChildRequestID r = [] \<or> dg_ParentRequestID r = []"

definition delegation_row_of :: "int \<Rightarrow> string \<Rightarrow> string \<Rightarrow> DelegationRecord \<Rightarrow> delegation_row" where
  "delegation_row_of now st delivery r =
     \<lparr>dw_id = dg_ID r, dw_parent = dg_ParentSessionID r, dw_origin = dg_OriginRequestID r, dw_call = dg_ToolCallID r,
      dw_hash = dg_IntentHash r, dw_child = dg_ChildSessionID r, dw_request = dg_ChildRequestID r, dw_name = dg_ChildName r,
      dw_cwd = dg_Cwd r, dw_instruction = dg_Instruction r, dw_model = dg_Model r, dw_effort = dg_Effort r, dw_sandbox = dg_Sandbox r,
      dw_parent_request = dg_ParentRequestID r, dw_state = st, dw_status = [], dw_result = [], dw_artifacts = [], dw_error = [],
      dw_delivery = delivery, dw_delivery_error = [], dw_created = now, dw_updated = now\<rparr>"

text \<open>The keys of the table; the origin is only a key when it is known.\<close>

definition key_conflict :: "delegation_row \<Rightarrow> delegation_row \<Rightarrow> bool" where
  "key_conflict v w \<longleftrightarrow>
     dw_id v = dw_id w \<or> dw_child v = dw_child w \<and> dw_request v = dw_request w
     \<or> dw_parent v = dw_parent w \<and> dw_parent_request v = dw_parent_request w
     \<or> dw_origin v \<noteq> [] \<and> dw_call v \<noteq> [] \<and> dw_parent v = dw_parent w \<and> dw_origin v = dw_origin w \<and> dw_call v = dw_call w"

definition insert_row :: "delegation_row \<Rightarrow> delegation_store \<Rightarrow> delegation_store option" where
  "insert_row w s = (if \<exists>v\<in>set (dl_rows s). key_conflict v w then None else Some (s\<lparr>dl_rows := dl_rows s @ [w]\<rparr>))"

definition Create_delegation :: "int \<Rightarrow> DelegationRecord \<Rightarrow> delegation_store \<Rightarrow> delegation_error option \<times> delegation_store" where
  "Create_delegation now r s =
     (if incomplete r then (Some DgIncomplete, s)
      else case insert_row (delegation_row_of now ''provisioning'' ''pending'' r) s of
        None \<Rightarrow> (Some DgSqlFailure, s)
      | Some s' \<Rightarrow> (None, s'))"

definition latest_round :: "string \<Rightarrow> delegation_store \<Rightarrow> round_row option" where
  "latest_round logical s =
     (case rev (sort_key rd_version (filter (\<lambda>r. rd_logical r = logical) (dl_rounds s))) of [] \<Rightarrow> None | r # _ \<Rightarrow> Some r)"

definition insertRound :: "DelegationRecord \<Rightarrow> delegation_store \<Rightarrow> delegation_error + delegation_store" where
  "insertRound r s =
     (let logical = (if dg_LogicalID r = [] then dg_ID r else dg_LogicalID r);
          mode = (if dg_Mode r = [] then ''queue'' else dg_Mode r);
          add = (\<lambda>version.
            if \<exists>x\<in>set (dl_rounds s). rd_id x = dg_ID r \<or> rd_logical x = logical \<and> rd_version x = version then Inl DgSqlFailure
            else Inr (s\<lparr>dl_rounds := dl_rounds s @
              [\<lparr>rd_id = dg_ID r, rd_logical = logical, rd_version = version, rd_previous = dg_PreviousID r, rd_authority = dg_Authority r,
                rd_grant = dg_GrantDigest r, rd_mode = mode, rd_request = dg_ExecutionRequestID r, rd_claimed = False\<rparr>]\<rparr>))
      in if logical = dg_ID r then add 1
         else case latest_round logical s of
           None \<Rightarrow> Inl DgNoRows
         | Some x \<Rightarrow> if rd_id x \<noteq> dg_PreviousID r then Inl DgRoundStale else add (rd_version x + 1))"

definition bounded_state :: "DelegationRecord \<Rightarrow> delegation_store \<Rightarrow> delegation_error + string" where
  "bounded_state r s =
     (if dg_Mode r = ''steer'' then
        (case limitsFor (dg_ParentSessionID r) s of
           None \<Rightarrow> Inl DgNoRows
         | Some l \<Rightarrow>
             if lm_Delivery l \<le> int (ct_Reserved (countsFor (dg_ParentSessionID r) s)) then Inl DgDeliveryLimit else Inr ''provisioning'')
      else admissionState (dg_ParentSessionID r) (dg_ChildSessionID r) s)"

definition insertBounded :: "int \<Rightarrow> DelegationRecord \<Rightarrow> delegation_store \<Rightarrow> delegation_error + delegation_store" where
  "insertBounded now r s =
     (if incomplete r then Inl DgIncomplete
      else case bounded_state r s of
        Inl e \<Rightarrow> Inl e
      | Inr st \<Rightarrow>
          let delivery = (if dg_DeliveryState r = ''not_requested'' then ''not_requested'' else ''pending'') in
          case insert_row (delegation_row_of now st delivery r) s of
            None \<Rightarrow> Inl DgSqlFailure
          | Some s1 \<Rightarrow>
              if dl_bindings s1 (dg_ID r) \<noteq> None \<or> dl_commitments s1 (dg_ID r) \<noteq> None then Inl DgSqlFailure
              else insertRound r (s1\<lparr>
                dl_bindings := (dl_bindings s1)(dg_ID r \<mapsto> \<lparr>sb_thread = dg_SourceThread r, sb_revision = dg_SourceRevision r,
                  sb_expected_thread = dg_ExpectedThread r, sb_expected_revision = dg_ExpectedRevision r, sb_identity = dg_WorkspaceIdentity r\<rparr>),
                dl_commitments := (dl_commitments s1)(dg_ID r \<mapsto> now)\<rparr>))"

definition CreateBounded :: "int \<Rightarrow> DelegationRecord \<Rightarrow> delegation_store \<Rightarrow> delegation_error option \<times> delegation_store" where
  "CreateBounded now r s = (case insertBounded now r s of Inl e \<Rightarrow> (Some e, s) | Inr s' \<Rightarrow> (None, s'))"

definition delegation_by_origin :: "string \<Rightarrow> string \<Rightarrow> string \<Rightarrow> delegation_store \<Rightarrow> delegation_row option" where
  "delegation_by_origin parent origin call s = find (\<lambda>w. dw_parent w = parent \<and> dw_origin w = origin \<and> dw_call w = call) (dl_rows s)"

definition delegation_by_id :: "string \<Rightarrow> delegation_store \<Rightarrow> delegation_row option" where
  "delegation_by_id wid s = find (\<lambda>w. dw_id w = wid) (dl_rows s)"

text \<open>\<open>before\<close> and \<open>after\<close> are what the two calls of the validation report.\<close>

definition Continue ::
  "int \<Rightarrow> DelegationRecord \<Rightarrow> delegation_error option \<Rightarrow> delegation_error option \<Rightarrow> delegation_store
   \<Rightarrow> (delegation_error + delegation_row) \<times> delegation_store" where
  "Continue now r before after s =
     (case delegation_by_origin (dg_ParentSessionID r) (dg_OriginRequestID r) (dg_ToolCallID r) s of
        Some old \<Rightarrow> if dw_hash old \<noteq> dg_IntentHash r then (Inl DgIntentConflict, s) else (Inr old, s)
      | None \<Rightarrow>
          case before of
            Some e \<Rightarrow> (Inl e, s)
          | None \<Rightarrow>
              case insertBounded now r s of
                Inl e \<Rightarrow> (Inl e, s)
              | Inr s' \<Rightarrow>
                  case after of
                    Some e \<Rightarrow> (Inl e, s)
                  | None \<Rightarrow> (case delegation_by_id (dg_ID r) s' of None \<Rightarrow> (Inl DgNoRows, s) | Some w \<Rightarrow> (Inr w, s')))"

text \<open>\<open>unbound\<close> is the failure of a caller without a revalidation.\<close>

definition unbound :: delegation_error where
  "unbound = DgApi (Api (Failure_of ''caller_unbound'' ''known_none'' ''refresh_identity''))"

definition api_failure :: "delegation_error \<Rightarrow> delegation_error" where
  "api_failure e =
     (if e = DgQueueLimit \<or> e = DgDeliveryLimit then DgApi (Api (Failure_of ''busy'' ''known_none'' ''wait'')) else e)"

definition createAPI ::
  "int \<Rightarrow> AuthorizedCommand \<Rightarrow> IntentRecord \<Rightarrow> DelegationRecord \<Rightarrow> string \<Rightarrow> bool \<Rightarrow> delegation_error option \<Rightarrow> delegation_error option
   \<Rightarrow> delegation_store \<Rightarrow> (delegation_error + IntentRecord \<times> bool) \<times> delegation_store" where
  "createAPI now c intent r backend newChild before after s =
     (case before of
        Some e \<Rightarrow> (Inl e, s)
      | None \<Rightarrow>
          case ClaimTx now c intent (dl_journal s) of
            (Inl e, _) \<Rightarrow> (Inl (DgApi e), s)
          | (Inr (previous, False), _) \<Rightarrow> (Inr (previous, False), s)
          | (Inr (claimed, True), j) \<Rightarrow>
              case insertBounded now r (s\<lparr>dl_journal := j\<rparr>) of
                Inl e \<Rightarrow> (Inl (api_failure e), s)
              | Inr s1 \<Rightarrow>
                  if newChild \<and> dl_profiles s1 (dg_ChildSessionID r) \<noteq> None then (Inl DgSqlFailure, s)
                  else
                    let s2 = (if newChild then s1\<lparr>dl_profiles := (dl_profiles s1)(dg_ChildSessionID r \<mapsto> (backend, i_Metadata intent))\<rparr> else s1);
                        s3 = s2\<lparr>dl_journal := ChangeTx now (dg_ChildSessionID r) (dg_ChildRequestID r) ''admission'' (dl_journal s2)\<rparr>
                    in case after of Some e \<Rightarrow> (Inl e, s) | None \<Rightarrow> (Inr (claimed, True), s3))"

section \<open>Execution and delivery\<close>

definition update_rows :: "(delegation_row \<Rightarrow> bool) \<Rightarrow> (delegation_row \<Rightarrow> delegation_row) \<Rightarrow> delegation_store \<Rightarrow> delegation_store" where
  "update_rows P f s = s\<lparr>dl_rows := map (\<lambda>w. if P w then f w else w) (dl_rows s)\<rparr>"

definition MarkRunning :: "int \<Rightarrow> string \<Rightarrow> delegation_store \<Rightarrow> delegation_store" where
  "MarkRunning now wid = update_rows (\<lambda>w. dw_id w = wid \<and> dw_state w = ''provisioning'') (\<lambda>w. w\<lparr>dw_state := ''running'', dw_updated := now\<rparr>)"

definition MarkProvisionFailed :: "int \<Rightarrow> string \<Rightarrow> string \<Rightarrow> delegation_store \<Rightarrow> delegation_store" where
  "MarkProvisionFailed now wid reason =
     update_rows (\<lambda>w. dw_id w = wid \<and> dw_state w \<in> {''queued'', ''provisioning''})
       (\<lambda>w. w\<lparr>dw_state := ''terminal'', dw_status := ''failed'', dw_error := reason, dw_updated := now\<rparr>)"

definition terminal_statuses :: "string set" where
  "terminal_statuses = {''completed'', ''failed'', ''interrupted''}"

definition completes :: "string \<Rightarrow> string \<Rightarrow> delegation_row \<Rightarrow> bool" where
  "completes child request w \<longleftrightarrow>
     dw_child w = child \<and> dw_request w = request \<and> dw_state w \<in> {''provisioning'', ''running'', ''collecting''}"

definition Complete_delegation ::
  "int \<Rightarrow> string \<Rightarrow> string \<Rightarrow> string \<Rightarrow> string \<Rightarrow> string \<Rightarrow> string list \<Rightarrow> delegation_store
   \<Rightarrow> (delegation_error + bool) \<times> delegation_store" where
  "Complete_delegation now child request status res reason artifacts s =
     (if status \<notin> terminal_statuses then (Inl DgInvalidStatus, s)
      else (Inr (length (filter (completes child request) (dl_rows s)) = 1),
            update_rows (completes child request)
              (\<lambda>w. w\<lparr>dw_state := ''terminal'', dw_status := status, dw_result := res, dw_artifacts := artifacts, dw_error := reason,
                      dw_updated := now\<rparr>) s))"

definition MarkCollecting :: "int \<Rightarrow> string \<Rightarrow> string \<Rightarrow> delegation_store \<Rightarrow> delegation_error option \<times> delegation_store" where
  "MarkCollecting now wid status s =
     (if status \<notin> terminal_statuses then (Some DgInvalidStatus, s)
      else (None, update_rows (\<lambda>w. dw_id w = wid \<and> executing w) (\<lambda>w. w\<lparr>dw_state := ''collecting'', dw_status := status, dw_updated := now\<rparr>) s))"

definition MarkDeliveryQueued :: "int \<Rightarrow> string \<Rightarrow> delegation_store \<Rightarrow> delegation_store" where
  "MarkDeliveryQueued now wid =
     update_rows (\<lambda>w. dw_id w = wid \<and> dw_state w = ''terminal'' \<and> dw_delivery w = ''pending'') (\<lambda>w. w\<lparr>dw_delivery := ''queued'', dw_updated := now\<rparr>)"

definition awaits_delivery :: "string \<Rightarrow> string \<Rightarrow> delegation_row \<Rightarrow> bool" where
  "awaits_delivery parent request w \<longleftrightarrow> dw_parent w = parent \<and> dw_parent_request w = request \<and> dw_delivery w = ''queued''"

definition MarkDelivered :: "int \<Rightarrow> string \<Rightarrow> string \<Rightarrow> delegation_store \<Rightarrow> bool \<times> delegation_store" where
  "MarkDelivered now parent request s =
     (length (filter (awaits_delivery parent request) (dl_rows s)) = 1,
      update_rows (awaits_delivery parent request) (\<lambda>w. w\<lparr>dw_delivery := ''delivered'', dw_updated := now\<rparr>) s)"

definition may_fail_delivery :: "string \<Rightarrow> string \<Rightarrow> delegation_row \<Rightarrow> bool" where
  "may_fail_delivery parent request w \<longleftrightarrow>
     dw_parent w = parent \<and> dw_parent_request w = request \<and> dw_state w = ''terminal'' \<and> undelivered w"

definition MarkDeliveryFailed :: "int \<Rightarrow> string \<Rightarrow> string \<Rightarrow> string \<Rightarrow> delegation_store \<Rightarrow> bool \<times> delegation_store" where
  "MarkDeliveryFailed now parent request reason s =
     (length (filter (may_fail_delivery parent request) (dl_rows s)) = 1,
      update_rows (may_fail_delivery parent request) (\<lambda>w. w\<lparr>dw_delivery := ''failed'', dw_delivery_error := reason, dw_updated := now\<rparr>) s)"

text \<open>A waiting row is promoted when its parent has room, its child is idle and no older one could run.\<close>

definition place_of :: "string \<Rightarrow> delegation_store \<Rightarrow> nat" where
  "place_of wid s = length (takeWhile (\<lambda>w. dw_id w \<noteq> wid) (dl_rows s))"

definition older_can_run :: "string \<Rightarrow> nat \<Rightarrow> delegation_store \<Rightarrow> bool" where
  "older_can_run parent n s \<longleftrightarrow>
     (\<exists>w\<in>set (take n (dl_rows s)). dw_parent w = parent \<and> dw_state w = ''queued'' \<and> \<not> child_busy (dw_child w) s)"

definition TryPromote :: "int \<Rightarrow> string \<Rightarrow> delegation_store \<Rightarrow> (delegation_error + bool) \<times> delegation_store" where
  "TryPromote now wid s =
     (case delegation_by_id wid s of
        None \<Rightarrow> (Inl DgNoRows, s)
      | Some w \<Rightarrow>
          if dw_state w \<noteq> ''queued'' then (Inr False, s)
          else case limitsFor (dw_parent w) s of
            None \<Rightarrow> (Inl DgNoRows, s)
          | Some l \<Rightarrow>
              let n = countsFor (dw_parent w) s in
              if lm_Active l \<le> int (ct_Active n) \<or> lm_Delivery l \<le> int (ct_Active n + ct_Delivery n) then (Inr False, s)
              else if child_busy (dw_child w) s then (Inr False, s)
              else if older_can_run (dw_parent w) (place_of wid s) s then (Inr False, s)
              else (Inr True, update_rows (\<lambda>w. dw_id w = wid \<and> dw_state w = ''queued'') (\<lambda>w. w\<lparr>dw_state := ''provisioning'', dw_updated := now\<rparr>) s))"

definition needs_reconcile :: "delegation_row \<Rightarrow> bool" where
  "needs_reconcile w \<longleftrightarrow> dw_state w \<noteq> ''terminal'' \<or> undelivered w"

definition PendingBatch :: "int \<Rightarrow> delegation_store \<Rightarrow> (delegation_error + delegation_row list) \<times> delegation_store" where
  "PendingBatch limit s =
     (if limit < 1 \<or> 128 < limit then (Inl DgInvalidBatch, s)
      else
        let (cursor, high0) = dl_scan s;
            high = (if high0 = 0 then length (dl_rows s) else high0);
            page = take (nat limit) (filter (\<lambda>(n, w). needs_reconcile w \<and> cursor < n \<and> n \<le> high) (List.enumerate 1 (dl_rows s)))
        in (Inr (map snd page), s\<lparr>dl_scan := (if length page < nat limit then (0, 0) else (fst (last page), high))\<rparr>))"

section \<open>Cancellation\<close>

definition cancelled_row :: "int \<Rightarrow> delegation_row \<Rightarrow> delegation_row" where
  "cancelled_row now w =
     w\<lparr>dw_state := ''terminal'', dw_status := ''interrupted'', dw_error := ''cancelled_before_start'', dw_updated := now\<rparr>"

definition task_revision :: "string \<Rightarrow> task_journal \<Rightarrow> nat" where
  "task_revision tid j =
     foldr (\<lambda>i m. max (tj_revisions j (i_SessionID i, i_RequestID i)) m) (filter (\<lambda>i. i_TaskID i = tid) (tj_intents j)) 0"

definition CancelQueuedAPI ::
  "int \<Rightarrow> AuthorizedCommand \<Rightarrow> IntentRecord \<Rightarrow> IntentRecord \<Rightarrow> nat \<Rightarrow> nat option \<Rightarrow> delegation_error option \<Rightarrow> delegation_error option
   \<Rightarrow> delegation_store \<Rightarrow> (delegation_error + IntentRecord) \<times> delegation_store" where
  "CancelQueuedAPI now c intent original expected messageRevision before after s =
     (case before of
        Some e \<Rightarrow> (Inl e, s)
      | None \<Rightarrow>
          let revision = max (task_revision (i_TaskID original) (dl_journal s)) (case messageRevision of None \<Rightarrow> 0 | Some n \<Rightarrow> n);
              waiting = (\<lambda>w. dw_child w = i_SessionID original \<and> dw_request w = i_RequestID original \<and> dw_state w = ''queued'')
          in case ClaimTx now c intent (dl_journal s) of
            (Inl e, _) \<Rightarrow> (Inl (DgApi e), s)
          | (Inr (previous, False), _) \<Rightarrow> (Inr previous, s)
          | (Inr (claimed, True), j) \<Rightarrow>
              if revision \<noteq> expected then (Inl (DgApi (Api (Failure_of ''stale_revision'' ''known_none'' ''refresh_identity''))), s)
              else if length (filter waiting (dl_rows s)) \<noteq> 1
              then (Inl (DgApi (Api (Failure_of ''busy'' ''known_none'' ''lookup_original''))), s)
              else
                let s1 = update_rows waiting (cancelled_row now) (s\<lparr>dl_journal :=
                  ChangeTx now (i_SessionID original) (i_RequestID original) ''cancelled_before_start'' j\<rparr>)
                in case after of
                     Some e \<Rightarrow> (Inl e, s)
                   | None \<Rightarrow> (Inr claimed, s1\<lparr>dl_journal := SaveOutcomeTx now (i_Key claimed) None (dl_journal s1)\<rparr>))"

definition CancelWaiting_delegation :: "int \<Rightarrow> string \<Rightarrow> string \<Rightarrow> delegation_store \<Rightarrow> (delegation_error + bool) \<times> delegation_store" where
  "CancelWaiting_delegation now parent wid s =
     (case find (\<lambda>w. dw_id w = wid \<and> dw_parent w = parent) (dl_rows s) of
        None \<Rightarrow> (Inl DgNoRows, s)
      | Some w \<Rightarrow>
          if dw_state w = ''terminal'' \<and> dw_error w = ''cancelled_before_start'' then (Inr True, s)
          else if dw_state w \<noteq> ''queued'' then (Inr False, s)
          else (Inr True, update_rows (\<lambda>w. dw_id w = wid \<and> dw_state w = ''queued'') (cancelled_row now)
                 (s\<lparr>dl_journal := ChangeTx now (dw_child w) (dw_request w) ''cancelled_before_start'' (dl_journal s)\<rparr>)))"

end
