(* ===== verification/Delegation_Rounds.thy ===== *)
theory Delegation_Rounds
  imports Delegation "HOL-Library.Char_ord" "HOL-Library.List_Lexorder" "HOL-Library.Product_Lexorder"
begin

text \<open>
  The relations around a delegation: its rounds and what is steered into a running one, the native thread
  of a child, independent reviews, the authority of the store, commands with an idempotency key, and the
  epochs in which a changed source is authorised again. And what is read of them.
\<close>

section \<open>Reading\<close>

definition NativeCommitment :: "string \<Rightarrow> delegation_store \<Rightarrow> bool" where
  "NativeCommitment wid s \<longleftrightarrow> dl_commitments s wid \<noteq> None"

definition ByChildRequest :: "string \<Rightarrow> string \<Rightarrow> delegation_store \<Rightarrow> delegation_row option" where
  "ByChildRequest child request s = find (\<lambda>w. dw_child w = child \<and> dw_request w = request) (dl_rows s)"

definition ByParentRequest :: "string \<Rightarrow> string \<Rightarrow> delegation_store \<Rightarrow> delegation_row option" where
  "ByParentRequest parent request s = find (\<lambda>w. dw_parent w = parent \<and> dw_parent_request w = request) (dl_rows s)"

definition Pending_delegations :: "delegation_store \<Rightarrow> delegation_row list" where
  "Pending_delegations s = take 128 (sort_key dw_created (filter needs_reconcile (dl_rows s)))"

definition ListByParent :: "string \<Rightarrow> delegation_store \<Rightarrow> delegation_row list" where
  "ListByParent parent s = sort_key dw_created (filter (\<lambda>w. dw_parent w = parent) (dl_rows s))"

definition ActiveCountForParent :: "string \<Rightarrow> delegation_store \<Rightarrow> nat" where
  "ActiveCountForParent parent s = count_rows parent executing s"

definition HasChildReceipt :: "string \<Rightarrow> string \<Rightarrow> delegation_store \<Rightarrow> bool" where
  "HasChildReceipt child request s \<longleftrightarrow> (\<exists>w\<in>set (dl_rows s). dw_child w = child \<and> dw_request w = request)"

definition HasChild :: "string \<Rightarrow> delegation_store \<Rightarrow> bool" where
  "HasChild child s \<longleftrightarrow> (\<exists>w\<in>set (dl_rows s). dw_child w = child)"

definition SourceBinding :: "string \<Rightarrow> delegation_store \<Rightarrow> (string \<times> nat) option" where
  "SourceBinding wid s = map_option (\<lambda>b. (sb_thread b, sb_revision b)) (dl_bindings s wid)"

definition ExecutionBinding :: "string \<Rightarrow> delegation_store \<Rightarrow> string \<times> nat \<times> string" where
  "ExecutionBinding wid s =
     (case dl_bindings s wid of None \<Rightarrow> ([], 0, []) | Some b \<Rightarrow> (sb_expected_thread b, sb_expected_revision b, sb_identity b))"

definition Revision_of :: "string \<Rightarrow> string \<Rightarrow> delegation_store \<Rightarrow> nat" where
  "Revision_of session request s = tj_revisions (dl_journal s) (session, request)"

definition APIBackend :: "string \<Rightarrow> delegation_store \<Rightarrow> string option" where
  "APIBackend child s = map_option fst (dl_profiles s child)"

definition APIChildMetadata :: "string \<Rightarrow> delegation_store \<Rightarrow> string option option" where
  "APIChildMetadata child s = map_option snd (dl_profiles s child)"

definition OriginalRootForChild :: "string \<Rightarrow> delegation_store \<Rightarrow> delegation_row option" where
  "OriginalRootForChild child s = find (\<lambda>w. dw_child w = child \<and> dw_id w \<in> rd_logical ` set (dl_rounds s)) (dl_rows s)"

record SessionSource =
  ss_ID :: string
  ss_ParentSessionID :: string
  ss_ChildSessionID :: string
  ss_ChildRequestID :: string
  ss_OriginRequestID :: string
  ss_State :: string
  ss_TerminalStatus :: string
  ss_DeliveryState :: string
  ss_FinalObserved :: bool
  ss_UpdatedAt :: int

text \<open>The function \<^verbatim>\<open>trim\<close> of the database only removes blanks.\<close>

definition source_of :: "delegation_row \<Rightarrow> SessionSource" where
  "source_of w =
     \<lparr>ss_ID = dw_id w, ss_ParentSessionID = dw_parent w, ss_ChildSessionID = dw_child w, ss_ChildRequestID = dw_request w,
      ss_OriginRequestID = dw_origin w, ss_State = dw_state w, ss_TerminalStatus = dw_status w, ss_DeliveryState = dw_delivery w,
      ss_FinalObserved = (dw_state w = ''terminal'' \<and> dw_status w = ''completed'' \<and> (\<exists>c\<in>set (dw_result w). c \<noteq> CHR '' '')),
      ss_UpdatedAt = dw_updated w\<rparr>"

function SessionSources :: "string list \<Rightarrow> delegation_store \<Rightarrow> SessionSource list" where
  "SessionSources children s =
     (if children = [] then []
      else map source_of (sort_key (\<lambda>w. (- dw_updated w, dw_id w)) (filter (\<lambda>w. dw_child w \<in> set (take 200 children)) (dl_rows s)))
           @ SessionSources (drop 200 children) s)"
  by pat_completeness auto
termination
  by (relation "measure (\<lambda>(children, s). length children)") auto

declare SessionSources.simps [simp del]

section \<open>Rounds\<close>

definition Round_of :: "string \<Rightarrow> delegation_store \<Rightarrow> round_row option" where
  "Round_of wid s = find (\<lambda>r. rd_id r = wid) (dl_rounds s)"

definition rounds_of :: "string \<Rightarrow> delegation_store \<Rightarrow> round_row list" where
  "rounds_of logical s = sort_key rd_version (filter (\<lambda>r. rd_logical r = logical) (dl_rounds s))"

definition Rounds :: "string \<Rightarrow> delegation_store \<Rightarrow> round_row list" where
  "Rounds logical s = take 128 (rounds_of logical s)"

definition RoundsAfter :: "string \<Rightarrow> nat \<Rightarrow> delegation_store \<Rightarrow> round_row list" where
  "RoundsAfter logical after s = take 128 (filter (\<lambda>r. after < rd_version r) (rounds_of logical s))"

definition ArtifactRounds :: "string \<Rightarrow> string \<Rightarrow> string \<Rightarrow> string \<Rightarrow> delegation_store \<Rightarrow> delegation_error + round_row list" where
  "ArtifactRounds logical parent child request s =
     (let out = take 1025 (filter (\<lambda>r. rd_mode r = ''queue'' \<and> (\<exists>w\<in>set (dl_rows s). dw_id w = rd_id r \<and> dw_parent w = parent
                  \<and> dw_child w = child \<and> (request = [] \<or> dw_request w = request))) (rounds_of logical s))
      in if 1024 < length out then Inl DgArtifactSelector else Inr out)"

definition ClaimSteer :: "string \<Rightarrow> delegation_store \<Rightarrow> bool \<times> delegation_store" where
  "ClaimSteer wid s =
     (let mine = (\<lambda>r. rd_id r = wid \<and> rd_mode r = ''steer'' \<and> \<not> rd_claimed r) in
      (length (filter mine (dl_rounds s)) = 1,
       s\<lparr>dl_rounds := map (\<lambda>r. if mine r then r\<lparr>rd_claimed := True\<rparr> else r) (dl_rounds s)\<rparr>))"

section \<open>Bindings\<close>

definition PinNativeThread :: "string \<Rightarrow> string \<Rightarrow> nat \<Rightarrow> delegation_store \<Rightarrow> delegation_error option \<times> delegation_store" where
  "PinNativeThread child thread revision s =
     (case dl_threads s child of
        None \<Rightarrow> (None, s\<lparr>dl_threads := (dl_threads s)(child \<mapsto> (thread, revision))\<rparr>)
      | Some (t, n) \<Rightarrow> (if t \<noteq> thread \<or> n \<noteq> revision then Some DgBindingChanged else None, s))"

definition NativeThread :: "string \<Rightarrow> delegation_store \<Rightarrow> (string \<times> nat) option" where
  "NativeThread child s = dl_threads s child"

definition BindQA ::
  "string \<Rightarrow> string \<Rightarrow> delegation_error option \<Rightarrow> delegation_error option \<Rightarrow> delegation_store \<Rightarrow> delegation_error option \<times> delegation_store" where
  "BindQA owner qa before after s =
     (case before of
        Some e \<Rightarrow> (Some e, s)
      | None \<Rightarrow>
          case map_of (dl_duties s) owner of
            Some old \<Rightarrow> (if old \<noteq> qa then Some DgResponsibility else None, s)
          | None \<Rightarrow>
              if qa \<in> snd ` set (dl_duties s) then (Some DgSqlFailure, s)
              else case after of Some e \<Rightarrow> (Some e, s) | None \<Rightarrow> (None, s\<lparr>dl_duties := dl_duties s @ [(owner, qa)]\<rparr>))"

definition Responsibility :: "string \<Rightarrow> delegation_store \<Rightarrow> string \<times> string" where
  "Responsibility logical s = (case find (\<lambda>(owner, qa). owner = logical \<or> qa = logical) (dl_duties s) of None \<Rightarrow> ([], []) | Some x \<Rightarrow> x)"

definition RecordQA :: "string \<Rightarrow> string \<Rightarrow> string \<Rightarrow> delegation_store \<Rightarrow> delegation_error option \<times> delegation_store" where
  "RecordQA owner qa verdict s =
     (case map_of (dl_reviews s) owner of
        Some (q, v) \<Rightarrow> (if q \<noteq> qa \<or> v \<noteq> verdict then Some DgReviewConflict else None, s)
      | None \<Rightarrow>
          if \<exists>(x, q, v)\<in>set (dl_reviews s). q = qa then (Some DgSqlFailure, s)
          else (None, s\<lparr>dl_reviews := dl_reviews s @ [(owner, qa, verdict)]\<rparr>))"

definition QAForRound :: "string \<Rightarrow> delegation_store \<Rightarrow> string \<times> string" where
  "QAForRound wid s = (case map_of (dl_reviews s) wid of None \<Rightarrow> ([], []) | Some x \<Rightarrow> x)"

definition BindAuthority :: "string \<Rightarrow> delegation_store \<Rightarrow> delegation_error option \<times> delegation_store" where
  "BindAuthority authority s =
     (if authority = [] then (Some DgWrongAuthority, s)
      else case dl_authority s of
        None \<Rightarrow> (None, s\<lparr>dl_authority := Some authority\<rparr>)
      | Some old \<Rightarrow> (if old \<noteq> authority then Some DgWrongAuthority else None, s))"

section \<open>Commands\<close>

definition continuity_key :: "ContinuityCommand \<Rightarrow> string \<times> string" where
  "continuity_key c = (cc_Parent c, cc_Key c)"

definition ContinuityCommand_of :: "string \<Rightarrow> string \<Rightarrow> delegation_store \<Rightarrow> ContinuityCommand option" where
  "ContinuityCommand_of parent key s = find (\<lambda>c. continuity_key c = (parent, key)) (dl_commands s)"

definition ReserveContinuityCommand :: "ContinuityCommand \<Rightarrow> delegation_store \<Rightarrow> bool \<times> delegation_store" where
  "ReserveContinuityCommand c s =
     (if continuity_key c \<in> continuity_key ` set (dl_commands s) then (False, s)
      else (True, s\<lparr>dl_commands := dl_commands s @ [c\<lparr>cc_State := ''reserved'', cc_Result := [], cc_Error := []\<rparr>]\<rparr>))"

definition FinishContinuityCommand ::
  "ContinuityCommand \<Rightarrow> string \<Rightarrow> string \<Rightarrow> string \<Rightarrow> delegation_store \<Rightarrow> delegation_error option \<times> delegation_store" where
  "FinishContinuityCommand c st res code s =
     (if st \<noteq> ''completed'' \<and> st \<noteq> ''refused'' then (Some DgInvalidStatus, s)
      else
        let mine = (\<lambda>x. continuity_key x = continuity_key c \<and> cc_Hash x = cc_Hash c \<and> cc_State x = ''reserved'');
            s' = s\<lparr>dl_commands := map (\<lambda>x. if mine x then x\<lparr>cc_State := st, cc_Result := res, cc_Error := code\<rparr> else x) (dl_commands s)\<rparr>
        in (if length (filter mine (dl_commands s)) \<noteq> 1 then Some DgCommandChanged else None, s'))"

section \<open>Epochs\<close>

definition epochs_of :: "string \<Rightarrow> delegation_store \<Rightarrow> DelegationEpoch list" where
  "epochs_of logical s = sort_key se_Epoch (filter (\<lambda>a. se_LogicalID a = logical) (dl_epochs s))"

definition SourceEpoch_of :: "string \<Rightarrow> delegation_store \<Rightarrow> DelegationEpoch option" where
  "SourceEpoch_of logical s = (case rev (epochs_of logical s) of [] \<Rightarrow> None | a # _ \<Rightarrow> Some a)"

definition reauthorize ::
  "string \<Rightarrow> string \<Rightarrow> DelegationEpoch \<Rightarrow> delegation_store \<Rightarrow> delegation_error + delegation_store" where
  "reauthorize owner_id qa_id a s =
     (case (delegation_by_id (se_LogicalID a) s, dl_bindings s (se_LogicalID a)) of
        (Some w, Some b) \<Rightarrow>
          let (epoch, current) = (case SourceEpoch_of (se_LogicalID a) s of None \<Rightarrow> (0, sb_revision b) | Some x \<Rightarrow> (se_Epoch x, se_ToRevision x)) in
          if dw_parent w \<noteq> se_Parent a \<or> sb_thread b \<noteq> se_Thread a \<or> current \<noteq> se_FromRevision a \<or> se_ToRevision a \<le> current
             \<or> se_Epoch a \<noteq> epoch + 1 then Inl DgStale
          else if \<exists>d\<in>set (dl_rows s). (dw_state d \<noteq> ''terminal'' \<or> dw_delivery d \<noteq> ''delivered'')
                    \<and> (\<exists>r\<in>set (dl_rounds s). rd_id r = dw_id d \<and> rd_logical r = se_LogicalID a) then Inl DgPendingWork
          else (case find (\<lambda>(o', q). o' = se_LogicalID a \<or> q = se_LogicalID a) (dl_duties s) of
                  Some (o', q) \<Rightarrow> if o' \<noteq> owner_id \<or> q \<noteq> qa_id then Inl DgResponsibility else Inr (s\<lparr>dl_epochs := dl_epochs s @ [a]\<rparr>)
                | None \<Rightarrow> Inr (s\<lparr>dl_epochs := dl_epochs s @ [a]\<rparr>))
      | _ \<Rightarrow> Inl DgNoRows)"

text \<open>The keys of the table hold because the epoch and the revision it starts from are the next ones.\<close>

definition ReauthorizePair ::
  "DelegationEpoch \<Rightarrow> DelegationEpoch \<Rightarrow> delegation_error option \<Rightarrow> delegation_error option \<Rightarrow> delegation_store
   \<Rightarrow> delegation_error option \<times> delegation_store" where
  "ReauthorizePair a b before after s =
     (case before of
        Some e \<Rightarrow> (Some e, s)
      | None \<Rightarrow>
          if se_LogicalID a = se_LogicalID b \<or> se_Peer a \<noteq> se_LogicalID b \<or> se_Peer b \<noteq> se_LogicalID a then (Some DgIndependent, s)
          else case reauthorize (se_LogicalID a) (se_LogicalID b) a s of
            Inl e \<Rightarrow> (Some e, s)
          | Inr s1 \<Rightarrow>
              case reauthorize (se_LogicalID a) (se_LogicalID b) b s1 of
                Inl e \<Rightarrow> (Some e, s)
              | Inr s2 \<Rightarrow> (case after of Some e \<Rightarrow> (Some e, s) | None \<Rightarrow> (None, s2)))"

end
