(* ===== verification/Delegation_Properties.thy ===== *)
theory Delegation_Properties
  imports Delegation_Rounds Journal_Properties
begin

text \<open>
  What delegations promise over any history: the limits of a parent, one execution per child, the order of
  promotion, results and deliveries that are final, and rounds that form a chain.
\<close>

section \<open>Histories\<close>

text \<open>
  Every operation other code calls; the unbounded \<open>Create_delegation\<close> is called by none. The capacity is
  configured when the process starts.
\<close>

inductive dl_step :: "delegation_store \<Rightarrow> delegation_store \<Rightarrow> bool" where
  dl_create: "dl_step s (snd (CreateBounded now r s))"
| dl_continue: "dl_step s (snd (Continue now r before after s))"
| dl_api: "dl_step s (snd (createAPI now c intent r backend newChild before after s))"
| dl_running: "dl_step s (MarkRunning now wid s)"
| dl_failed: "dl_step s (MarkProvisionFailed now wid reason s)"
| dl_complete: "dl_step s (snd (Complete_delegation now child request status res reason artifacts s))"
| dl_collecting: "dl_step s (snd (MarkCollecting now wid status s))"
| dl_delivery: "dl_step s (MarkDeliveryQueued now wid s)"
| dl_delivered: "dl_step s (snd (MarkDelivered now parent request s))"
| dl_undelivered: "dl_step s (snd (MarkDeliveryFailed now parent request reason s))"
| dl_promote: "dl_step s (snd (TryPromote now wid s))"
| dl_batch: "dl_step s (snd (PendingBatch limit s))"
| dl_cancel_api: "dl_step s (snd (CancelQueuedAPI now c intent original expected messageRevision before after s))"
| dl_cancel: "dl_step s (snd (CancelWaiting_delegation now parent wid s))"
| dl_steer: "dl_step s (snd (ClaimSteer wid s))"
| dl_pin: "dl_step s (snd (PinNativeThread child thread revision s))"
| dl_bind: "dl_step s (snd (BindQA owner qa before after s))"
| dl_review: "dl_step s (snd (RecordQA owner qa verdict s))"
| dl_owner: "dl_step s (snd (BindAuthority authority s))"
| dl_reserve: "dl_step s (snd (ReserveContinuityCommand c s))"
| dl_finish: "dl_step s (snd (FinishContinuityCommand c st res code s))"
| dl_epoch: "dl_step s (snd (ReauthorizePair a b before after s))"
| dl_journal_op: "journal_op (dl_journal s) j \<Longrightarrow> dl_step s (s\<lparr>dl_journal := j\<rparr>)"

inductive dl_run :: "delegation_store \<Rightarrow> delegation_store \<Rightarrow> bool" where
  run_step: "dl_step s s' \<Longrightarrow> dl_run s s'"
| run_configure: "dl_run s (snd (ConfigureCapacity dflt parents s))"

section \<open>How a row may change\<close>

definition row_identity :: "delegation_row \<Rightarrow> string list" where
  "row_identity w = [dw_id w, dw_parent w, dw_origin w, dw_call w, dw_hash w, dw_child w, dw_request w, dw_parent_request w, dw_instruction w]"

definition rank :: "string \<Rightarrow> nat" where
  "rank st = (if st = ''queued'' then 0 else if st = ''provisioning'' then 1 else if st = ''running'' then 2
              else if st = ''collecting'' then 3 else 4)"

definition occupies :: "delegation_row \<Rightarrow> bool" where
  "occupies w \<longleftrightarrow> dw_state w \<in> {''provisioning'', ''running'', ''collecting''}"

definition delivery_ok :: "delegation_row \<Rightarrow> bool" where
  "delivery_ok w \<longleftrightarrow> (dw_delivery w \<in> {''queued'', ''delivered'', ''failed''} \<longrightarrow> dw_state w = ''terminal'')"

definition later :: "delegation_row \<Rightarrow> delegation_row \<Rightarrow> bool" where
  "later w w' \<longleftrightarrow>
     row_identity w' = row_identity w \<and> rank (dw_state w) \<le> rank (dw_state w')
     \<and> (dw_state w = ''terminal'' \<longrightarrow> dw_state w' = ''terminal'' \<and> dw_status w' = dw_status w \<and> dw_result w' = dw_result w
          \<and> dw_artifacts w' = dw_artifacts w \<and> dw_error w' = dw_error w)
     \<and> (\<not> undelivered w \<longrightarrow> dw_delivery w' = dw_delivery w) \<and> (delivery_ok w \<longrightarrow> delivery_ok w')"

definition quiet_row :: "delegation_row \<Rightarrow> delegation_row \<Rightarrow> bool" where
  "quiet_row w w' \<longleftrightarrow>
     later w w' \<and> (executing w' \<longrightarrow> executing w) \<and> (occupies w' \<longrightarrow> occupies w) \<and> (dw_state w' = ''queued'' \<longrightarrow> dw_state w = ''queued'')
     \<and> (needs_reconcile w' \<longrightarrow> needs_reconcile w)"

lemma later_refl [simp]: "later w w"
  by (simp add: later_def)

lemma later_trans: "later w v \<Longrightarrow> later v u \<Longrightarrow> later w u"
  unfolding later_def undelivered_def by auto

lemma quiet_refl [simp]: "quiet_row w w"
  by (simp add: quiet_row_def)

lemmas row_defs = later_def row_identity_def rank_def executing_def undelivered_def occupies_def needs_reconcile_def delivery_ok_def

definition round_core :: "round_row \<Rightarrow> round_row" where
  "round_core r = r\<lparr>rd_claimed := False\<rparr>"

definition quiet :: "delegation_store \<Rightarrow> delegation_store \<Rightarrow> bool" where
  "quiet s s' \<longleftrightarrow>
     (\<exists>f. dl_rows s' = map f (dl_rows s) \<and> (\<forall>w\<in>set (dl_rows s). quiet_row w (f w)))
     \<and> map round_core (dl_rounds s') = map round_core (dl_rounds s) \<and> dl_capacity s' = dl_capacity s"

definition promotes :: "string \<Rightarrow> delegation_store \<Rightarrow> delegation_store \<Rightarrow> bool" where
  "promotes wid s s' \<longleftrightarrow> (\<exists>now. TryPromote now wid s = (Inr True, s'))"

definition core :: "delegation_store \<Rightarrow> delegation_row list \<times> round_row list \<times> (string \<rightharpoonup> Limits)" where
  "core s = (dl_rows s, dl_rounds s, dl_capacity s)"

definition admits :: "DelegationRecord \<Rightarrow> delegation_store \<Rightarrow> delegation_store \<Rightarrow> bool" where
  "admits r s s' \<longleftrightarrow> (\<exists>now t t'. insertBounded now r t = Inr t' \<and> core t = core s \<and> core t' = core s')"

lemma quiet_same [simp]: "core s' = core s \<Longrightarrow> quiet s s'"
  unfolding quiet_def core_def by (metis list.map_ident prod.inject quiet_refl)

lemma quiet_update:
  assumes "\<And>w. w \<in> set (dl_rows s) \<Longrightarrow> P w \<Longrightarrow> quiet_row w (f w)" and "core s' = core (update_rows P f s)"
  shows "quiet s s'"
  unfolding quiet_def using assms
  by (intro conjI exI [of _ "\<lambda>w. if P w then f w else w"]) (auto simp: core_def update_rows_def)

text \<open>Every step is quiet, promotes a row or admits one.\<close>

lemma mark_quiet:
  "quiet s (MarkRunning now wid s)" "quiet s (MarkProvisionFailed now wid reason s)" "quiet s (MarkDeliveryQueued now wid s)"
  "quiet s (snd (MarkDelivered now parent request s))" "quiet s (snd (MarkDeliveryFailed now parent request reason s))"
proof -
  show "quiet s (MarkRunning now wid s)"
    unfolding MarkRunning_def by (rule quiet_update [OF _ refl]) (auto simp: quiet_row_def row_defs)
  show "quiet s (MarkProvisionFailed now wid reason s)"
    unfolding MarkProvisionFailed_def by (rule quiet_update [OF _ refl]) (auto simp: quiet_row_def row_defs)
  show "quiet s (MarkDeliveryQueued now wid s)"
    unfolding MarkDeliveryQueued_def by (rule quiet_update [OF _ refl]) (auto simp: quiet_row_def row_defs)
  show "quiet s (snd (MarkDelivered now parent request s))"
    unfolding MarkDelivered_def snd_conv
    by (rule quiet_update [OF _ refl]) (auto simp: quiet_row_def row_defs awaits_delivery_def)
  show "quiet s (snd (MarkDeliveryFailed now parent request reason s))"
    unfolding MarkDeliveryFailed_def snd_conv
    by (rule quiet_update [OF _ refl]) (auto simp: quiet_row_def row_defs may_fail_delivery_def)
qed

lemma complete_quiet: "quiet s (snd (Complete_delegation now child request status res reason artifacts s))"
proof (cases "status \<in> terminal_statuses")
  case True
  have "quiet s (update_rows (completes child request) (\<lambda>w. w\<lparr>dw_state := ''terminal'', dw_status := status, dw_result := res,
      dw_artifacts := artifacts, dw_error := reason, dw_updated := now\<rparr>) s)"
    by (rule quiet_update [OF _ refl]) (auto simp: quiet_row_def row_defs completes_def)
  then show ?thesis using True by (simp add: Complete_delegation_def)
qed (simp add: Complete_delegation_def)

lemma collecting_quiet: "quiet s (snd (MarkCollecting now wid status s))"
proof (cases "status \<in> terminal_statuses")
  case True
  have "quiet s (update_rows (\<lambda>w. dw_id w = wid \<and> executing w) (\<lambda>w. w\<lparr>dw_state := ''collecting'', dw_status := status, dw_updated := now\<rparr>) s)"
    by (rule quiet_update [OF _ refl]) (auto simp: quiet_row_def row_defs)
  then show ?thesis using True by (simp add: MarkCollecting_def)
qed (simp add: MarkCollecting_def)

lemma cancelled_quiet: "dw_state w = ''queued'' \<Longrightarrow> quiet_row w (cancelled_row now w)"
  by (auto simp: quiet_row_def row_defs cancelled_row_def)

lemma cancel_quiet:
  "quiet s (snd (CancelWaiting_delegation now parent wid s))"
  "quiet s (snd (CancelQueuedAPI now c intent original expected messageRevision before after s))"
proof -
  have one: "quiet s (update_rows (\<lambda>w. Q w \<and> dw_state w = ''queued'') (cancelled_row now) (s\<lparr>dl_journal := j\<rparr>))" for Q j
    by (rule quiet_update [of s "\<lambda>w. Q w \<and> dw_state w = ''queued''"]) (auto simp: cancelled_quiet core_def update_rows_def)
  show "quiet s (snd (CancelWaiting_delegation now parent wid s))"
    using one by (auto simp: CancelWaiting_delegation_def split: option.splits)
  have two: "quiet s ((update_rows (\<lambda>w. dw_child w = a \<and> dw_request w = b \<and> dw_state w = ''queued'') (cancelled_row now) (s\<lparr>dl_journal := j\<rparr>))\<lparr>dl_journal := j'\<rparr>)" for a b j j'
    by (rule quiet_update [of s "\<lambda>w. dw_child w = a \<and> dw_request w = b \<and> dw_state w = ''queued''"]) (auto simp: cancelled_quiet core_def update_rows_def)
  show "quiet s (snd (CancelQueuedAPI now c intent original expected messageRevision before after s))"
    using two by (auto simp: CancelQueuedAPI_def Let_def split: option.splits prod.splits sum.splits bool.splits)
qed

lemma relation_quiet:
  "quiet s (snd (ClaimSteer wid s))" "quiet s (snd (PendingBatch limit s))" "quiet s (snd (PinNativeThread child thread revision s))"
  "quiet s (snd (BindQA owner qa before after s))" "quiet s (snd (RecordQA owner qa verdict s))" "quiet s (snd (BindAuthority authority s))"
  "quiet s (snd (ReserveContinuityCommand c s))" "quiet s (snd (FinishContinuityCommand c st res code s))"
proof -
  have "\<exists>f. dl_rows s = map f (dl_rows s) \<and> (\<forall>w\<in>set (dl_rows s). quiet_row w (f w))"
    by (rule exI [of _ "\<lambda>w. w"]) simp
  then show "quiet s (snd (ClaimSteer wid s))" by (simp add: quiet_def ClaimSteer_def Let_def round_core_def)
  show "quiet s (snd (PendingBatch limit s))" by (simp add: core_def PendingBatch_def Let_def split: prod.splits)
  show "quiet s (snd (PinNativeThread child thread revision s))" by (simp add: core_def PinNativeThread_def split: option.splits)
  show "quiet s (snd (BindQA owner qa before after s))" by (simp add: core_def BindQA_def split: option.splits)
  show "quiet s (snd (RecordQA owner qa verdict s))" by (simp add: core_def RecordQA_def split: option.splits)
  show "quiet s (snd (BindAuthority authority s))" by (simp add: core_def BindAuthority_def split: option.splits)
  show "quiet s (snd (ReserveContinuityCommand c s))" by (simp add: core_def ReserveContinuityCommand_def)
  show "quiet s (snd (FinishContinuityCommand c st res code s))" by (simp add: core_def FinishContinuityCommand_def Let_def)
qed

lemma reauthorize_core: "reauthorize x y a s = Inr s' \<Longrightarrow> core s' = core s"
  by (auto simp: reauthorize_def core_def Let_def split: option.splits prod.splits if_splits)

lemma epoch_quiet: "quiet s (snd (ReauthorizePair a b before after s))"
  using reauthorize_core
  by (auto simp: ReauthorizePair_def split: option.splits sum.splits)

lemma admission_cases:
  "snd (CreateBounded now r s) = s \<or> admits r s (snd (CreateBounded now r s))"
  "snd (Continue now r before after s) = s \<or> admits r s (snd (Continue now r before after s))"
  "snd (createAPI now c intent r backend newChild before after s) = s
   \<or> admits r s (snd (createAPI now c intent r backend newChild before after s))"
proof -
  show "snd (CreateBounded now r s) = s \<or> admits r s (snd (CreateBounded now r s))"
    by (auto simp: CreateBounded_def admits_def split: sum.splits)
  show "snd (Continue now r before after s) = s \<or> admits r s (snd (Continue now r before after s))"
    by (auto simp: Continue_def admits_def split: sum.splits option.splits)
  have "admits r s t'" if "insertBounded now r (s\<lparr>dl_journal := j\<rparr>) = Inr t" "core t' = core t" for j t t'
  proof -
    have "core (s\<lparr>dl_journal := j\<rparr>) = core s" by (simp add: core_def)
    then show ?thesis using that unfolding admits_def by metis
  qed
  then show "snd (createAPI now c intent r backend newChild before after s) = s
   \<or> admits r s (snd (createAPI now c intent r backend newChild before after s))"
    by (auto simp: createAPI_def Let_def core_def split: sum.splits option.splits prod.splits bool.splits if_splits)
qed

lemma promote_cases: "snd (TryPromote now wid s) = s \<or> promotes wid s (snd (TryPromote now wid s))"
  by (auto simp: TryPromote_def promotes_def Let_def split: option.splits)

lemma step_kinds:
  assumes "dl_step s s'"
  obtains (quiet) "quiet s s'" | (promoted) wid where "promotes wid s s'" | (admitted) r where "admits r s s'"
  using assms
proof (cases rule: dl_step.cases)
  case (dl_create now r)
  then show ?thesis using admission_cases(1) [of now r s] quiet_same [of s s] that by metis
next
  case (dl_continue now r before after)
  then show ?thesis using admission_cases(2) [of now r before after s] quiet_same [of s s] that by metis
next
  case (dl_api now c intent r backend newChild before after)
  then show ?thesis using admission_cases(3) [of now c intent r backend newChild before after s] quiet_same [of s s] that by metis
next
  case (dl_promote now wid)
  then show ?thesis using promote_cases [of now wid s] quiet_same [of s s] that by metis
qed (use that(1) mark_quiet complete_quiet collecting_quiet cancel_quiet relation_quiet epoch_quiet in \<open>simp_all add: core_def\<close>)

section \<open>Promotion and admission\<close>

lemma row_of_fields [simp]:
  "dw_id (delegation_row_of now st delivery r) = dg_ID r" "dw_child (delegation_row_of now st delivery r) = dg_ChildSessionID r"
  "dw_parent (delegation_row_of now st delivery r) = dg_ParentSessionID r" "dw_state (delegation_row_of now st delivery r) = st"
  "dw_delivery (delegation_row_of now st delivery r) = delivery"
  by (simp_all add: delegation_row_of_def)

lemma core_reads:
  assumes "core t = core s"
  shows "limitsFor parent t = limitsFor parent s" "steers t = steers s" "countsFor parent t = countsFor parent s"
    "child_busy child t = child_busy child s" "latest_round logical t = latest_round logical s"
proof -
  have eq: "dl_rows t = dl_rows s" "dl_rounds t = dl_rounds s" "dl_capacity t = dl_capacity s" using assms by (simp_all add: core_def)
  show "limitsFor parent t = limitsFor parent s" "latest_round logical t = latest_round logical s"
    unfolding limitsFor_def latest_round_def eq by (rule refl)+
  show st: "steers t = steers s" by (simp add: steers_def eq)
  show "countsFor parent t = countsFor parent s" "child_busy child t = child_busy child s"
    by (simp_all add: countsFor_def count_rows_def child_busy_def eq st)
qed

lemma insertRound_facts:
  assumes "insertRound r t = Inr t'"
  obtains x where "t' = t\<lparr>dl_rounds := dl_rounds t @ [x]\<rparr>" "rd_id x = dg_ID r" "rd_mode x = ''steer'' \<longleftrightarrow> dg_Mode r = ''steer''"
    "dg_ID r \<notin> rd_id ` set (dl_rounds t)"
    "rd_logical x = rd_id x \<and> rd_version x = 1 \<and> (\<forall>y\<in>set (dl_rounds t). rd_logical y = rd_logical x \<longrightarrow> rd_version y \<noteq> 1)
     \<or> (\<exists>y. latest_round (rd_logical x) t = Some y \<and> rd_previous x = rd_id y \<and> rd_version x = rd_version y + 1)"
proof -
  define logical where "logical = (if dg_LogicalID r = [] then dg_ID r else dg_LogicalID r)"
  define mode where "mode = (if dg_Mode r = [] then ''queue'' else dg_Mode r)"
  define x where "x = (\<lambda>v. \<lparr>rd_id = dg_ID r, rd_logical = logical, rd_version = v, rd_previous = dg_PreviousID r, rd_authority = dg_Authority r,
    rd_grant = dg_GrantDigest r, rd_mode = mode, rd_request = dg_ExecutionRequestID r, rd_claimed = False\<rparr>)"
  define add where "add = (\<lambda>v. if \<exists>y\<in>set (dl_rounds t). rd_id y = dg_ID r \<or> rd_logical y = logical \<and> rd_version y = v then Inl DgSqlFailure
    else Inr (t\<lparr>dl_rounds := dl_rounds t @ [x v]\<rparr>))"
  have r: "insertRound r t = (if logical = dg_ID r then add 1 else case latest_round logical t of None \<Rightarrow> Inl DgNoRows
      | Some y \<Rightarrow> if rd_id y \<noteq> dg_PreviousID r then Inl DgRoundStale else add (rd_version y + 1))"
    unfolding insertRound_def Let_def add_def x_def logical_def [symmetric] mode_def [symmetric] by (rule refl)
  obtain v where v: "add v = Inr t'"
    and how: "logical = dg_ID r \<and> v = 1 \<or> (\<exists>y. latest_round logical t = Some y \<and> rd_id y = dg_PreviousID r \<and> v = rd_version y + 1)"
    using assms unfolding r by (auto split: if_splits option.splits)
  have "t' = t\<lparr>dl_rounds := dl_rounds t @ [x v]\<rparr>" "\<forall>y\<in>set (dl_rounds t). rd_id y \<noteq> dg_ID r \<and> (rd_logical y = logical \<longrightarrow> rd_version y \<noteq> v)"
    using v unfolding add_def by (auto split: if_splits)
  then show ?thesis using how by (intro that [of "x v"]) (auto simp: x_def mode_def)
qed

lemma admitted_facts:
  assumes "admits r s s'"
  obtains now st delivery x where
    "bounded_state r s = Inr st" "dl_rows s' = dl_rows s @ [delegation_row_of now st delivery r]"
    "\<forall>v\<in>set (dl_rows s). \<not> key_conflict v (delegation_row_of now st delivery r)" "delivery \<in> {''pending'', ''not_requested''}"
    "dl_rounds s' = dl_rounds s @ [x]" "dl_capacity s' = dl_capacity s" "rd_id x = dg_ID r" "rd_mode x = ''steer'' \<longleftrightarrow> dg_Mode r = ''steer''"
    "dg_ID r \<notin> rd_id ` set (dl_rounds s)"
    "rd_logical x = rd_id x \<and> rd_version x = 1 \<and> (\<forall>y\<in>set (dl_rounds s). rd_logical y = rd_logical x \<longrightarrow> rd_version y \<noteq> 1)
     \<or> (\<exists>y. latest_round (rd_logical x) s = Some y \<and> rd_previous x = rd_id y \<and> rd_version x = rd_version y + 1)"
proof -
  obtain now t t' where i: "insertBounded now r t = Inr t'" "core t = core s" "core t' = core s'" using assms unfolding admits_def by blast
  then have eq: "dl_rows t = dl_rows s" "dl_rounds t = dl_rounds s" "dl_capacity t = dl_capacity s"
    "dl_rows t' = dl_rows s'" "dl_rounds t' = dl_rounds s'" "dl_capacity t' = dl_capacity s'" by (simp_all add: core_def)
  have reads: "bounded_state r t = bounded_state r s" "latest_round l t = latest_round l s" for l
    unfolding bounded_state_def admissionState_def core_reads [OF i(2)] by (rule refl)+
  define delivery where "delivery = (if dg_DeliveryState r = ''not_requested'' then ''not_requested'' else ''pending'')"
  obtain st t1 where st: "bounded_state r t = Inr st" "insert_row (delegation_row_of now st delivery r) t = Some t1"
    using i(1) by (auto simp: insertBounded_def Let_def delivery_def split: if_splits sum.splits option.splits)
  then have t1: "t1 = t\<lparr>dl_rows := dl_rows t @ [delegation_row_of now st delivery r]\<rparr>"
    "\<forall>v\<in>set (dl_rows t). \<not> key_conflict v (delegation_row_of now st delivery r)"
    by (auto simp: insert_row_def split: if_splits)
  obtain b cm where rnd: "insertRound r (t1\<lparr>dl_bindings := b, dl_commitments := cm\<rparr>) = Inr t'"
    using i(1) st by (auto simp: insertBounded_def Let_def delivery_def split: if_splits)
  have lr: "latest_round l (t1\<lparr>dl_bindings := b, dl_commitments := cm\<rparr>) = latest_round l s" for l
    using reads(2) [of l] by (simp add: latest_round_def t1(1))
  let ?u = "t1\<lparr>dl_bindings := b, dl_commitments := cm\<rparr>"
  obtain x where x: "t' = ?u\<lparr>dl_rounds := dl_rounds ?u @ [x]\<rparr>" "rd_id x = dg_ID r" "rd_mode x = ''steer'' \<longleftrightarrow> dg_Mode r = ''steer''"
    "dg_ID r \<notin> rd_id ` set (dl_rounds ?u)"
    "rd_logical x = rd_id x \<and> rd_version x = 1 \<and> (\<forall>y\<in>set (dl_rounds ?u). rd_logical y = rd_logical x \<longrightarrow> rd_version y \<noteq> 1)
     \<or> (\<exists>y. latest_round (rd_logical x) ?u = Some y \<and> rd_previous x = rd_id y \<and> rd_version x = rd_version y + 1)"
    by (rule insertRound_facts [OF rnd])
  have u: "dl_rounds ?u = dl_rounds s" "dl_rows ?u = dl_rows s @ [delegation_row_of now st delivery r]" "dl_capacity ?u = dl_capacity s"
    using t1(1) eq by simp_all
  have s': "dl_rows s' = dl_rows s @ [delegation_row_of now st delivery r]" "dl_rounds s' = dl_rounds s @ [x]" "dl_capacity s' = dl_capacity s"
    using x(1) u eq by simp_all
  show ?thesis
    by (rule that [OF _ s'(1) _ _ s'(2,3) x(2,3)]) (use st(1) t1(2) reads(1) eq x(4,5) u(1) lr in \<open>auto simp: delivery_def\<close>)
qed

lemma promoted_facts:
  assumes "promotes wid s s'" and "distinct (map dw_id (dl_rows s))"
  obtains now l w where
    "delegation_by_id wid s = Some w" "dw_state w = ''queued''" "limitsFor (dw_parent w) s = Some l"
    "int (ct_Active (countsFor (dw_parent w) s)) < lm_Active l"
    "int (ct_Active (countsFor (dw_parent w) s) + ct_Delivery (countsFor (dw_parent w) s)) < lm_Delivery l"
    "\<not> child_busy (dw_child w) s" "\<not> older_can_run (dw_parent w) (place_of wid s) s"
    "s' = update_rows (\<lambda>v. v = w) (\<lambda>v. v\<lparr>dw_state := ''provisioning'', dw_updated := now\<rparr>) s"
proof -
  obtain now where p: "TryPromote now wid s = (Inr True, s')" using assms(1) unfolding promotes_def by blast
  then obtain w where w: "delegation_by_id wid s = Some w" by (auto simp: TryPromote_def split: option.splits)
  then have in_rows: "w \<in> set (dl_rows s)" "dw_id w = wid" by (auto simp: delegation_by_id_def find_Some_iff)
  have one: "(dw_id v = wid \<and> dw_state v = ''queued'') = (v = w)" if "v \<in> set (dl_rows s)" "dw_state w = ''queued''" for v
    using in_rows that assms(2) by (auto simp: distinct_map dest: inj_onD)
  obtain l where l: "dw_state w = ''queued''" "limitsFor (dw_parent w) s = Some l"
    "int (ct_Active (countsFor (dw_parent w) s)) < lm_Active l"
    "int (ct_Active (countsFor (dw_parent w) s) + ct_Delivery (countsFor (dw_parent w) s)) < lm_Delivery l"
    "\<not> child_busy (dw_child w) s" "\<not> older_can_run (dw_parent w) (place_of wid s) s"
    "s' = update_rows (\<lambda>w. dw_id w = wid \<and> dw_state w = ''queued'') (\<lambda>w. w\<lparr>dw_state := ''provisioning'', dw_updated := now\<rparr>) s"
    using p w by (auto simp: TryPromote_def Let_def not_le split: if_splits option.splits)
  have "map (\<lambda>v. if dw_id v = wid \<and> dw_state v = ''queued'' then v\<lparr>dw_state := ''provisioning'', dw_updated := now\<rparr> else v) (dl_rows s)
      = map (\<lambda>v. if v = w then v\<lparr>dw_state := ''provisioning'', dw_updated := now\<rparr> else v) (dl_rows s)"
    using one l(1) by (intro map_cong) auto
  then have "s' = update_rows (\<lambda>v. v = w) (\<lambda>v. v\<lparr>dw_state := ''provisioning'', dw_updated := now\<rparr>) s"
    unfolding l(7) update_rows_def by simp
  then show ?thesis by (rule that [OF w l(1-6)])
qed

section \<open>The invariant\<close>

definition occupants :: "string \<Rightarrow> delegation_store \<Rightarrow> nat" where
  "occupants child s = length (filter (\<lambda>w. dw_child w = child \<and> occupies w \<and> dw_id w \<notin> steers s) (dl_rows s))"

definition chained :: "round_row list \<Rightarrow> bool" where
  "chained rs \<longleftrightarrow> map rd_version rs = [1..<Suc (length rs)] \<and> (\<forall>i. Suc i < length rs \<longrightarrow> rd_previous (rs ! Suc i) = rd_id (rs ! i))"

definition dl_inv :: "delegation_store \<Rightarrow> bool" where
  "dl_inv s \<longleftrightarrow>
     distinct (map dw_id (dl_rows s)) \<and> rd_id ` set (dl_rounds s) \<subseteq> dw_id ` set (dl_rows s)
     \<and> (\<forall>child. occupants child s \<le> 1) \<and> (\<forall>w\<in>set (dl_rows s). delivery_ok w)
     \<and> (\<forall>logical. chained (filter (\<lambda>r. rd_logical r = logical) (dl_rounds s)))"

lemma busy_occupants: "child_busy child s \<longleftrightarrow> 0 < occupants child s"
  by (auto simp: child_busy_def occupants_def occupies_def filter_empty_conv)

lemma steers_core: "map round_core (dl_rounds s') = map round_core (dl_rounds s) \<Longrightarrow> steers s' = steers s"
proof -
  have "steers t = rd_id ` {r \<in> set (map round_core (dl_rounds t)). rd_mode r = ''steer''}" for t
    by (force simp: steers_def round_core_def image_iff)
  then show "map round_core (dl_rounds s') = map round_core (dl_rounds s) \<Longrightarrow> ?thesis" by presburger
qed

lemma count_map_le:
  "\<forall>w\<in>set ws. P (f w) \<longrightarrow> Q w \<Longrightarrow> length (filter P (map f ws)) \<le> length (filter Q ws)"
  by (induction ws) auto

lemma count_filter_mono: "(\<And>w. w \<in> set ws \<Longrightarrow> P w \<Longrightarrow> Q w) \<Longrightarrow> length (filter P ws) \<le> length (filter Q ws)"
  using count_map_le [of ws P "\<lambda>w. w" Q] by simp

lemma chained_core: "chained (map round_core rs) = chained rs"
proof -
  have v: "map rd_version (map round_core rs) = map rd_version rs" by (simp add: round_core_def)
  show ?thesis unfolding chained_def v length_map by (auto simp: round_core_def)
qed

lemma filter_core: "map round_core (filter (\<lambda>r. rd_logical r = logical) rs) = filter (\<lambda>r. rd_logical r = logical) (map round_core rs)"
  by (induction rs) (simp_all add: round_core_def)

lemma same_identity: "row_identity w' = row_identity w \<Longrightarrow> dw_id w' = dw_id w \<and> dw_child w' = dw_child w \<and> dw_parent w' = dw_parent w"
  by (simp add: row_identity_def)

lemma later_identity: "later w w' \<Longrightarrow> dw_id w' = dw_id w \<and> dw_child w' = dw_child w \<and> dw_parent w' = dw_parent w"
  unfolding later_def using same_identity by blast

lemma quiet_counts:
  assumes "quiet s s'"
  shows "count_rows parent (\<lambda>w. executing w \<and> dw_id w \<notin> steers s') s' \<le> count_rows parent (\<lambda>w. executing w \<and> dw_id w \<notin> steers s) s"
    "count_rows parent (\<lambda>w. dw_state w = ''queued'') s' \<le> count_rows parent (\<lambda>w. dw_state w = ''queued'') s"
    "count_rows parent needs_reconcile s' \<le> count_rows parent needs_reconcile s"
    "occupants child s' \<le> occupants child s"
proof -
  obtain f where f: "dl_rows s' = map f (dl_rows s)" "\<forall>w\<in>set (dl_rows s). quiet_row w (f w)" and st: "steers s' = steers s"
    using assms steers_core unfolding quiet_def by blast
  have q: "later w (f w)" "executing (f w) \<Longrightarrow> executing w" "occupies (f w) \<Longrightarrow> occupies w" "dw_state (f w) = ''queued'' \<Longrightarrow> dw_state w = ''queued''"
    "needs_reconcile (f w) \<Longrightarrow> needs_reconcile w" if "w \<in> set (dl_rows s)" for w
    using f(2) that by (simp_all add: quiet_row_def)
  note ids = later_identity [OF q(1)]
  show "count_rows parent (\<lambda>w. executing w \<and> dw_id w \<notin> steers s') s' \<le> count_rows parent (\<lambda>w. executing w \<and> dw_id w \<notin> steers s) s"
    unfolding count_rows_def f(1) st by (rule count_map_le) (use ids q in auto)
  show "count_rows parent (\<lambda>w. dw_state w = ''queued'') s' \<le> count_rows parent (\<lambda>w. dw_state w = ''queued'') s"
    unfolding count_rows_def f(1) by (rule count_map_le) (use ids q in auto)
  show "count_rows parent needs_reconcile s' \<le> count_rows parent needs_reconcile s"
    unfolding count_rows_def f(1) by (rule count_map_le) (use ids q in auto)
  show "occupants child s' \<le> occupants child s"
    unfolding occupants_def f(1) st by (rule count_map_le) (use ids q in auto)
qed

lemma inv_quiet:
  assumes "quiet s s'" and inv: "dl_inv s"
  shows "dl_inv s'"
proof -
  obtain f where f: "dl_rows s' = map f (dl_rows s)" "\<forall>w\<in>set (dl_rows s). quiet_row w (f w)"
    and rc: "map round_core (dl_rounds s') = map round_core (dl_rounds s)"
    using assms(1) unfolding quiet_def by blast
  have l: "later w (f w)" if "w \<in> set (dl_rows s)" for w using f(2) that by (simp add: quiet_row_def)
  have ids: "map dw_id (dl_rows s') = map dw_id (dl_rows s)" using later_identity [OF l] by (simp add: f(1))
  then have "dw_id ` set (dl_rows s') = dw_id ` set (dl_rows s)" by (metis set_map)
  moreover have "rd_id ` set (dl_rounds t) = rd_id ` set (map round_core (dl_rounds t))" for t by (force simp: round_core_def image_iff)
  moreover have "\<forall>w\<in>set (dl_rows s'). delivery_ok w" using l inv by (auto simp: f(1) later_def dl_inv_def)
  moreover have "chained (filter (\<lambda>r. rd_logical r = logical) (dl_rounds s'))" for logical
    using inv chained_core filter_core rc unfolding dl_inv_def by metis
  moreover have "occupants child s' \<le> 1" for child using quiet_counts(4) [OF assms(1), of child] inv unfolding dl_inv_def by (meson order_trans)
  ultimately show ?thesis using inv ids rc unfolding dl_inv_def by metis
qed

lemma count_one:
  "distinct ws \<Longrightarrow> length (filter P (map (\<lambda>v. if v = w then g v else v) ws)) \<le> length (filter P ws) + (if P (g w) then 1 else 0)"
proof (induction ws)
  case (Cons v ws)
  show ?case
  proof (cases "v = w")
    case True
    then have "map (\<lambda>v. if v = w then g v else v) ws = ws" using Cons.prems by (auto intro: map_idI)
    then show ?thesis using True by simp
  qed (use Cons in auto)
qed simp

lemma dl_distinct: "dl_inv s \<Longrightarrow> distinct (dl_rows s)"
  by (simp add: dl_inv_def distinct_map)

lemma inv_promote:
  assumes "promotes wid s s'" and inv: "dl_inv s"
  shows "dl_inv s'"
proof -
  obtain now l w where w: "delegation_by_id wid s = Some w" "dw_state w = ''queued''" "\<not> child_busy (dw_child w) s"
    "s' = update_rows (\<lambda>v. v = w) (\<lambda>v. v\<lparr>dw_state := ''provisioning'', dw_updated := now\<rparr>) s"
    using promoted_facts [OF assms(1)] inv unfolding dl_inv_def by metis
  let ?g = "\<lambda>v. v\<lparr>dw_state := ''provisioning'', dw_updated := now\<rparr>"
  have rows: "dl_rows s' = map (\<lambda>v. if v = w then ?g v else v) (dl_rows s)" "dl_rounds s' = dl_rounds s" "steers s' = steers s"
    by (simp_all add: w(4) update_rows_def steers_def)
  have ids: "map dw_id (dl_rows s') = map dw_id (dl_rows s)" by (simp add: rows(1))
  have "w \<in> set (dl_rows s)" using w(1) by (auto simp: delegation_by_id_def find_Some_iff)
  then have "delivery_ok (?g w)" using inv w(2) by (auto simp: dl_inv_def delivery_ok_def)
  then have "\<forall>v\<in>set (dl_rows s'). delivery_ok v" using inv by (auto simp: rows(1) dl_inv_def)
  moreover have "occupants child s' \<le> 1" for child
  proof -
    let ?P = "\<lambda>v. dw_child v = child \<and> occupies v \<and> dw_id v \<notin> steers s"
    have "occupants child s' \<le> occupants child s + (if ?P (?g w) then 1 else 0)"
      unfolding occupants_def rows(1,3) by (rule count_one [OF dl_distinct [OF inv]])
    moreover have "occupants child s = 0" if "dw_child w = child" using w(3) that busy_occupants by simp
    moreover have "occupants child s \<le> 1" using inv by (simp add: dl_inv_def)
    ultimately show ?thesis by (auto split: if_splits)
  qed
  moreover have "dw_id ` set (dl_rows s') = dw_id ` set (dl_rows s)" using ids by (metis set_map)
  ultimately show ?thesis using inv ids rows(2) unfolding dl_inv_def by metis
qed

lemma chained_latest:
  assumes "chained rs" and "rs = filter (\<lambda>r. rd_logical r = logical) (dl_rounds s)"
  shows "latest_round logical s = (if rs = [] then None else Some (last rs))"
proof -
  have "sorted (map rd_version rs)" using assms(1) unfolding chained_def by (metis sorted_upt)
  then have "sort_key rd_version rs = rs" by (rule sort_key_id_if_sorted)
  then show ?thesis unfolding latest_round_def assms(2) [symmetric] by (cases rs rule: rev_cases) simp_all
qed

lemma chained_append:
  assumes "chained rs" and "rs \<noteq> []" and "rd_previous x = rd_id (last rs)" and "rd_version x = rd_version (last rs) + 1"
  shows "chained (rs @ [x])"
proof -
  have v: "map rd_version rs = [1..<Suc (length rs)]" using assms(1) by (simp only: chained_def)
  have "rd_version (last rs) = last (map rd_version rs)" using assms(2) by (simp add: last_map)
  then have "rd_version (last rs) = length rs" using assms(2) unfolding v by (cases rs) simp_all
  then have "map rd_version (rs @ [x]) = [1..<Suc (length (rs @ [x]))]" using v assms(4) by simp
  moreover have "rd_previous ((rs @ [x]) ! Suc i) = rd_id ((rs @ [x]) ! i)" if "Suc i < length (rs @ [x])" for i
  proof (cases "Suc i = length rs")
    case True
    then have "last rs = rs ! i" using assms(2) by (metis diff_Suc_1 last_conv_nth)
    then show ?thesis using True assms(3) by (simp add: nth_append)
  next
    case False
    then show ?thesis using that assms(1) by (simp add: nth_append chained_def)
  qed
  ultimately show ?thesis unfolding chained_def by blast
qed

lemma inv_admit:
  assumes "admits r s s'" and inv: "dl_inv s"
  shows "dl_inv s'"
proof -
  obtain now st delivery x where a: "bounded_state r s = Inr st" "dl_rows s' = dl_rows s @ [delegation_row_of now st delivery r]"
    "\<forall>v\<in>set (dl_rows s). \<not> key_conflict v (delegation_row_of now st delivery r)" "delivery \<in> {''pending'', ''not_requested''}"
    "dl_rounds s' = dl_rounds s @ [x]" "rd_id x = dg_ID r" "rd_mode x = ''steer'' \<longleftrightarrow> dg_Mode r = ''steer''"
    "rd_logical x = rd_id x \<and> rd_version x = 1 \<and> (\<forall>y\<in>set (dl_rounds s). rd_logical y = rd_logical x \<longrightarrow> rd_version y \<noteq> 1)
     \<or> (\<exists>y. latest_round (rd_logical x) s = Some y \<and> rd_previous x = rd_id y \<and> rd_version x = rd_version y + 1)"
    by (rule admitted_facts [OF assms(1)])
  let ?w = "delegation_row_of now st delivery r"
  have new: "dg_ID r \<notin> dw_id ` set (dl_rows s)" using a(3) by (auto simp: key_conflict_def delegation_row_of_def)
  then have new': "dw_id v \<noteq> dg_ID r" if "v \<in> set (dl_rows s)" for v using that by (metis imageI)
  have st: "steers s' = steers s \<union> (if dg_Mode r = ''steer'' then {dg_ID r} else {})" using a(5-7) by (auto simp: steers_def)
  have "occupants child s' \<le> 1" for child
  proof -
    have old: "filter (\<lambda>w. dw_child w = child \<and> occupies w \<and> dw_id w \<notin> steers s') (dl_rows s)
        = filter (\<lambda>w. dw_child w = child \<and> occupies w \<and> dw_id w \<notin> steers s) (dl_rows s)"
      using new' by (intro filter_cong) (auto simp: st)
    have "occupants child s = 0" if "dg_ChildSessionID r = child" "occupies ?w" "dg_ID r \<notin> steers s'"
    proof -
      have "dg_Mode r \<noteq> ''steer''" using that(3) by (auto simp: st)
      moreover have "st \<noteq> ''queued''" using that(2) by (auto simp: occupies_def delegation_row_of_def)
      ultimately have "\<not> child_busy child s"
        using a(1) that(1) by (auto simp: bounded_state_def admissionState_def Let_def split: option.splits if_splits)
      then show ?thesis by (simp add: busy_occupants)
    qed
    moreover have "occupants child s' = occupants child s + (if dg_ChildSessionID r = child \<and> occupies ?w \<and> dg_ID r \<notin> steers s' then 1 else 0)"
      unfolding occupants_def a(2) filter_append old by simp
    moreover have "occupants child s \<le> 1" using inv by (simp add: dl_inv_def)
    ultimately show ?thesis by (auto split: if_splits)
  qed
  moreover have "chained (filter (\<lambda>r. rd_logical r = logical) (dl_rounds s'))" for logical
  proof (cases "rd_logical x = logical")
    case True
    let ?rs = "filter (\<lambda>r. rd_logical r = logical) (dl_rounds s)"
    have ch: "chained ?rs" using inv by (simp add: dl_inv_def)
    have "chained (?rs @ [x])" using a(8)
    proof
      assume "rd_logical x = rd_id x \<and> rd_version x = 1 \<and> (\<forall>y\<in>set (dl_rounds s). rd_logical y = rd_logical x \<longrightarrow> rd_version y \<noteq> 1)"
      then have v: "rd_version x = 1" "\<forall>y\<in>set ?rs. rd_version y \<noteq> 1" using True by auto
      have "?rs = []"
      proof (rule ccontr)
        assume ne: "?rs \<noteq> []"
        then have "1 \<in> set [1..<Suc (length ?rs)]" unfolding set_upt by (cases ?rs) simp_all
        then have "1 \<in> set (map rd_version ?rs)" using ch unfolding chained_def by (elim conjE) (simp only:)
        then show False using v(2) by force
      qed
      then show ?thesis using v(1) by (simp add: chained_def)
    next
      assume "\<exists>y. latest_round (rd_logical x) s = Some y \<and> rd_previous x = rd_id y \<and> rd_version x = rd_version y + 1"
      then show ?thesis using chained_latest [OF ch refl] chained_append [OF ch] True by (auto split: if_splits)
    qed
    then show ?thesis using True by (simp add: a(5))
  next
    case False
    then show ?thesis using inv by (simp add: a(5) dl_inv_def)
  qed
  moreover have "delivery_ok ?w" using a(4) by (auto simp: delivery_ok_def delegation_row_of_def)
  moreover have "distinct (map dw_id (dl_rows s'))" "rd_id ` set (dl_rounds s') \<subseteq> dw_id ` set (dl_rows s')" "\<forall>w\<in>set (dl_rows s). delivery_ok w"
    using inv new by (auto simp: a(2,5,6) dl_inv_def delegation_row_of_def)
  ultimately show ?thesis unfolding dl_inv_def by (simp add: a(2))
qed

lemma inv_run: "dl_run s s' \<Longrightarrow> dl_inv s \<Longrightarrow> dl_inv s'"
proof (induction rule: dl_run.induct)
  case (run_step s s')
  then show ?case using inv_quiet inv_promote inv_admit by (blast elim: step_kinds)
next
  case (run_configure s dflt parents)
  then show ?case by (simp add: ConfigureCapacity_def dl_inv_def occupants_def steers_def)
qed

interpretation delegation_sys: step_system "\<lambda>s. s = empty_delegations" dl_run dl_inv
proof unfold_locales
  show "dl_inv s" if "s = empty_delegations" for s
    using that by (simp add: dl_inv_def empty_delegations_def occupants_def chained_def)
qed (rule inv_run)

section \<open>Limits\<close>

lemma counts_fields:
  "ct_Active (countsFor parent s) = count_rows parent (\<lambda>w. executing w \<and> dw_id w \<notin> steers s) s"
  "ct_Queued (countsFor parent s) = count_rows parent (\<lambda>w. dw_state w = ''queued'') s"
  "ct_Reserved (countsFor parent s) = count_rows parent needs_reconcile s"
  "ct_Delivery (countsFor parent s) \<le> ct_Reserved (countsFor parent s)"
proof -
  have "count_rows parent (\<lambda>w. dw_state w = ''collecting'' \<or> dw_state w = ''terminal'' \<and> undelivered w) s
      \<le> count_rows parent (\<lambda>w. dw_state w \<noteq> ''terminal'' \<or> undelivered w) s"
    unfolding count_rows_def by (rule count_filter_mono) auto
  then show "ct_Delivery (countsFor parent s) \<le> ct_Reserved (countsFor parent s)" by (simp add: countsFor_def)
qed (simp_all add: countsFor_def needs_reconcile_def [abs_def])

definition in_limits :: "string \<Rightarrow> Limits \<Rightarrow> delegation_store \<Rightarrow> delegation_store \<Rightarrow> bool" where
  "in_limits parent l s s' \<longleftrightarrow>
     int (ct_Active (countsFor parent s')) \<le> max (int (ct_Active (countsFor parent s))) (lm_Active l)
     \<and> int (ct_Queued (countsFor parent s')) \<le> max (int (ct_Queued (countsFor parent s))) (lm_Queued l)
     \<and> int (ct_Reserved (countsFor parent s')) \<le> max (int (ct_Reserved (countsFor parent s))) (lm_Delivery l)"

lemma in_limits_trans: "in_limits parent l s t \<Longrightarrow> in_limits parent l t u \<Longrightarrow> in_limits parent l s u"
  unfolding in_limits_def by linarith

lemma in_limits_quiet: "quiet s s' \<Longrightarrow> in_limits parent l s s'"
  using quiet_counts [of s s' parent] by (simp add: in_limits_def counts_fields max.coboundedI1)

lemma in_limits_promote:
  assumes "promotes wid s s'" and inv: "dl_inv s" and l: "limitsFor parent s = Some l"
  shows "in_limits parent l s s'"
proof -
  obtain now l' w where w: "delegation_by_id wid s = Some w" "dw_state w = ''queued''" "limitsFor (dw_parent w) s = Some l'"
    "int (ct_Active (countsFor (dw_parent w) s)) < lm_Active l'"
    "s' = update_rows (\<lambda>v. v = w) (\<lambda>v. v\<lparr>dw_state := ''provisioning'', dw_updated := now\<rparr>) s"
    using promoted_facts [OF assms(1)] inv unfolding dl_inv_def by metis
  let ?g = "\<lambda>v. v\<lparr>dw_state := ''provisioning'', dw_updated := now\<rparr>"
  have rows: "dl_rows s' = map (\<lambda>v. if v = w then ?g v else v) (dl_rows s)" "steers s' = steers s"
    by (simp_all add: w(5) update_rows_def steers_def)
  have one: "length (filter P (dl_rows s')) \<le> length (filter P (dl_rows s)) + (if P (?g w) then 1 else 0)" for P
    unfolding rows(1) by (rule count_one [OF dl_distinct [OF inv]])
  have "count_rows parent (\<lambda>w. executing w \<and> dw_id w \<notin> steers s') s'
      \<le> count_rows parent (\<lambda>w. executing w \<and> dw_id w \<notin> steers s) s + (if dw_parent w = parent then 1 else 0)"
    unfolding count_rows_def rows(2) using one [of "\<lambda>w. dw_parent w = parent \<and> executing w \<and> dw_id w \<notin> steers s"] by (auto split: if_splits)
  moreover have "count_rows parent (\<lambda>w. dw_state w = ''queued'') s' \<le> count_rows parent (\<lambda>w. dw_state w = ''queued'') s"
    unfolding count_rows_def using one [of "\<lambda>w. dw_parent w = parent \<and> dw_state w = ''queued''"] by simp
  moreover have "count_rows parent needs_reconcile s' \<le> count_rows parent needs_reconcile s"
    unfolding count_rows_def rows(1) by (rule count_map_le) (auto simp: needs_reconcile_def w(2))
  ultimately show ?thesis using w(3,4) l by (auto simp: in_limits_def counts_fields split: if_splits)
qed

lemma in_limits_admit:
  assumes "admits r s s'" and inv: "dl_inv s" and l: "limitsFor parent s = Some l"
  shows "in_limits parent l s s'"
proof -
  obtain now st delivery x where a: "bounded_state r s = Inr st" "dl_rows s' = dl_rows s @ [delegation_row_of now st delivery r]"
    "\<forall>v\<in>set (dl_rows s). \<not> key_conflict v (delegation_row_of now st delivery r)" "delivery \<in> {''pending'', ''not_requested''}"
    "dl_rounds s' = dl_rounds s @ [x]" "rd_id x = dg_ID r" "rd_mode x = ''steer'' \<longleftrightarrow> dg_Mode r = ''steer''"
    by (rule admitted_facts [OF assms(1)])
  let ?w = "delegation_row_of now st delivery r"
  have "dg_ID r \<notin> dw_id ` set (dl_rows s)" using a(3) by (auto simp: key_conflict_def delegation_row_of_def)
  then have new: "dw_id v \<noteq> dg_ID r" if "v \<in> set (dl_rows s)" for v using that by (metis imageI)
  have steer: "steers s' = steers s \<union> (if dg_Mode r = ''steer'' then {dg_ID r} else {})" using a(5-7) by (auto simp: steers_def)
  have old: "filter (\<lambda>w. dw_parent w = parent \<and> executing w \<and> dw_id w \<notin> steers s') (dl_rows s)
      = filter (\<lambda>w. dw_parent w = parent \<and> executing w \<and> dw_id w \<notin> steers s) (dl_rows s)"
    using new by (intro filter_cong) (auto simp: steer)
  have counts: "ct_Active (countsFor parent s') = ct_Active (countsFor parent s)
        + (if dg_ParentSessionID r = parent \<and> executing ?w \<and> dg_ID r \<notin> steers s' then 1 else 0)"
      "ct_Queued (countsFor parent s') = ct_Queued (countsFor parent s) + (if dg_ParentSessionID r = parent \<and> st = ''queued'' then 1 else 0)"
      "ct_Reserved (countsFor parent s') \<le> ct_Reserved (countsFor parent s) + (if dg_ParentSessionID r = parent then 1 else 0)"
    unfolding counts_fields count_rows_def a(2) filter_append old by simp_all
  have "int (ct_Reserved (countsFor parent s)) < lm_Delivery l \<and> (executing ?w \<and> dg_Mode r \<noteq> ''steer'' \<longrightarrow> int (ct_Active (countsFor parent s)) < lm_Active l)
      \<and> (st = ''queued'' \<longrightarrow> int (ct_Queued (countsFor parent s)) < lm_Queued l)" if "dg_ParentSessionID r = parent"
    using a(1) l that by (auto simp: bounded_state_def admissionState_def Let_def executing_def delegation_row_of_def split: option.splits if_splits)
  moreover have "dg_Mode r \<noteq> ''steer''" if "dg_ID r \<notin> steers s'" using that by (auto simp: steer)
  ultimately show ?thesis unfolding in_limits_def using counts by (auto split: if_splits)
qed

lemma promote_capacity: "dl_capacity (snd (TryPromote now wid s)) = dl_capacity s"
  by (simp add: TryPromote_def Let_def update_rows_def split: option.split)

lemma step_limits: "dl_step s s' \<Longrightarrow> limitsFor parent s' = limitsFor parent s"
proof -
  assume step: "dl_step s s'"
  have "dl_capacity s' = dl_capacity s" using step
  proof (cases rule: step_kinds)
    case quiet
    then show ?thesis by (simp add: quiet_def)
  next
    case (promoted wid)
    then obtain now where "TryPromote now wid s = (Inr True, s')" unfolding promotes_def by blast
    then show ?thesis using promote_capacity [of now wid s] by simp
  next
    case (admitted r)
    then show ?thesis by (rule admitted_facts)
  qed
  then show ?thesis unfolding limitsFor_def by (simp only:)
qed

end
