(* ===== verification/Delegation_Guarantees.thy ===== *)
theory Delegation_Guarantees
  imports Delegation_Properties
begin

text \<open>The guarantees of delegations, with instances.\<close>

section \<open>Limits\<close>

lemma steps_in_limits:
  assumes "dl_step\<^sup>*\<^sup>* s s'" and "dl_inv s" and "limitsFor parent s = Some l"
  shows "in_limits parent l s s' \<and> dl_inv s' \<and> limitsFor parent s' = Some l"
  using assms(1)
proof (induction rule: rtranclp_induct)
  case base
  show ?case using assms(2,3) by (simp add: in_limits_def max.coboundedI1)
next
  case (step t u)
  have inv: "dl_inv u" using inv_run [OF run_step [OF step.hyps(2)]] step.IH by blast
  have "in_limits parent l t u" using step.hyps(2)
  proof (cases rule: step_kinds)
    case (promoted wid)
    then show ?thesis using step.IH by (intro in_limits_promote) auto
  next
    case (admitted r)
    then show ?thesis using step.IH by (intro in_limits_admit) auto
  qed (rule in_limits_quiet)
  then show ?case using inv step.IH in_limits_trans step_limits [OF step.hyps(2)] by metis
qed


section \<open>Results\<close>

lemma run_rows:
  assumes "dl_run s s'" and "dl_inv s" and "w \<in> set (dl_rows s)"
  shows "\<exists>w'\<in>set (dl_rows s'). later w w'"
  using assms(1)
proof (cases rule: dl_run.cases)
  case run_step
  then show ?thesis
  proof (cases rule: step_kinds)
    case quiet
    then show ?thesis using assms(3) by (auto simp: quiet_def quiet_row_def)
  next
    case (promoted wid)
    obtain now l v where v: "dw_state v = ''queued''"
      "s' = update_rows (\<lambda>u. u = v) (\<lambda>u. u\<lparr>dw_state := ''provisioning'', dw_updated := now\<rparr>) s"
      using promoted_facts [OF promoted] assms(2) unfolding dl_inv_def by metis
    let ?g = "\<lambda>u. if u = v then u\<lparr>dw_state := ''provisioning'', dw_updated := now\<rparr> else u"
    have "later w (?g w)" using v(1) by (auto simp: row_defs)
    then show ?thesis using assms(3) by (intro bexI [of _ "?g w"]) (auto simp: v(2) update_rows_def)
  next
    case (admitted r)
    then show ?thesis using assms(3) later_refl by (elim admitted_facts) (metis Un_iff set_append)
  qed
next
  case (run_configure dflt parents)
  then have "dl_rows s' = dl_rows s" by (simp add: ConfigureCapacity_def)
  then show ?thesis using assms(3) later_refl by metis
qed

lemma runs_rows:
  assumes "dl_run\<^sup>*\<^sup>* s s'" and "dl_inv s" and "w \<in> set (dl_rows s)"
  shows "\<exists>w'\<in>set (dl_rows s'). later w w'"
  using assms(1)
proof (induction rule: rtranclp_induct)
  case (step t u)
  then obtain v where v: "v \<in> set (dl_rows t)" "later w v" by blast
  moreover have "dl_inv t" by (rule delegation_sys.steps_good [OF step.hyps(1) assms(2)])
  ultimately show ?case using run_rows [OF step.hyps(2)] later_trans by blast
qed (use assms(3) later_refl in blast)

text \<open>
  C38. A result is final. A delegation keeps its identity and instruction and only moves forward, from waiting
  over execution and collection to its end; there its status, result, artifacts and error never change, and
  a delivery that succeeded or failed stays so. Nothing is delivered before the end.
\<close>

theorem delegation_result_is_final:
  assumes "dl_run\<^sup>*\<^sup>* empty_delegations s" and "w \<in> set (dl_rows s)" and "dl_run\<^sup>*\<^sup>* s s'"
  shows "\<exists>w'\<in>set (dl_rows s').
      row_identity w' = row_identity w \<and> rank (dw_state w) \<le> rank (dw_state w')
    \<and> (dw_state w = ''terminal'' \<longrightarrow> dw_state w' = ''terminal'' \<and> dw_status w' = dw_status w \<and> dw_result w' = dw_result w
         \<and> dw_artifacts w' = dw_artifacts w \<and> dw_error w' = dw_error w)
    \<and> (dw_delivery w \<notin> {''pending'', ''queued''} \<longrightarrow> dw_delivery w' = dw_delivery w)
    \<and> (dw_delivery w' \<in> {''queued'', ''delivered'', ''failed''} \<longrightarrow> dw_state w' = ''terminal'')"
proof -
  have inv: "dl_inv s" by (rule delegation_sys.reachable_good [OF refl assms(1)])
  obtain w' where w': "w' \<in> set (dl_rows s')" "later w w'" using runs_rows [OF assms(3) inv assms(2)] by blast
  have "delivery_ok w'" using delegation_sys.steps_good [OF assms(3) inv] w'(1) by (simp add: dl_inv_def)
  with w' show ?thesis unfolding later_def undelivered_def delivery_ok_def by blast
qed

section \<open>Order\<close>

lemma take_place:
  assumes "distinct (map dw_id rows)" and "w \<in> set rows"
  obtains us vs where "rows = us @ w # vs" "takeWhile (\<lambda>v. dw_id v \<noteq> dw_id w) rows = us" "w \<notin> set us"
proof -
  obtain us vs where s: "rows = us @ w # vs" using assms(2) by (auto simp: in_set_conv_decomp)
  then have "dw_id w \<notin> dw_id ` set us" using assms(1) by simp
  then have ne: "\<forall>v\<in>set us. dw_id v \<noteq> dw_id w" by (metis imageI)
  then have "takeWhile (\<lambda>v. dw_id v \<noteq> dw_id w) (us @ w # vs) = us" by (simp add: takeWhile_append2)
  moreover have "w \<notin> set us" using ne by blast
  ultimately show ?thesis using that s by blast
qed

lemma find_first: "w \<notin> set us \<Longrightarrow> find P (us @ w # vs) = Some w \<longleftrightarrow> P w \<and> (\<forall>v\<in>set us. \<not> P v)"
  by (induction us) (auto simp: find_Some_iff nth_append)


section \<open>Rounds\<close>

text \<open>
  The rounds of a task form a chain. In the order in which they were added their versions are one, two and
  so on without a gap, each names the round before it, and reading them by version gives this order.
\<close>

theorem rounds_form_a_chain:
  assumes "dl_run\<^sup>*\<^sup>* empty_delegations s"
  shows "map rd_version (rounds_of logical s) = [1..<Suc (length (rounds_of logical s))]
    \<and> rounds_of logical s = filter (\<lambda>r. rd_logical r = logical) (dl_rounds s)
    \<and> (\<forall>i. Suc i < length (rounds_of logical s) \<longrightarrow> rd_previous (rounds_of logical s ! Suc i) = rd_id (rounds_of logical s ! i))"
proof -
  let ?rs = "filter (\<lambda>r. rd_logical r = logical) (dl_rounds s)"
  have ch: "chained ?rs" using delegation_sys.reachable_good [OF refl assms] by (simp add: dl_inv_def)
  then have "sorted (map rd_version ?rs)" unfolding chained_def by (metis sorted_upt)
  then have rs: "rounds_of logical s = ?rs" unfolding rounds_of_def by (rule sort_key_id_if_sorted)
  show ?thesis using ch unfolding rs chained_def by blast
qed

section \<open>Instances\<close>

definition sample_work :: "string \<Rightarrow> string \<Rightarrow> DelegationRecord" where
  "sample_work wid previous =
     \<lparr>dg_LogicalID = ''a'', dg_PreviousID = previous, dg_Authority = [], dg_GrantDigest = [], dg_Mode = [], dg_ExecutionRequestID = [],
      dg_ExpectedThread = [], dg_ExpectedRevision = 0, dg_WorkspaceIdentity = [], dg_SourceThread = [], dg_SourceRevision = 0, dg_ID = wid,
      dg_ParentSessionID = ''p'', dg_ChildSessionID = ''c'', dg_ChildRequestID = wid, dg_OriginRequestID = [], dg_ToolCallID = [],
      dg_IntentHash = [], dg_ChildName = [], dg_Cwd = [], dg_Instruction = [], dg_Model = [], dg_Effort = [], dg_Sandbox = [],
      dg_ParentRequestID = wid, dg_DeliveryState = []\<rparr>"

definition sample_first_work :: delegation_store where
  "sample_first_work = snd (CreateBounded 1 (sample_work ''a'' []) empty_delegations)"

definition sample_two_works :: delegation_store where
  "sample_two_works = snd (CreateBounded 2 (sample_work ''b'' ''a'') sample_first_work)"

definition sample_done :: delegation_store where
  "sample_done = snd (Complete_delegation 3 ''c'' ''a'' ''completed'' ''ok'' [] [] sample_two_works)"

lemmas work_defs = CreateBounded_def insertBounded_def incomplete_def bounded_state_def admissionState_def limitsFor_def countsFor_def count_rows_def
  steers_def executing_def undelivered_def child_busy_def insert_row_def key_conflict_def delegation_row_of_def insertRound_def latest_round_def
  empty_delegations_def DefaultLimits_def sample_work_def Let_def

lemma sample_two_eval:
  "dl_rows sample_two_works = [delegation_row_of 1 ''provisioning'' ''pending'' (sample_work ''a'' []), delegation_row_of 2 ''queued'' ''pending'' (sample_work ''b'' ''a'')]"
  "map rd_id (dl_rounds sample_two_works) = [''a'', ''b'']" "map rd_logical (dl_rounds sample_two_works) = [''a'', ''a'']"
  "steers sample_two_works = {}" "dl_capacity sample_two_works = [[] \<mapsto> DefaultLimits]"
  by (simp_all add: sample_two_works_def sample_first_work_def work_defs)

lemma sample_done_eval:
  "dl_rows sample_done = [(delegation_row_of 1 ''terminal'' ''pending'' (sample_work ''a'' []))\<lparr>dw_status := ''completed'', dw_result := ''ok'', dw_updated := 3\<rparr>,
     delegation_row_of 2 ''queued'' ''pending'' (sample_work ''b'' ''a'')]"
  "steers sample_done = {}" "dl_capacity sample_done = [[] \<mapsto> DefaultLimits]"
proof -
  have r: "sample_done = update_rows (completes ''c'' ''a'') (\<lambda>w. w\<lparr>dw_state := ''terminal'', dw_status := ''completed'', dw_result := ''ok'',
      dw_artifacts := [], dw_error := [], dw_updated := 3\<rparr>) sample_two_works"
    by (simp add: sample_done_def Complete_delegation_def terminal_statuses_def)
  show "dl_rows sample_done = [(delegation_row_of 1 ''terminal'' ''pending'' (sample_work ''a'' []))\<lparr>dw_status := ''completed'', dw_result := ''ok'', dw_updated := 3\<rparr>,
     delegation_row_of 2 ''queued'' ''pending'' (sample_work ''b'' ''a'')]"
    by (simp add: r update_rows_def sample_two_eval(1) completes_def delegation_row_of_def sample_work_def)
  have "steers sample_done = steers sample_two_works" "dl_capacity sample_done = dl_capacity sample_two_works"
    by (simp_all add: r update_rows_def steers_def)
  then show "steers sample_done = {}" "dl_capacity sample_done = [[] \<mapsto> DefaultLimits]" using sample_two_eval(4,5) by simp_all
qed

lemma sample_runs:
  "dl_step\<^sup>*\<^sup>* empty_delegations sample_two_works" "dl_run\<^sup>*\<^sup>* empty_delegations sample_two_works" "dl_run\<^sup>*\<^sup>* empty_delegations sample_done"
proof -
  have a: "dl_step empty_delegations sample_first_work" "dl_step sample_first_work sample_two_works" "dl_step sample_two_works sample_done"
    unfolding sample_done_def sample_two_works_def sample_first_work_def by (rule dl_create dl_complete)+
  then show "dl_step\<^sup>*\<^sup>* empty_delegations sample_two_works" by (meson rtranclp.simps)
  from a have b: "dl_run empty_delegations sample_first_work" "dl_run sample_first_work sample_two_works" "dl_run sample_two_works sample_done"
    by (simp_all add: run_step)
  then show c: "dl_run\<^sup>*\<^sup>* empty_delegations sample_two_works" by (meson rtranclp.simps)
  with b(3) show "dl_run\<^sup>*\<^sup>* empty_delegations sample_done" by (rule rtranclp.rtrancl_into_rtrancl [rotated])
qed


theorem delegation_result_is_final_witness:
  "\<exists>w'\<in>set (dl_rows (snd (Complete_delegation 4 ''c'' ''a'' ''failed'' ''late'' [] [] sample_done))). dw_id w' = ''a'' \<and> dw_result w' = ''ok''"
proof -
  let ?w = "(delegation_row_of 1 ''terminal'' ''pending'' (sample_work ''a'' []))\<lparr>dw_status := ''completed'', dw_result := ''ok'', dw_updated := 3\<rparr>"
  let ?s = "snd (Complete_delegation 4 ''c'' ''a'' ''failed'' ''late'' [] [] sample_done)"
  have w: "?w \<in> set (dl_rows sample_done)" by (simp add: sample_done_eval(1))
  have "dl_run sample_done ?s" by (rule run_step) (rule dl_complete)
  then have "dl_run\<^sup>*\<^sup>* sample_done ?s" by (rule r_into_rtranclp)
  from delegation_result_is_final [OF sample_runs(3) w this] obtain w' where
    "w' \<in> set (dl_rows ?s)" "row_identity w' = row_identity ?w" "dw_state ?w = ''terminal'' \<longrightarrow> dw_result w' = dw_result ?w" by blast
  then show ?thesis by (intro bexI [of _ w']) (simp_all add: row_identity_def sample_work_def)
qed


theorem rounds_form_a_chain_witness:
  "map rd_version (rounds_of ''a'' sample_two_works) = [1, 2]"
proof -
  note ch = rounds_form_a_chain [OF sample_runs(2), of "''a''"]
  have "length (filter (\<lambda>r. rd_logical r = ''a'') (dl_rounds sample_two_works)) = length (filter (\<lambda>x. x = ''a'') (map rd_logical (dl_rounds sample_two_works)))"
    by (simp add: filter_map comp_def)
  also have "\<dots> = 2" unfolding sample_two_eval(3) by simp
  finally have two: "length (rounds_of ''a'' sample_two_works) = 2" using ch by metis
  have "map rd_version (rounds_of ''a'' sample_two_works) = [1..<Suc 2]" using ch unfolding two by (elim conjE)
  also have "\<dots> = [1, 2]" by (simp add: upt_rec)
  finally show ?thesis .
qed

end
