(* ===== verification/Notification_Replies.thy ===== *)
theory Notification_Replies
  imports Access_Control Base64_Url Json_Values
begin

text \<open>
  Replies typed into a notification (\<^verbatim>\<open>internal/notificationreply\<close> and
  \<^verbatim>\<open>internal/core/notification_reply.go\<close>): short-lived signed capabilities, the durable store between the
  HTTP receipt and the turn of the session, and the handler that connects the two.

  A Go map is a HOL map; the order in which a loop visits its keys is an argument, because Go leaves it
  open. The store keeps the file its readers see and, behind it, the older files that may come back after
  a loss of power: a rename whose directory was not synced is visible and not yet durable. The keys, the
  sessions and the contents of replies come out of a JSON decoder and are valid UTF-8, so that writing and
  reading them is the identity; an error text may be anything and is repaired by the encoder. The keyed
  digest and the JSON text of the claims are the fields of \<open>capability_lib\<close>. Times are milliseconds
  unless a name says otherwise.
\<close>

section \<open>Capabilities\<close>

datatype capability_error = ErrInvalidCapability | ErrExpiredCapability

record claims =
  cl_InstanceID :: string
  cl_SessionID :: string
  cl_ExpiresAt :: int

record capability_lib =
  lib_marshal :: "claims \<Rightarrow> string"
  lib_unmarshal :: "string \<Rightarrow> claims option"
  lib_hmac :: "string \<Rightarrow> string \<Rightarrow> string"

record Capabilities =
  cap_secret :: string
  cap_instanceID :: string

definition loadOrCreateSecret :: "string option \<Rightarrow> string option \<Rightarrow> bool \<Rightarrow> string option \<times> string option" where
  "loadOrCreateSecret file random written =
     (case file of
        Some value \<Rightarrow>
          if 32 \<le> length value then (Some value, file)
          else (case random of None \<Rightarrow> (None, file) | Some s \<Rightarrow> if written then (Some s, Some s) else (None, file))
      | None \<Rightarrow> (case random of None \<Rightarrow> (None, file) | Some s \<Rightarrow> if written then (Some s, Some s) else (None, file)))"

definition NewCapabilities ::
    "string option \<Rightarrow> string option \<Rightarrow> bool \<Rightarrow> string \<Rightarrow> Capabilities option \<times> string option" where
  "NewCapabilities file random written inst =
     (case loadOrCreateSecret file random written of
        (None, f) \<Rightarrow> (None, f)
      | (Some s, f) \<Rightarrow> (Some \<lparr>cap_secret = s, cap_instanceID = inst\<rparr>, f))"

definition Issue :: "capability_lib \<Rightarrow> Capabilities \<Rightarrow> int \<Rightarrow> string \<Rightarrow> int \<Rightarrow> string \<times> int" where
  "Issue l c now_ns sid ttl_ns =
     (if sid = [] \<or> ttl_ns \<le> 0 then ([], 0)
      else let expiresAt = (now_ns + ttl_ns) div 1000000;
               encoded = raw_url_encode (lib_marshal l \<lparr>cl_InstanceID = cap_instanceID c, cl_SessionID = sid, cl_ExpiresAt = expiresAt\<rparr>);
               signature = raw_url_encode (lib_hmac l (cap_secret c) encoded)
           in (encoded @ ''.'' @ signature, expiresAt))"

definition validate_claims ::
    "capability_lib \<Rightarrow> Capabilities \<Rightarrow> int \<Rightarrow> string \<Rightarrow> string \<Rightarrow> capability_error option" where
  "validate_claims l c now sid encoded =
     (case raw_url_decode encoded of
        None \<Rightarrow> Some ErrInvalidCapability
      | Some body \<Rightarrow>
          (case lib_unmarshal l body of
             None \<Rightarrow> Some ErrInvalidCapability
           | Some v \<Rightarrow>
               if cl_InstanceID v \<noteq> cap_instanceID c \<or> cl_SessionID v \<noteq> sid \<or> cl_ExpiresAt v \<le> 0 then Some ErrInvalidCapability
               else if now > cl_ExpiresAt v then Some ErrExpiredCapability
               else None))"

definition Validate ::
    "capability_lib \<Rightarrow> Capabilities \<Rightarrow> int \<Rightarrow> string \<Rightarrow> string \<Rightarrow> capability_error option" where
  "Validate l c now token sid =
     (case split_at CHR ''.'' token of
        [encoded, sig] \<Rightarrow>
          if encoded = [] \<or> sig = [] then Some ErrInvalidCapability
          else (case raw_url_decode sig of
                  None \<Rightarrow> Some ErrInvalidCapability
                | Some signature \<Rightarrow>
                    if signature \<noteq> lib_hmac l (cap_secret c) encoded then Some ErrInvalidCapability
                    else validate_claims l c now sid encoded)
      | _ \<Rightarrow> Some ErrInvalidCapability)"

section \<open>The store\<close>

definition StatusPending :: string where "StatusPending = ''pending''"
definition StatusDispatching :: string where "StatusDispatching = ''dispatching''"
definition StatusUncertain :: string where "StatusUncertain = ''uncertain''"
definition StatusSent :: string where "StatusSent = ''sent''"
definition StatusFailed :: string where "StatusFailed = ''failed''"

lemmas reply_status_defs = StatusPending_def StatusDispatching_def StatusUncertain_def StatusSent_def StatusFailed_def

definition maxReplyRecords :: nat where "maxReplyRecords = 2000"
definition reply_retention_ms :: int where "reply_retention_ms = 7 * 24 * 60 * 60 * 1000"

record reply_record =
  rp_ID :: string
  rp_SessionID :: string
  rp_Content :: string
  rp_Status :: string
  rp_Error :: string
  rp_CreatedAt :: int
  rp_UpdatedAt :: int
  rp_RecoveryFrom :: string

type_synonym reply_rows = "string \<rightharpoonup> reply_record"

datatype reply_file = MissingFile | UnreadableFile | SnapshotFile reply_rows

record reply_store =
  rs_hasPath :: bool
  rs_records :: reply_rows
  rs_loadErr :: bool
  rs_file :: reply_file
  rs_older :: "reply_file list"

datatype reply_error = ErrReplyConflict | ErrStoreUnavailable | PersistenceFailed

datatype save_outcome = SaveSynced | SaveUnsynced | SaveFailed

definition written_row :: "reply_record \<Rightarrow> reply_record" where
  "written_row r = r\<lparr>rp_Error := utf8_fix (rp_Error r)\<rparr>"

definition save_replies :: "save_outcome \<Rightarrow> reply_store \<Rightarrow> bool \<times> reply_store" where
  "save_replies out s =
     (if \<not> rs_hasPath s then (True, s)
      else let file = SnapshotFile (map_option written_row \<circ> rs_records s) in
        (case out of
           SaveSynced \<Rightarrow> (True, s\<lparr>rs_file := file, rs_older := []\<rparr>)
         | SaveUnsynced \<Rightarrow> (False, s\<lparr>rs_file := file, rs_older := rs_file s # rs_older s\<rparr>)
         | SaveFailed \<Rightarrow> (False, s)))"

definition terminal_reply :: "reply_record \<Rightarrow> bool" where
  "terminal_reply r \<longleftrightarrow> rp_Status r = StatusSent \<or> rp_Status r = StatusFailed"

definition expired_replies :: "int \<Rightarrow> string list \<Rightarrow> reply_rows \<Rightarrow> string list" where
  "expired_replies now ids m =
     filter (\<lambda>key. case m key of None \<Rightarrow> False | Some r \<Rightarrow> rp_UpdatedAt r < now - reply_retention_ms \<and> terminal_reply r) ids"

definition drop_keys :: "string list \<Rightarrow> reply_rows \<Rightarrow> reply_rows" where
  "drop_keys ids m = (\<lambda>key. if key \<in> set ids then None else m key)"

definition excess_replies :: "string list \<Rightarrow> reply_rows \<Rightarrow> string list" where
  "excess_replies ids m =
     (let present = filter (\<lambda>key. m key \<noteq> None) ids;
          ordered = sort_key rp_UpdatedAt (filter terminal_reply (map (\<lambda>key. the (m key)) present))
      in map rp_ID (take (length present - maxReplyRecords) ordered))"

definition prune_replies :: "int \<Rightarrow> string list \<Rightarrow> reply_rows \<Rightarrow> string list \<times> reply_rows" where
  "prune_replies now ids m =
     (let old = expired_replies now ids m;
          m1 = drop_keys old m;
          more = excess_replies ids m1
      in (old @ more, drop_keys more m1))"

definition new_reply :: "int \<Rightarrow> string \<Rightarrow> string \<Rightarrow> string \<Rightarrow> reply_record" where
  "new_reply now key sid content =
     \<lparr>rp_ID = key, rp_SessionID = sid, rp_Content = content, rp_Status = StatusPending, rp_Error = [],
      rp_CreatedAt = now, rp_UpdatedAt = now, rp_RecoveryFrom = []\<rparr>"

definition Enqueue_reply ::
    "int \<Rightarrow> string list \<Rightarrow> save_outcome \<Rightarrow> string \<Rightarrow> string \<Rightarrow> string \<Rightarrow> reply_store
     \<Rightarrow> (reply_error + reply_record \<times> bool) \<times> reply_store" where
  "Enqueue_reply now ids out key sid content s =
     (if rs_loadErr s then (Inl ErrStoreUnavailable, s)
      else case rs_records s key of
        Some current \<Rightarrow>
          if rp_SessionID current \<noteq> sid \<or> rp_Content current \<noteq> content then (Inl ErrReplyConflict, s)
          else (Inr (current, False), s)
      | None \<Rightarrow>
          let r = new_reply now key sid content;
              m = snd (prune_replies now ids ((rs_records s)(key \<mapsto> r)))
          in (case save_replies out (s\<lparr>rs_records := m\<rparr>) of
                (ok, s') \<Rightarrow> (if ok then Inr (r, True) else Inl PersistenceFailed, s')))"

definition Claim_reply ::
    "int \<Rightarrow> save_outcome \<Rightarrow> string \<Rightarrow> reply_store \<Rightarrow> (reply_record option \<times> bool) \<times> reply_store" where
  "Claim_reply now out key s =
     (case rs_records s key of
        None \<Rightarrow> ((None, False), s)
      | Some r \<Rightarrow>
          if rs_loadErr s \<or> rp_Status r \<noteq> StatusPending then ((Some r, False), s)
          else let r' = r\<lparr>rp_Status := StatusDispatching, rp_UpdatedAt := now\<rparr> in
            (case save_replies out (s\<lparr>rs_records := (rs_records s)(key \<mapsto> r')\<rparr>) of
               (ok, s') \<Rightarrow> if ok then ((Some r', True), s')
                           else ((Some r, False), s'\<lparr>rs_records := (rs_records s')(key \<mapsto> r)\<rparr>)))"

definition update_reply ::
    "int \<Rightarrow> save_outcome \<Rightarrow> string \<Rightarrow> string \<Rightarrow> string \<Rightarrow> reply_store \<Rightarrow> reply_store" where
  "update_reply now out key status reason s =
     (case rs_records s key of
        None \<Rightarrow> s
      | Some r \<Rightarrow>
          if rs_loadErr s \<or> rp_Status r = StatusUncertain then s
          else snd (save_replies out (s\<lparr>rs_records := (rs_records s)(key \<mapsto>
                 r\<lparr>rp_Status := status, rp_Error := reason, rp_UpdatedAt := now\<rparr>)\<rparr>)))"

definition MarkSent_reply :: "int \<Rightarrow> save_outcome \<Rightarrow> string \<Rightarrow> reply_store \<Rightarrow> reply_store" where
  "MarkSent_reply now out key s = update_reply now out key StatusSent [] s"

definition MarkFailed_reply :: "int \<Rightarrow> save_outcome \<Rightarrow> string \<Rightarrow> string \<Rightarrow> reply_store \<Rightarrow> reply_store" where
  "MarkFailed_reply now out key reason s = update_reply now out key StatusFailed reason s"

definition Pending_replies :: "string list \<Rightarrow> reply_store \<Rightarrow> reply_record list" where
  "Pending_replies ids s =
     sort_key rp_CreatedAt (filter (\<lambda>r. rp_Status r = StatusPending) (List.map_filter (rs_records s) ids))"

definition Get_reply :: "string \<Rightarrow> reply_store \<Rightarrow> reply_record option" where
  "Get_reply key s = rs_records s key"

section \<open>Loading\<close>

definition valid_row :: "string \<Rightarrow> reply_record \<Rightarrow> bool" where
  "valid_row key r \<longleftrightarrow> key \<noteq> [] \<and> rp_ID r = key \<and> rp_SessionID r \<noteq> []"

definition recover_row :: "reply_record \<Rightarrow> reply_record" where
  "recover_row r =
     (if rp_Status r = StatusDispatching then r\<lparr>rp_Status := StatusUncertain, rp_RecoveryFrom := StatusDispatching\<rparr> else r)"

definition load_replies :: "bool \<Rightarrow> int \<Rightarrow> string list \<Rightarrow> save_outcome \<Rightarrow> reply_store \<Rightarrow> reply_store" where
  "load_replies readable now ids out s =
     (if \<not> rs_hasPath s then s
      else if \<not> readable then s\<lparr>rs_loadErr := True\<rparr>
      else case rs_file s of
        MissingFile \<Rightarrow> s
      | UnreadableFile \<Rightarrow> s\<lparr>rs_loadErr := True\<rparr>
      | SnapshotFile rows \<Rightarrow>
          if list_all (\<lambda>key. case rows key of None \<Rightarrow> True | Some r \<Rightarrow> valid_row key r) ids then
            let s1 = s\<lparr>rs_records := snd (prune_replies now ids (map_option recover_row \<circ> rows))\<rparr> in
            if list_ex (\<lambda>key. case rows key of None \<Rightarrow> False | Some r \<Rightarrow> rp_Status r = StatusDispatching) ids
            then snd (save_replies out s1) else s1
          else s\<lparr>rs_loadErr := True\<rparr>)"

definition NewStore_replies ::
    "bool \<Rightarrow> bool \<Rightarrow> int \<Rightarrow> string list \<Rightarrow> save_outcome \<Rightarrow> reply_file \<Rightarrow> reply_file list \<Rightarrow> reply_store" where
  "NewStore_replies hasPath readable now ids out file older =
     load_replies readable now ids out
       \<lparr>rs_hasPath = hasPath, rs_records = Map.empty, rs_loadErr = False, rs_file = file, rs_older = older\<rparr>"

section \<open>The handler\<close>

definition notificationReplyTTL_ns :: int where "notificationReplyTTL_ns = 24 * 60 * 60 * 1000000000"
definition notificationReplyMaxRunes :: nat where "notificationReplyMaxRunes = 500"

function rune_count :: "string \<Rightarrow> nat" where
  "rune_count s =
     (if s = [] then 0
      else if rune_len s = 0 then Suc (rune_count (tl s))
      else Suc (rune_count (drop (rune_len s) s)))"
  by pat_completeness auto
termination by (relation "measure length") auto

declare rune_count.simps [simp del]

record notificationReplyRequest =
  nq_ReplyID :: string
  nq_SessionID :: string
  nq_Content :: string

record notificationReplyResponse =
  nr_Code :: nat
  nr_ReplyID :: string
  nr_SessionID :: string
  nr_Status :: string
  nr_RequestID :: string
  nr_QueuePosition :: nat
  nr_Error :: string

definition rejected :: "nat \<Rightarrow> notificationReplyRequest \<Rightarrow> string \<Rightarrow> notificationReplyResponse" where
  "rejected code q err =
     \<lparr>nr_Code = code, nr_ReplyID = nq_ReplyID q, nr_SessionID = nq_SessionID q, nr_Status = ''rejected'',
      nr_RequestID = [], nr_QueuePosition = 0, nr_Error = err\<rparr>"

definition request_id :: "string \<Rightarrow> string" where
  "request_id key = ''notification-reply-'' @ key"

text \<open>
  What the handler reads of a session before it submits the turn, and the calls into the runtime journal,
  the session control and the turn queue, in order.
\<close>

record session_view =
  sv_Idle :: bool
  sv_QueueLen :: nat
  sv_Accepts :: bool
  sv_QueueLenAfter :: nat

datatype reply_effect =
    UpdateRuntime string string string nat string string
  | UpdateQueueLength string nat
  | SubmitTurn string string string string
  | SendTurn string string string
  | MarkDesktopWriter string
  | EndTurnOf string

definition bounded_input :: "notificationReplyRequest \<Rightarrow> bool" where
  "bounded_input q \<longleftrightarrow>
     nq_ReplyID q \<noteq> [] \<and> length (nq_ReplyID q) \<le> 160 \<and> nq_SessionID q \<noteq> [] \<and> nq_Content q \<noteq> []
     \<and> rune_count (nq_Content q) \<le> notificationReplyMaxRunes"

definition trimmed_reply :: "notificationReplyRequest \<Rightarrow> notificationReplyRequest" where
  "trimmed_reply q =
     \<lparr>nq_ReplyID = trim_space (nq_ReplyID q), nq_SessionID = trim_space (nq_SessionID q), nq_Content = trim_space (nq_Content q)\<rparr>"

definition bearer_of :: "string \<Rightarrow> string option" where
  "bearer_of header =
     (let authorization = trim_space header;
          capability = trim_space (if has_prefix authorization ''Reply '' then drop 6 authorization else authorization)
      in if capability = authorization then None else Some capability)"

definition dispatchNotificationReply ::
    "int \<Rightarrow> save_outcome \<Rightarrow> save_outcome \<Rightarrow> (string \<Rightarrow> session_view option) \<Rightarrow> SessionControlStore \<Rightarrow> string \<Rightarrow> reply_store
     \<Rightarrow> (string + nat) \<times> reply_effect list \<times> reply_store" where
  "dispatchNotificationReply now out1 out2 reg ctl key s =
     (case Claim_reply now out1 key s of
        ((None, _), s1) \<Rightarrow> (Inr 0, [], s1)
      | ((Some r, False), s1) \<Rightarrow>
          (if rp_Status r = StatusUncertain then Inl ''acceptance_unknown_lookup_original''
           else if rp_Status r = StatusFailed then Inl (rp_Error r) else Inr 0, [], s1)
      | ((Some r, True), s1) \<Rightarrow>
          (case reg (rp_SessionID r) of
             None \<Rightarrow> (Inl ''unknown_session'', [], MarkFailed_reply now out2 key ''unknown_session'' s1)
           | Some v \<Rightarrow>
               if \<not> MobileMayWrite (rp_SessionID r) ctl
               then (Inl ''session_controlled_by_desktop'', [], MarkFailed_reply now out2 key ''session_controlled_by_desktop'' s1)
               else
                 let behind = \<not> sv_Idle v \<or> sv_QueueLen v > 0;
                     rid = request_id (rp_ID r);
                     before = (if behind then [] else [UpdateRuntime (rp_SessionID r) ''queued'' rid 0 [] []])
                 in if \<not> sv_Accepts v
                    then (Inl ''session_closed'', before @ [UpdateRuntime (rp_SessionID r) ''failed'' rid 0 ''failed'' ''session is closed''],
                          MarkFailed_reply now out2 key ''session_closed'' s1)
                    else (Inr (if behind then sv_QueueLenAfter v else 0),
                          before @ [SubmitTurn (rp_SessionID r) rid key (rp_Content r)]
                            @ (if behind then [UpdateQueueLength (rp_SessionID r) (sv_QueueLenAfter v)] else []),
                          s1)))"

text \<open>The submitted turn: it runs later, in the worker of the session.\<close>

datatype send_result = SendAccepted | SendError bool string

definition run_reply_turn ::
    "int \<Rightarrow> save_outcome \<Rightarrow> send_result \<Rightarrow> nat \<Rightarrow> reply_record \<Rightarrow> reply_store \<Rightarrow> reply_effect list \<times> reply_store" where
  "run_reply_turn now out res qlen r s =
     (let sid = rp_SessionID r; rid = request_id (rp_ID r);
          start = [UpdateRuntime sid ''running'' rid qlen [] [], SendTurn sid rid (rp_Content r)]
      in case res of
           SendAccepted \<Rightarrow> (start, MarkSent_reply now out (rp_ID r) s)
         | SendError active err \<Rightarrow>
             (start @ (if active then [MarkDesktopWriter sid] else [])
                @ [UpdateRuntime sid ''failed'' rid 0 ''failed'' err, EndTurnOf sid],
              MarkFailed_reply now out (rp_ID r) err s))"

fun resume_from ::
    "int \<Rightarrow> (string \<Rightarrow> save_outcome \<times> save_outcome) \<Rightarrow> (string \<Rightarrow> session_view option) \<Rightarrow> SessionControlStore
     \<Rightarrow> reply_record list \<Rightarrow> reply_store \<Rightarrow> reply_effect list \<times> reply_store" where
  "resume_from now outs reg ctl [] s = ([], s)"
| "resume_from now outs reg ctl (r # rs) s =
     (case dispatchNotificationReply now (fst (outs (rp_ID r))) (snd (outs (rp_ID r))) reg ctl (rp_ID r) s of
        (_, es, s1) \<Rightarrow> (case resume_from now outs reg ctl rs s1 of (es', s2) \<Rightarrow> (es @ es', s2)))"

definition resumeNotificationReplies ::
    "int \<Rightarrow> string list \<Rightarrow> (string \<Rightarrow> save_outcome \<times> save_outcome) \<Rightarrow> (string \<Rightarrow> session_view option) \<Rightarrow> SessionControlStore
     \<Rightarrow> reply_store \<Rightarrow> reply_effect list \<times> reply_store" where
  "resumeNotificationReplies now ids outs reg ctl s = resume_from now outs reg ctl (Pending_replies ids s) s"

definition status_reply :: "reply_record \<Rightarrow> string \<Rightarrow> notificationReplyResponse" where
  "status_reply r err =
     \<lparr>nr_Code = 202, nr_ReplyID = rp_ID r, nr_SessionID = rp_SessionID r, nr_Status = rp_Status r,
      nr_RequestID = request_id (rp_ID r), nr_QueuePosition = 0, nr_Error = err\<rparr>"

text \<open>The guards of the handler up to the store: \<open>Inl\<close> is a refusal, \<open>Inr\<close> the request to be stored.\<close>

definition admit_reply ::
    "capability_lib \<Rightarrow> Capabilities option \<Rightarrow> int \<Rightarrow> (string \<Rightarrow> session_view option) \<Rightarrow> SessionControlStore
     \<Rightarrow> string \<Rightarrow> string \<Rightarrow> notificationReplyRequest option \<Rightarrow> notificationReplyResponse + notificationReplyRequest" where
  "admit_reply l caps now reg ctl verb header body =
     (let none = \<lparr>nq_ReplyID = [], nq_SessionID = [], nq_Content = []\<rparr> in
      if verb \<noteq> ''POST'' then Inl (rejected 405 none ''method_not_allowed'')
      else case body of
        None \<Rightarrow> Inl (rejected 400 none ''invalid_json'')
      | Some q0 \<Rightarrow>
          let q = trimmed_reply q0 in
          if \<not> bounded_input q then Inl (rejected 400 q ''invalid_reply'')
          else (case (bearer_of header, caps) of
             (Some token, Some c) \<Rightarrow>
               (case Validate l c now token (nq_SessionID q) of
                  Some ErrExpiredCapability \<Rightarrow> Inl (rejected 401 q ''expired_capability'')
                | Some ErrInvalidCapability \<Rightarrow> Inl (rejected 401 q ''invalid_capability'')
                | None \<Rightarrow>
                    if reg (nq_SessionID q) = None then Inl (rejected 404 q ''unknown_session'')
                    else if \<not> MobileMayWrite (nq_SessionID q) ctl then Inl (rejected 409 q ''session_controlled_by_desktop'')
                    else Inr q)
           | _ \<Rightarrow> Inl (rejected 401 q ''missing_capability'')))"

definition answer_stored ::
    "int \<Rightarrow> save_outcome \<Rightarrow> save_outcome \<Rightarrow> (string \<Rightarrow> session_view option) \<Rightarrow> SessionControlStore
     \<Rightarrow> notificationReplyRequest \<Rightarrow> reply_record \<Rightarrow> bool \<Rightarrow> reply_store
     \<Rightarrow> notificationReplyResponse \<times> reply_effect list \<times> reply_store" where
  "answer_stored now out1 out2 reg ctl q r created s =
     (let queued = (\<lambda>n. \<lparr>nr_Code = 202, nr_ReplyID = nq_ReplyID q, nr_SessionID = nq_SessionID q, nr_Status = ''queued'',
                        nr_RequestID = [], nr_QueuePosition = n, nr_Error = []\<rparr>)
      in if rp_Status r = StatusUncertain then (status_reply r ''acceptance_unknown_lookup_original'', [], s)
         else if \<not> created \<and> (terminal_reply r \<or> rp_Status r = StatusDispatching)
         then (status_reply r (if rp_Status r = StatusFailed then ''previous_reply_failed_lookup_original'' else []), [], s)
         else if created \<or> rp_Status r = StatusPending then
           (case dispatchNotificationReply now out1 out2 reg ctl (nq_ReplyID q) s of
              (Inl err, es, s1) \<Rightarrow> (rejected 409 q err, es, s1)
            | (Inr n, es, s1) \<Rightarrow> (queued n, es, s1))
         else (queued 0, [], s))"

definition ServeNotificationReplyAPI ::
    "capability_lib \<Rightarrow> Capabilities option \<Rightarrow> int \<Rightarrow> string list \<Rightarrow> save_outcome \<Rightarrow> save_outcome \<Rightarrow> save_outcome
     \<Rightarrow> (string \<Rightarrow> session_view option) \<Rightarrow> (string \<Rightarrow> session_view option) \<Rightarrow> SessionControlStore \<Rightarrow> SessionControlStore
     \<Rightarrow> string \<Rightarrow> string \<Rightarrow> notificationReplyRequest option \<Rightarrow> reply_store
     \<Rightarrow> notificationReplyResponse \<times> reply_effect list \<times> reply_store" where
  "ServeNotificationReplyAPI l caps now ids out0 out1 out2 reg reg' ctl ctl' verb header body s =
     (case admit_reply l caps now reg ctl verb header body of
        Inl refusal \<Rightarrow> (refusal, [], s)
      | Inr q \<Rightarrow>
          (case Enqueue_reply now ids out0 (nq_ReplyID q) (nq_SessionID q) (nq_Content q) s of
             (Inl ErrReplyConflict, s1) \<Rightarrow> (rejected 409 q ''reply_id_conflict'', [], s1)
           | (Inl _, s1) \<Rightarrow> (rejected 500 q ''persistence_failed'', [], s1)
           | (Inr (r, created), s1) \<Rightarrow> answer_stored now out1 out2 reg' ctl' q r created s1))"

text \<open>The link a notification carries (\<open>notificationReplyAction\<close>).\<close>

record reply_config =
  rc_TailscaleIP :: string
  rc_LanIP :: string
  rc_Port :: int

definition reply_url :: "(int \<Rightarrow> string) \<Rightarrow> string \<Rightarrow> int \<Rightarrow> string" where
  "reply_url itoa host port = ''http://'' @ host @ '':'' @ itoa port @ ''/api/notification/v1/replies''"

definition notificationReplyAction ::
    "(int \<Rightarrow> string) \<Rightarrow> capability_lib \<Rightarrow> Capabilities option \<Rightarrow> reply_config \<Rightarrow> int \<Rightarrow> string
     \<Rightarrow> string \<times> string \<times> string \<times> int" where
  "notificationReplyAction itoa l caps cfg now_ns sid =
     (case caps of
        None \<Rightarrow> ([], [], [], 0)
      | Some c \<Rightarrow>
          if sid = [] then ([], [], [], 0)
          else let tail = trim_space (rc_TailscaleIP cfg);
                   lan = trim_space (rc_LanIP cfg);
                   host = (if tail = [] then lan else tail);
                   fallback = (if tail \<noteq> [] \<and> lan \<noteq> [] \<and> lan \<noteq> tail \<and> rc_Port cfg > 0
                               then reply_url itoa lan (rc_Port cfg) else [])
               in if host = [] \<or> rc_Port cfg \<le> 0 then ([], [], [], 0)
                  else (case Issue l c now_ns sid notificationReplyTTL_ns of
                          (cap, expires) \<Rightarrow> (reply_url itoa host (rc_Port cfg), fallback, cap, expires)))"

end
