(* ===== verification/Reply_Properties.thy ===== *)
theory Reply_Properties
  imports Notification_Replies "HOL-Library.Multiset"
begin

text \<open>
  The invariant of notification replies: a step relation with one step per critical section of the store,
  crashes and losses of power included, and the accounting of what was handed to the executor.
\<close>

section \<open>Pruning\<close>

definition keyed :: "reply_rows \<Rightarrow> bool" where
  "keyed m \<longleftrightarrow> (\<forall>k r. m k = Some r \<longrightarrow> rp_ID r = k)"

lemma keyedD: "keyed m \<Longrightarrow> m k = Some r \<Longrightarrow> rp_ID r = k"
  by (simp add: keyed_def)

lemma drop_keys_apply: "drop_keys ks m k = (if k \<in> set ks then None else m k)"
  by (simp add: drop_keys_def)

lemma expired_terminal: "k \<in> set (expired_replies now ids m) \<Longrightarrow> \<exists>r. m k = Some r \<and> terminal_reply r"
  by (auto simp: expired_replies_def split: option.splits)

lemma excess_terminal:
  assumes "keyed m" "k \<in> set (excess_replies ids m)"
  shows "\<exists>r. m k = Some r \<and> terminal_reply r"
  using assms set_take_subset by (fastforce simp: excess_replies_def Let_def keyed_def)

lemma keyed_drop: "keyed m \<Longrightarrow> keyed (drop_keys ks m)"
  by (simp add: keyed_def drop_keys_apply)

lemma prune_cases:
  assumes "keyed m" "prune_replies now ids m = (gone, m')"
  shows "m' k = m k \<or> (m' k = None \<and> (\<exists>r. m k = Some r \<and> terminal_reply r))"
  using assms expired_terminal [of k now ids m] excess_terminal [OF keyed_drop [OF assms(1)], of k ids "expired_replies now ids m"]
  by (auto simp: prune_replies_def Let_def drop_keys_apply split: if_splits)

lemma prune_keyed: "keyed m \<Longrightarrow> keyed (snd (prune_replies now ids m))"
  by (simp add: prune_replies_def Let_def keyed_drop)

lemma prune_keeps: "keyed m \<Longrightarrow> m k = Some r \<Longrightarrow> \<not> terminal_reply r \<Longrightarrow> snd (prune_replies now ids m) k = Some r"
  using prune_cases [of m now ids _ _ k] by (metis option.inject surjective_pairing)

lemma prune_row: "keyed m \<Longrightarrow> snd (prune_replies now ids m) k = Some r \<Longrightarrow> m k = Some r"
  using prune_cases [of m now ids _ _ k] by (metis option.distinct(1) surjective_pairing)

lemma prune_None: "keyed m \<Longrightarrow> snd (prune_replies now ids m) k = None \<Longrightarrow> m k = None \<or> (\<exists>r. m k = Some r \<and> terminal_reply r)"
  using prune_cases [of m now ids _ _ k] by (metis surjective_pairing)

lemma length_drop_keys:
  assumes "distinct ids" "set ks \<subseteq> {k \<in> set ids. m k \<noteq> None}" "distinct ks"
  shows "length (filter (\<lambda>k. drop_keys ks m k \<noteq> None) ids) + length ks = length (filter (\<lambda>k. m k \<noteq> None) ids)"
proof -
  let ?A = "{k \<in> set ids. m k \<noteq> None}"
  have card: "length (filter P ids) = card {k \<in> set ids. P k}" for P
    using assms(1) by (simp flip: distinct_card set_filter)
  have "{k \<in> set ids. drop_keys ks m k \<noteq> None} = ?A - set ks" by (auto simp: drop_keys_apply)
  moreover have "card (?A - set ks) + card (set ks) = card ?A"
    using assms(2) by (simp add: card_Diff_subset card_mono)
  ultimately show ?thesis
    unfolding card using distinct_card [OF assms(3)] by simp
qed

text \<open>The capacity holds unless replies that are not settled fill it.\<close>

lemma prune_bound:
  assumes "keyed m" "distinct ids" "prune_replies now ids m = (gone, m')"
  shows "length (filter (\<lambda>k. m' k \<noteq> None) ids) \<le> maxReplyRecords
     \<or> (\<forall>k\<in>set ids. \<forall>r. m' k = Some r \<longrightarrow> \<not> terminal_reply r)"
proof -
  let ?m1 = "drop_keys (expired_replies now ids m) m"
  let ?present = "filter (\<lambda>k. ?m1 k \<noteq> None) ids"
  let ?terms = "filter (\<lambda>k. terminal_reply (the (?m1 k))) ?present"
  let ?ordered = "sort_key rp_UpdatedAt (filter terminal_reply (map (\<lambda>k. the (?m1 k)) ?present))"
  let ?n = "length ?present - maxReplyRecords"
  have m': "m' = drop_keys (excess_replies ids ?m1) ?m1" using assms(3) by (auto simp: prune_replies_def Let_def)
  have ex: "excess_replies ids ?m1 = take ?n (map rp_ID ?ordered)"
    by (simp add: excess_replies_def Let_def take_map)
  have key1: "keyed ?m1" using assms(1) by (rule keyed_drop)
  have "map rp_ID (filter terminal_reply (map (\<lambda>k. the (?m1 k)) ?present)) = map (\<lambda>k. rp_ID (the (?m1 k))) ?terms"
    by (simp add: filter_map comp_def)
  also have "\<dots> = ?terms" by (rule map_idI) (auto dest: keyedD [OF key1])
  finally have listed: "map rp_ID (filter terminal_reply (map (\<lambda>k. the (?m1 k)) ?present)) = ?terms" .
  have "mset (map rp_ID ?ordered) = mset (map rp_ID (filter terminal_reply (map (\<lambda>k. the (?m1 k)) ?present)))" by simp
  then have names: "mset (map rp_ID ?ordered) = mset ?terms" unfolding listed .
  have dist: "distinct (map rp_ID ?ordered)" "set (map rp_ID ?ordered) = set ?terms"
    using mset_eq_imp_distinct_iff [OF names] mset_eq_setD [OF names] assms(2) by simp_all
  have len: "length (map rp_ID ?ordered) = length ?terms" using mset_eq_length [OF names] .
  show ?thesis
  proof (cases "?n \<le> length ?terms")
    case True
    have "length (filter (\<lambda>k. m' k \<noteq> None) ids) + length (excess_replies ids ?m1) = length ?present"
      unfolding m' using dist set_take_subset [of ?n "map rp_ID ?ordered"]
      by (intro length_drop_keys assms(2)) (auto simp: ex)
    moreover have "length (excess_replies ids ?m1) = ?n" using True len by (simp add: ex)
    ultimately show ?thesis by linarith
  next
    case False
    then have "set (excess_replies ids ?m1) = set ?terms" using dist len by (simp add: ex)
    then show ?thesis by (auto simp: m' drop_keys_apply)
  qed
qed

section \<open>The system\<close>

type_synonym grant = "int \<times> string \<times> notificationReplyRequest"

record reply_system =
  sy_store :: reply_store
  sy_jobs :: "reply_record list"
  sy_sent :: "reply_record list"
  sy_pruned :: "string \<Rightarrow> nat"
  sy_grants :: "grant set"

definition pruned_between :: "reply_rows \<Rightarrow> reply_rows \<Rightarrow> (string \<Rightarrow> nat) \<Rightarrow> string \<Rightarrow> nat" where
  "pruned_between m m' n = (\<lambda>k. n k + (if m k \<noteq> None \<and> m' k = None then 1 else 0))"

fun file_rows :: "reply_file \<Rightarrow> reply_rows" where
  "file_rows (SnapshotFile m) = m"
| "file_rows _ = Map.empty"

definition file_found :: "reply_store \<Rightarrow> reply_store \<Rightarrow> bool" where
  "file_found s f \<longleftrightarrow>
     (rs_file f = rs_file s \<and> rs_older f = rs_older s) \<or> (rs_file f \<in> insert (rs_file s) (set (rs_older s)) \<and> rs_older f = [])"

definition reply_start :: "reply_system \<Rightarrow> bool" where
  "reply_start y \<longleftrightarrow>
     sy_store y = \<lparr>rs_hasPath = True, rs_records = Map.empty, rs_loadErr = False, rs_file = MissingFile, rs_older = []\<rparr>
     \<and> sy_jobs y = [] \<and> sy_sent y = [] \<and> sy_pruned y = (\<lambda>_. 0) \<and> sy_grants y = {}"

text \<open>
  A step is one critical section: storing an admitted request, claiming it, giving a claimed one up,
  running the submitted turn, recording its result, or a restart. After a crash the next process reads the
  file that was visible; after a loss of power any file that was not yet replaced durably. The queued
  turns are gone then.
\<close>

inductive reply_step :: "capability_lib \<Rightarrow> Capabilities \<Rightarrow> reply_system \<Rightarrow> reply_system \<Rightarrow> bool"
  for l :: capability_lib and c :: Capabilities where
  enqueue: "admit_reply l (Some c) now reg ctl verb header body = Inr q \<Longrightarrow> bearer_of header = Some token \<Longrightarrow>
      Enqueue_reply now' ids out (nq_ReplyID q) (nq_SessionID q) (nq_Content q) (sy_store y) = (res, s') \<Longrightarrow>
      reply_step l c y (y\<lparr>sy_store := s', sy_grants := insert (now, token, q) (sy_grants y),
        sy_pruned := pruned_between (rs_records (sy_store y)) (rs_records s') (sy_pruned y)\<rparr>)"
| claim: "Claim_reply now out k (sy_store y) = ((Some r, True), s') \<Longrightarrow>
      reply_step l c y (y\<lparr>sy_store := s', sy_jobs := r # sy_jobs y\<rparr>)"
| not_claimed: "Claim_reply now out k (sy_store y) = ((res, False), s') \<Longrightarrow> reply_step l c y (y\<lparr>sy_store := s'\<rparr>)"
| give_up: "r \<in> set (sy_jobs y) \<Longrightarrow>
      reply_step l c y (y\<lparr>sy_store := MarkFailed_reply now out (rp_ID r) reason (sy_store y), sy_jobs := remove1 r (sy_jobs y)\<rparr>)"
| send: "r \<in> set (sy_jobs y) \<Longrightarrow>
      reply_step l c y (y\<lparr>sy_jobs := remove1 r (sy_jobs y), sy_sent := r # sy_sent y\<rparr>)"
| sent: "r \<in> set (sy_sent y) \<Longrightarrow> reply_step l c y (y\<lparr>sy_store := MarkSent_reply now out (rp_ID r) (sy_store y)\<rparr>)"
| failed: "r \<in> set (sy_sent y) \<Longrightarrow> reply_step l c y (y\<lparr>sy_store := MarkFailed_reply now out (rp_ID r) reason (sy_store y)\<rparr>)"
| restart: "file_found (sy_store y) f \<Longrightarrow>
      s' = NewStore_replies True readable now ids out (rs_file f) (rs_older f) \<Longrightarrow>
      reply_step l c y (y\<lparr>sy_store := s', sy_jobs := [],
        sy_pruned := (if rs_loadErr s' then sy_pruned y else pruned_between (file_rows (rs_file f)) (rs_records s') (sy_pruned y))\<rparr>)"

section \<open>The invariant\<close>

definition handed :: "reply_system \<Rightarrow> string \<Rightarrow> nat" where
  "handed y k = length (filter (\<lambda>r. rp_ID r = k) (sy_jobs y @ sy_sent y))"

definition open_row :: "reply_rows \<Rightarrow> string \<Rightarrow> bool" where
  "open_row m k \<longleftrightarrow> (case m k of None \<Rightarrow> True | Some r \<Rightarrow> rp_Status r = StatusPending)"

definition granted_row :: "grant set \<Rightarrow> reply_record \<Rightarrow> bool" where
  "granted_row G r \<longleftrightarrow> (\<exists>now token. (now, token, \<lparr>nq_ReplyID = rp_ID r, nq_SessionID = rp_SessionID r, nq_Content = rp_Content r\<rparr>) \<in> G)"

text \<open>What the invariant says of the rows in memory and of the rows of a file alike.\<close>

definition rows_good :: "(string \<Rightarrow> nat) \<Rightarrow> (string \<Rightarrow> nat) \<Rightarrow> grant set \<Rightarrow> reply_rows \<Rightarrow> bool" where
  "rows_good h p G m \<longleftrightarrow>
     keyed m \<and> (\<forall>k. open_row m k \<longrightarrow> h k \<le> p k) \<and> (\<forall>k r. m k = Some r \<longrightarrow> granted_row G r)"

definition files_good :: "(string \<Rightarrow> nat) \<Rightarrow> (string \<Rightarrow> nat) \<Rightarrow> grant set \<Rightarrow> reply_store \<Rightarrow> bool" where
  "files_good h p G s \<longleftrightarrow> (\<forall>f\<in>insert (rs_file s) (set (rs_older s)). f \<noteq> UnreadableFile \<longrightarrow> rows_good h p G (file_rows f))"

definition store_good :: "(string \<Rightarrow> nat) \<Rightarrow> (string \<Rightarrow> nat) \<Rightarrow> grant set \<Rightarrow> reply_store \<Rightarrow> bool" where
  "store_good h p G s \<longleftrightarrow>
     rs_hasPath s \<and> (\<not> rs_loadErr s \<longrightarrow> rows_good h p G (rs_records s)) \<and> (rs_loadErr s \<longrightarrow> rs_records s = Map.empty)
     \<and> files_good h p G s"

definition valid_grants :: "capability_lib \<Rightarrow> Capabilities \<Rightarrow> grant set \<Rightarrow> bool" where
  "valid_grants l c G \<longleftrightarrow> (\<forall>(now, token, q)\<in>G. Validate l c now token (nq_SessionID q) = None \<and> bounded_input q)"

definition system_good :: "capability_lib \<Rightarrow> Capabilities \<Rightarrow> reply_system \<Rightarrow> bool" where
  "system_good l c y \<longleftrightarrow>
     store_good (handed y) (sy_pruned y) (sy_grants y) (sy_store y) \<and> (\<forall>k. handed y k \<le> Suc (sy_pruned y k))
     \<and> (\<forall>r\<in>set (sy_jobs y @ sy_sent y). granted_row (sy_grants y) r) \<and> valid_grants l c (sy_grants y)"

section \<open>Preservation\<close>

lemma pruned_between_same [simp]: "pruned_between m m p = p"
  by (auto simp: pruned_between_def fun_eq_iff)

lemma granted_row_written [simp]: "granted_row G (written_row r) \<longleftrightarrow> granted_row G r"
  by (simp add: granted_row_def written_row_def)

lemma granted_row_mono: "granted_row G r \<Longrightarrow> G \<subseteq> G' \<Longrightarrow> granted_row G' r"
  by (auto simp: granted_row_def)

lemma rows_good_weaken:
  assumes "rows_good h p G m" "\<And>k. h' k \<le> h k" "\<And>k. p k \<le> p' k" "G \<subseteq> G'"
  shows "rows_good h' p' G' m"
proof -
  have "h' k \<le> p' k" if "open_row m k" for k
    using assms(1) that assms(2, 3) [of k] by (auto simp: rows_good_def intro: order.trans)
  then show ?thesis using assms(1) granted_row_mono [OF _ assms(4)] by (simp add: rows_good_def)
qed

lemma files_good_weaken:
  "files_good h p G s \<Longrightarrow> (\<And>k. h' k \<le> h k) \<Longrightarrow> (\<And>k. p k \<le> p' k) \<Longrightarrow> G \<subseteq> G' \<Longrightarrow> files_good h' p' G' s"
  by (auto simp: files_good_def intro: rows_good_weaken)

lemma store_good_weaken:
  "store_good h p G s \<Longrightarrow> (\<And>k. h' k \<le> h k) \<Longrightarrow> (\<And>k. p k \<le> p' k) \<Longrightarrow> G \<subseteq> G' \<Longrightarrow> store_good h' p' G' s"
  by (auto simp: store_good_def intro: rows_good_weaken files_good_weaken)

lemma rows_good_written: "rows_good h p G m \<Longrightarrow> rows_good h p G (map_option written_row \<circ> m)"
  by (auto simp: rows_good_def keyed_def open_row_def written_row_def granted_row_def split: option.splits)

lemma rows_good_recovered: "rows_good h p G m \<Longrightarrow> rows_good h p G (map_option recover_row \<circ> m)"
  by (auto simp: rows_good_def keyed_def open_row_def recover_row_def granted_row_def reply_status_defs
           split: option.splits if_splits)

lemma rows_good_upd:
  assumes "rows_good h p G m" "rp_ID r = k" "granted_row G r" "rp_Status r \<noteq> StatusPending \<or> h k \<le> p k"
  shows "rows_good h p G (m(k \<mapsto> r))"
  using assms by (auto simp: rows_good_def keyed_def open_row_def)

lemma rows_good_pruned:
  assumes "rows_good h p G m" "\<And>k. h k \<le> Suc (p k)" "m' = snd (prune_replies now ids m)"
  shows "rows_good h (pruned_between m m' p) G m'"
proof -
  have key: "keyed m" using assms(1) by (simp add: rows_good_def)
  have rows: "m k = Some r" if "m' k = Some r" for k r
    using prune_row [OF key] that assms(3) by simp
  have "h k \<le> pruned_between m m' p k" if "open_row m' k" for k
  proof (cases "m' k = None \<and> m k \<noteq> None")
    case True
    then show ?thesis using assms(2) [of k] by (simp add: pruned_between_def)
  next
    case False
    then have "m' k = m k" using rows by (cases "m' k") auto
    then show ?thesis using that assms(1) by (auto simp: rows_good_def open_row_def pruned_between_def)
  qed
  moreover have "granted_row G r" if "m' k = Some r" for k r
    using rows [OF that] assms(1) by (simp add: rows_good_def)
  ultimately show ?thesis using prune_keyed [OF key, of now ids] by (simp add: rows_good_def assms(3))
qed

lemma store_good_save:
  assumes "store_good h p G s" "\<not> rs_loadErr s" "rows_good h p G m" "save_replies out (s\<lparr>rs_records := m\<rparr>) = (ok, s')"
  shows "store_good h p G s'" "\<not> rs_loadErr s'" "rs_records s' = m"
    "ok \<Longrightarrow> rs_file s' = SnapshotFile (map_option written_row \<circ> m) \<and> rs_older s' = []"
  using assms rows_good_written [OF assms(3)]
  by (auto simp: save_replies_def store_good_def files_good_def Let_def split: save_outcome.splits)

lemma store_good_update:
  assumes "store_good h p G s" "status \<noteq> StatusPending"
  shows "store_good h p G (update_reply now out k status reason s)"
proof (cases "rs_records s k")
  case (Some r)
  show ?thesis
  proof (cases "rs_loadErr s \<or> rp_Status r = StatusUncertain")
    case False
    let ?r = "r\<lparr>rp_Status := status, rp_Error := reason, rp_UpdatedAt := now\<rparr>"
    have old: "rows_good h p G (rs_records s)" using assms(1) False by (simp add: store_good_def)
    then have "granted_row G ?r" "rp_ID ?r = k"
      using Some by (auto simp: rows_good_def granted_row_def keyed_def)
    then have "rows_good h p G ((rs_records s)(k \<mapsto> ?r))" using old assms(2) by (intro rows_good_upd) auto
    then have "store_good h p G (snd (save_replies out (s\<lparr>rs_records := (rs_records s)(k \<mapsto> ?r)\<rparr>)))"
      using store_good_save(1) [OF assms(1)] False by (metis surjective_pairing)
    then show ?thesis using Some False by (simp add: update_reply_def)
  qed (use assms Some in \<open>simp add: update_reply_def\<close>)
qed (use assms in \<open>simp add: update_reply_def\<close>)

lemma store_good_marks:
  assumes "store_good h p G s"
  shows "store_good h p G (MarkSent_reply now out k s)" "store_good h p G (MarkFailed_reply now out k reason s)"
  using assms by (auto simp: MarkSent_reply_def MarkFailed_reply_def reply_status_defs intro: store_good_update)

lemma store_good_not_claimed:
  assumes "store_good h p G s" "Claim_reply now out k s = ((res, False), s')"
  shows "store_good h p G s'"
proof (cases "rs_records s k")
  case (Some r)
  show ?thesis
  proof (cases "rs_loadErr s \<or> rp_Status r \<noteq> StatusPending")
    case False
    let ?r = "r\<lparr>rp_Status := StatusDispatching, rp_UpdatedAt := now\<rparr>"
    obtain ok s1 where sv: "save_replies out (s\<lparr>rs_records := (rs_records s)(k \<mapsto> ?r)\<rparr>) = (ok, s1)" by fastforce
    have s': "s' = s1\<lparr>rs_records := (rs_records s1)(k \<mapsto> r)\<rparr>"
      using assms(2) Some False sv by (auto simp: Claim_reply_def Let_def split: if_splits)
    have old: "rows_good h p G (rs_records s)" using assms(1) False by (simp add: store_good_def)
    have r: "granted_row G ?r" "granted_row G r" "rp_ID r = k"
      using old Some by (auto simp: rows_good_def granted_row_def keyed_def)
    then have new: "rows_good h p G ((rs_records s)(k \<mapsto> ?r))"
      using old by (intro rows_good_upd) (auto simp: reply_status_defs)
    note saved = store_good_save [OF assms(1) _ new sv]
    have "(rs_records s)(k \<mapsto> ?r, k \<mapsto> r) = rs_records s" using Some by (simp add: map_upd_triv)
    then show ?thesis
      using saved False old by (simp add: s' store_good_def files_good_def)
  qed (use assms Some in \<open>auto simp: Claim_reply_def\<close>)
qed (use assms in \<open>auto simp: Claim_reply_def\<close>)

lemma claimed_row:
  assumes "Claim_reply now out k s = ((Some r, True), s')"
  obtains r0 where "rs_records s k = Some r0" "\<not> rs_loadErr s" "rp_Status r0 = StatusPending"
    "r = r0\<lparr>rp_Status := StatusDispatching, rp_UpdatedAt := now\<rparr>"
    "save_replies out (s\<lparr>rs_records := (rs_records s)(k \<mapsto> r)\<rparr>) = (True, s')"
  using assms by (auto simp: Claim_reply_def Let_def split: option.splits if_splits prod.splits)

lemma rows_good_claimed:
  assumes "rows_good h p G m" "m k = Some r" "rp_Status r \<noteq> StatusPending"
  shows "rows_good (h(k := n)) p G m"
proof -
  have "\<not> open_row m k" using assms(2, 3) by (simp add: open_row_def)
  then show ?thesis using assms(1) by (auto simp: rows_good_def)
qed

lemma store_good_claimed:
  assumes "store_good h p G s" "Claim_reply now out k s = ((Some r, True), s')"
  shows "store_good (h(k := n)) p G s' \<and> h k \<le> p k \<and> rp_ID r = k \<and> granted_row G r"
proof -
  obtain r0 where c: "rs_records s k = Some r0" "\<not> rs_loadErr s" "rp_Status r0 = StatusPending"
    "r = r0\<lparr>rp_Status := StatusDispatching, rp_UpdatedAt := now\<rparr>"
    "save_replies out (s\<lparr>rs_records := (rs_records s)(k \<mapsto> r)\<rparr>) = (True, s')"
    using assms(2) by (rule claimed_row)
  have old: "rows_good h p G (rs_records s)" using assms(1) c(2) by (simp add: store_good_def)
  have hp: "h k \<le> p k" using old c(1, 3) by (simp add: rows_good_def open_row_def)
  have r: "granted_row G r" "rp_ID r = k" "rp_Status r \<noteq> StatusPending"
    using old c(1) by (auto simp: c(4) rows_good_def granted_row_def keyed_def reply_status_defs)
  have new: "rows_good h p G ((rs_records s)(k \<mapsto> r))" using old r by (intro rows_good_upd) auto
  note saved = store_good_save [OF assms(1) c(2) new c(5)]
  have mem: "rows_good (h(k := n)) p G ((rs_records s)(k \<mapsto> r))"
    using new r(3) by (intro rows_good_claimed [of _ _ _ _ k r]) auto
  then have "rows_good (h(k := n)) p G (map_option written_row \<circ> (rs_records s)(k \<mapsto> r))" by (rule rows_good_written)
  then show ?thesis
    using saved mem hp r by (simp add: store_good_def files_good_def)
qed

lemma store_good_enqueue:
  assumes good: "store_good h p G s" and hp: "\<And>k. h k \<le> Suc (p k)"
    and enq: "Enqueue_reply now ids out k sid content s = (res, s')"
    and gr: "granted_row G (new_reply now k sid content)"
  shows "store_good h (pruned_between (rs_records s) (rs_records s') p) G s'"
proof (cases "rs_loadErr s \<or> rs_records s k \<noteq> None")
  case True
  then have "s' = s" using enq by (auto simp: Enqueue_reply_def split: if_splits)
  then show ?thesis using good by simp
next
  case False
  let ?m = "(rs_records s)(k \<mapsto> new_reply now k sid content)"
  let ?m' = "snd (prune_replies now ids ?m)"
  let ?p = "pruned_between ?m ?m' p"
  obtain ok s1 where sv: "save_replies out (s\<lparr>rs_records := ?m'\<rparr>) = (ok, s1)" by fastforce
  have s1: "s' = s1" using enq False sv by (auto simp: Enqueue_reply_def Let_def split: if_splits)
  have old: "rows_good h p G (rs_records s)" using good False by (simp add: store_good_def)
  then have "h k \<le> p k" using False by (simp add: rows_good_def open_row_def)
  then have m: "rows_good h p G ?m" using old gr by (intro rows_good_upd) (auto simp: new_reply_def)
  have m': "rows_good h ?p G ?m'" using m hp by (rule rows_good_pruned) simp
  have "store_good h ?p G s"
    using good by (rule store_good_weaken) (auto simp: pruned_between_def)
  note saved = store_good_save [OF this _ m' sv]
  have "?m' k = Some (new_reply now k sid content)"
    by (rule prune_keeps) (use m in \<open>auto simp: rows_good_def new_reply_def terminal_reply_def reply_status_defs\<close>)
  then have "?p = pruned_between (rs_records s) ?m' p"
    by (auto simp: pruned_between_def fun_eq_iff)
  then show ?thesis using saved False by (simp add: s1)
qed

lemma admitted_reply:
  assumes "admit_reply l (Some c) now reg ctl verb header body = Inr q" "bearer_of header = Some token"
  shows "Validate l c now token (nq_SessionID q) = None \<and> bounded_input q"
  using assms
  by (auto simp: admit_reply_def Let_def split: if_splits option.splits capability_error.splits)

lemma files_good_found: "files_good h p G s \<Longrightarrow> file_found s f \<Longrightarrow> files_good h p G f"
  by (auto simp: files_good_def file_found_def)

lemma load_cases:
  fixes f :: reply_store
  defines "s \<equiv> \<lparr>rs_hasPath = True, rs_records = Map.empty, rs_loadErr = False, rs_file = rs_file f, rs_older = rs_older f\<rparr>"
  assumes "s' = NewStore_replies True readable now ids out (rs_file f) (rs_older f)"
  shows "s' = s\<lparr>rs_loadErr := True\<rparr> \<or> (s' = s \<and> rs_file f = MissingFile)
     \<or> (\<exists>m m'. rs_file f = SnapshotFile m \<and> m' = snd (prune_replies now ids (map_option recover_row \<circ> m))
          \<and> (s' = s\<lparr>rs_records := m'\<rparr> \<or> s' = snd (save_replies out (s\<lparr>rs_records := m'\<rparr>))))"
proof -
  have s: "rs_hasPath s" "rs_file s = rs_file f" and s': "s' = load_replies readable now ids out s"
    using assms(2) by (simp_all add: s_def NewStore_replies_def)
  show ?thesis unfolding s' load_replies_def by (cases "rs_file f") (simp_all add: s Let_def)
qed

lemma store_good_load:
  assumes files: "files_good h p G f" and hp: "\<And>k. h k \<le> Suc (p k)"
    and s': "s' = NewStore_replies True readable now ids out (rs_file f) (rs_older f)"
  shows "store_good h (if rs_loadErr s' then p else pruned_between (file_rows (rs_file f)) (rs_records s') p) G s'"
proof -
  let ?s = "\<lparr>rs_hasPath = True, rs_records = Map.empty, rs_loadErr = False, rs_file = rs_file f, rs_older = rs_older f\<rparr>"
  have fs: "files_good h p G ?s" using files by (simp add: files_good_def)
  have broken: "store_good h p G (?s\<lparr>rs_loadErr := True\<rparr>)" using fs by (simp add: store_good_def files_good_def)
  consider (bad) "s' = ?s\<lparr>rs_loadErr := True\<rparr>" | (missing) "s' = ?s" "rs_file f = MissingFile"
    | (rows) m m' where "rs_file f = SnapshotFile m" "m' = snd (prune_replies now ids (map_option recover_row \<circ> m))"
        "s' = ?s\<lparr>rs_records := m'\<rparr> \<or> s' = snd (save_replies out (?s\<lparr>rs_records := m'\<rparr>))"
    using load_cases [OF s'] by blast
  then show ?thesis
  proof cases
    case bad
    then show ?thesis using broken by simp
  next
    case missing
    then have "rows_good h p G Map.empty" using fs by (simp add: files_good_def)
    then show ?thesis using missing fs by (auto simp: store_good_def pruned_between_def)
  next
    case rows
    let ?m = "map_option recover_row \<circ> m"
    let ?p = "pruned_between ?m m' p"
    have "rows_good h p G m" using fs rows(1) by (simp add: files_good_def)
    then have m: "rows_good h p G ?m" by (rule rows_good_recovered)
    have m': "rows_good h ?p G m'" using m hp rows(2) by (rule rows_good_pruned)
    have fs': "files_good h ?p G ?s" using fs by (rule files_good_weaken) (auto simp: pruned_between_def)
    have plain: "store_good h ?p G (?s\<lparr>rs_records := m'\<rparr>)" "\<not> rs_loadErr (?s\<lparr>rs_records := m'\<rparr>)"
      using m' fs' by (auto simp: store_good_def files_good_def)
    obtain ok s1 where sv: "save_replies out (?s\<lparr>rs_records := m'\<rparr>) = (ok, s1)" by fastforce
    have "save_replies out (?s\<lparr>rs_records := m', rs_records := m'\<rparr>) = (ok, s1)" using sv by simp
    note saved = store_good_save [OF plain m' this]
    have "pruned_between (file_rows (rs_file f)) (rs_records s') p = ?p" "\<not> rs_loadErr s'"
      using rows saved sv by (auto simp: pruned_between_def fun_eq_iff)
    then show ?thesis using rows(3) plain(1) saved(1) sv by auto
  qed
qed

lemma handed_jobs: "handed (y\<lparr>sy_jobs := js\<rparr>) k = length (filter (\<lambda>r. rp_ID r = k) (js @ sy_sent y))"
  by (simp add: handed_def)

lemma handed_fields [simp]:
  "handed (y\<lparr>sy_store := s\<rparr>) = handed y" "handed (y\<lparr>sy_pruned := p\<rparr>) = handed y" "handed (y\<lparr>sy_grants := g\<rparr>) = handed y"
  "handed (y\<lparr>sy_jobs := js, sy_pruned := p\<rparr>) = handed (y\<lparr>sy_jobs := js\<rparr>)" "handed (y\<lparr>sy_store := s, sy_jobs := js\<rparr>) = handed (y\<lparr>sy_jobs := js\<rparr>)"
  by (simp_all add: handed_def fun_eq_iff)

lemma handed_remove: "handed (y\<lparr>sy_jobs := remove1 r (sy_jobs y)\<rparr>) k \<le> handed y k"
proof -
  have "length (filter P (remove1 r js)) \<le> length (filter P js)" for P js by (induction js) auto
  then show ?thesis by (simp add: handed_def)
qed

lemma handed_claim: "rp_ID r = k \<Longrightarrow> handed (y\<lparr>sy_jobs := r # sy_jobs y\<rparr>) = (handed y)(k := Suc (handed y k))"
  by (auto simp: handed_def fun_eq_iff)

lemma handed_send:
  assumes "r \<in> set (sy_jobs y)"
  shows "handed (y\<lparr>sy_jobs := remove1 r (sy_jobs y), sy_sent := r # sy_sent y\<rparr>) = handed y"
proof
  fix k
  have "length (filter P js) = length (filter P (remove1 r js)) + (if P r then 1 else 0)" if "r \<in> set js" for P js
    using that by (induction js) auto
  from this [OF assms, of "\<lambda>r. rp_ID r = k"]
  show "handed (y\<lparr>sy_jobs := remove1 r (sy_jobs y), sy_sent := r # sy_sent y\<rparr>) k = handed y k"
    by (simp add: handed_def)
qed

end
