(* ===== verification/Reply_Guarantees.thy ===== *)
theory Reply_Guarantees
  imports Reply_Properties
begin

text \<open>
  What the notification replies guarantee: a reply is handed to the executor once however the bridge
  crashes, every accepted reply is found again after a restart, and a capability opens one session for a
  limited time.
\<close>

section \<open>Every reachable state\<close>

lemma system_goodI:
  assumes "store_good (handed y) (sy_pruned y) (sy_grants y) (sy_store y)" "\<And>k. handed y k \<le> Suc (sy_pruned y k)"
    "\<And>r. r \<in> set (sy_jobs y @ sy_sent y) \<Longrightarrow> granted_row (sy_grants y) r" "valid_grants l c (sy_grants y)"
  shows "system_good l c y"
  using assms by (auto simp: system_good_def)

lemma bounded_handed: "system_good l c y \<Longrightarrow> handed y k \<le> Suc (sy_pruned y k)"
  by (simp add: system_good_def)

lemma start_system_good: "reply_start y \<Longrightarrow> system_good l c y"
  by (auto simp: reply_start_def system_good_def store_good_def files_good_def rows_good_def keyed_def handed_def
                 valid_grants_def)

lemma enqueue_good:
  assumes "system_good l c y" "admit_reply l (Some c) now reg ctl verb header body = Inr q" "bearer_of header = Some token"
    "Enqueue_reply now' ids out (nq_ReplyID q) (nq_SessionID q) (nq_Content q) (sy_store y) = (res, s')"
  shows "system_good l c (y\<lparr>sy_store := s', sy_grants := insert (now, token, q) (sy_grants y),
           sy_pruned := pruned_between (rs_records (sy_store y)) (rs_records s') (sy_pruned y)\<rparr>)"
proof (rule system_goodI, simp_all)
  let ?G = "insert (now, token, q) (sy_grants y)"
  have hp: "handed y k \<le> Suc (sy_pruned y k)" for k using assms(1) by (rule bounded_handed)
  have "store_good (handed y) (sy_pruned y) ?G (sy_store y)"
    using assms(1) by (auto simp: system_good_def intro: store_good_weaken)
  moreover have "granted_row ?G (new_reply now' (nq_ReplyID q) (nq_SessionID q) (nq_Content q))"
    by (auto simp: granted_row_def new_reply_def)
  ultimately show "store_good (handed y) (pruned_between (rs_records (sy_store y)) (rs_records s') (sy_pruned y)) ?G s'"
    using hp assms(4) by (intro store_good_enqueue)
  show "handed y k \<le> Suc (pruned_between (rs_records (sy_store y)) (rs_records s') (sy_pruned y) k)" for k
    using hp [of k] by (simp add: pruned_between_def)
  show "granted_row ?G r" if "r \<in> set (sy_jobs y) \<or> r \<in> set (sy_sent y)" for r
    using assms(1) that granted_row_mono [of "sy_grants y" r ?G] by (auto simp: system_good_def)
  show "valid_grants l c ?G"
    using assms(1) admitted_reply [OF assms(2, 3)] by (simp add: system_good_def valid_grants_def)
qed

lemma claim_good:
  assumes "system_good l c y" "Claim_reply now out k (sy_store y) = ((Some r, True), s')"
  shows "system_good l c (y\<lparr>sy_store := s', sy_jobs := r # sy_jobs y\<rparr>)"
proof -
  have "store_good (handed y) (sy_pruned y) (sy_grants y) (sy_store y)" using assms(1) by (simp add: system_good_def)
  note claimed = store_good_claimed [OF this assms(2), of "Suc (handed y k)"]
  have id: "rp_ID r = k" using claimed by simp
  have "handed (y\<lparr>sy_store := s', sy_jobs := r # sy_jobs y\<rparr>) = (handed y)(k := Suc (handed y k))"
    using handed_claim [OF id, of y] by (simp add: handed_def fun_eq_iff)
  then show ?thesis using assms(1) claimed by (auto simp: system_good_def)
qed

lemma jobs_good:
  assumes "system_good l c y" "\<And>k. handed (y\<lparr>sy_jobs := js\<rparr>) k \<le> handed y k" "set js \<subseteq> set (sy_jobs y)"
  shows "system_good l c (y\<lparr>sy_jobs := js\<rparr>)"
proof (rule system_goodI, simp_all)
  show "store_good (handed (y\<lparr>sy_jobs := js\<rparr>)) (sy_pruned y) (sy_grants y) (sy_store y)"
    by (rule store_good_weaken [of "handed y"]) (use assms in \<open>auto simp: system_good_def\<close>)
  show "handed (y\<lparr>sy_jobs := js\<rparr>) k \<le> Suc (sy_pruned y k)" for k
    using assms(2) [of k] bounded_handed [OF assms(1), of k] by linarith
qed (use assms in \<open>auto simp: system_good_def\<close>)

lemma store_change_good:
  assumes "system_good l c y" "store_good (handed y) (sy_pruned y) (sy_grants y) s"
  shows "system_good l c (y\<lparr>sy_store := s\<rparr>)"
  using assms by (simp add: system_good_def)

lemma mark_good:
  assumes "system_good l c y"
  shows "system_good l c (y\<lparr>sy_store := MarkSent_reply now out k (sy_store y)\<rparr>)"
    "system_good l c (y\<lparr>sy_store := MarkFailed_reply now out k reason (sy_store y)\<rparr>)"
  using assms by (auto intro!: store_change_good store_good_marks simp: system_good_def)

lemma send_good:
  assumes "system_good l c y" "r \<in> set (sy_jobs y)"
  shows "system_good l c (y\<lparr>sy_jobs := remove1 r (sy_jobs y), sy_sent := r # sy_sent y\<rparr>)"
proof -
  have "set (remove1 r (sy_jobs y)) \<subseteq> set (sy_jobs y)" by (rule set_remove1_subset)
  then show ?thesis using assms by (auto simp: system_good_def handed_send)
qed

lemma restart_good:
  assumes "system_good l c y" "file_found (sy_store y) f"
    "s' = NewStore_replies True readable now ids out (rs_file f) (rs_older f)"
  shows "system_good l c (y\<lparr>sy_store := s', sy_jobs := [],
           sy_pruned := (if rs_loadErr s' then sy_pruned y else pruned_between (file_rows (rs_file f)) (rs_records s') (sy_pruned y))\<rparr>)"
    (is "system_good l c (y\<lparr>sy_store := s', sy_jobs := [], sy_pruned := ?p\<rparr>)")
proof (rule system_goodI)
  have less: "handed (y\<lparr>sy_jobs := []\<rparr>) k \<le> handed y k" for k by (simp add: handed_def)
  have hp: "handed (y\<lparr>sy_jobs := []\<rparr>) k \<le> Suc (sy_pruned y k)" for k
    using less [of k] bounded_handed [OF assms(1), of k] by linarith
  have "files_good (handed y) (sy_pruned y) (sy_grants y) (sy_store y)"
    using assms(1) by (simp add: system_good_def store_good_def)
  then have "files_good (handed (y\<lparr>sy_jobs := []\<rparr>)) (sy_pruned y) (sy_grants y) f"
    by (rule files_good_found [OF files_good_weaken assms(2)]) (use less in auto)
  then have good: "store_good (handed (y\<lparr>sy_jobs := []\<rparr>)) ?p (sy_grants y) s'"
    using hp assms(3) by (rule store_good_load)
  show "store_good (handed (y\<lparr>sy_store := s', sy_jobs := [], sy_pruned := ?p\<rparr>))
      (sy_pruned (y\<lparr>sy_store := s', sy_jobs := [], sy_pruned := ?p\<rparr>)) (sy_grants (y\<lparr>sy_store := s', sy_jobs := [], sy_pruned := ?p\<rparr>))
      (sy_store (y\<lparr>sy_store := s', sy_jobs := [], sy_pruned := ?p\<rparr>))"
    using good by simp
  show "handed (y\<lparr>sy_store := s', sy_jobs := [], sy_pruned := ?p\<rparr>) k
      \<le> Suc (sy_pruned (y\<lparr>sy_store := s', sy_jobs := [], sy_pruned := ?p\<rparr>) k)" for k
    using hp [of k] by (simp add: pruned_between_def)
qed (use assms(1) in \<open>auto simp: system_good_def\<close>)

lemma reply_step_good: "reply_step l c y z \<Longrightarrow> system_good l c y \<Longrightarrow> system_good l c z"
proof (induction rule: reply_step.induct)
  case (not_claimed now out k y res s')
  then show ?case by (auto intro!: store_change_good store_good_not_claimed [OF _ not_claimed(1)] simp: system_good_def)
next
  case (give_up r y now out reason)
  have "system_good l c (y\<lparr>sy_jobs := remove1 r (sy_jobs y)\<rparr>)"
    using give_up(2) handed_remove by (rule jobs_good) (rule set_remove1_subset)
  from mark_good(2) [OF this, of now out "rp_ID r" reason]
  have "system_good l c (y\<lparr>sy_jobs := remove1 r (sy_jobs y), sy_store := MarkFailed_reply now out (rp_ID r) reason (sy_store y)\<rparr>)"
    by simp
  moreover have "y\<lparr>sy_jobs := remove1 r (sy_jobs y), sy_store := MarkFailed_reply now out (rp_ID r) reason (sy_store y)\<rparr>
      = y\<lparr>sy_store := MarkFailed_reply now out (rp_ID r) reason (sy_store y), sy_jobs := remove1 r (sy_jobs y)\<rparr>" by simp
  ultimately show ?case by (simp only:)
next
  case (restart y f s' readable now ids out)
  then show ?case by (intro restart_good)
qed (simp_all add: enqueue_good claim_good send_good mark_good)

interpretation reply_run: step_system reply_start "reply_step l c" "system_good l c" for l c
  by unfold_locales (auto intro: start_system_good reply_step_good)

section \<open>The handler is a run\<close>

lemma run_from:
  "reply_step l c y w \<Longrightarrow> (reply_step l c)\<^sup>*\<^sup>* w z \<Longrightarrow> sy_store z = s \<Longrightarrow> \<exists>z. (reply_step l c)\<^sup>*\<^sup>* y z \<and> sy_store z = s"
  by (intro exI [of _ z] conjI) (rule converse_rtranclp_into_rtranclp)

lemma dispatch_is_run:
  assumes good: "system_good l c y"
    and run: "dispatchNotificationReply now out1 out2 reg ctl k (sy_store y) = (res, es, s')"
  shows "\<exists>z. (reply_step l c)\<^sup>*\<^sup>* y z \<and> sy_store z = s'"
proof -
  obtain q ok s1 where claim: "Claim_reply now out1 k (sy_store y) = ((q, ok), s1)" by (metis surjective_pairing)
  show ?thesis
  proof (cases ok)
    case False
    then have "reply_step l c y (y\<lparr>sy_store := s1\<rparr>)" using claim by (auto intro: reply_step.not_claimed)
    moreover have "s' = s1" using run claim False by (auto simp: dispatchNotificationReply_def split: option.splits)
    ultimately show ?thesis by (intro exI [of _ "y\<lparr>sy_store := s1\<rparr>"]) auto
  next
    case True
    then obtain r where q: "q = Some r" using claim by (cases q) (auto simp: Claim_reply_def Let_def split: option.splits if_splits prod.splits)
    let ?z = "y\<lparr>sy_store := s1, sy_jobs := r # sy_jobs y\<rparr>"
    have first: "reply_step l c y ?z" using claim True q by (auto intro: reply_step.claim)
    have "s' = s1 \<or> (\<exists>reason. s' = MarkFailed_reply now out2 k reason s1)"
      using run claim True q by (auto simp: dispatchNotificationReply_def Let_def split: option.splits if_splits)
    then show ?thesis
    proof
      assume "s' = s1"
      then show ?thesis using first by (intro exI [of _ ?z]) auto
    next
      assume "\<exists>reason. s' = MarkFailed_reply now out2 k reason s1"
      then obtain reason where s': "s' = MarkFailed_reply now out2 k reason s1" by blast
      have "store_good (handed y) (sy_pruned y) (sy_grants y) (sy_store y)" using good by (simp add: system_good_def)
      from store_good_claimed [OF this, of now out1 k r s1] have "rp_ID r = k" using claim True q by simp
      moreover have second: "reply_step l c ?z (?z\<lparr>sy_store := MarkFailed_reply now out2 (rp_ID r) reason (sy_store ?z), sy_jobs := remove1 r (sy_jobs ?z)\<rparr>)"
        by (rule reply_step.give_up) simp
      ultimately show ?thesis using s' by (intro run_from [OF first r_into_rtranclp [of "reply_step l c", OF second]]) simp
    qed
  qed
qed

lemma serve_is_run:
  assumes good: "system_good l c y"
    and serve: "ServeNotificationReplyAPI l (Some c) now ids out0 out1 out2 reg reg' ctl ctl' verb header body (sy_store y) = (resp, es, s')"
  shows "\<exists>z. (reply_step l c)\<^sup>*\<^sup>* y z \<and> sy_store z = s'"
proof (cases "admit_reply l (Some c) now reg ctl verb header body")
  case (Inl refusal)
  then show ?thesis using serve by (auto simp: ServeNotificationReplyAPI_def)
next
  case (Inr q)
  then obtain token where token: "bearer_of header = Some token"
    by (cases "bearer_of header") (auto simp: admit_reply_def Let_def split: if_splits option.splits)
  obtain res s1 where enq: "Enqueue_reply now ids out0 (nq_ReplyID q) (nq_SessionID q) (nq_Content q) (sy_store y) = (res, s1)"
    by fastforce
  let ?z = "y\<lparr>sy_store := s1, sy_grants := insert (now, token, q) (sy_grants y),
        sy_pruned := pruned_between (rs_records (sy_store y)) (rs_records s1) (sy_pruned y)\<rparr>"
  have first: "reply_step l c y ?z" using Inr token enq by (rule reply_step.enqueue)
  then have good': "system_good l c ?z" using good by (rule reply_step_good)
  have "s' = s1 \<or> (\<exists>d e. dispatchNotificationReply now out1 out2 reg' ctl' (nq_ReplyID q) s1 = (d, e, s'))"
    using serve Inr enq
    by (auto simp: ServeNotificationReplyAPI_def answer_stored_def Let_def
             split: sum.splits reply_error.splits prod.splits if_splits)
  then show ?thesis
  proof
    assume "s' = s1"
    then show ?thesis using first by (intro exI [of _ ?z]) auto
  next
    assume "\<exists>d e. dispatchNotificationReply now out1 out2 reg' ctl' (nq_ReplyID q) s1 = (d, e, s')"
    then obtain z where "(reply_step l c)\<^sup>*\<^sup>* ?z z" "sy_store z = s'"
      using dispatch_is_run [OF good', of now out1 out2 reg' ctl' "nq_ReplyID q"] by auto
    then show ?thesis by (rule run_from [OF first])
  qed
qed

lemma resume_is_run:
  "system_good l c y \<Longrightarrow> resume_from now outs reg ctl rs (sy_store y) = (es, s') \<Longrightarrow>
   \<exists>z. (reply_step l c)\<^sup>*\<^sup>* y z \<and> sy_store z = s'"
proof (induction rs arbitrary: y es s')
  case (Cons r rs)
  obtain d e s1 where head: "dispatchNotificationReply now (fst (outs (rp_ID r))) (snd (outs (rp_ID r))) reg ctl (rp_ID r) (sy_store y) = (d, e, s1)"
    by (metis surjective_pairing)
  then obtain z where z: "(reply_step l c)\<^sup>*\<^sup>* y z" "sy_store z = s1"
    using dispatch_is_run [OF Cons.prems(1)] by blast
  have "system_good l c z" using z(1) Cons.prems(1) by (rule reply_run.steps_good)
  moreover obtain es2 where "resume_from now outs reg ctl rs (sy_store z) = (es2, s')"
    using Cons.prems(2) head z(2) by (auto split: prod.splits)
  ultimately show ?case using Cons.IH z(1) by (meson rtranclp_trans)
qed auto

lemma turn_is_run:
  assumes "r \<in> set (sy_jobs y)" "run_reply_turn now out res qlen r (sy_store y) = (es, s')"
  shows "\<exists>z. (reply_step l c)\<^sup>*\<^sup>* y z \<and> sy_store z = s'"
proof -
  let ?w = "y\<lparr>sy_jobs := remove1 r (sy_jobs y), sy_sent := r # sy_sent y\<rparr>"
  have send: "reply_step l c y ?w" using assms(1) by (rule reply_step.send)
  show ?thesis
  proof (cases res)
    case SendAccepted
    have "reply_step l c ?w (?w\<lparr>sy_store := MarkSent_reply now out (rp_ID r) (sy_store ?w)\<rparr>)" by (rule reply_step.sent) simp
    then show ?thesis using assms(2) SendAccepted
      by (intro run_from [OF send r_into_rtranclp [of "reply_step l c"]]) (auto simp: run_reply_turn_def Let_def)
  next
    case (SendError active err)
    have "reply_step l c ?w (?w\<lparr>sy_store := MarkFailed_reply now out (rp_ID r) err (sy_store ?w)\<rparr>)" by (rule reply_step.failed) simp
    then show ?thesis using assms(2) SendError
      by (intro run_from [OF send r_into_rtranclp [of "reply_step l c"]]) (auto simp: run_reply_turn_def Let_def)
  qed
qed

section \<open>At most once\<close>

lemma not_open_not_claimed: "\<not> open_row (rs_records s) k \<Longrightarrow> \<not> snd (fst (Claim_reply now out k s))"
  by (auto simp: open_row_def Claim_reply_def split: option.splits)

lemma handed_not_open:
  assumes "system_good l c y" "sy_pruned y k < handed y k"
  shows "\<not> snd (fst (Claim_reply now out k (sy_store y)))"
proof (cases "rs_loadErr (sy_store y)")
  case True
  then show ?thesis by (simp add: Claim_reply_def split: option.splits)
next
  case False
  then have "open_row (rs_records (sy_store y)) k \<longrightarrow> handed y k \<le> sy_pruned y k"
    using assms(1) by (simp add: system_good_def store_good_def rows_good_def)
  then show ?thesis using assms(2) by (intro not_open_not_claimed) auto
qed


section \<open>Restart\<close>

lemma written_row_id: "rp_Error r = [] \<Longrightarrow> written_row r = r"
  by (simp add: written_row_def)

lemma created_reply:
  assumes "Enqueue_reply now ids out key sid content s = (Inr (r, True), s')" "rs_hasPath s" "keyed (rs_records s)"
  shows "r = new_reply now key sid content \<and> rs_records s' key = Some r
    \<and> rs_file s' = SnapshotFile (map_option written_row \<circ> rs_records s') \<and> rs_older s' = []
    \<and> (\<forall>k x. rs_records s' k = Some x \<longrightarrow> k = key \<or> rs_records s k = Some x)"
proof -
  let ?r = "new_reply now key sid content"
  let ?m = "(rs_records s)(key \<mapsto> ?r)"
  have r: "r = ?r" "save_replies out (s\<lparr>rs_records := snd (prune_replies now ids ?m)\<rparr>) = (True, s')"
    using assms(1) by (auto simp: Enqueue_reply_def Let_def split: option.splits if_splits prod.splits)
  have s': "rs_records s' = snd (prune_replies now ids ?m)"
    "rs_file s' = SnapshotFile (map_option written_row \<circ> rs_records s')" "rs_older s' = []"
    using r(2) assms(2) by (auto simp: save_replies_def Let_def split: save_outcome.splits)
  have key: "keyed ?m" using assms(3) by (simp add: keyed_def new_reply_def)
  have "rs_records s' key = Some r"
    unfolding s'(1) r(1) by (rule prune_keeps [OF key]) (simp_all add: new_reply_def terminal_reply_def reply_status_defs)
  moreover have "k = key \<or> rs_records s k = Some x" if "rs_records s' k = Some x" for k x
    using prune_row [OF key, of now ids k x] that s'(1) by (auto split: if_splits)
  ultimately show ?thesis using s' r(1) by simp
qed

text \<open>What a restart finds in a snapshot whose rows are valid.\<close>

lemma restarted_rows:
  assumes "\<And>k r. m k = Some r \<Longrightarrow> valid_row k r" "dom m \<subseteq> set ids"
    "t = NewStore_replies True True now ids out (SnapshotFile (map_option written_row \<circ> m)) older"
  shows "\<not> rs_loadErr t \<and> rs_records t = snd (prune_replies now ids (map_option (recover_row \<circ> written_row) \<circ> m))"
proof -
  have valid: "list_all (\<lambda>k. case map_option written_row (m k) of None \<Rightarrow> True | Some r \<Rightarrow> valid_row k r) ids"
    using assms(1) by (auto simp: list_all_iff valid_row_def written_row_def split: option.splits)
  have "map_option recover_row \<circ> (map_option written_row \<circ> m) = map_option (recover_row \<circ> written_row) \<circ> m"
    by (auto simp: fun_eq_iff option.map_comp)
  then show ?thesis
    using valid unfolding assms(3) NewStore_replies_def load_replies_def
    by (auto simp: save_replies_def Let_def split: save_outcome.splits)
qed

lemma recovered_keyed:
  assumes "\<And>k r. m k = Some r \<Longrightarrow> valid_row k r"
  shows "keyed (map_option (recover_row \<circ> written_row) \<circ> m)"
  using assms by (auto simp: keyed_def valid_row_def recover_row_def written_row_def split: if_splits)

lemma pending_rows:
  assumes "dom (rs_records t) \<subseteq> set ids"
  shows "x \<in> set (Pending_replies ids t) \<longleftrightarrow> (\<exists>k. rs_records t k = Some x \<and> rp_Status x = StatusPending)"
  using assms by (force simp: Pending_replies_def List.map_filter_def dom_def)

text \<open>
  C40. An accepted reply survives. When storing a reply reports that it was created, then a process that starts
  afterwards reads the store without an error, and the replies it resumes are exactly the waiting ones, in
  the order of their arrival, the new one among them; a reply that was on its way is kept as uncertain and
  not resumed.
\<close>

theorem accepted_reply_is_resumed:
  assumes "Enqueue_reply now ids out key sid content s = (Inr (r, True), s')" "rs_hasPath s"
    and "\<forall>k x. rs_records s k = Some x \<longrightarrow> valid_row k x" "key \<noteq> []" "sid \<noteq> []"
    and "dom (rs_records s') \<subseteq> set ids'"
    and t: "t = NewStore_replies True True now' ids' out' (rs_file s') (rs_older s')"
  shows "\<not> rs_loadErr t \<and> r \<in> set (Pending_replies ids' t) \<and> sorted (map rp_CreatedAt (Pending_replies ids' t))
    \<and> (\<forall>x. x \<in> set (Pending_replies ids' t) \<longleftrightarrow>
          (\<exists>k x0. rs_records s' k = Some x0 \<and> rp_Status x0 = StatusPending \<and> x = written_row x0))
    \<and> (\<forall>k x0. rs_records s' k = Some x0 \<and> rp_Status x0 = StatusDispatching \<longrightarrow>
          (\<exists>x. rs_records t k = Some x \<and> rp_Status x = StatusUncertain))"
proof -
  let ?m = "map_option (recover_row \<circ> written_row) \<circ> rs_records s'"
  have "keyed (rs_records s)" using assms(3) by (auto simp: keyed_def valid_row_def)
  note created = created_reply [OF assms(1, 2) this]
  have valid: "valid_row k x" if "rs_records s' k = Some x" for k x
  proof (cases "k = key")
    case True
    then have "x = new_reply now key sid content" using that created by auto
    then show ?thesis using True assms(4, 5) by (simp add: valid_row_def new_reply_def)
  next
    case False
    then show ?thesis using that created assms(3) by blast
  qed
  have key: "keyed ?m" using valid by (rule recovered_keyed)
  have t': "\<not> rs_loadErr t" "rs_records t = snd (prune_replies now' ids' ?m)"
    using restarted_rows [OF valid assms(6), of t now' out' "rs_older s'"] t created by auto
  have dom: "dom (rs_records t) \<subseteq> set ids'"
    using assms(6) prune_row [OF key] by (fastforce simp: t'(2))
  have pending: "x \<in> set (Pending_replies ids' t) \<longleftrightarrow>
      (\<exists>k x0. rs_records s' k = Some x0 \<and> rp_Status x0 = StatusPending \<and> x = written_row x0)" for x
  proof
    assume "x \<in> set (Pending_replies ids' t)"
    then obtain k where "rs_records t k = Some x" "rp_Status x = StatusPending" using pending_rows [OF dom] by blast
    then have k: "?m k = Some x" "rp_Status x = StatusPending" using prune_row [OF key] t'(2) by simp_all
    then obtain x0 where "rs_records s' k = Some x0" "x = recover_row (written_row x0)" by auto
    moreover from this k(2) have "x = written_row x0" "rp_Status x0 = StatusPending"
      by (auto simp: recover_row_def written_row_def reply_status_defs split: if_splits)
    ultimately show "\<exists>k x0. rs_records s' k = Some x0 \<and> rp_Status x0 = StatusPending \<and> x = written_row x0" by blast
  next
    assume "\<exists>k x0. rs_records s' k = Some x0 \<and> rp_Status x0 = StatusPending \<and> x = written_row x0"
    then obtain k x0 where k: "rs_records s' k = Some x0" "rp_Status x0 = StatusPending" "x = written_row x0" by blast
    then have "rp_Status x = StatusPending" "?m k = Some x"
      by (auto simp: recover_row_def written_row_def reply_status_defs)
    then have "rs_records t k = Some x" unfolding t'(2)
      by (intro prune_keeps [OF key]) (auto simp: terminal_reply_def reply_status_defs)
    then show "x \<in> set (Pending_replies ids' t)" using \<open>rp_Status x = StatusPending\<close> pending_rows [OF dom] by blast
  qed
  have "\<exists>x. rs_records t k = Some x \<and> rp_Status x = StatusUncertain"
    if "rs_records s' k = Some x0" "rp_Status x0 = StatusDispatching" for k x0
  proof -
    have "rs_records t k = Some (recover_row (written_row x0))" unfolding t'(2)
      using that by (intro prune_keeps [OF key]) (auto simp: terminal_reply_def recover_row_def written_row_def reply_status_defs)
    then show ?thesis using that(2) by (auto simp: recover_row_def written_row_def reply_status_defs)
  qed
  moreover have "r \<in> set (Pending_replies ids' t)"
    unfolding pending using created by (intro exI [of _ key] exI [of _ r]) (auto simp: new_reply_def written_row_id)
  moreover have "sorted (map rp_CreatedAt (Pending_replies ids' t))" by (simp add: Pending_replies_def)
  ultimately show ?thesis using t'(1) pending by blast
qed

section \<open>Capabilities\<close>

lemma validate_issued:
  assumes "lib_marshal l v \<noteq> []" "lib_hmac l (cap_secret c) e \<noteq> []" "e = raw_url_encode (lib_marshal l v)"
    "lib_unmarshal l (lib_marshal l v) = Some v"
  shows "Validate l c' now (e @ ''.'' @ raw_url_encode (lib_hmac l (cap_secret c) e)) sid =
    (if lib_hmac l (cap_secret c) e \<noteq> lib_hmac l (cap_secret c') e then Some ErrInvalidCapability
     else if cl_InstanceID v \<noteq> cap_instanceID c' \<or> cl_SessionID v \<noteq> sid \<or> cl_ExpiresAt v \<le> 0 then Some ErrInvalidCapability
     else if now > cl_ExpiresAt v then Some ErrExpiredCapability else None)"
proof -
  let ?sig = "raw_url_encode (lib_hmac l (cap_secret c) e)"
  have nonempty: "raw_url_encode x \<noteq> []" if "x \<noteq> []" for x
    using that by (auto simp: raw_url_encode_def elim: b64_groups.elims)
  have "split_at CHR ''.'' (e @ ''.'' @ ?sig) = [e, ?sig]"
    using split_once [of "CHR ''.''" e ?sig] encode_no_dot by (simp add: assms(3))
  moreover have "e \<noteq> []" "?sig \<noteq> []" using nonempty assms by auto
  ultimately show ?thesis
    using assms(4) by (simp add: Validate_def validate_claims_def assms(3))
qed

text \<open>
  A capability opens one session for a limited time. The issued token is valid for its session exactly until
  it expires, is refused as expired from then on, and whoever accepts it for anything (after a restart, in
  another bridge, for another session) has the same instance, the same session and a secret under which the
  claims have the same signature.
\<close>

theorem capability_opens_one_session:
  assumes "Issue l c now_ns sid ttl_ns = (token, expires)" "sid \<noteq> []" "0 < ttl_ns" "0 < expires"
    and v: "v = \<lparr>cl_InstanceID = cap_instanceID c, cl_SessionID = sid, cl_ExpiresAt = expires\<rparr>"
    and "lib_unmarshal l (lib_marshal l v) = Some v" "lib_marshal l v \<noteq> []"
    and "lib_hmac l (cap_secret c) (raw_url_encode (lib_marshal l v)) \<noteq> []"
  shows "Validate l c now token sid = (if now \<le> expires then None else Some ErrExpiredCapability)
    \<and> expires = (now_ns + ttl_ns) div 1000000
    \<and> (Validate l c' now token sid' = None \<longrightarrow>
        sid' = sid \<and> cap_instanceID c' = cap_instanceID c \<and> now \<le> expires
        \<and> lib_hmac l (cap_secret c') (raw_url_encode (lib_marshal l v)) = lib_hmac l (cap_secret c) (raw_url_encode (lib_marshal l v)))"
proof -
  let ?e = "raw_url_encode (lib_marshal l v)"
  have issued: "expires = (now_ns + ttl_ns) div 1000000" "token = ?e @ ''.'' @ raw_url_encode (lib_hmac l (cap_secret c) ?e)"
    using assms(1-3) by (auto simp: Issue_def Let_def v)
  note val = validate_issued [OF assms(7, 8) refl assms(6), folded issued(2)]
  have fields: "cl_InstanceID v = cap_instanceID c" "cl_SessionID v = sid" "cl_ExpiresAt v = expires" by (simp_all add: v)
  show ?thesis unfolding val fields using assms(4) issued(1) by simp
qed

section \<open>Examples\<close>

definition sample_claims :: claims where
  "sample_claims = \<lparr>cl_InstanceID = ''b'', cl_SessionID = ''s'', cl_ExpiresAt = 60\<rparr>"

definition sample_reply_lib :: capability_lib where
  "sample_reply_lib = \<lparr>lib_marshal = \<lambda>_. ''c'', lib_unmarshal = \<lambda>_. Some sample_claims, lib_hmac = \<lambda>k _. k\<rparr>"

definition sample_caps :: Capabilities where
  "sample_caps = \<lparr>cap_secret = ''k'', cap_instanceID = ''b''\<rparr>"

lemma sample_encodings: "raw_url_encode ''c'' = ''Yw''" "raw_url_encode ''k'' = ''aw''"
  by (simp_all add: raw_url_encode_def b64_char_def b64_alphabet_def)

theorem capability_opens_one_session_witness:
  "Issue sample_reply_lib sample_caps 0 ''s'' 60000000 = (''Yw.aw'', 60)
   \<and> Validate sample_reply_lib sample_caps 60 ''Yw.aw'' ''s'' = None
   \<and> Validate sample_reply_lib sample_caps 61 ''Yw.aw'' ''s'' = Some ErrExpiredCapability
   \<and> Validate sample_reply_lib sample_caps 60 ''Yw.aw'' ''x'' \<noteq> None"
proof -
  have issue: "Issue sample_reply_lib sample_caps 0 ''s'' 60000000 = (''Yw.aw'', 60)"
    by (simp add: Issue_def sample_reply_lib_def sample_caps_def sample_encodings)
  have "\<lparr>cl_InstanceID = cap_instanceID sample_caps, cl_SessionID = ''s'', cl_ExpiresAt = 60\<rparr> = sample_claims"
    by (simp add: sample_caps_def sample_claims_def)
  then show ?thesis
    using capability_opens_one_session [OF issue _ _ _ refl, where now = 60 and sid' = "''x''" and c' = sample_caps]
      capability_opens_one_session [OF issue _ _ _ refl, where now = 61] issue
    by (auto simp: sample_reply_lib_def sample_caps_def)
qed

definition no_replies :: reply_store where
  "no_replies = \<lparr>rs_hasPath = True, rs_records = Map.empty, rs_loadErr = False, rs_file = MissingFile, rs_older = []\<rparr>"

abbreviation sample_row :: reply_record where
  "sample_row \<equiv> new_reply 1 ''r'' ''s'' ''hi''"

definition one_reply :: reply_store where
  "one_reply = no_replies\<lparr>rs_records := [''r'' \<mapsto> sample_row], rs_file := SnapshotFile [''r'' \<mapsto> sample_row]\<rparr>"

lemma sample_prune: "prune_replies now [''r''] [''r'' \<mapsto> sample_row] = ([], [''r'' \<mapsto> sample_row])"
  by (auto simp: prune_replies_def expired_replies_def excess_replies_def drop_keys_def maxReplyRecords_def Let_def
                 new_reply_def terminal_reply_def reply_status_defs fun_eq_iff)

lemma sample_enqueue:
  "Enqueue_reply 1 [''r''] SaveSynced ''r'' ''s'' ''hi'' no_replies = (Inr (sample_row, True), one_reply)"
proof -
  have "map_option written_row \<circ> [''r'' \<mapsto> sample_row] = [''r'' \<mapsto> sample_row]"
    by (auto simp: fun_eq_iff written_row_def new_reply_def)
  then show ?thesis
    by (simp add: Enqueue_reply_def no_replies_def sample_prune save_replies_def one_reply_def Let_def)
qed

theorem accepted_reply_is_resumed_witness:
  "sample_row \<in> set (Pending_replies [''r''] (NewStore_replies True True 2 [''r''] SaveFailed (rs_file one_reply) (rs_older one_reply)))"
  using accepted_reply_is_resumed [OF sample_enqueue _ _ _ _ _ refl, where now' = 2 and ids' = "[''r'']" and out' = SaveFailed]
  by (simp add: no_replies_def one_reply_def new_reply_def written_row_def)

definition sample_request :: notificationReplyRequest where
  "sample_request = \<lparr>nq_ReplyID = ''r'', nq_SessionID = ''s'', nq_Content = ''hi''\<rparr>"

definition idle_session :: session_view where
  "idle_session = \<lparr>sv_Idle = True, sv_QueueLen = 0, sv_Accepts = True, sv_QueueLenAfter = 0\<rparr>"

definition no_system :: reply_system where
  "no_system = \<lparr>sy_store = no_replies, sy_jobs = [], sy_sent = [], sy_pruned = \<lambda>_. 0, sy_grants = {}\<rparr>"

lemma sample_bearer: "bearer_of ''Reply Yw.aw'' = Some ''Yw.aw''"
  by (simp add: bearer_of_def trim_eval bit_Suc_0_iff)

lemma sample_validate: "Validate sample_reply_lib sample_caps 1 ''Yw.aw'' ''s'' = None"
  by (simp add: Validate_def validate_claims_def raw_url_decode_def b64_alphabet_def sample_reply_lib_def sample_caps_def
                sample_claims_def char_of_def bit_Suc_0_iff)

lemma sample_trimmed: "trimmed_reply sample_request = sample_request"
  by (simp add: trimmed_reply_def sample_request_def trim_eval bit_Suc_0_iff)

lemma sample_bounded: "bounded_input sample_request"
  by (simp add: bounded_input_def sample_request_def rune_count.simps rune_len_def rune_bytes_def notificationReplyMaxRunes_def)

lemma sample_admitted:
  "admit_reply sample_reply_lib (Some sample_caps) 1 (\<lambda>_. Some idle_session) (NewSessionControlStore False None) ''POST''
     ''Reply Yw.aw'' (Some sample_request) = Inr sample_request"
proof -
  have "MobileMayWrite ''s'' (NewSessionControlStore False None)"
    by (simp add: MobileMayWrite_def Get_control_def NewSessionControlStore_def zero_control_def ControlMobile_def ControlDesktop_def
                  ControlActive_def ControlPending_def)
  moreover have "nq_SessionID sample_request = ''s''" by (simp add: sample_request_def)
  ultimately show ?thesis
    by (simp add: admit_reply_def sample_trimmed sample_bounded sample_bearer sample_validate)
qed


end
