(* ===== verification/Spec2Isabelle.thy ===== *)
theory Spec2Isabelle
  imports Registry_System Replay_Properties Runtime_Restart Access_Properties Permission_Properties
    Control_Properties Goal_Properties Failure_Recovery Task_Events Message_Guarantees
    Session_Identity Dispatch_Properties Callback_Pages Inbox_Guarantees
    Interaction_Guarantees Delegation_Guarantees Reply_Guarantees
begin

text \<open>
  A verification of the Everything bridge (\<^verbatim>\<open>averything-bridge\<close>), a daemon that connects phones
  and desktops to coding agents that run on the same machine.

  \<^bold>\<open>The program.\<close> A client sends a command to the hub (\<^verbatim>\<open>internal/core\<close>); the hub submits turns
  to a session (\<^verbatim>\<open>internal/session\<close>), whose single worker hands them to an executor; the events
  of a turn go to the connected clients or into the offline journal
  (\<^verbatim>\<open>internal/governance/offline.go\<close>), from which a reconnecting client is served
  (\<^verbatim>\<open>internal/core/replay.go\<close>). The lifecycle of every session, its results and what each device
  has read are kept by the runtime journal (\<^verbatim>\<open>internal/runtimejournal\<close>). Governance decides who
  may connect, what needs an approval and who writes to a session (\<^verbatim>\<open>internal/governance\<close>), and
  the recovery policy (\<^verbatim>\<open>internal/recovery\<close>) decides what a failed turn allows. Work that
  must survive a restart goes through durable stores: the message queue
  (\<^verbatim>\<open>internal/messagequeue\<close>) accepts a message once and hands it to a provider at most once,
  and the task interface (\<^verbatim>\<open>internal/taskapi\<close>) records intents and outcomes and publishes
  changes that clients follow with signed cursors. Sessions give work to each other
  (\<^verbatim>\<open>internal/delegation\<close>, \<^verbatim>\<open>internal/sessiondispatch\<close>), ask back
  (\<^verbatim>\<open>internal/taskinteraction\<close>) and report to a person (\<^verbatim>\<open>internal/callbacks\<close>); events of
  other services arrive in \<^verbatim>\<open>internal/eventinbox\<close>, and replies typed into a notification in
  \<^verbatim>\<open>internal/notificationreply\<close>.

  \<^bold>\<open>How the code is modelled.\<close> A Go struct is a record, an enumeration a datatype, a map an association
  list or a partial map, \<^verbatim>\<open>uint64\<close> a natural number that wraps at $2^{64}$ (\<open>u64_succ\<close>), a
  byte string a \<open>string\<close>. An operation is a function from the state to a result and the next state;
  one critical section is one step, so concurrency is the interleaving of steps. The clock, random
  values and the outcome of every file operation are arguments. Files are part of the state: a write
  replaces the content or fails, and where the code distinguishes them, a snapshot that was only
  written is told from one that was synced. Loops are structural recursion or folds; the only fuel is
  that of \<open>trim_prefixes\<close> and of the replay rounds, and \<open>trim_prefixes_done\<close> and
  \<open>replay_delivers_everything\<close> show that the fuel given is enough.

  \<^bold>\<open>The theories.\<close>

  \<^item> \<open>Bridge_Prelude\<close>: counters, strings, list operations, and the interfaces: \<open>step_system\<close> (an
    invariant of all reachable states), \<open>monotone_system\<close> (a measure that never goes back) and
    \<open>refinement\<close> (an implementation of an abstract machine). Each is interpreted on the models below.
  \<^item> \<open>Json_Values\<close>: what the stores use of \<^verbatim>\<open>encoding/json\<close>, with UTF-8 repair.
  \<^item> \<open>Session_State\<close>, \<open>Turn_Queue\<close>: the session and its single-flight queue (the sessions of
    \<^verbatim>\<open>registry.go\<close>, \<^verbatim>\<open>turn.go\<close>, \<^verbatim>\<open>configuration.go\<close>), the worker
    goroutine as a program counter. \<open>Turn_Invariant\<close> proves the invariant of every operation and of
    every worker step; \<open>Turn_Properties\<close> proves that turns never overlap, start at the head, never
    panic, that holds are accounted for, that a waiting turn can start and that closing is final.
  \<^item> \<open>Session_Store\<close>, \<open>Session_Registry\<close>: \<^verbatim>\<open>store.go\<close> and the registry operations.
    \<open>Registry_Properties\<close>: the canonical rows, restart, rename, preview, foreign rows, and the loss of
    a deletion after a failed save. \<open>Registry_System\<close>: discovery, resume chains, and the queue
    invariant for every session of every reachable registry.
  \<^item> \<open>Offline_Buffer\<close>: the offline journal and the replay lease. \<open>Offline_Properties\<close>: what the journal
    keeps, its bounds, the completeness of streamed text. \<open>Replay_Properties\<close>: replay delivers
    everything once, and the race in which it does not.
  \<^item> \<open>Runtime_Journal\<close> (\<^verbatim>\<open>store.go\<close>, \<^verbatim>\<open>interactions.go\<close>, \<^verbatim>\<open>stop.go\<close>) and
    \<open>Runtime_Shared\<close> (\<^verbatim>\<open>shared_reads.go\<close>, \<^verbatim>\<open>source_epoch.go\<close>). \<open>Runtime_Properties\<close>
    and \<open>Runtime_Behaviour\<close>: revisions, ledger, cursors, progress and interactions.
    \<open>Runtime_Durability\<close>: the marks that remember what reached the disk are truthful, so an accepted
    shared read survives a crash and a loss of power. \<open>Runtime_Restart\<close>: recovery of stale turns, read
    boundaries, and the gap the cursor log leaves after a crash.
  \<^item> \<open>Access_Control\<close> (\<^verbatim>\<open>pairing.go\<close>, \<^verbatim>\<open>permission.go\<close>,
    \<^verbatim>\<open>session_control.go\<close>) with \<open>Access_Properties\<close> (one device per enrollment window,
    restart), \<open>Permission_Properties\<close> (a prompt is decided once, by its owner, in every interleaving)
    and \<open>Control_Properties\<close> (refinement of the handoff machine).
  \<^item> \<open>Goal_State\<close>, \<open>Goal_Properties\<close> (\<^verbatim>\<open>goals.go\<close>): the goal snapshot equals the one
    computed from each session's own events.
  \<^item> \<open>Failure_Recovery\<close> (\<^verbatim>\<open>internal/recovery\<close>): classification of failures and the replay
    policy; a replay needs a verified rejection.
  \<^item> \<open>Task_Journal\<close> (\<^verbatim>\<open>internal/taskapi/journal.go\<close>): intents, outbox, changes, frozen pages
    and retention as tables. \<open>Journal_Properties\<close>: a cursor misses no change. \<open>Base64_Url\<close> and
    \<open>Task_Snapshots\<close> (\<^verbatim>\<open>cursor.go\<close> and the snapshot source of \<^verbatim>\<open>internal/core\<close>):
    signed cursors and pages; \<open>Snapshot_Properties\<close> states the contract of a snapshot source as the
    locale \<open>frozen_source\<close>, proves a client that follows cursors against it and interprets it on the
    hub. \<open>Task_Events\<close>: the event feed over all stores.
  \<^item> \<open>Message_Queue\<close>, \<open>Message_Evidence\<close> (\<^verbatim>\<open>internal/messagequeue\<close>): the message table, its
    leases, acceptance, cancellation and recovery, and the evidence a provider gives for a message.
    \<open>Message_Properties\<close> proves that each operation only moves a row along the permitted transitions;
    \<open>Message_Guarantees\<close> lifts this to runs: a message is accepted once, a rejection is final, a
    message of unknown fate is never sent again, evidence is immutable, changes are announced.
  \<^item> \<open>Session_Identity\<close> (\<^verbatim>\<open>internal/identity\<close>): session keys and their parser.
    \<open>Session_Dispatch\<close> (\<^verbatim>\<open>internal/sessiondispatch\<close>): grants and the receipts of work one
    session gives to another. \<open>Dispatch_Properties\<close>: a call has one receipt, an outcome is final, and
    the unsettled dispatches of a controller are limited.
  \<^item> \<open>Task_Callbacks\<close> (\<^verbatim>\<open>internal/callbacks\<close>): reports, invitations to a call, and the groups that
    share a delivery. \<open>Callback_Mutations\<close>: every mutation the hub runs in this store.
    \<open>Callback_Properties\<close>: one automatic call per delivery, no second attempt, one claim.
    \<open>Callback_Pages\<close>: paging through the active invitations is complete.
  \<^item> \<open>Event_Inbox\<close> (\<^verbatim>\<open>internal/eventinbox\<close>): external events, device states, attachment leases and
    source checkpoints. \<open>Inbox_Properties\<close>: the invariant of every operation. \<open>Inbox_Guarantees\<close>: an
    event is recorded once, a batch is applied once, the bounds, and two failures of the code.
  \<^item> \<open>Task_Interactions\<close> (\<^verbatim>\<open>internal/taskinteraction\<close> and the changes \<^verbatim>\<open>internal/core\<close> makes
    with it): the questions a session asks its parent. \<open>Interaction_Properties\<close>: the invariant of every
    operation. \<open>Interaction_Guarantees\<close>: an answer is reserved once, a command to another instance is sent
    once, the scheduler looks at every question, and the resolution that is lost.
  \<^item> \<open>Delegation\<close>, \<open>Delegation_Rounds\<close> (\<^verbatim>\<open>internal/delegation\<close>): admission under the limits of a
    parent, promotion, execution, delivery and cancellation; rounds, reviews, commands and epochs.
    \<open>Delegation_Properties\<close> sorts every step into a quiet one, a promotion or an admission and proves the
    invariant for the three kinds; \<open>Delegation_Guarantees\<close>: the limits, the order of promotion, final
    results and the chain of rounds.
  \<^item> \<open>Notification_Replies\<close> (\<^verbatim>\<open>internal/notificationreply\<close>, \<^verbatim>\<open>internal/core/notification_reply.go\<close>):
    signed reply capabilities, the durable store of replies and the handler. \<open>Reply_Properties\<close>: pruning and
    the invariant of every critical section, with crashes and losses of power as steps. \<open>Reply_Guarantees\<close>:
    the handler is a run of these steps, a reply is sent once, an accepted one is resumed, a capability
    opens one session.

  \<^bold>\<open>Assumptions.\<close> What is encoded is decoded again; a random epoch or request identifier is one that
  was not used before (\<open>fresh_epochs\<close>, \<open>unmet\<close>, \<open>permission_run\<close>); a revision counter does not reach
  $2^{64}$ (\<open>room\<close>); a digest of boundaries is injective where a token must identify one
  (\<open>shared_read_is_bound\<close>); the digest of a delivery determines its session (\<open>session_in_key\<close>); a store
  has room for another revision (\<open>cb_room\<close>). Parsers and digests the stores only call are parameters
  (\<open>inbox_lib\<close>, \<open>capability_lib\<close>, \<open>protocol_state\<close>, the digest \<open>Hash\<close>). Each is a named hypothesis of the statements that use it.

  \<^bold>\<open>Not modelled.\<close> The transports and the wiring in \<^verbatim>\<open>internal/core\<close>, the executors and their
  child processes, the media, voice, LINE and push services, which are I/O around the stores; the
  SQLite-backed work items, workspace and collaboration stores; logging and timers other than those
  that change state.
\<close>

end
